(* ===== verification/Base.thy ===== *)
theory Base
  imports Main "HOL-Library.Word"
begin

unbundle bit_operations_syntax

text \<open>
  The prelude of the development: the types shared by every component (bytes, Go's fixed-width
  integers, Go errors with their chains), the combinators for functions that return a value or an
  error, Go slicing, and the big- and little-endian codecs of \<open>encoding/binary\<close>.

  A Go function returning \<open>(T, error)\<close> is modelled as \<open>goerr + T\<close> with \<open>Inl\<close> for the error. Where
  the code could panic (slicing out of range) the model returns an \<open>option\<close>, with \<open>None\<close> for the
  panic, and a lemma shows which inputs avoid it.
\<close>

type_synonym byte = "8 word"
type_synonym bytes = "byte list"
type_synonym u16 = "16 word"
type_synonym u32 = "32 word"
type_synonym u64 = "64 word"

named_theorems err_simps \<open>rules for the error combinators\<close>
named_theorems codec_simps \<open>lengths and round trips of byte codecs\<close>

section \<open>Go errors\<close>

text \<open>
  An error value keeps what the code can observe of it: the chain that \<open>errors.Is\<close> and
  \<open>errors.As\<close> walk. \<open>Sentinel\<close> is a package variable such as \<open>io.EOF\<close>; \<open>Extern\<close> is an error
  handed over by code outside the repository, with its text and, if it is a \<open>net.Error\<close>, what its
  \<open>Timeout()\<close> says; \<open>Errorf\<close> is \<open>errors.New\<close> or \<open>fmt.Errorf\<close> without \<open>%w\<close> (format and
  arguments); \<open>Wrapf\<close> is \<open>fmt.Errorf\<close> with one \<open>%w\<close>; \<open>Join\<close> is \<open>errors.Join\<close> of two errors, whose
  trees are searched left to right.
\<close>

datatype arg = VNat nat | VInt int | VStr string | VBytes bytes

datatype goerr =
    Sentinel string
  | Extern string "bool option"
  | Errorf string "arg list"
  | Wrapf string "arg list" goerr
  | Join goerr goerr

definition EOF :: goerr where "EOF = Sentinel ''EOF''"
definition ErrUnexpectedEOF :: goerr where "ErrUnexpectedEOF = Sentinel ''unexpected EOF''"
definition ErrShortWrite :: goerr where "ErrShortWrite = Sentinel ''short write''"
definition DeadlineExceeded :: goerr where
  "DeadlineExceeded = Sentinel ''context deadline exceeded''"
definition Canceled :: goerr where "Canceled = Sentinel ''context canceled''"

lemmas sentinel_defs =
  EOF_def ErrUnexpectedEOF_def ErrShortWrite_def DeadlineExceeded_def Canceled_def

lemma sentinels_distinct [simp]:
  "EOF \<noteq> ErrUnexpectedEOF" "ErrUnexpectedEOF \<noteq> EOF" "EOF \<noteq> ErrShortWrite" "ErrShortWrite \<noteq> EOF"
  "Errorf f a \<noteq> EOF" "EOF \<noteq> Errorf f a" "Wrapf f a e \<noteq> EOF" "EOF \<noteq> Wrapf f a e"
  by (simp_all add: sentinel_defs)

fun errors_is :: "goerr \<Rightarrow> goerr \<Rightarrow> bool" where
  "errors_is (Wrapf f a e) t = (Wrapf f a e = t \<or> errors_is e t)"
| "errors_is (Join d e) t = (Join d e = t \<or> errors_is d t \<or> errors_is e t)"
| "errors_is e t = (e = t)"

text \<open>The first \<open>net.Error\<close> that \<open>errors.As\<close> finds, as its \<open>Timeout()\<close>; the search stops there.\<close>

fun net_error :: "goerr \<Rightarrow> bool option" where
  "net_error (Wrapf f a e) = net_error e"
| "net_error (Join d e) = (case net_error d of None \<Rightarrow> net_error e | Some b \<Rightarrow> Some b)"
| "net_error (Extern s n) = n"
| "net_error (Sentinel s) = (if s = ''context deadline exceeded'' then Some True else None)"
| "net_error (Errorf f a) = None"

definition is_timeout :: "goerr \<Rightarrow> bool" where
  "is_timeout e = (net_error e = Some True)"

lemma is_timeout_simps [simp]:
  "is_timeout (Wrapf f a e) = is_timeout e" "is_timeout (Extern s n) = (n = Some True)"
  "is_timeout (Sentinel s) = (s = ''context deadline exceeded'')" "\<not> is_timeout (Errorf f a)"
  by (simp_all add: is_timeout_def)

lemma errors_is_EOF [simp]:
  "errors_is EOF EOF" "\<not> errors_is ErrUnexpectedEOF EOF" "\<not> errors_is (Errorf f a) EOF"
  "errors_is (Wrapf f a e) EOF = errors_is e EOF"
  by (simp_all add: sentinel_defs)

lemma not_timeout_simps [simp]: "\<not> is_timeout EOF" "\<not> is_timeout ErrUnexpectedEOF"
  by (simp_all add: sentinel_defs)

section \<open>Values or errors\<close>

definition err_bind :: "'e + 'a \<Rightarrow> ('a \<Rightarrow> 'e + 'b) \<Rightarrow> 'e + 'b" where
  "err_bind m f = (case m of Inl e \<Rightarrow> Inl e | Inr x \<Rightarrow> f x)"

text \<open>\<open>wrap_err f a m\<close> is \<open>if err != nil { return fmt.Errorf(f, a..., err) }\<close>.\<close>

definition wrap_err :: "string \<Rightarrow> arg list \<Rightarrow> goerr + 'a \<Rightarrow> goerr + 'a" where
  "wrap_err f a m = (case m of Inl e \<Rightarrow> Inl (Wrapf f a e) | Inr x \<Rightarrow> Inr x)"

text \<open>\<open>to_err\<close> reads a Go \<open>error\<close> result that carries no value.\<close>

definition to_err :: "goerr option \<Rightarrow> goerr + unit" where
  "to_err r = (case r of None \<Rightarrow> Inr () | Some e \<Rightarrow> Inl e)"

lemma err_bind_simps [simp, err_simps]:
  "err_bind (Inl e) f = Inl e" "err_bind (Inr x) f = f x"
  by (simp_all add: err_bind_def)

lemma wrap_err_simps [simp, err_simps]:
  "wrap_err g a (Inl e) = Inl (Wrapf g a e)" "wrap_err g a (Inr x) = Inr x"
  by (simp_all add: wrap_err_def)

lemma to_err_simps [simp, err_simps]: "to_err None = Inr ()" "to_err (Some e) = Inl e"
  by (simp_all add: to_err_def)

lemma err_bind_Inr_iff [err_simps]: "err_bind m f = Inr y \<longleftrightarrow> (\<exists>x. m = Inr x \<and> f x = Inr y)"
  by (cases m) auto

lemma err_bind_Inl_iff: "err_bind m f = Inl e \<longleftrightarrow> m = Inl e \<or> (\<exists>x. m = Inr x \<and> f x = Inl e)"
  by (cases m) auto

lemma isl_err_bind: "isl m \<Longrightarrow> isl (err_bind m f)"
  by (cases m) simp_all

lemma wrap_err_Inr_iff [err_simps, simp]: "wrap_err g a m = Inr y \<longleftrightarrow> m = Inr y"
  by (cases m) auto

lemma to_err_Inr_iff [err_simps, simp]: "to_err r = Inr u \<longleftrightarrow> r = None"
  by (cases r) auto

lemma if_Inl_eq_Inr [err_simps]: "(if b then Inl e else m) = Inr y \<longleftrightarrow> \<not> b \<and> m = Inr y"
  by simp

section \<open>Slices\<close>

text \<open>\<open>slice lo hi xs\<close> is Go's \<open>xs[lo:hi]\<close>; it panics (\<open>None\<close>) outside the bounds.\<close>

definition slice :: "nat \<Rightarrow> nat \<Rightarrow> 'a list \<Rightarrow> 'a list option" where
  "slice lo hi xs = (if lo \<le> hi \<and> hi \<le> length xs then Some (take (hi - lo) (drop lo xs)) else None)"

definition index :: "nat \<Rightarrow> 'a list \<Rightarrow> 'a option" where
  "index i xs = (if i < length xs then Some (xs ! i) else None)"

lemma slice_Some [simp]:
  "lo \<le> hi \<Longrightarrow> hi \<le> length xs \<Longrightarrow> slice lo hi xs = Some (take (hi - lo) (drop lo xs))"
  by (simp add: slice_def)

lemma index_Some [simp]: "i < length xs \<Longrightarrow> index i xs = Some (xs ! i)"
  by (simp add: index_def)

section \<open>Endian codecs of encoding/binary\<close>

fun le_bytes :: "nat \<Rightarrow> 'a::len word \<Rightarrow> bytes" where
  "le_bytes 0 w = []"
| "le_bytes (Suc n) w = ucast w # le_bytes n (drop_bit 8 w)"

fun le_val :: "bytes \<Rightarrow> 'a::len word" where
  "le_val [] = 0"
| "le_val (b # bs) = (ucast b OR push_bit 8 (le_val bs))"

definition be_bytes :: "nat \<Rightarrow> 'a::len word \<Rightarrow> bytes" where
  "be_bytes n w = rev (le_bytes n w)"

definition be_val :: "bytes \<Rightarrow> 'a::len word" where
  "be_val bs = le_val (rev bs)"

lemma length_le_bytes [simp, codec_simps]: "length (le_bytes n w) = n"
  by (induction n arbitrary: w) auto

lemma length_be_bytes [simp, codec_simps]: "length (be_bytes n w) = n"
  by (simp add: be_bytes_def)

text \<open>For evaluating at a literal width.\<close>

lemma le_bytes_numeral: "le_bytes (numeral k) w = ucast w # le_bytes (pred_numeral k) (drop_bit 8 w)"
  by (simp add: numeral_eq_Suc)

lemma bit_le_val:
  "bit (le_val bs :: 'a::len word) i \<longleftrightarrow>
     i < LENGTH('a) \<and> i div 8 < length bs \<and> bit (bs ! (i div 8)) (i mod 8)"
proof (induction bs arbitrary: i)
  case Nil
  then show ?case by simp
next
  case (Cons b bs)
  show ?case
  proof (cases "i < 8")
    case True
    then show ?thesis by (auto simp: bit_simps dest: bit_imp_le_length)
  next
    case False
    then obtain j where i: "i = j + 8" by (metis add.commute le_Suc_ex not_less)
    have d: "(j + 8) div 8 = Suc (j div 8)" using div_add_self2 [of 8 j] by simp
    have "\<not> bit b i" using False by (auto dest: bit_imp_le_length)
    then show ?thesis using Cons.IH [of j] by (auto simp: bit_simps i d)
  qed
qed

lemma nth_le_bytes: "k < n \<Longrightarrow> le_bytes n w ! k = ucast (drop_bit (8 * k) w)"
proof (induction n arbitrary: k w)
  case (Suc n)
  then show ?case
    by (cases k) (simp_all add: drop_bit_drop_bit algebra_simps)
qed simp

lemma le_val_le_bytes:
  fixes w :: "'a::len word"
  assumes "LENGTH('a) \<le> 8 * n"
  shows "le_val (le_bytes n w) = w"
proof (rule bit_word_eqI)
  fix i assume i: "i < LENGTH('a)"
  with assms have k: "i div 8 < n" by auto
  have "8 * (i div 8) + i mod 8 = i" by simp
  then show "bit (le_val (le_bytes n w) :: 'a word) i = bit w i"
    using i k by (simp add: bit_le_val nth_le_bytes bit_simps)
qed

lemma le_bytes_le_val:
  assumes "length bs = n" and "8 * n \<le> LENGTH('a::len)"
  shows "le_bytes n (le_val bs :: 'a word) = bs"
proof (rule nth_equalityI)
  show "length (le_bytes n (le_val bs :: 'a word)) = length bs" using assms by simp
next
  fix k assume "k < length (le_bytes n (le_val bs :: 'a word))"
  then have k: "k < n" by simp
  have "ucast (drop_bit (8 * k) (le_val bs :: 'a word)) = bs ! k"
  proof (rule bit_word_eqI)
    fix i assume "i < LENGTH(8)"
    then have i: "i < 8" by simp
    have "8 * k + i < LENGTH('a)" using k i assms by linarith
    moreover have "(8 * k + i) div 8 = k" "(8 * k + i) mod 8 = i" using i by auto
    ultimately show "bit (ucast (drop_bit (8 * k) (le_val bs :: 'a word)) :: 8 word) i = bit (bs ! k) i"
      using i k assms by (simp add: bit_le_val bit_simps)
  qed
  then show "le_bytes n (le_val bs :: 'a word) ! k = bs ! k"
    using k by (simp add: nth_le_bytes)
qed

lemma be_val_be_bytes:
  fixes w :: "'a::len word"
  shows "LENGTH('a) \<le> 8 * n \<Longrightarrow> be_val (be_bytes n w) = w"
  by (simp add: be_val_def be_bytes_def le_val_le_bytes)

lemma be_bytes_be_val:
  "length bs = n \<Longrightarrow> 8 * n \<le> LENGTH('a::len) \<Longrightarrow> be_bytes n (be_val bs :: 'a word) = bs"
  by (simp add: be_val_def be_bytes_def le_bytes_le_val)

lemma le_val64 [simp, codec_simps]: "le_val (le_bytes 8 w) = (w :: u64)"
  by (simp add: le_val_le_bytes)

lemma le_val32 [simp, codec_simps]: "le_val (le_bytes 4 w) = (w :: u32)"
  by (simp add: le_val_le_bytes)

lemma be_val64 [simp, codec_simps]: "be_val (be_bytes 8 w) = (w :: u64)"
  by (simp add: be_val_be_bytes)

lemma be_val16 [simp, codec_simps]: "be_val (be_bytes 2 w) = (w :: u16)"
  by (simp add: be_val_be_bytes)

end
