(* ===== verification/Codec.thy ===== *)
theory Codec
  imports Base
begin

text \<open>
  The interface of the byte codecs. A streaming codec writes a value so that a reader can take it
  off the front of a longer input and knows where it stopped. The uvarint, the mplex frame, the
  RLP item and the fixed-width integers of SSZ are all of this kind; what follows for sequences of
  values is proved once here.
\<close>

text \<open>\<open>dec_n dec n b\<close> takes \<open>n\<close> values off the front of \<open>b\<close>.\<close>

fun dec_n :: "(bytes \<Rightarrow> ('a \<times> bytes) option) \<Rightarrow> nat \<Rightarrow> bytes \<Rightarrow> ('a list \<times> bytes) option" where
  "dec_n dec 0 b = Some ([], b)"
| "dec_n dec (Suc n) b =
     (case dec b of
        None \<Rightarrow> None
      | Some (x, r) \<Rightarrow>
          (case dec_n dec n r of None \<Rightarrow> None | Some (xs, r') \<Rightarrow> Some (x # xs, r')))"

locale stream_codec =
  fixes enc :: "'a \<Rightarrow> bytes"
    and dec :: "bytes \<Rightarrow> ('a \<times> bytes) option"
    and ok :: "'a \<Rightarrow> bool"
  assumes dec_enc: "ok x \<Longrightarrow> dec (enc x @ rest) = Some (x, rest)"
begin

lemma dec_enc_nil: "ok x \<Longrightarrow> dec (enc x) = Some (x, [])"
  by (metis append_Nil2 dec_enc)

lemma enc_inj: "ok x \<Longrightarrow> ok y \<Longrightarrow> enc x @ r = enc y @ s \<Longrightarrow> x = y \<and> r = s"
  by (metis dec_enc option.inject prod.inject)

lemma dec_n_concat:
  "(\<forall>x \<in> set xs. ok x) \<Longrightarrow> dec_n dec (length xs) (concat (map enc xs) @ rest) = Some (xs, rest)"
  by (induction xs) (simp_all add: dec_enc)

lemma concat_inj:
  assumes "\<forall>x \<in> set xs. ok x" "\<forall>y \<in> set ys. ok y" "length xs = length ys"
    and "concat (map enc xs) = concat (map enc ys)"
  shows "xs = ys"
proof -
  have "dec_n dec (length xs) (concat (map enc xs) @ []) = Some (xs, [])"
    using assms(1) by (rule dec_n_concat)
  moreover have "dec_n dec (length ys) (concat (map enc ys) @ []) = Some (ys, [])"
    using assms(2) by (rule dec_n_concat)
  ultimately show ?thesis using assms(3,4) by (metis option.inject prod.inject)
qed

end

text \<open>A codec of constant width: element \<open>i\<close> of a sequence starts at byte \<open>i * width\<close>.\<close>

locale fixed_codec = stream_codec enc dec ok
  for enc :: "'a \<Rightarrow> bytes" and dec :: "bytes \<Rightarrow> ('a \<times> bytes) option" and ok :: "'a \<Rightarrow> bool" +
  fixes width :: nat
  assumes enc_width: "length (enc x) = width"
begin

lemma length_concat: "length (concat (map enc xs)) = length xs * width"
  by (induction xs) (simp_all add: enc_width)

lemma element_at:
  "i < length xs \<Longrightarrow> take width (drop (i * width) (concat (map enc xs))) = enc (xs ! i)"
proof (induction xs arbitrary: i)
  case (Cons x xs)
  show ?case
  proof (cases i)
    case 0
    then show ?thesis by (simp add: enc_width)
  next
    case (Suc j)
    have "drop (i * width) (concat (map enc (x # xs))) = drop (j * width) (concat (map enc xs))"
      by (simp add: Suc enc_width)
    then show ?thesis using Cons Suc by simp
  qed
qed simp

end

section \<open>Fixed-width little-endian integers\<close>

definition take_le64 :: "bytes \<Rightarrow> (u64 \<times> bytes) option" where
  "take_le64 b = (if length b < 8 then None else Some (le_val (take 8 b), drop 8 b))"

definition take_le32 :: "bytes \<Rightarrow> (u32 \<times> bytes) option" where
  "take_le32 b = (if length b < 4 then None else Some (le_val (take 4 b), drop 4 b))"

interpretation c64: fixed_codec "le_bytes 8" take_le64 "\<lambda>_. True" 8
  by unfold_locales (simp_all add: take_le64_def)

interpretation c32: fixed_codec "le_bytes 4" take_le32 "\<lambda>_. True" 4
  by unfold_locales (simp_all add: take_le32_def)

end
