(* ===== verification/Go_IO.thy ===== *)
theory Go_IO
  imports Base "HOL-Library.Sublist"
begin

text \<open>
  The readers and writers of \<open>io\<close> and \<open>bufio\<close> as the code uses them, and the write loops of the
  repository: \<open>writeFull\<close> (reqresp/framing.go), \<open>writeRPC\<close> (gossipsub/rpc.go) and \<open>writeAll\<close>
  (rlpx/conn.go). The contract those loops share is the locale \<open>exact_writer\<close>.

  A reader is the bytes still to come and the error delivered after them; buffering makes the
  chunking of the underlying stream invisible. A writer is a behaviour: what the k-th call of
  \<open>Write\<close> returns for a given buffer. The loops return the error, the bytes the writer accepted and
  the number of calls made so far.
\<close>

section \<open>Readers\<close>

record reader =
  rbuf :: bytes
  rend :: goerr

definition read_byte :: "reader \<Rightarrow> (goerr + byte) \<times> reader" where
  "read_byte r = (case rbuf r of [] \<Rightarrow> (Inl (rend r), r) | b # bs \<Rightarrow> (Inr b, r\<lparr>rbuf := bs\<rparr>))"

text \<open>\<open>io.ReadFull\<close>: an end after some but not all of the bytes is \<open>io.ErrUnexpectedEOF\<close>.\<close>

definition read_full :: "nat \<Rightarrow> reader \<Rightarrow> (goerr + bytes) \<times> reader" where
  "read_full n r =
     (if n \<le> length (rbuf r) then (Inr (take n (rbuf r)), r\<lparr>rbuf := drop n (rbuf r)\<rparr>)
      else if rbuf r = [] then (Inl (rend r), r)
      else (Inl (if rend r = EOF then ErrUnexpectedEOF else rend r), r\<lparr>rbuf := []\<rparr>))"

text \<open>\<open>bufio.Reader.Peek(1)\<close>: the error, if no byte is left.\<close>

definition peek1 :: "reader \<Rightarrow> goerr option" where
  "peek1 r = (if rbuf r = [] then Some (rend r) else None)"

text \<open>\<open>io.ReadAll\<close> of an \<open>io.LimitReader\<close>.\<close>

definition read_limited :: "nat \<Rightarrow> reader \<Rightarrow> goerr + bytes" where
  "read_limited n r =
     (if n \<le> length (rbuf r) then Inr (take n (rbuf r))
      else if rend r = EOF then Inr (rbuf r) else Inl (rend r))"

lemma read_byte_simps [simp]:
  "rbuf r = [] \<Longrightarrow> read_byte r = (Inl (rend r), r)"
  "rbuf r = b # bs \<Longrightarrow> read_byte r = (Inr b, r\<lparr>rbuf := bs\<rparr>)"
  by (simp_all add: read_byte_def)

lemma read_full_enough [simp]:
  "n \<le> length (rbuf r) \<Longrightarrow> read_full n r = (Inr (take n (rbuf r)), r\<lparr>rbuf := drop n (rbuf r)\<rparr>)"
  by (simp add: read_full_def)

lemma reader_upd_same [simp]: "rbuf r = b \<Longrightarrow> r\<lparr>rbuf := b\<rparr> = r"
  by (cases r) simp

section \<open>Writers\<close>

type_synonym wbeh = "nat \<Rightarrow> bytes \<Rightarrow> int \<times> goerr option"

function writeFull :: "wbeh \<Rightarrow> nat \<Rightarrow> bytes \<Rightarrow> goerr option \<times> bytes \<times> nat" where
  "writeFull w k p =
     (if p = [] then (None, [], k)
      else
        (let (n, err) = w k p in
         if n < 0 \<or> int (length p) < n
         then (Some (Errorf ''invalid write count %d for %d-byte buffer'' [VInt n, VNat (length p)]),
               [], Suc k)
         else
           (case err of
              Some e \<Rightarrow> (Some e, take (nat n) p, Suc k)
            | None \<Rightarrow>
                if n = 0 then (Some ErrShortWrite, [], Suc k)
                else
                  (let (r, out, k') = writeFull w (Suc k) (drop (nat n) p)
                   in (r, take (nat n) p @ out, k')))))"
  by pat_completeness auto
termination
  by (relation "measure (\<lambda>(w, k, p). length p)") auto

declare writeFull.simps [simp del]

function writeRPC :: "wbeh \<Rightarrow> nat \<Rightarrow> bytes \<Rightarrow> goerr option \<times> bytes \<times> nat" where
  "writeRPC w k p =
     (if p = [] then (None, [], k)
      else
        (let (n, err) = w k p in
         if n < 0 \<or> int (length p) < n
         then (Some (Errorf ''invalid write count %d for %d-byte buffer'' [VInt n, VNat (length p)]),
               [], Suc k)
         else
           (case err of
              Some e \<Rightarrow> (Some e, take (nat n) p, Suc k)
            | None \<Rightarrow>
                if n = 0 then (Some ErrShortWrite, [], Suc k)
                else
                  (let (r, out, k') = writeRPC w (Suc k) (drop (nat n) p)
                   in (r, take (nat n) p @ out, k')))))"
  by pat_completeness auto
termination
  by (relation "measure (\<lambda>(w, k, p). length p)") auto

declare writeRPC.simps [simp del]

text \<open>
  The loop of \<open>rlpx.writeAll\<close>, and of the tail of \<open>frameWriter.write\<close>, checks the error first and
  never the count, so \<open>out[n:]\<close> panics (\<open>None\<close>) on a count outside the buffer.
\<close>

function writeAll :: "wbeh \<Rightarrow> nat \<Rightarrow> bytes \<Rightarrow> (goerr option \<times> bytes \<times> nat) option" where
  "writeAll w k p =
     (if p = [] then Some (None, [], k)
      else
        (let (n, err) = w k p in
         case err of
           Some e \<Rightarrow> Some (Some e, take (nat n) p, Suc k)
         | None \<Rightarrow>
             if n = 0 then Some (Some ErrShortWrite, [], Suc k)
             else if n < 0 \<or> int (length p) < n then None
             else
               (case writeAll w (Suc k) (drop (nat n) p) of
                  None \<Rightarrow> None
                | Some (r, out, k') \<Rightarrow> Some (r, take (nat n) p @ out, k'))))"
  by pat_completeness auto
termination
  by (relation "measure (\<lambda>(w, k, p). length p)") auto

declare writeAll.simps [simp del]

text \<open>The documented contract of \<open>io.Writer\<close>: a count within the buffer, and an error on a short write.\<close>

definition writer_ok :: "wbeh \<Rightarrow> bool" where
  "writer_ok w \<longleftrightarrow>
     (\<forall>k p. 0 \<le> fst (w k p) \<and> fst (w k p) \<le> int (length p) \<and>
            (fst (w k p) < int (length p) \<longrightarrow> snd (w k p) \<noteq> None))"

text \<open>A writer that takes at most \<open>c\<close> bytes a call and never fails: legal short writes.\<close>

definition chunked_writer :: "nat \<Rightarrow> wbeh" where
  "chunked_writer c k p = (int (min c (length p)), None)"

lemma writeFull_prefix: "writeFull w k p = (r, out, k') \<Longrightarrow> prefix out p"
proof (induction w k p arbitrary: r out k' rule: writeFull.induct)
  case (1 w k p)
  show ?case
  proof (cases "p = []")
    case True
    then show ?thesis using "1.prems" by (simp add: writeFull.simps)
  next
    case False
    obtain n err where w: "w k p = (n, err)" by (cases "w k p")
    show ?thesis
    proof (cases "(n < 0 \<or> int (length p) < n) \<or> err \<noteq> None \<or> n = 0")
      case True
      then show ?thesis using "1.prems" False w
        by (auto simp: writeFull.simps [of w k p] take_is_prefix split: if_splits option.splits)
    next
      case goon: False
      obtain r2 out2 k2 where rec: "writeFull w (Suc k) (drop (nat n) p) = (r2, out2, k2)"
        by (metis prod_cases3)
      have "prefix out2 (drop (nat n) p)"
        using "1.IH" [OF False w [symmetric]] goon rec by auto
      then have "prefix (take (nat n) p @ out2) (take (nat n) p @ drop (nat n) p)"
        by (simp only: same_prefix_prefix)
      then have "prefix (take (nat n) p @ out2) p" by simp
      then show ?thesis using "1.prems" False w goon rec
        by (auto simp: writeFull.simps [of w k p])
    qed
  qed
qed

lemma writeFull_complete: "writeFull w k p = (None, out, k') \<Longrightarrow> out = p"
proof (induction w k p arbitrary: out k' rule: writeFull.induct)
  case (1 w k p)
  show ?case
  proof (cases "p = []")
    case True
    then show ?thesis using "1.prems" by (simp add: writeFull.simps)
  next
    case False
    obtain n err where w: "w k p = (n, err)" by (cases "w k p")
    have goon: "\<not> (n < 0 \<or> int (length p) < n)" "err = None" "n \<noteq> 0"
      using "1.prems" False w
      by (auto simp: writeFull.simps [of w k p] Let_def split: if_splits option.splits)
    obtain r2 out2 k2 where rec: "writeFull w (Suc k) (drop (nat n) p) = (r2, out2, k2)"
      by (metis prod_cases3)
    have out: "r2 = None" "out = take (nat n) p @ out2"
      using "1.prems" False w goon rec by (auto simp: writeFull.simps [of w k p])
    have "out2 = drop (nat n) p"
      using "1.IH" [OF False w [symmetric]] goon rec out by auto
    with out show ?thesis by simp
  qed
qed

lemma writeRPC_eq_writeFull: "writeRPC w k p = writeFull w k p"
proof (induction w k p rule: writeFull.induct)
  case (1 w k p)
  show ?case
    by (subst writeRPC.simps, subst writeFull.simps)
       (auto simp: "1.IH" Let_def split: option.splits prod.splits)
qed

text \<open>With a writer whose counts stay within the buffer, \<open>writeAll\<close> never panics and agrees with \<open>writeFull\<close>.\<close>

definition counts_ok :: "wbeh \<Rightarrow> bool" where
  "counts_ok w \<longleftrightarrow> (\<forall>k p. 0 \<le> fst (w k p) \<and> fst (w k p) \<le> int (length p))"

lemma writer_ok_counts: "writer_ok w \<Longrightarrow> counts_ok w" by (simp add: writer_ok_def counts_ok_def)

lemma chunked_counts [simp]: "counts_ok (chunked_writer c)" by (simp add: counts_ok_def chunked_writer_def)

lemma writeAll_counts: "counts_ok w \<Longrightarrow> writeAll w k p = Some (writeFull w k p)"
proof (induction w k p rule: writeAll.induct)
  case (1 w k p)
  obtain n err where w: "w k p = (n, err)" by (cases "w k p")
  have n: "0 \<le> n" "n \<le> int (length p)"
    using "1.prems" w unfolding counts_ok_def by (metis fst_conv)+
  show ?case
  proof (cases "p \<noteq> [] \<and> err = None \<and> n \<noteq> 0")
    case True
    have "writeAll w (Suc k) (drop (nat n) p) = Some (writeFull w (Suc k) (drop (nat n) p))"
      using True w n "1.IH" [of "(n, err)" n err] "1.prems" by auto
    then show ?thesis using True w n
      by (subst writeAll.simps, subst writeFull.simps) (auto split: prod.splits)
  next
    case False
    then show ?thesis using w n
      by (subst writeAll.simps, subst writeFull.simps) (auto split: option.splits)
  qed
qed

section \<open>The contract of the write loops\<close>

text \<open>
  What the framing code relies on: a nil error means every byte was accepted, in order; on any
  error the bytes accepted are a prefix. \<open>wr_seq\<close> writes several buffers and stops at the first
  error, as the callers do with their early returns.
\<close>

fun wr_seq :: "(nat \<Rightarrow> bytes \<Rightarrow> goerr option \<times> bytes \<times> nat) \<Rightarrow> nat \<Rightarrow> bytes list
    \<Rightarrow> goerr option \<times> bytes \<times> nat" where
  "wr_seq f k [] = (None, [], k)"
| "wr_seq f k (p # ps) =
     (let (r, out, k') = f k p in
      case r of
        Some e \<Rightarrow> (Some e, out, k')
      | None \<Rightarrow> (let (r2, out2, k2) = wr_seq f k' ps in (r2, out @ out2, k2)))"

lemma wr_seq_append:
  "wr_seq f k (xs @ ys) =
     (case wr_seq f k xs of
        (Some e, out, k') \<Rightarrow> (Some e, out, k')
      | (None, out, k') \<Rightarrow> (case wr_seq f k' ys of (r, out2, k2) \<Rightarrow> (r, out @ out2, k2)))"
  by (induction xs arbitrary: k) (auto split: prod.splits option.splits)

locale exact_writer =
  fixes wr :: "nat \<Rightarrow> bytes \<Rightarrow> goerr option \<times> bytes \<times> nat"
  assumes wr_prefix: "wr k p = (r, out, k') \<Longrightarrow> prefix out p"
    and wr_complete: "wr k p = (None, out, k') \<Longrightarrow> out = p"
begin

lemma seq_complete: "wr_seq wr k ps = (None, out, k') \<Longrightarrow> out = concat ps"
  by (induction ps arbitrary: k out k')
     (auto simp: Let_def split: prod.splits option.splits dest!: wr_complete)

lemma seq_prefix: "wr_seq wr k ps = (r, out, k') \<Longrightarrow> prefix out (concat ps)"
proof (induction ps arbitrary: k r out k')
  case Nil
  then show ?case by simp
next
  case (Cons p ps)
  obtain r1 o1 k1 where 1: "wr k p = (r1, o1, k1)" by (metis prod_cases3)
  obtain r2 o2 k2 where 2: "wr_seq wr k1 ps = (r2, o2, k2)" by (metis prod_cases3)
  show ?case
  proof (cases r1)
    case None
    with 1 have "o1 = p" by (auto dest: wr_complete)
    then show ?thesis using Cons.prems Cons.IH [OF 2] 1 2 None by auto
  next
    case (Some e)
    then show ?thesis using Cons.prems 1 wr_prefix [OF 1] by auto
  qed
qed

end

interpretation full: exact_writer "writeFull w" for w
  by unfold_locales (auto dest: writeFull_prefix writeFull_complete)

interpretation rpcw: exact_writer "writeRPC w" for w
  by unfold_locales (auto simp: writeRPC_eq_writeFull dest: writeFull_prefix writeFull_complete)

text \<open>Progress: a writer that takes at least one byte a call and never fails takes everything.\<close>

lemma writeFull_chunked:
  "0 < c \<Longrightarrow> \<exists>k'. writeFull (chunked_writer c) k p = (None, p, k')"
proof (induction "chunked_writer c" k p rule: writeFull.induct)
  case (1 k p)
  show ?case
  proof (cases "p = []")
    case True
    then show ?thesis by (simp add: writeFull.simps)
  next
    case False
    let ?n = "min c (length p)"
    have n: "0 < ?n" using False "1.prems" by simp
    have "\<exists>k'. writeFull (chunked_writer c) (Suc k) (drop (nat (int ?n)) p)
        = (None, drop (nat (int ?n)) p, k')"
      by (rule "1.hyps" [OF False, of "(int ?n, None)" "int ?n" None])
         (use n "1.prems" in \<open>auto simp: chunked_writer_def\<close>)
    then show ?thesis using False n
      by (auto simp: writeFull.simps [of "chunked_writer c" k p] chunked_writer_def)
  qed
qed

end
