(* ===== verification/Varint.thy ===== *)
theory Varint
  imports Codec Go_IO
begin

text \<open>
  Unsigned varints: the encoder and decoders of \<open>encoding/binary\<close> that the code calls
  (\<open>PutUvarint\<close>, \<open>AppendUvarint\<close>, \<open>Uvarint\<close>, \<open>ReadUvarint\<close>) and the repository's own
  \<open>readConsensusUvarint\<close> (reqresp/framing.go).
\<close>

section \<open>Encoding\<close>

lemma drop7_less: "128 \<le> (x :: u64) \<Longrightarrow> unat (drop_bit 7 x) < unat x"
  by (simp add: drop_bit_eq_div word_le_nat_alt unat_div)

function put_uvarint :: "u64 \<Rightarrow> bytes" where
  "put_uvarint x =
     (if x < 0x80 then [ucast x] else (ucast x OR 0x80) # put_uvarint (drop_bit 7 x))"
  by pat_completeness auto
termination
  by (relation "measure unat") (auto simp: drop7_less not_less)

declare put_uvarint.simps [simp del]

section \<open>Decoding\<close>

text \<open>
  \<open>binary.Uvarint\<close>: the value and the number of bytes read; 0 for an input that ends too early, a
  negative count on overflow. \<open>i\<close> is the loop index, \<open>x\<close> the value so far, and the shift is \<open>7 * i\<close>.
\<close>

fun uvarint_from :: "nat \<Rightarrow> u64 \<Rightarrow> bytes \<Rightarrow> u64 \<times> int" where
  "uvarint_from i x [] = (0, 0)"
| "uvarint_from i x (b # bs) =
     (if i = 10 then (0, - (int i + 1))
      else if b < 0x80 then
        (if i = 9 \<and> 1 < b then (0, - (int i + 1))
         else (x OR push_bit (7 * i) (ucast b), int i + 1))
      else uvarint_from (Suc i) (x OR push_bit (7 * i) (ucast (b AND 0x7F))) bs)"

definition uvarint :: "bytes \<Rightarrow> u64 \<times> int" where
  "uvarint b = uvarint_from 0 0 b"

text \<open>\<open>readConsensusUvarint\<close>: reads byte by byte, at most ten; read errors are passed on as they are.\<close>

function consensus_from :: "nat \<Rightarrow> u64 \<Rightarrow> reader \<Rightarrow> (goerr + u64) \<times> reader" where
  "consensus_from i value r =
     (if i < 10 then
        (case read_byte r of
           (Inl e, r') \<Rightarrow> (Inl e, r')
         | (Inr b, r') \<Rightarrow>
             if b < 0x80 then
               (if i = 9 \<and> 1 < b then (Inl (Errorf ''varint overflows uint64'' []), r')
                else (Inr (value OR push_bit (7 * i) (ucast b)), r'))
             else consensus_from (Suc i) (value OR push_bit (7 * i) (ucast (b AND 0x7F))) r')
      else (Inl (Errorf ''varint exceeds 10 bytes'' []), r))"
  by pat_completeness auto
termination
  by (relation "measure (\<lambda>(i, v, r). 10 - i)") auto

declare consensus_from.simps [simp del]

definition readConsensusUvarint :: "reader \<Rightarrow> (goerr + u64) \<times> reader" where
  "readConsensusUvarint r = consensus_from 0 0 r"

text \<open>\<open>binary.ReadUvarint\<close>: the same loop, but an end after the first byte is \<open>io.ErrUnexpectedEOF\<close>.\<close>

definition errOverflow :: goerr where
  "errOverflow = Sentinel ''binary: varint overflows a 64-bit integer''"

function read_uvarint_from :: "nat \<Rightarrow> u64 \<Rightarrow> reader \<Rightarrow> (goerr + u64) \<times> reader" where
  "read_uvarint_from i x r =
     (if i < 10 then
        (case read_byte r of
           (Inl e, r') \<Rightarrow> (Inl (if 0 < i \<and> e = EOF then ErrUnexpectedEOF else e), r')
         | (Inr b, r') \<Rightarrow>
             if b < 0x80 then
               (if i = 9 \<and> 1 < b then (Inl errOverflow, r')
                else (Inr (x OR push_bit (7 * i) (ucast b)), r'))
             else read_uvarint_from (Suc i) (x OR push_bit (7 * i) (ucast (b AND 0x7F))) r')
      else (Inl errOverflow, r))"
  by pat_completeness auto
termination
  by (relation "measure (\<lambda>(i, v, r). 10 - i)") auto

declare read_uvarint_from.simps [simp del]

definition ReadUvarint :: "reader \<Rightarrow> (goerr + u64) \<times> reader" where
  "ReadUvarint r = read_uvarint_from 0 0 r"

section \<open>Round trip\<close>

lemma put_uvarint_small: "x < 0x80 \<Longrightarrow> put_uvarint x = [ucast x]"
  by (simp add: put_uvarint.simps)

lemma put_uvarint_big:
  "\<not> x < 0x80 \<Longrightarrow> put_uvarint x = (ucast x OR 0x80) # put_uvarint (drop_bit 7 x)"
  by (subst put_uvarint.simps) simp

lemma put_uvarint_not_Nil [simp]: "put_uvarint x \<noteq> []"
  by (cases "x < 0x80") (simp_all add: put_uvarint_small put_uvarint_big)

lemma ucast_small_byte: "x < 0x80 \<Longrightarrow> ucast (ucast (x :: u64) :: byte) = x"
  by (simp add: word_unat_eq_iff unsigned_ucast_eq word_less_nat_alt unsigned_take_bit_eq
      take_bit_nat_eq_self)

lemma ucast_small_less: "x < 0x80 \<Longrightarrow> (ucast (x :: u64) :: byte) < 0x80"
  by (simp add: unsigned_ucast_eq word_less_nat_alt take_bit_nat_eq_self)

lemma odd_div_128: "(n :: nat) < 256 \<Longrightarrow> odd (n div 128) \<longleftrightarrow> 128 \<le> n"
  using div_nat_eqI [of 128 1 n] by (cases "128 \<le> n") simp_all

lemma byte_msb: "(b :: byte) < 0x80 \<longleftrightarrow> \<not> bit b 7"
proof -
  have lt: "unat b < 256" using unsigned_less [of b, where ?'a = nat] by simp
  have "bit b 7 = bit (unat b) 7" by (simp add: bit_unsigned_iff)
  also have "\<dots> = odd (unat b div 128)" by (simp add: bit_iff_odd)
  also have "\<dots> = (128 \<le> unat b)" using lt by (rule odd_div_128)
  also have "\<dots> = (\<not> b < 0x80)" by (simp add: word_less_nat_alt not_less)
  finally show ?thesis by blast
qed

lemma continuation_byte:
  "\<not> (ucast (x :: u64) OR 0x80 :: byte) < 0x80"
  "(ucast x OR 0x80 :: byte) AND 0x7F = ucast x AND 0x7F"
proof -
  show "\<not> (ucast x OR 0x80 :: byte) < 0x80"
    by (simp add: byte_msb bit_simps)
  show "(ucast x OR 0x80 :: byte) AND 0x7F = ucast x AND 0x7F"
    by (simp add: bit.conj_disj_distrib2)
qed

text \<open>The groups of seven bits put back together.\<close>

lemma join_groups:
  "(acc OR push_bit (7 * i) (ucast (ucast x AND 0x7F :: byte))) OR
     push_bit (7 + 7 * i) (drop_bit 7 (x :: u64)) = acc OR push_bit (7 * i) x"
proof -
  have "ucast (ucast x AND 0x7F :: byte) OR push_bit 7 (drop_bit 7 x) = x"
  proof (rule bit_word_eqI)
    fix n assume "n < LENGTH(64)"
    have m: "(0x7F :: byte) = mask 7" by (simp add: mask_eq_exp_minus_1)
    show "bit (ucast (ucast x AND 0x7F :: byte) OR push_bit 7 (drop_bit 7 x)) n = bit x n"
      by (cases "n < 7") (auto simp: m bit_simps dest: bit_imp_le_length)
  qed
  then have "push_bit (7 * i) (ucast (ucast x AND 0x7F :: byte) OR push_bit 7 (drop_bit 7 x))
      = push_bit (7 * i) x" by simp
  then show ?thesis
    by (simp add: push_bit_or push_bit_push_bit add.commute or.assoc)
qed

text \<open>A value that still fits the bits left at index \<open>i\<close>; there are at most ten groups.\<close>

definition fits :: "nat \<Rightarrow> u64 \<Rightarrow> bool" where
  "fits i x \<longleftrightarrow> i \<le> 9 \<and> unat x < 2 ^ (64 - 7 * i)"

lemma fits_0 [simp]: "fits 0 x"
  using unsigned_less [of x, where ?'a = nat] by (simp add: fits_def)

lemma fits_Suc: "fits i x \<Longrightarrow> \<not> x < 0x80 \<Longrightarrow> fits (Suc i) (drop_bit 7 x)"
proof -
  assume f: "fits i x" and b: "\<not> x < 0x80"
  then have x: "128 \<le> unat x" by (simp add: word_less_nat_alt)
  have i: "i \<le> 8"
  proof (rule ccontr)
    assume "\<not> i \<le> 8"
    with f have "i = 9" by (simp add: fits_def)
    with f x show False by (simp add: fits_def)
  qed
  then have e: "64 - 7 * i = 7 + (64 - 7 * Suc i)" by simp
  have "unat x < 2 ^ 7 * 2 ^ (64 - 7 * Suc i)"
    using f unfolding fits_def e power_add by simp
  then have "unat x div 2 ^ 7 < 2 ^ (64 - 7 * Suc i)" by (simp add: less_mult_imp_div_less mult.commute)
  then show ?thesis using i by (simp add: fits_def drop_bit_eq_div unat_div)
qed

lemma fits_last: "fits 9 x \<Longrightarrow> \<not> 1 < (ucast x :: byte)"
proof -
  assume "fits 9 x"
  then have "unat x < 2" by (simp add: fits_def)
  then have "unat (ucast x :: byte) < 2"
    by (simp add: unsigned_ucast_eq unsigned_take_bit_eq take_bit_nat_eq_self)
  then show ?thesis by (simp add: word_less_nat_alt)
qed

lemma uvarint_from_put:
  "fits i x \<Longrightarrow>
   uvarint_from i acc (put_uvarint x @ rest) = (acc OR push_bit (7 * i) x, int (i + length (put_uvarint x)))"
proof (induction x arbitrary: i acc rule: put_uvarint.induct)
  case (1 x)
  have i: "i \<noteq> 10" using "1.prems" by (simp add: fits_def)
  show ?case
  proof (cases "x < 0x80")
    case True
    moreover have "\<not> (i = 9 \<and> 1 < (ucast x :: byte))" using "1.prems" fits_last by auto
    ultimately show ?thesis using i
      by (simp add: put_uvarint_small ucast_small_byte ucast_small_less)
  next
    case False
    show ?thesis
      using 1(1) [OF False fits_Suc [OF "1.prems" False]] i False
      by (simp add: put_uvarint_big continuation_byte join_groups)
  qed
qed

lemma uvarint_put [simp]:
  "uvarint (put_uvarint x @ rest) = (x, int (length (put_uvarint x)))"
  by (simp add: uvarint_def uvarint_from_put)

lemma length_put_uvarint_from: "fits i x \<Longrightarrow> i + length (put_uvarint x) \<le> 10"
proof (induction x arbitrary: i rule: put_uvarint.induct)
  case (1 x)
  show ?case
  proof (cases "x < 0x80")
    case True
    then show ?thesis using "1.prems" by (simp add: put_uvarint_small fits_def)
  next
    case False
    show ?thesis
      using 1(1) [OF False fits_Suc [OF "1.prems" False]] False by (simp add: put_uvarint_big)
  qed
qed

lemma length_put_uvarint: "length (put_uvarint x) \<le> 10"
  using length_put_uvarint_from [of 0 x] by simp

text \<open>A decoded prefix does not depend on what follows it.\<close>

lemma uvarint_from_extend:
  "uvarint_from i acc b = (x, n) \<Longrightarrow> 0 < n \<Longrightarrow> uvarint_from i acc (b @ c) = (x, n)"
  by (induction i acc b rule: uvarint_from.induct) (auto split: if_splits)

lemma uvarint_from_bounds:
  "uvarint_from i acc b = (x, n) \<Longrightarrow> 0 < n \<Longrightarrow> int i < n \<and> n \<le> int (i + length b)"
  by (induction i acc b rule: uvarint_from.induct) (fastforce split: if_splits)+

lemma uvarint_extend: "uvarint b = (x, n) \<Longrightarrow> 0 < n \<Longrightarrow> uvarint (b @ c) = (x, n)"
  by (simp add: uvarint_def uvarint_from_extend)

lemma uvarint_bounds: "uvarint b = (x, n) \<Longrightarrow> 0 < n \<Longrightarrow> nat n \<le> length b \<and> 0 < nat n"
  using uvarint_from_bounds [of 0 0 b x n] by (simp add: uvarint_def)

section \<open>The three decoders agree\<close>

lemma consensus_from_ok:
  "i \<le> 10 \<Longrightarrow> uvarint_from i acc (rbuf r) = (x, n) \<Longrightarrow> 0 < n \<Longrightarrow>
   consensus_from i acc r = (Inr x, r\<lparr>rbuf := drop (nat n - i) (rbuf r)\<rparr>)"
proof (induction "rbuf r" arbitrary: i acc r)
  case Nil
  then show ?case by simp
next
  case (Cons b bs)
  have r: "rbuf r = b # bs" using Cons.hyps(2) by simp
  show ?case
  proof (cases "b < 0x80")
    case True
    have "nat (int i + 1) - i = Suc 0" by arith
    then show ?thesis using Cons.prems r True
      by (subst consensus_from.simps) (auto split: if_splits)
  next
    case False
    have i: "i < 10" using Cons.prems r False by (auto split: if_splits)
    have u: "uvarint_from (Suc i) (acc OR push_bit (7 * i) (ucast (b AND 0x7F))) bs = (x, n)"
      using Cons.prems r False i by simp
    have "nat n - i = Suc (nat n - Suc i)"
      using uvarint_from_bounds [OF u Cons.prems(3)] by auto
    then show ?thesis
      using Cons.hyps(1) [of "r\<lparr>rbuf := bs\<rparr>" "Suc i"] u i Cons.prems(3) r False
      by (subst consensus_from.simps) simp
  qed
qed

lemma consensus_from_Inr:
  "i \<le> 10 \<Longrightarrow> consensus_from i acc r = (Inr x, r') \<Longrightarrow>
   \<exists>n > 0. uvarint_from i acc (rbuf r) = (x, n)"
proof (induction "rbuf r" arbitrary: i acc r)
  case Nil
  then have "rbuf r = []" by simp
  then show ?case using Nil.prems by (subst (asm) consensus_from.simps) (auto split: if_splits)
next
  case (Cons b bs)
  have r: "rbuf r = b # bs" using Cons.hyps(2) by simp
  have i: "i < 10" using Cons.prems by (subst (asm) consensus_from.simps) (auto split: if_splits)
  show ?case
  proof (cases "b < 0x80")
    case True
    then show ?thesis using Cons.prems r i
      by (subst (asm) consensus_from.simps) (auto split: if_splits)
  next
    case False
    then show ?thesis using Cons.prems r i Cons.hyps(1) [of "r\<lparr>rbuf := bs\<rparr>" "Suc i"]
      by (subst (asm) consensus_from.simps) auto
  qed
qed

text \<open>\<open>ReadUvarint\<close> differs from \<open>readConsensusUvarint\<close> in its errors only.\<close>

lemma read_uvarint_from_consensus:
  "(fst (read_uvarint_from i acc r) = Inr x \<longleftrightarrow> fst (consensus_from i acc r) = Inr x) \<and>
   snd (read_uvarint_from i acc r) = snd (consensus_from i acc r)"
proof (induction i acc r rule: consensus_from.induct)
  case (1 i acc r)
  obtain y r1 where rb: "read_byte r = (y, r1)" by (cases "read_byte r")
  show ?case
  proof (cases "i < 10 \<and> (\<exists>b. y = Inr b \<and> \<not> b < 0x80)")
    case True
    then obtain b where b: "y = Inr b" "\<not> b < 0x80" and i: "i < 10" by blast
    show ?thesis using "1.IH" [OF i rb [symmetric] b] rb b i
      by (simp add: read_uvarint_from.simps [of i acc r] consensus_from.simps [of i acc r])
  next
    case False
    then show ?thesis using rb
      by (cases y) (auto simp: read_uvarint_from.simps [of i acc r] consensus_from.simps [of i acc r])
  qed
qed

lemma readConsensusUvarint_ok:
  "uvarint (rbuf r) = (x, n) \<Longrightarrow> 0 < n \<Longrightarrow>
   readConsensusUvarint r = (Inr x, r\<lparr>rbuf := drop (nat n) (rbuf r)\<rparr>)"
  using consensus_from_ok [of 0 0 r x n] by (simp add: uvarint_def readConsensusUvarint_def)

lemma readConsensusUvarint_put:
  "rbuf r = put_uvarint x @ rest \<Longrightarrow> readConsensusUvarint r = (Inr x, r\<lparr>rbuf := rest\<rparr>)"
  by (simp add: readConsensusUvarint_ok [of r x "int (length (put_uvarint x))"])

lemma ReadUvarint_ok:
  "uvarint (rbuf r) = (x, n) \<Longrightarrow> 0 < n \<Longrightarrow>
   ReadUvarint r = (Inr x, r\<lparr>rbuf := drop (nat n) (rbuf r)\<rparr>)"
  using readConsensusUvarint_ok [of r x n] read_uvarint_from_consensus [of 0 0 r]
  by (simp add: readConsensusUvarint_def ReadUvarint_def prod_eq_iff)

lemma ReadUvarint_put:
  "rbuf r = put_uvarint x @ rest \<Longrightarrow> ReadUvarint r = (Inr x, r\<lparr>rbuf := rest\<rparr>)"
  by (simp add: ReadUvarint_ok [of r x "int (length (put_uvarint x))"])

text \<open>
  Inputs that stop inside the varint: every byte has the continuation bit and there are fewer than
  ten. \<open>readConsensusUvarint\<close> hands on the stream's own end.
\<close>

lemma consensus_from_truncated:
  "i + length (rbuf r) < 10 \<Longrightarrow> (\<forall>b \<in> set (rbuf r). \<not> b < 0x80) \<Longrightarrow>
   fst (consensus_from i acc r) = Inl (rend r)"
proof (induction "rbuf r" arbitrary: i acc r)
  case Nil
  then have "rbuf r = []" by simp
  then show ?case using Nil.prems by (subst consensus_from.simps) simp
next
  case (Cons b bs)
  have r: "rbuf r = b # bs" using Cons.hyps(2) by simp
  then show ?case
    using Cons.prems Cons.hyps(1) [of "r\<lparr>rbuf := bs\<rparr>" "Suc i"]
    by (subst consensus_from.simps) simp
qed

lemma read_uvarint_from_truncated:
  "i + length (rbuf r) < 10 \<Longrightarrow> (\<forall>b \<in> set (rbuf r). \<not> b < 0x80) \<Longrightarrow> 0 < i + length (rbuf r) \<Longrightarrow>
   fst (read_uvarint_from i acc r) = Inl (if rend r = EOF then ErrUnexpectedEOF else rend r)"
proof (induction "rbuf r" arbitrary: i acc r)
  case Nil
  then have "rbuf r = []" by simp
  then show ?case using Nil.prems by (subst read_uvarint_from.simps) simp
next
  case (Cons b bs)
  have r: "rbuf r = b # bs" using Cons.hyps(2) by simp
  then show ?case
    using Cons.prems Cons.hyps(1) [of "r\<lparr>rbuf := bs\<rparr>" "Suc i"]
    by (subst read_uvarint_from.simps) simp
qed

section \<open>The streaming codec\<close>

definition take_uvarint :: "bytes \<Rightarrow> (u64 \<times> bytes) option" where
  "take_uvarint b = (let (x, n) = uvarint b in if n \<le> 0 then None else Some (x, drop (nat n) b))"

interpretation uv: stream_codec put_uvarint take_uvarint "\<lambda>_. True"
  by unfold_locales (simp add: take_uvarint_def)

text \<open>
  the reader the response decoder uses and the two of \<open>encoding/binary\<close> accept the same inputs,
  with the same value, and consume the same bytes.
\<close>

theorem varint_decoders_agree:
  "(readConsensusUvarint r = (Inr x, r')) = (ReadUvarint r = (Inr x, r')) \<and>
   (readConsensusUvarint r = (Inr x, r')) =
     (\<exists>n > 0. uvarint (rbuf r) = (x, n) \<and> r' = r\<lparr>rbuf := drop (nat n) (rbuf r)\<rparr>)"
proof
  show "(readConsensusUvarint r = (Inr x, r')) = (ReadUvarint r = (Inr x, r'))"
    using read_uvarint_from_consensus [of 0 0 r]
    by (auto simp: readConsensusUvarint_def ReadUvarint_def prod_eq_iff)
  show "(readConsensusUvarint r = (Inr x, r')) =
     (\<exists>n > 0. uvarint (rbuf r) = (x, n) \<and> r' = r\<lparr>rbuf := drop (nat n) (rbuf r)\<rparr>)"
  proof
    assume c: "readConsensusUvarint r = (Inr x, r')"
    then obtain n where n: "0 < n" "uvarint (rbuf r) = (x, n)"
      using consensus_from_Inr [of 0 0 r x r']
      by (auto simp: readConsensusUvarint_def uvarint_def)
    with c readConsensusUvarint_ok [OF n(2,1)]
    show "\<exists>n > 0. uvarint (rbuf r) = (x, n) \<and> r' = r\<lparr>rbuf := drop (nat n) (rbuf r)\<rparr>"
      by auto
  qed (auto simp: readConsensusUvarint_ok)
qed

text \<open>Every byte of an encoding but the last one continues it.\<close>

lemma put_uvarint_continues: "j < length (put_uvarint x) \<Longrightarrow> \<forall>b \<in> set (take j (put_uvarint x)). \<not> b < 0x80"
proof (induction x arbitrary: j rule: put_uvarint.induct)
  case (1 x)
  show ?case
  proof (cases "x < 0x80")
    case True
    then show ?thesis using 1 by (simp add: put_uvarint_small)
  next
    case False
    show ?thesis
    proof (cases j)
      case (Suc i)
      then have "\<forall>b \<in> set (take i (put_uvarint (drop_bit 7 x))). \<not> b < 0x80"
        using 1(1) [OF False, of i] 1(2) False by (simp add: put_uvarint_big)
      then show ?thesis
        unfolding put_uvarint_big [OF False] Suc take_Suc_Cons set_simps ball_simps
        using continuation_byte(1) [of x] by blast
    qed simp
  qed
qed

lemma readConsensusUvarint_cut:
  assumes "j < length (put_uvarint x)"
  shows "fst (readConsensusUvarint \<lparr>rbuf = take j (put_uvarint x), rend = e\<rparr>) = Inl e"
  using consensus_from_truncated [of 0 "\<lparr>rbuf = take j (put_uvarint x), rend = e\<rparr>" 0]
    put_uvarint_continues [OF assms] length_put_uvarint [of x] assms
  by (simp add: readConsensusUvarint_def)

end
