(* ===== verification/Session.thy ===== *)
theory Session
  imports Base
begin

text \<open>
  Package session: the scope carried by a context (scope.go), observed writes (observer.go), step
  narration (output.go), the time left on a context (time.go), and the identity of package utils
  (keys.go) that a scope carries.

  A context is what the SDK reads of it: the scope value stored under the package's key, and the
  deadline. A nil context is \<open>None\<close>. Private keys (\<open>'k\<close>), writers (\<open>'w\<close>) and observers (\<open>'o\<close>) are
  opaque; copying a key through its byte form is third-party code and a parameter.
\<close>

section \<open>Identities\<close>

text \<open>\<open>utils.ParticipantIdentity\<close> is a struct with a key pointer, held by pointer.\<close>

record 'k participant =
  id_key :: "'k option"

definition ELKey :: "('k \<Rightarrow> goerr + 'k) \<Rightarrow> 'k participant option \<Rightarrow> goerr + 'k" where
  "ELKey copy_key identity =
     (case identity of
        None \<Rightarrow> Inl (Errorf ''participant identity is nil'' [])
      | Some p \<Rightarrow>
          (case id_key p of
             None \<Rightarrow> Inl (Errorf ''participant identity is nil'' [])
           | Some k \<Rightarrow> wrap_err ''copy participant identity: %w'' [] (copy_key k)))"

definition ParticipantIdentityFromKey ::
    "('k \<Rightarrow> goerr + 'k) \<Rightarrow> 'k option \<Rightarrow> goerr + 'k participant" where
  "ParticipantIdentityFromKey copy_key key =
     (case key of
        None \<Rightarrow> Inl (Errorf ''participant identity key is nil'' [])
      | Some k \<Rightarrow>
          err_bind (wrap_err ''copy participant identity: %w'' [] (copy_key k))
            (\<lambda>k'. Inr \<lparr>id_key = Some k'\<rparr>))"

section \<open>Scopes and contexts\<close>

record ('w, 'o, 'k) scope =
  Output :: "'w option"
  Client :: string
  Observer :: "'o option"
  Identities :: "'k participant option list"
  Verbose :: bool
  Quiet :: bool

record ('w, 'o, 'k) go_ctx =
  cscope :: "('w, 'o, 'k) scope option"
  cdeadline :: "int option"

definition empty_scope :: "('w, 'o, 'k) scope" where
  "empty_scope = \<lparr>Output = None, Client = '''', Observer = None, Identities = [],
                  Verbose = False, Quiet = False\<rparr>"

definition Background :: "('w, 'o, 'k) go_ctx" where
  "Background = \<lparr>cscope = None, cdeadline = None\<rparr>"

definition scopeFrom :: "('w, 'o, 'k) go_ctx option \<Rightarrow> ('w, 'o, 'k) scope" where
  "scopeFrom ctx =
     (case ctx of None \<Rightarrow> empty_scope
      | Some c \<Rightarrow> (case cscope c of None \<Rightarrow> empty_scope | Some s \<Rightarrow> s))"

text \<open>The body of \<open>With\<close>: empty fields of \<open>s\<close> take the parent's value.\<close>

definition inherit :: "('w, 'o, 'k) scope \<Rightarrow> ('w, 'o, 'k) scope \<Rightarrow> ('w, 'o, 'k) scope" where
  "inherit parent s =
     (let s1 = (if Output s = None then s\<lparr>Output := Output parent\<rparr> else s);
          s2 = (if Client s1 = '''' then s1\<lparr>Client := Client parent\<rparr> else s1);
          s3 = (if Observer s2 = None then s2\<lparr>Observer := Observer parent\<rparr> else s2);
          s4 = (if Identities s3 = [] then s3\<lparr>Identities := Identities parent\<rparr> else s3)
      in if Quiet s4 then s4\<lparr>Verbose := False\<rparr>
         else if \<not> Verbose s4 then s4\<lparr>Verbose := Verbose parent\<rparr>
         else s4)"

definition With :: "('w, 'o, 'k) go_ctx option \<Rightarrow> ('w, 'o, 'k) scope \<Rightarrow> ('w, 'o, 'k) go_ctx" where
  "With ctx s =
     (let c = (case ctx of None \<Rightarrow> Background | Some c \<Rightarrow> c)
      in c\<lparr>cscope := Some (inherit (scopeFrom (Some c)) s)\<rparr>)"

definition OutputOf :: "'w \<Rightarrow> ('w, 'o, 'k) go_ctx option \<Rightarrow> 'w" where
  "OutputOf stdout ctx = (case Output (scopeFrom ctx) of Some w \<Rightarrow> w | None \<Rightarrow> stdout)"

definition ClientOf :: "('w, 'o, 'k) go_ctx option \<Rightarrow> string" where
  "ClientOf ctx = Client (scopeFrom ctx)"

definition ParticipantIdentityAt ::
    "('w, 'o, 'k) go_ctx option \<Rightarrow> int \<Rightarrow> goerr + 'k participant" where
  "ParticipantIdentityAt ctx i =
     (let ids = Identities (scopeFrom ctx)
      in if i < 0 \<or> int (length ids) \<le> i
         then Inl (Errorf ''participant identity is not configured'' [])
         else (case ids ! nat i of
                 None \<Rightarrow> Inl (Errorf ''participant identity is not configured'' [])
               | Some p \<Rightarrow> Inr p))"

definition ParticipantIdentity ::
    "('w, 'o, 'k) go_ctx option \<Rightarrow> goerr + 'k participant" where
  "ParticipantIdentity ctx = ParticipantIdentityAt ctx 0"

definition ParticipantELKeyAt ::
    "('k \<Rightarrow> goerr + 'k) \<Rightarrow> ('w, 'o, 'k) go_ctx option \<Rightarrow> int \<Rightarrow> goerr + 'k" where
  "ParticipantELKeyAt copy_key ctx i =
     err_bind (ParticipantIdentityAt ctx i) (\<lambda>identity. ELKey copy_key (Some identity))"

definition ParticipantELKey ::
    "('k \<Rightarrow> goerr + 'k) \<Rightarrow> ('w, 'o, 'k) go_ctx option \<Rightarrow> goerr + 'k" where
  "ParticipantELKey copy_key ctx = ParticipantELKeyAt copy_key ctx 0"

section \<open>Observed writes and narration\<close>

record write_event =
  w_Protocol :: string
  w_Code :: u64
  w_ProtocolID :: string
  w_Topic :: string
  w_Payload :: bytes
  w_Raw :: bool

definition write_of :: "string \<Rightarrow> write_event" where
  "write_of proto = \<lparr>w_Protocol = proto, w_Code = 0, w_ProtocolID = '''', w_Topic = '''',
                     w_Payload = [], w_Raw = False\<rparr>"

text \<open>The calls of the observer: none without one, otherwise one with a copy of the payload.\<close>

definition ObserveWrite ::
    "('w, 'o, 'k) go_ctx option \<Rightarrow> write_event \<Rightarrow> ('o \<times> write_event) list" where
  "ObserveWrite ctx w =
     (case Observer (scopeFrom ctx) of None \<Rightarrow> [] | Some observer \<Rightarrow> [(observer, w)])"

definition esc :: "string \<Rightarrow> string" where
  "esc code = CHR 0x1B # ''['' @ code @ ''m''"

text \<open>\<open>Step\<close> with its formatted message: the text written to the scope's output.\<close>

definition Step :: "('w, 'o, 'k) go_ctx option \<Rightarrow> string \<Rightarrow> string list" where
  "Step ctx message =
     (if \<not> Verbose (scopeFrom ctx) then []
      else [esc ''0;90'' @ message @ esc ''0'' @ [CHR 0x0A]])"

section \<open>Time left\<close>

text \<open>Times and durations in nanoseconds; \<open>now\<close> is the clock reading of \<open>time.Until\<close>.\<close>

definition Remaining :: "int \<Rightarrow> ('w, 'o, 'k) go_ctx option \<Rightarrow> int \<Rightarrow> int" where
  "Remaining now ctx fallback =
     (case ctx of None \<Rightarrow> fallback
      | Some c \<Rightarrow>
          (case cdeadline c of None \<Rightarrow> fallback
           | Some deadline \<Rightarrow>
               (let remaining = deadline - now in if remaining \<le> 0 then 0 else remaining)))"

text \<open>A nil context has no deadline, like the background context that the dials put in its place.\<close>

lemma Remaining_background [simp]:
  "Remaining now (Some (case ctx of None \<Rightarrow> Background | Some c \<Rightarrow> c)) fallback = Remaining now ctx fallback"
  by (simp add: Remaining_def Background_def split: option.split)

text \<open>A context with a timeout has the earlier of the two deadlines.\<close>

definition WithTimeout :: "int \<Rightarrow> ('w, 'o, 'k) go_ctx option \<Rightarrow> int \<Rightarrow> ('w, 'o, 'k) go_ctx" where
  "WithTimeout now ctx timeout =
     (let c = (case ctx of None \<Rightarrow> Background | Some c \<Rightarrow> c)
      in c\<lparr>cdeadline := Some (case cdeadline c of None \<Rightarrow> now + timeout | Some d \<Rightarrow> min d (now + timeout))\<rparr>)"

section \<open>Nested scopes\<close>

lemma scopeFrom_With [simp]: "scopeFrom (Some (With ctx s)) = inherit (scopeFrom ctx) s"
  by (cases ctx) (simp_all add: With_def scopeFrom_def Background_def Let_def)

lemma inherit_fields [simp]:
  "Output (inherit p s) = (case Output s of None \<Rightarrow> Output p | Some w \<Rightarrow> Some w)"
  "Client (inherit p s) = (if Client s = [] then Client p else Client s)"
  "Observer (inherit p s) = (case Observer s of None \<Rightarrow> Observer p | Some w \<Rightarrow> Some w)"
  "Identities (inherit p s) = (if Identities s = [] then Identities p else Identities s)"
  "Verbose (inherit p s) = (\<not> Quiet s \<and> (Verbose s \<or> Verbose p))"
  "Quiet (inherit p s) = Quiet s"
  by (simp_all add: inherit_def Let_def split: option.split)

lemma With_deadline [simp]: "cdeadline (With (Some c) s) = cdeadline c"
  by (simp add: With_def)

text \<open>Scopes attached one inside the other, the outermost first.\<close>

fun nest :: "('w, 'o, 'k) go_ctx option \<Rightarrow> ('w, 'o, 'k) scope list \<Rightarrow> ('w, 'o, 'k) go_ctx option" where
  "nest ctx [] = ctx"
| "nest ctx (s # ss) = nest (Some (With ctx s)) ss"

lemma nest_snoc: "nest ctx (ss @ [s]) = Some (With (nest ctx ss) s)"
  by (induction ss arbitrary: ctx) simp_all

text \<open>What a nest should resolve to: the innermost scope that sets a field decides it.\<close>

definition innermost :: "('s \<Rightarrow> 'v option) \<Rightarrow> 's list \<Rightarrow> 'v option \<Rightarrow> 'v option" where
  "innermost f ss dflt =
     (case filter (\<lambda>s. f s \<noteq> None) (rev ss) of [] \<Rightarrow> dflt | s # _ \<Rightarrow> f s)"

definition nonempty :: "'a list \<Rightarrow> 'a list option" where
  "nonempty xs = (if xs = [] then None else Some xs)"

text \<open>Narration is on when, reading from the inside out, a Verbose scope comes before any Quiet one.\<close>

fun narrates :: "('w, 'o, 'k) scope list \<Rightarrow> bool \<Rightarrow> bool" where
  "narrates [] dflt = dflt"
| "narrates (s # ss) dflt = (if Quiet s then False else if Verbose s then True else narrates ss dflt)"

lemma innermost_snoc:
  "innermost f (ss @ [s]) d = (case f s of None \<Rightarrow> innermost f ss d | Some v \<Rightarrow> Some v)"
  by (simp add: innermost_def split: option.splits)

lemma innermost_Nil [simp]: "innermost f [] d = d"
  by (simp add: innermost_def)

lemma nest_Output: "Output (scopeFrom (nest ctx ss)) = innermost Output ss (Output (scopeFrom ctx))"
  by (induction ss rule: rev_induct) (simp_all add: nest_snoc innermost_snoc split: option.split)

lemma nest_Observer:
  "Observer (scopeFrom (nest ctx ss)) = innermost Observer ss (Observer (scopeFrom ctx))"
  by (induction ss rule: rev_induct) (simp_all add: nest_snoc innermost_snoc split: option.split)

lemma nonempty_if:
  "nonempty (if xs = [] then ys else xs)
     = (case nonempty xs of None \<Rightarrow> nonempty ys | Some v \<Rightarrow> Some v)"
  by (simp add: nonempty_def)

lemma nest_Client:
  "nonempty (Client (scopeFrom (nest ctx ss)))
     = innermost (\<lambda>s. nonempty (Client s)) ss (nonempty (Client (scopeFrom ctx)))"
  by (induction ss rule: rev_induct) (simp_all add: nest_snoc innermost_snoc nonempty_if del: if_split
      split: option.split)

lemma nest_Identities:
  "nonempty (Identities (scopeFrom (nest ctx ss)))
     = innermost (\<lambda>s. nonempty (Identities s)) ss (nonempty (Identities (scopeFrom ctx)))"
  by (induction ss rule: rev_induct) (simp_all add: nest_snoc innermost_snoc nonempty_if del: if_split
      split: option.split)

lemma nest_Verbose: "Verbose (scopeFrom (nest ctx ss)) = narrates (rev ss) (Verbose (scopeFrom ctx))"
  by (induction ss rule: rev_induct) (simp_all add: nest_snoc)

text \<open>
  nested scopes. Whatever the number of nested \<open>With\<close> calls, each field of the resulting scope is
  decided by the innermost scope that sets it, narration by the innermost scope that is Quiet or
  Verbose, and the surrounding context only by fields no scope sets.
\<close>

theorem nested_scopes_resolve_inside_out:
  "Output (scopeFrom (nest ctx ss)) = innermost Output ss (Output (scopeFrom ctx)) \<and>
   Observer (scopeFrom (nest ctx ss)) = innermost Observer ss (Observer (scopeFrom ctx)) \<and>
   nonempty (Client (scopeFrom (nest ctx ss)))
     = innermost (\<lambda>s. nonempty (Client s)) ss (nonempty (Client (scopeFrom ctx))) \<and>
   nonempty (Identities (scopeFrom (nest ctx ss)))
     = innermost (\<lambda>s. nonempty (Identities s)) ss (nonempty (Identities (scopeFrom ctx))) \<and>
   Verbose (scopeFrom (nest ctx ss)) = narrates (rev ss) (Verbose (scopeFrom ctx))"
  by (intro conjI nest_Output nest_Observer nest_Client nest_Identities nest_Verbose)

lemma Remaining_bounds:
  "0 \<le> fallback \<Longrightarrow> 0 \<le> Remaining now ctx fallback"
  by (auto simp: Remaining_def Let_def split: option.splits)

lemma ParticipantIdentityAt_Inr:
  "ParticipantIdentityAt ctx i = Inr p \<longleftrightarrow>
     0 \<le> i \<and> i < int (length (Identities (scopeFrom ctx))) \<and>
     Identities (scopeFrom ctx) ! nat i = Some p"
  by (auto simp: ParticipantIdentityAt_def Let_def not_le split: option.splits)

end
