(* ===== verification/Mplex.thy ===== *)
theory Mplex
  imports Varint Session
begin

text \<open>
  Package mplex (mplex.go): frame encoding in \<open>send\<close> with its outbound cap, the incremental \<open>parse\<close>,
  and \<open>Drain\<close>. Dialling is in theory \<open>Mplex_Dial\<close>, except for the choice of the cap. The connection's \<open>Write\<close> is a function from the frame to the count and error it returns;
  a \<open>Read\<close> is the chunk it delivered and its error.
\<close>

section \<open>State and frames\<close>

definition MaxSend :: u64 where "MaxSend = push_bit 20 64"
definition MaxFrame :: u64 where "MaxFrame = push_bit 20 1"

definition FlagOpen :: u64 where "FlagOpen = 0"
definition FlagDataInitiator :: u64 where "FlagDataInitiator = 2"
definition FlagCloseInit :: u64 where "FlagCloseInit = 4"
definition FlagResetInit :: u64 where "FlagResetInit = 6"

record frame =
  Stream :: u64
  Flag :: u64
  Payload :: bytes

definition no_frame :: frame where "no_frame = \<lparr>Stream = 0, Flag = 0, Payload = []\<rparr>"

record mconn =
  sent :: u64
  received :: u64
  limit :: u64
  buf :: bytes

text \<open>The cap \<open>DialWithIdentity\<close> gives the new connection.\<close>

definition dial_conn :: "u64 \<Rightarrow> mconn" where
  "dial_conn maxSend =
     (let maxSend = (if maxSend = 0 \<or> MaxSend < maxSend then MaxSend else maxSend)
      in \<lparr>sent = 0, received = 0, limit = maxSend, buf = []\<rparr>)"

section \<open>Sending\<close>

definition ProtocolID :: string where "ProtocolID = ''/mplex/6.7.0''"

definition encode_frame :: "u64 \<Rightarrow> u64 \<Rightarrow> bytes \<Rightarrow> bytes" where
  "encode_frame sid flag payload =
     put_uvarint (push_bit 3 sid OR flag) @ put_uvarint (of_nat (length payload)) @ payload"

text \<open>
  The result is the error, the connection after the call, the write reported to the observer and the
  bytes the connection accepted.
\<close>

definition send ::
    "(bytes \<Rightarrow> int \<times> goerr option) \<Rightarrow> mconn \<Rightarrow> u64 \<Rightarrow> u64 \<Rightarrow> bytes
       \<Rightarrow> goerr option \<times> mconn \<times> write_event list \<times> bytes" where
  "send conn_write c sid flag payload =
     (if unat MaxFrame < length payload
      then (Some (Errorf ''mplex payload of %d bytes exceeds %d''
                    [VNat (length payload), VNat (unat MaxFrame)]), c, [], [])
      else if push_bit 60 1 < sid
      then (Some (Errorf ''mplex stream id is out of range'' []), c, [], [])
      else
        (let frame = encode_frame sid flag payload
         in if limit c < sent c + of_nat (length frame)
            then (Some (Errorf ''outbound cap of %d bytes reached'' [VNat (unat (limit c))]), c, [], [])
            else
              (let observed = (write_of ''mplex'')\<lparr>w_Code := flag, w_ProtocolID := ProtocolID,
                                                  w_Payload := frame, w_Raw := True\<rparr>;
                   (n, err) = conn_write frame
               in (err, c\<lparr>sent := sent c + of_int n\<rparr>, [observed], take (nat n) frame))))"

text \<open>The deadline \<open>send\<close> sets before it writes, \<open>ctx\<close> being the context of the dial.\<close>

definition write_deadline :: "int \<Rightarrow> ('w, 'o, 'k) go_ctx option \<Rightarrow> int" where
  "write_deadline now ctx = now + Remaining now ctx (30 * 10 ^ 9)"

type_synonym send_result = "goerr option \<times> mconn \<times> write_event list \<times> bytes"

definition Open :: "(bytes \<Rightarrow> int \<times> goerr option) \<Rightarrow> mconn \<Rightarrow> u64 \<Rightarrow> bytes \<Rightarrow> send_result" where
  "Open w c sid name = send w c sid FlagOpen name"

definition Data :: "(bytes \<Rightarrow> int \<times> goerr option) \<Rightarrow> mconn \<Rightarrow> u64 \<Rightarrow> bytes \<Rightarrow> send_result" where
  "Data w c sid payload = send w c sid FlagDataInitiator payload"

definition Close :: "(bytes \<Rightarrow> int \<times> goerr option) \<Rightarrow> mconn \<Rightarrow> u64 \<Rightarrow> send_result" where
  "Close w c sid = send w c sid FlagCloseInit []"

definition Reset :: "(bytes \<Rightarrow> int \<times> goerr option) \<Rightarrow> mconn \<Rightarrow> u64 \<Rightarrow> send_result" where
  "Reset w c sid = send w c sid FlagResetInit []"

definition Frame ::
    "(bytes \<Rightarrow> int \<times> goerr option) \<Rightarrow> mconn \<Rightarrow> u64 \<Rightarrow> u64 \<Rightarrow> bytes
       \<Rightarrow> goerr option \<times> mconn \<times> write_event list \<times> bytes" where
  "Frame w c sid flag payload =
     (if FlagResetInit < flag
      then (Some (Errorf ''mplex flag %d is not defined'' [VNat (unat flag)]), c, [], [])
      else send w c sid flag payload)"

section \<open>Reading\<close>

text \<open>The second component is the number of bytes used, 0 when no frame could be taken.\<close>

definition parse :: "bytes \<Rightarrow> frame \<times> nat" where
  "parse b =
     (let (header, n1) = uvarint b
      in if n1 \<le> 0 then (no_frame, 0)
         else
           (let (size, n2) = uvarint (drop (nat n1) b)
            in if n2 \<le> 0 \<or> MaxFrame < size \<or> length b - nat n1 - nat n2 < unat size
               then (no_frame, 0)
               else
                 (let start = nat n1 + nat n2
                  in (\<lparr>Stream = drop_bit 3 header, Flag = header AND 7,
                       Payload = take (unat size) (drop start b)\<rparr>,
                      start + unat size))))"

lemma parse_used_bounds:
  assumes "parse b = (f, n)" "0 < n"
  shows "n \<le> length b"
proof -
  obtain h n1 where u1: "uvarint b = (h, n1)" by (cases "uvarint b")
  obtain s n2 where u2: "uvarint (drop (nat n1) b) = (s, n2)" by (cases "uvarint (drop (nat n1) b)")
  have pos: "0 < n1" "0 < n2" "n = nat n1 + nat n2 + unat s"
      and room: "unat s \<le> length b - nat n1 - nat n2"
    using assms by (auto simp: parse_def u1 u2 Let_def split: if_splits)
  moreover have "nat n1 + nat n2 \<le> length b"
    using add_mono [of "nat n1" "nat n1" "nat n2" "length b - nat n1"]
      uvarint_bounds [OF u1 pos(1)] uvarint_bounds [OF u2 pos(2)] by simp
  ultimately show ?thesis by linarith
qed

text \<open>The inner loop of \<open>Drain\<close>: all the frames at the front of the buffer, and what is left.\<close>

function take_frames :: "bytes \<Rightarrow> frame list \<times> bytes" where
  "take_frames b =
     (let (f, used) = parse b
      in if used = 0 then ([], b)
         else (let (fs, rest) = take_frames (drop used b) in (f # fs, rest)))"
  by pat_completeness auto
termination
proof (relation "measure length", simp)
  fix b x f used
  assume "x = parse b" "(f, used) = x" "used \<noteq> 0"
  then have "parse b = (f, used)" "0 < used" by auto
  from parse_used_bounds [OF this] this(2)
  show "(drop used b, b) \<in> measure length" by simp
qed

declare take_frames.simps [simp del]

text \<open>
  \<open>Drain\<close> over the results of the successive reads; \<open>None\<close> when they end without an error, which the
  read deadline rules out. A timeout is the normal end.
\<close>

fun drain :: "mconn \<Rightarrow> (bytes \<times> goerr option) list \<Rightarrow> (frame list \<times> goerr option \<times> mconn) option" where
  "drain c [] = None"
| "drain c ((chunk, err) # reads) =
     (let c1 = c\<lparr>received := received c + of_nat (length chunk)\<rparr>;
          (frames, rest) = take_frames (buf c1 @ chunk);
          c2 = c1\<lparr>buf := rest\<rparr>
      in case err of
           Some e \<Rightarrow> Some (frames, if is_timeout e then None else Some e, c2)
         | None \<Rightarrow>
             (case drain c2 reads of
                None \<Rightarrow> None
              | Some (frames', r, c3) \<Rightarrow> Some (frames @ frames', r, c3)))"

text \<open>The read deadline that \<open>Drain\<close> sets, and its result; \<open>reads\<close> is what the peer and that deadline make of the reads.\<close>

definition Drain ::
    "int \<Rightarrow> ('w, 'o, 'k) go_ctx option \<Rightarrow> int \<Rightarrow> mconn \<Rightarrow> (int \<Rightarrow> (bytes \<times> goerr option) list) \<Rightarrow>
     int \<times> (frame list \<times> goerr option \<times> mconn) option" where
  "Drain now ctx d c reads =
     (let d = min d (Remaining now ctx d); deadline = now + d in (deadline, drain c (reads deadline)))"

lemma Drain_deadline: "fst (Drain now ctx d c reads) \<le> now + d"
  by (simp add: Drain_def Let_def)

lemma Drain_within_context:
  "ctx = Some c' \<Longrightarrow> cdeadline c' = Some t \<Longrightarrow> now \<le> t \<Longrightarrow> fst (Drain now ctx d c reads) \<le> t"
  by (simp add: Drain_def Let_def Remaining_def min_def)

section \<open>Round trip\<close>

lemma header_fields:
  fixes sid flag :: u64
  assumes "sid \<le> push_bit 60 1" "flag \<le> 7"
  shows "drop_bit 3 (push_bit 3 sid OR flag) = sid" "(push_bit 3 sid OR flag) AND 7 = flag"
proof -
  have f: "flag = take_bit 3 flag"
    using assms(2) by (simp add: word_le_nat_alt word_unat_eq_iff unsigned_take_bit_eq take_bit_nat_eq_self)
  have i: "sid = take_bit 61 sid"
    using assms(1) by (simp add: word_le_nat_alt word_unat_eq_iff unsigned_take_bit_eq take_bit_nat_eq_self)
  have m: "(7 :: u64) = mask 3" by (simp add: mask_eq_exp_minus_1)
  show "drop_bit 3 (push_bit 3 sid OR flag) = sid"
    by (subst f, subst (1 2) i) (rule bit_word_eqI, auto simp: bit_simps)
  show "(push_bit 3 sid OR flag) AND 7 = flag"
    by (subst (1 2) f, unfold m) (rule bit_word_eqI, auto simp: bit_simps)
qed

definition sendable :: "frame \<Rightarrow> bool" where
  "sendable f \<longleftrightarrow> Stream f \<le> push_bit 60 1 \<and> Flag f \<le> 7 \<and> length (Payload f) \<le> unat MaxFrame"

definition frame_bytes :: "frame \<Rightarrow> bytes" where
  "frame_bytes f = encode_frame (Stream f) (Flag f) (Payload f)"

lemma parse_frame:
  assumes "sendable f"
  shows "parse (frame_bytes f @ rest) = (f, length (frame_bytes f))"
proof -
  let ?h = "push_bit 3 (Stream f) OR Flag f" and ?n = "of_nat (length (Payload f)) :: u64"
  have n: "unat ?n = length (Payload f)" "\<not> MaxFrame < ?n"
    using assms
    by (simp_all add: sendable_def MaxFrame_def word_less_nat_alt unsigned_of_nat take_bit_nat_eq_self)
  have h: "drop_bit 3 ?h = Stream f" "?h AND 7 = Flag f"
    using assms by (simp_all only: sendable_def header_fields)
  show ?thesis
    using n by (simp add: parse_def frame_bytes_def encode_frame_def h del: drop_bit_or)
qed

definition take_frame :: "bytes \<Rightarrow> (frame \<times> bytes) option" where
  "take_frame b = (let (f, n) = parse b in if n = 0 then None else Some (f, drop n b))"

lemma frame_bytes_not_Nil [simp]: "frame_bytes f \<noteq> []"
  by (simp add: frame_bytes_def encode_frame_def)

interpretation frames: stream_codec frame_bytes take_frame sendable
  by unfold_locales (simp add: take_frame_def parse_frame)

lemma take_frames_Nil [simp]: "take_frames [] = ([], [])"
  by (subst take_frames.simps) (simp add: parse_def uvarint_def)

lemma take_frames_step:
  "parse b = (f, n) \<Longrightarrow> 0 < n \<Longrightarrow>
     take_frames b = (f # fst (take_frames (drop n b)), snd (take_frames (drop n b)))"
  by (subst take_frames.simps) (simp split: prod.splits)

lemma take_frames_stop: "parse b = (f, 0) \<Longrightarrow> take_frames b = ([], b)"
  by (subst take_frames.simps) simp

lemma take_frames_Cons:
  assumes "sendable f"
  shows "take_frames (frame_bytes f @ rest) = (f # fst (take_frames rest), snd (take_frames rest))"
  using take_frames_step [OF parse_frame [OF assms]] by simp

lemma take_frames_concat:
  "\<forall>f \<in> set fs. sendable f \<Longrightarrow> take_frames (concat (map frame_bytes fs)) = (fs, [])"
  by (induction fs) (simp_all add: take_frames_Cons)

section \<open>Reading does not depend on the chunks\<close>

lemma parse_extend:
  assumes "parse b = (f, n)" "0 < n"
  shows "parse (b @ c) = (f, n)"
proof -
  obtain h n1 where u1: "uvarint b = (h, n1)" by (cases "uvarint b")
  obtain s n2 where u2: "uvarint (drop (nat n1) b) = (s, n2)" by (cases "uvarint (drop (nat n1) b)")
  have pos: "0 < n1" "0 < n2" and size: "\<not> MaxFrame < s"
      and room: "unat s \<le> length b - nat n1 - nat n2"
      and out: "f = \<lparr>Stream = drop_bit 3 h, Flag = h AND 7, Payload = take (unat s) (drop (nat n1 + nat n2) b)\<rparr>"
        "n = nat n1 + nat n2 + unat s"
    using assms by (auto simp: parse_def u1 u2 Let_def split: if_splits)
  have b1: "nat n1 \<le> length b" and b2: "nat n2 \<le> length b - nat n1"
    using uvarint_bounds [OF u1 pos(1)] uvarint_bounds [OF u2 pos(2)] by simp_all
  have u1': "uvarint (b @ c) = (h, n1)" using uvarint_extend [OF u1] pos by simp
  have u2': "uvarint (drop (nat n1) (b @ c)) = (s, n2)"
    using uvarint_extend [OF u2] pos b1 by simp
  have fits: "nat n1 + nat n2 + unat s \<le> length b" using room b1 b2 by linarith
  then have "\<not> length (b @ c) - nat n1 - nat n2 < unat s" by simp
  moreover have "take (unat s) (drop (nat n1 + nat n2) (b @ c)) = take (unat s) (drop (nat n1 + nat n2) b)"
    using fits by simp
  ultimately show ?thesis
    using pos size out by (simp add: parse_def u1' u2' Let_def del: drop_append)
qed

lemma take_frames_append:
  "take_frames (b @ c) =
     (fst (take_frames b) @ fst (take_frames (snd (take_frames b) @ c)), snd (take_frames (snd (take_frames b) @ c)))"
proof (induction b rule: take_frames.induct)
  case (1 b)
  obtain f n where p: "parse b = (f, n)" by (cases "parse b")
  show ?case
  proof (cases "n = 0")
    case True
    then show ?thesis using take_frames_stop [of b f] p by simp
  next
    case False
    then have "0 < n" by simp
    note b = take_frames_step [OF p this] and bc = take_frames_step [OF parse_extend [OF p this] this]
    have "drop n (b @ c) = drop n b @ c" using parse_used_bounds [OF p \<open>0 < n\<close>] by simp
    with b bc 1 [OF p [symmetric] refl False] show ?thesis by simp
  qed
qed

lemma drain_chunks:
  "drain c (map (\<lambda>k. (k, None)) chunks @ (final, Some e) # later) =
     (let input = concat chunks @ final; (frames, rest) = take_frames (buf c @ input)
      in Some (frames, if is_timeout e then None else Some e,
               c\<lparr>received := received c + of_nat (length input), buf := rest\<rparr>))"
proof (induction chunks arbitrary: c)
  case Nil
  show ?case by (simp add: Let_def split: prod.splits)
next
  case (Cons k ks)
  obtain fs rest where 1: "take_frames (buf c @ k) = (fs, rest)" by (cases "take_frames (buf c @ k)")
  obtain gs rest' where 2: "take_frames (rest @ concat ks @ final) = (gs, rest')"
    by (cases "take_frames (rest @ concat ks @ final)")
  have 3: "take_frames (buf c @ k @ concat ks @ final) = (fs @ gs, rest')"
    using take_frames_append [of "buf c @ k" "concat ks @ final"] 1 2 by simp
  show ?case by (simp add: Cons.IH 1 2 3 Let_def add.assoc)
qed

text \<open>
  C1: \<open>Drain\<close> returns the frames of the whole byte stream it saw, whatever chunks the reads cut it into: the
  result is the one of a single pass of \<open>parse\<close> over the buffered bytes followed by every chunk, what is
  left is buffered, every byte is counted, and only a timeout ends without an error.
\<close>

theorem drain_chunk_independent:
  "drain c (map (\<lambda>k. (k, None)) chunks @ (final, Some e) # later) =
     (let input = concat chunks @ final; (frames, rest) = take_frames (buf c @ input)
      in Some (frames, if is_timeout e then None else Some e,
               c\<lparr>received := received c + of_nat (length input), buf := rest\<rparr>))"
  by (rule drain_chunks)

section \<open>Sequences of sends\<close>

text \<open>The frames a caller submits one after the other over a connection that accepts every write.\<close>

fun submit :: "mconn \<Rightarrow> frame list \<Rightarrow> (frame \<times> goerr option) list \<times> mconn \<times> bytes" where
  "submit c [] = ([], c, [])"
| "submit c (f # fs) =
     (let (err, c1, obs, out) = Frame (\<lambda>b. (int (length b), None)) c (Stream f) (Flag f) (Payload f);
          (log, c2, wire) = submit c1 fs
      in ((f, err) # log, c2, out @ wire))"

definition accepted :: "(frame \<times> goerr option) list \<Rightarrow> frame list" where
  "accepted log = map fst (filter (\<lambda>(f, err). err = None) log)"

lemma Frame_full_write:
  assumes "Frame (\<lambda>b. (int (length b), None)) c (Stream f) (Flag f) (Payload f) = (err, c', obs, out)"
  shows "err = None \<Longrightarrow> sendable f \<and> out = frame_bytes f"
    and "err \<noteq> None \<Longrightarrow> out = []"
  using assms
  by (auto simp: Frame_def send_def sendable_def frame_bytes_def FlagResetInit_def Let_def word_le_nat_alt
        word_less_nat_alt split: if_splits)

lemma submit_wire:
  "submit c fs = (log, c', wire) \<Longrightarrow>
     (\<forall>f \<in> set (accepted log). sendable f) \<and> wire = concat (map frame_bytes (accepted log))"
proof (induction fs arbitrary: c log c' wire)
  case (Cons f fs)
  obtain err c1 obs out where F: "Frame (\<lambda>b. (int (length b), None)) c (Stream f) (Flag f) (Payload f) = (err, c1, obs, out)"
    by (metis surj_pair)
  obtain log' c2 wire' where S: "submit c1 fs = (log', c2, wire')" by (metis surj_pair)
  show ?case
    using Cons.prems Cons.IH [OF S] Frame_full_write [OF F]
    by (cases err) (auto simp: F S accepted_def)
qed (simp add: accepted_def)

text \<open>
  C2: What a peer running \<open>parse\<close> in a loop reads from the wire is exactly the list of frames whose
  \<open>Frame\<close> call returned no error, in order and with nothing left over, whatever frames the caller submitted
  (undefined flags, oversized payloads, stream ids out of range and frames over the cap put no byte on it).
\<close>

theorem submitted_frames_arrive:
  "(let (log, c', wire) = submit c fs in take_frames wire) =
     (let (log, c', wire) = submit c fs in (accepted log, []))"
proof -
  obtain log c' wire where S: "submit c fs = (log, c', wire)" by (metis surj_pair)
  show ?thesis using submit_wire [OF S] take_frames_concat [of "accepted log"] by (simp add: S)
qed

section \<open>The outbound cap\<close>

text \<open>The \<open>net.Conn\<close> contract: a write reports between 0 and \<open>len(p)\<close> bytes.\<close>

definition conn_write_ok :: "(bytes \<Rightarrow> int \<times> goerr option) \<Rightarrow> bool" where
  "conn_write_ok w \<longleftrightarrow> (\<forall>b. 0 \<le> fst (w b) \<and> fst (w b) \<le> int (length b))"

text \<open>The life of a connection: any operation, over any behaviour of the writes, next to the bytes on the wire.\<close>

inductive mplex_reach :: "u64 \<Rightarrow> mconn \<Rightarrow> bytes \<Rightarrow> bool" for maxSend where
  dialled: "mplex_reach maxSend (dial_conn maxSend) []"
| opened: "mplex_reach maxSend c wire \<Longrightarrow> conn_write_ok w \<Longrightarrow>
     Open w c sid name = (err, c', obs, out) \<Longrightarrow> mplex_reach maxSend c' (wire @ out)"
| data: "mplex_reach maxSend c wire \<Longrightarrow> conn_write_ok w \<Longrightarrow>
     Data w c sid payload = (err, c', obs, out) \<Longrightarrow> mplex_reach maxSend c' (wire @ out)"
| closed: "mplex_reach maxSend c wire \<Longrightarrow> conn_write_ok w \<Longrightarrow>
     Close w c sid = (err, c', obs, out) \<Longrightarrow> mplex_reach maxSend c' (wire @ out)"
| reset: "mplex_reach maxSend c wire \<Longrightarrow> conn_write_ok w \<Longrightarrow>
     Reset w c sid = (err, c', obs, out) \<Longrightarrow> mplex_reach maxSend c' (wire @ out)"
| framed: "mplex_reach maxSend c wire \<Longrightarrow> conn_write_ok w \<Longrightarrow>
     Frame w c sid flag payload = (err, c', obs, out) \<Longrightarrow> mplex_reach maxSend c' (wire @ out)"
| drained: "mplex_reach maxSend c wire \<Longrightarrow> drain c reads = Some (fs, err, c') \<Longrightarrow> mplex_reach maxSend c' wire"

definition cap_ok :: "mconn \<Rightarrow> bytes \<Rightarrow> bool" where
  "cap_ok c wire \<longleftrightarrow>
     unat (sent c) = length wire \<and> length wire \<le> unat (limit c) \<and> limit c \<le> MaxSend"

lemma cap_sum_no_wrap:
  fixes s l :: u64
  assumes "unat s \<le> unat l" "l \<le> MaxSend" "n < 2 ^ 32"
  shows "unat (s + of_nat n) = unat s + n"
proof -
  have "unat s + n < 2 ^ 64" using assms by (simp add: word_le_nat_alt MaxSend_def)
  then show ?thesis
    using assms(3) by (simp add: unat_word_ariths unsigned_of_nat take_bit_nat_eq_self)
qed

lemma length_encode_frame_le: "length payload \<le> unat MaxFrame \<Longrightarrow> length (encode_frame sid flag payload) < 2 ^ 32"
  using length_put_uvarint [of "push_bit 3 sid OR flag"] length_put_uvarint [of "of_nat (length payload)"]
  by (simp add: encode_frame_def MaxFrame_def)

lemma send_cap:
  assumes inv: "cap_ok c wire" and w: "conn_write_ok w" and s: "send w c sid flag payload = (err, c', obs, out)"
  shows "cap_ok c' (wire @ out)"
proof -
  let ?f = "encode_frame sid flag payload"
  consider "c' = c" "out = []"
    | n e where "w ?f = (n, e)" "c' = c\<lparr>sent := sent c + of_int n\<rparr>" "out = take (nat n) ?f"
        "length payload \<le> unat MaxFrame" "\<not> limit c < sent c + of_nat (length ?f)"
    using s by (cases "w ?f") (auto simp: send_def Let_def split: if_splits)
  then show ?thesis
  proof cases
    case 1
    then show ?thesis using inv by simp
  next
    case (2 n e)
    have n: "0 \<le> n" "nat n \<le> length ?f" using w 2(1) unfolding conn_write_ok_def by (smt (verit) fst_conv nat_le_iff)+
    have u: "unat (sent c + of_nat k) = unat (sent c) + k" if "k \<le> length ?f" for k
      using cap_sum_no_wrap [of "sent c" "limit c" k] inv that length_encode_frame_le [OF 2(4), of sid flag]
      by (simp add: cap_ok_def)
    have i: "of_int n = (of_nat (nat n) :: u64)" using n(1) by simp
    have room: "unat (sent c) + length ?f \<le> unat (limit c)"
      using 2(5) u [of "length ?f"] by (simp only: word_less_nat_alt not_less)
    have out: "length out = nat n" "limit c' = limit c" "sent c' = sent c + of_nat (nat n)"
      by (simp only: 2(3) length_take min_absorb2 [OF n(2)]) (simp_all add: 2(2) i)
    have "unat (sent c') = length (wire @ out)" "length (wire @ out) \<le> unat (limit c')" "limit c' \<le> MaxSend"
      using inv u [OF n(2)] room n(2) out by (simp_all only: cap_ok_def length_append)
    then show ?thesis by (simp only: cap_ok_def simp_thms)
  qed
qed

lemma drain_keeps: "drain c reads = Some (fs, err, c') \<Longrightarrow> sent c' = sent c \<and> limit c' = limit c"
proof (induction c reads arbitrary: fs err c' rule: drain.induct)
  case (2 c chunk e reads)
  obtain gs rest where t: "take_frames (buf c @ chunk) = (gs, rest)" by (cases "take_frames (buf c @ chunk)")
  let ?c = "c\<lparr>received := received c + of_nat (length chunk), buf := rest\<rparr>"
  show ?case
  proof (cases e)
    case (Some x)
    have "c' = ?c" using 2(2) unfolding drain.simps Let_def Some by (simp add: t)
    then show ?thesis by simp
  next
    case None
    then obtain fs' err' where "drain ?c reads = Some (fs', err', c')"
      using 2(2) by (auto simp: t Let_def split: option.splits)
    with 2(1) [OF refl _ refl refl None, of gs rest] t show ?thesis by simp
  qed
qed simp

lemmas mplex_ops = Open_def Data_def Close_def Reset_def

lemma Frame_cap:
  "cap_ok c wire \<Longrightarrow> conn_write_ok w \<Longrightarrow> Frame w c sid flag payload = (err, c', obs, out) \<Longrightarrow> cap_ok c' (wire @ out)"
  using send_cap [of c wire w sid flag payload err c' obs out]
  by (auto simp: Frame_def split: if_splits)

text \<open>
  C36: The outbound cap. Through any sequence of opens, data, closes, resets, raw frames and drains, over any
  connection that keeps the \<open>net.Conn\<close> contract (short and failed writes included), \<open>Sent\<close> is the exact
  number of bytes on the wire, it never wraps, and it stays within the connection's limit, itself never over 64 MiB.
\<close>

theorem outbound_cap:
  "mplex_reach maxSend c wire \<Longrightarrow> cap_ok c wire"
proof (induction rule: mplex_reach.induct)
  case dialled
  show ?case by (simp add: cap_ok_def dial_conn_def Let_def MaxSend_def word_less_nat_alt word_le_nat_alt)
next
  case (drained c wire reads fs err c')
  then show ?case using drain_keeps [OF drained(2)] by (simp add: cap_ok_def)
qed (auto simp: mplex_ops intro: send_cap Frame_cap)

lemma open_short_write:
  "mplex_reach 8
     (fst (snd (Open (\<lambda>b. (min 2 (int (length b)), Some ErrShortWrite)) (dial_conn 8) 1 [97]))) ([] @ [8, 1])"
proof (rule mplex_reach.opened [OF mplex_reach.dialled])
  show "conn_write_ok (\<lambda>b. (min 2 (int (length b)), Some ErrShortWrite))" by (simp add: conn_write_ok_def)
  show "Open (\<lambda>b. (min 2 (int (length b)), Some ErrShortWrite)) (dial_conn 8) 1 [97] =
     (Some ErrShortWrite, fst (snd (Open (\<lambda>b. (min 2 (int (length b)), Some ErrShortWrite)) (dial_conn 8) 1 [97])),
      fst (snd (snd (Open (\<lambda>b. (min 2 (int (length b)), Some ErrShortWrite)) (dial_conn 8) 1 [97]))), [8, 1])"
    by (simp add: Open_def send_def dial_conn_def encode_frame_def put_uvarint.simps MaxFrame_def MaxSend_def FlagOpen_def)
qed

theorem outbound_cap_witness:
  "cap_ok (fst (snd (Open (\<lambda>b. (min 2 (int (length b)), Some ErrShortWrite)) (dial_conn 8) 1 [97]))) [8, 1]"
  using outbound_cap [OF open_short_write] by simp

section \<open>A frame over the limit\<close>

text \<open>
  Successive calls of \<open>Drain\<close>: the chunks of the reads of each, then the bytes and the error of its last read. The frames of
  all calls, and the connection after them.
\<close>

fun drains :: "mconn \<Rightarrow> (bytes list \<times> bytes \<times> goerr) list \<Rightarrow> (frame list \<times> mconn) option" where
  "drains c [] = Some ([], c)"
| "drains c ((chunks, final, e) # calls) =
     (case drain c (map (\<lambda>k. (k, None)) chunks @ [(final, Some e)]) of
        None \<Rightarrow> None
      | Some (fs, _, c) \<Rightarrow> map_option (\<lambda>(gs, c). (fs @ gs, c)) (drains c calls))"

definition arrived :: "(bytes list \<times> bytes \<times> goerr) list \<Rightarrow> bytes" where
  "arrived calls = concat (map (\<lambda>(chunks, final, _). concat chunks @ final) calls)"

lemma take_frames_rest: "take_frames (snd (take_frames b)) = ([], snd (take_frames b))"
proof (induction b rule: take_frames.induct)
  case (1 b)
  obtain f n where p: "parse b = (f, n)" by (cases "parse b")
  show ?case
  proof (cases "n = 0")
    case True
    then show ?thesis using take_frames_stop [of b f] p by simp
  next
    case False
    then show ?thesis using take_frames_step [OF p] 1 [OF p [symmetric] refl False] by simp
  qed
qed

lemma drains_take:
  assumes "take_frames (buf c) = ([], buf c)"
  shows "drains c calls = Some (fst (take_frames (buf c @ arrived calls)),
    c\<lparr>received := received c + of_nat (length (arrived calls)), buf := snd (take_frames (buf c @ arrived calls))\<rparr>)"
  using assms
proof (induction calls arbitrary: c)
  case Nil
  then show ?case by (simp add: arrived_def)
next
  case (Cons call calls)
  obtain chunks final e where call: "call = (chunks, final, e)" by (metis prod_cases3)
  let ?in = "concat chunks @ final"
  let ?c = "c\<lparr>received := received c + of_nat (length ?in), buf := snd (take_frames (buf c @ ?in))\<rparr>"
  have d: "\<exists>r. drain c (map (\<lambda>k. (k, None)) chunks @ [(final, Some e)]) = Some (fst (take_frames (buf c @ ?in)), r, ?c)"
    using drain_chunks [of c chunks final e "[]"] by (simp add: Let_def split_beta)
  have a: "arrived (call # calls) = ?in @ arrived calls" by (simp add: arrived_def call)
  have "drains ?c calls = Some (fst (take_frames (buf ?c @ arrived calls)),
      ?c\<lparr>received := received ?c + of_nat (length (arrived calls)), buf := snd (take_frames (buf ?c @ arrived calls))\<rparr>)"
    by (rule Cons.IH) (simp add: take_frames_rest)
  then show ?case
    using d take_frames_append [of "buf c @ ?in" "arrived calls"] by (auto simp: call a [unfolded call] add.assoc)
qed

text \<open>
  C38: An incoming frame over 1 MiB is never consumed. Whatever sequence of \<open>Drain\<close> calls reads a stream of frames within
  the limit, then a frame header that announces more than \<open>MaxFrame\<close> bytes, and then anything at all, in whatever chunks
  and with whatever errors at the ends of the calls: they deliver the frames before that header and none after it, and the
  header and every byte behind it stay in the buffer.
\<close>

theorem oversized_frame_blocks_drain:
  assumes "buf c = []" "\<forall>f \<in> set fs. sendable f" "MaxFrame < announced"
    and "arrived calls = concat (map frame_bytes fs) @ put_uvarint header @ put_uvarint announced @ later"
  shows "drains c calls =
    Some (fs, c\<lparr>received := received c + of_nat (length (arrived calls)), buf := put_uvarint header @ put_uvarint announced @ later\<rparr>)"
proof -
  have "take_frames (put_uvarint header @ put_uvarint announced @ later) = ([], put_uvarint header @ put_uvarint announced @ later)"
    using assms(3) by (intro take_frames_stop [where f = no_frame]) (simp add: parse_def)
  then have "take_frames (arrived calls) = (fs, put_uvarint header @ put_uvarint announced @ later)"
    using take_frames_append [of "concat (map frame_bytes fs)"] take_frames_concat [OF assms(2)] by (simp add: assms(4))
  then show ?thesis using drains_take [of c calls] assms(1) by simp
qed

text \<open>A frame, the header of one of 2 MiB and, in a second call, a frame that is never delivered.\<close>

lemma oversized_frame_blocks_drain_witness:
  "map_option fst (drains (dial_conn 0)
     [([frame_bytes \<lparr>Stream = 1, Flag = 2, Payload = [7]\<rparr> @ put_uvarint 8], put_uvarint 2097152, DeadlineExceeded),
      ([], frame_bytes \<lparr>Stream = 1, Flag = 2, Payload = [9]\<rparr>, EOF)]) = Some [\<lparr>Stream = 1, Flag = 2, Payload = [7]\<rparr>]"
proof -
  let ?f = "\<lparr>Stream = 1, Flag = 2, Payload = [7]\<rparr>" and ?g = "\<lparr>Stream = 1, Flag = 2, Payload = [9]\<rparr>"
  let ?calls = "[([frame_bytes ?f @ put_uvarint 8], put_uvarint 2097152, DeadlineExceeded), ([], frame_bytes ?g, EOF)]"
  have "buf (dial_conn 0) = []" "\<forall>f \<in> set [?f]. sendable f" "MaxFrame < (2097152 :: u64)"
    "arrived ?calls = concat (map frame_bytes [?f]) @ put_uvarint 8 @ put_uvarint 2097152 @ frame_bytes ?g"
    by (simp_all add: dial_conn_def sendable_def MaxFrame_def arrived_def)
  from oversized_frame_blocks_drain [OF this] show ?thesis by simp
qed

end
