(* ===== verification/Go_Strings.thy ===== *)
theory Go_Strings
  imports Base
begin

text \<open>
  The parts of packages strings, strconv and fmt that the code calls, on Go strings as lists of bytes
  (a \<open>char\<close> is a byte, so a rune outside ASCII is its UTF-8 sequence). Trimming and splitting on white
  space know every Unicode space. Case mapping is exact on ASCII and on the two runes that map into it
  (the Kelvin sign and the dotted capital I); the code only looks for ASCII in the result.
\<close>

section \<open>Searching\<close>

definition has_prefix :: "string \<Rightarrow> string \<Rightarrow> bool" where
  "has_prefix p s \<longleftrightarrow> take (length p) s = p"

definition has_suffix :: "string \<Rightarrow> string \<Rightarrow> bool" where
  "has_suffix p s \<longleftrightarrow> has_prefix (rev p) (rev s)"

definition trim_prefix :: "string \<Rightarrow> string \<Rightarrow> string" where
  "trim_prefix p s = (if has_prefix p s then drop (length p) s else s)"

fun contains :: "string \<Rightarrow> string \<Rightarrow> bool" where
  "contains p [] \<longleftrightarrow> p = []"
| "contains p (c # s) \<longleftrightarrow> has_prefix p (c # s) \<or> contains p s"

text \<open>\<open>strings.Split\<close> by one byte; never empty.\<close>

fun split_on :: "char \<Rightarrow> string \<Rightarrow> string list" where
  "split_on d [] = [[]]"
| "split_on d (c # s) =
     (if c = d then [] # split_on d s
      else (case split_on d s of [] \<Rightarrow> [[c]] | x # xs \<Rightarrow> (c # x) # xs))"

definition trim_left :: "char \<Rightarrow> string \<Rightarrow> string" where
  "trim_left c s = dropWhile (\<lambda>x. x = c) s"

definition trim_right :: "char \<Rightarrow> string \<Rightarrow> string" where
  "trim_right c s = rev (trim_left c (rev s))"

definition trim :: "char \<Rightarrow> string \<Rightarrow> string" where
  "trim c s = trim_right c (trim_left c s)"

lemma has_prefix_append [simp]: "has_prefix p (p @ s)"
  by (simp add: has_prefix_def)

lemma has_prefix_iff: "has_prefix p s \<longleftrightarrow> (\<exists>r. s = p @ r)"
  by (metis append_eq_conv_conj has_prefix_def)

lemma infix_Cons_iff:
  "(\<exists>a b. c # s = a @ p @ b) \<longleftrightarrow> (\<exists>b. c # s = p @ b) \<or> (\<exists>a b. s = a @ p @ b)"
  (is "?l \<longleftrightarrow> ?r")
proof
  assume ?l
  then obtain a b where "c # s = a @ p @ b" by blast
  then show ?r by (cases a) auto
next
  assume ?r
  then show ?l by (metis append_Cons append_Nil)
qed

lemma contains_iff: "contains p s \<longleftrightarrow> (\<exists>a b. s = a @ p @ b)"
  by (induction p s rule: contains.induct) (auto simp: has_prefix_iff infix_Cons_iff)

section \<open>White space\<close>

text \<open>The UTF-8 sequences of \<open>unicode.IsSpace\<close>.\<close>

definition space_runes :: "string list" where
  "space_runes =
     [[CHR 0x09], [CHR 0x0A], [CHR 0x0B], [CHR 0x0C], [CHR 0x0D], [CHR 0x20],
      [CHR 0xC2, CHR 0x85], [CHR 0xC2, CHR 0xA0], [CHR 0xE1, CHR 0x9A, CHR 0x80],
      [CHR 0xE2, CHR 0x80, CHR 0x80], [CHR 0xE2, CHR 0x80, CHR 0x81], [CHR 0xE2, CHR 0x80, CHR 0x82],
      [CHR 0xE2, CHR 0x80, CHR 0x83], [CHR 0xE2, CHR 0x80, CHR 0x84], [CHR 0xE2, CHR 0x80, CHR 0x85],
      [CHR 0xE2, CHR 0x80, CHR 0x86], [CHR 0xE2, CHR 0x80, CHR 0x87], [CHR 0xE2, CHR 0x80, CHR 0x88],
      [CHR 0xE2, CHR 0x80, CHR 0x89], [CHR 0xE2, CHR 0x80, CHR 0x8A], [CHR 0xE2, CHR 0x80, CHR 0xA8],
      [CHR 0xE2, CHR 0x80, CHR 0xA9], [CHR 0xE2, CHR 0x80, CHR 0xAF], [CHR 0xE2, CHR 0x81, CHR 0x9F],
      [CHR 0xE3, CHR 0x80, CHR 0x80]]"

text \<open>\<open>strip_first ps s\<close> removes the first of the sequences \<open>ps\<close> that \<open>s\<close> starts with.\<close>

fun strip_first :: "string list \<Rightarrow> string \<Rightarrow> string option" where
  "strip_first [] s = None"
| "strip_first (p # ps) s = (if has_prefix p s then Some (drop (length p) s) else strip_first ps s)"

lemma strip_first_shorter:
  "strip_first ps s = Some t \<Longrightarrow> \<forall>p \<in> set ps. p \<noteq> [] \<Longrightarrow> length t < length s"
  by (induction ps) (auto simp: has_prefix_iff split: if_splits)

definition skip_space :: "string \<Rightarrow> string option" where
  "skip_space s = strip_first space_runes s"

definition skip_space_rev :: "string \<Rightarrow> string option" where
  "skip_space_rev s = strip_first (map rev space_runes) s"

lemma skip_space_shorter: "skip_space s = Some t \<Longrightarrow> length t < length s"
  unfolding skip_space_def by (erule strip_first_shorter) (simp add: space_runes_def)

lemma skip_space_rev_shorter: "skip_space_rev s = Some t \<Longrightarrow> length t < length s"
  unfolding skip_space_rev_def by (erule strip_first_shorter) (simp add: space_runes_def)

function trim_space_left :: "string \<Rightarrow> string" where
  "trim_space_left s = (case skip_space s of None \<Rightarrow> s | Some t \<Rightarrow> trim_space_left t)"
  by pat_completeness auto
termination by (relation "measure length") (auto dest: skip_space_shorter)

function trim_space_rev :: "string \<Rightarrow> string" where
  "trim_space_rev s = (case skip_space_rev s of None \<Rightarrow> s | Some t \<Rightarrow> trim_space_rev t)"
  by pat_completeness auto
termination by (relation "measure length") (auto dest: skip_space_rev_shorter)

declare trim_space_left.simps [simp del] trim_space_rev.simps [simp del]

definition trim_space :: "string \<Rightarrow> string" where
  "trim_space s = rev (trim_space_rev (rev (trim_space_left s)))"

text \<open>\<open>strings.Fields\<close>, with the field being read as an accumulator (reversed).\<close>

function fields_from :: "string \<Rightarrow> string \<Rightarrow> string list" where
  "fields_from cur s =
     (let done = (if cur = [] then [] else [rev cur])
      in case skip_space s of
           Some t \<Rightarrow> done @ fields_from [] t
         | None \<Rightarrow> (case s of [] \<Rightarrow> done | c # t \<Rightarrow> fields_from (c # cur) t))"
  by pat_completeness auto
termination by (relation "measure (length \<circ> snd)") (auto dest: skip_space_shorter)

declare fields_from.simps [simp del]

definition fields :: "string \<Rightarrow> string list" where
  "fields s = fields_from [] s"

section \<open>Case mapping\<close>

definition lower_char :: "char \<Rightarrow> char" where
  "lower_char c = (let n = of_char c :: nat in if 65 \<le> n \<and> n \<le> 90 then char_of (n + 32) else c)"

definition upper_char :: "char \<Rightarrow> char" where
  "upper_char c = (let n = of_char c :: nat in if 97 \<le> n \<and> n \<le> 122 then char_of (n - 32) else c)"

fun to_lower :: "string \<Rightarrow> string" where
  "to_lower (a # b # c # s) =
     (if [a, b, c] = [CHR 0xE2, CHR 0x84, CHR 0xAA] then CHR ''k'' # to_lower s
      else if [a, b] = [CHR 0xC4, CHR 0xB0] then CHR ''i'' # to_lower (c # s)
      else lower_char a # to_lower (b # c # s))"
| "to_lower [a, b] = (if [a, b] = [CHR 0xC4, CHR 0xB0] then ''i'' else [lower_char a, lower_char b])"
| "to_lower [a] = [lower_char a]"
| "to_lower [] = []"

text \<open>The runes that map up into ASCII: the dotless i and the long s.\<close>

fun to_upper :: "string \<Rightarrow> string" where
  "to_upper (a # b # s) =
     (if [a, b] = [CHR 0xC4, CHR 0xB1] then CHR ''I'' # to_upper s
      else if [a, b] = [CHR 0xC5, CHR 0xBF] then CHR ''S'' # to_upper s
      else upper_char a # to_upper (b # s))"
| "to_upper [a] = [upper_char a]"
| "to_upper [] = []"

section \<open>Numbers\<close>

fun show_nat :: "nat \<Rightarrow> string" where
  "show_nat n = (if n < 10 then [char_of (48 + n)] else show_nat (n div 10) @ [char_of (48 + n mod 10)])"

declare show_nat.simps [simp del]

definition show_int :: "int \<Rightarrow> string" where
  "show_int i = (if i < 0 then CHR ''-'' # show_nat (nat (- i)) else show_nat (nat i))"

definition digit_val :: "char \<Rightarrow> nat option" where
  "digit_val c =
     (let n = of_char c :: nat; l = (if 65 \<le> n \<and> n \<le> 90 then n + 32 else n)
      in if 48 \<le> n \<and> n \<le> 57 then Some (n - 48)
         else if 97 \<le> l \<and> l \<le> 122 then Some (l - 97 + 10)
         else None)"

definition ErrSyntax :: goerr where "ErrSyntax = Sentinel ''invalid syntax''"
definition ErrRange :: goerr where "ErrRange = Sentinel ''value out of range''"

fun parse_digits :: "nat \<Rightarrow> nat \<Rightarrow> string \<Rightarrow> goerr + nat" where
  "parse_digits base n [] = Inr n"
| "parse_digits base n (c # s) =
     (case digit_val c of
        None \<Rightarrow> Inl ErrSyntax
      | Some d \<Rightarrow>
          if base \<le> d then Inl ErrSyntax
          else if 2 ^ 64 \<le> n * base + d then Inl ErrRange
          else parse_digits base (n * base + d) s)"

text \<open>\<open>strconv.ParseUint(s, base, 64)\<close> for the bases 10 and 16; the error is a \<open>NumError\<close>.\<close>

definition ParseUint :: "nat \<Rightarrow> string \<Rightarrow> goerr + u64" where
  "ParseUint base s =
     (case (if s = [] then Inl ErrSyntax else parse_digits base 0 s) of
        Inl e \<Rightarrow> Inl (Wrapf ''strconv.ParseUint: parsing %q: %w'' [VStr s] e)
      | Inr n \<Rightarrow> Inr (of_nat n))"

lemma show_nat_not_Nil [simp]: "show_nat n \<noteq> []"
  by (subst show_nat.simps) simp

lemma digit_val_dec: "d < 10 \<Longrightarrow> digit_val (char_of (48 + d)) = Some d"
  by (simp add: digit_val_def Let_def)

lemma parse_digits_append:
  "parse_digits base n (s @ t) =
     (case parse_digits base n s of Inl e \<Rightarrow> Inl e | Inr m \<Rightarrow> parse_digits base m t)"
  by (induction s arbitrary: n) (auto split: option.splits)

lemma parse_digits_show: "n < 2 ^ 64 \<Longrightarrow> parse_digits 10 0 (show_nat n) = Inr n"
proof (induction n rule: show_nat.induct)
  case (1 n)
  show ?case
  proof (cases "n < 10")
    case True
    then show ?thesis by (simp add: show_nat.simps [of n] digit_val_dec)
  next
    case False
    have "parse_digits 10 0 (show_nat (n div 10)) = Inr (n div 10)" using 1 False by simp
    moreover have "n div 10 * 10 + n mod 10 = n" by simp
    ultimately show ?thesis using 1(2) False
      by (simp add: show_nat.simps [of n] parse_digits_append digit_val_dec)
  qed
qed

lemma ParseUint_show [simp]: "n < 2 ^ 64 \<Longrightarrow> ParseUint 10 (show_nat n) = Inr (of_nat n)"
  using parse_digits_show [of n] by (simp add: ParseUint_def)

section \<open>Formatting\<close>

text \<open>
  \<open>fmt.Sprintf\<close> for the verbs of the code's error texts: \<open>%d\<close>, \<open>%s\<close>, \<open>%v\<close>, \<open>%q\<close>, \<open>%x\<close>. The quoting of
  \<open>%q\<close> escapes what \<open>strconv.Quote\<close> escapes in ASCII text. \<open>err_text\<close> is \<open>Error()\<close>.
\<close>

definition hex_digit :: "nat \<Rightarrow> char" where
  "hex_digit n = (if n < 10 then char_of (48 + n) else char_of (87 + n))"

fun show_hex :: "nat \<Rightarrow> string" where
  "show_hex n = (if n < 16 then [hex_digit n] else show_hex (n div 16) @ [hex_digit (n mod 16)])"

declare show_hex.simps [simp del]

definition hex_bytes :: "bytes \<Rightarrow> string" where
  "hex_bytes b = concat (map (\<lambda>x. [hex_digit (unat x div 16), hex_digit (unat x mod 16)]) b)"

definition quote_char :: "char \<Rightarrow> string" where
  "quote_char c =
     (let n = of_char c :: nat
      in if c = CHR 0x22 \<or> c = CHR 0x5C then [CHR 0x5C, c]
         else if n = 7 then CHR 0x5C # ''a'' else if n = 8 then CHR 0x5C # ''b''
         else if n = 9 then CHR 0x5C # ''t'' else if n = 10 then CHR 0x5C # ''n''
         else if n = 11 then CHR 0x5C # ''v'' else if n = 12 then CHR 0x5C # ''f''
         else if n = 13 then CHR 0x5C # ''r''
         else if n < 32 \<or> n = 127 then CHR 0x5C # ''x'' @ [hex_digit (n div 16), hex_digit (n mod 16)]
         else [c])"

definition quote :: "string \<Rightarrow> string" where
  "quote s = CHR 0x22 # concat (map quote_char s) @ [CHR 0x22]"

fun show_arg :: "char \<Rightarrow> arg \<Rightarrow> string" where
  "show_arg v (VNat n) = (if v = CHR ''x'' then show_hex n else show_nat n)"
| "show_arg v (VInt i) = show_int i"
| "show_arg v (VStr s) = (if v = CHR ''q'' then quote s else s)"
| "show_arg v (VBytes b) = hex_bytes b"

text \<open>The verb \<open>%w\<close> takes the text of the wrapped error; the other verbs take the arguments in order.\<close>

fun sprintf :: "string \<Rightarrow> string \<Rightarrow> arg list \<Rightarrow> string" where
  "sprintf w (c # v # f) args =
     (if c = CHR ''%'' then
        (if v = CHR ''w'' then w @ sprintf w f args
         else if v = CHR ''%'' then CHR ''%'' # sprintf w f args
         else (case args of [] \<Rightarrow> sprintf w f [] | a # as \<Rightarrow> show_arg v a @ sprintf w f as))
      else c # sprintf w (v # f) args)"
| "sprintf w [c] args = [c]"
| "sprintf w [] args = []"

fun err_text :: "goerr \<Rightarrow> string" where
  "err_text (Sentinel s) = s"
| "err_text (Extern s t) = s"
| "err_text (Errorf f a) = sprintf '''' f a"
| "err_text (Wrapf f a e) = sprintf (err_text e) f a"
| "err_text (Join d e) = err_text d @ [CHR 0x0A] @ err_text e"

text \<open>A Go string of bytes.\<close>

definition go_string :: "bytes \<Rightarrow> string" where "go_string b = map (\<lambda>x. char_of (unat x)) b"

definition string_bytes :: "string \<Rightarrow> bytes" where "string_bytes s = map (\<lambda>c. of_nat (of_char c)) s"

lemma go_string_bytes [simp]: "go_string (string_bytes s) = s"
proof -
  have "char_of (unat (of_nat (of_char c) :: byte)) = c" for c :: char
  proof -
    have "(of_char c :: nat) < 256" by (metis of_char_mod_256 mod_less_divisor zero_less_numeral)
    then have "unat (of_nat (of_char c) :: byte) = of_char c" by (simp add: unat_of_nat)
    then show ?thesis by simp
  qed
  then show ?thesis by (simp add: go_string_def string_bytes_def comp_def)
qed

lemma string_bytes_inj [simp]: "string_bytes s = string_bytes t \<longleftrightarrow> s = t"
  by (metis go_string_bytes)

section \<open>Trimming twice\<close>

lemma strip_first_None: "strip_first ps s = None \<longleftrightarrow> (\<forall>p \<in> set ps. \<not> has_prefix p s)"
  by (induction ps) auto

lemma strip_first_suffix: "strip_first ps s = Some t \<Longrightarrow> \<exists>p. s = p @ t"
  by (induction ps) (auto simp: has_prefix_iff split: if_splits)

lemma trim_space_left_done: "skip_space s = None \<Longrightarrow> trim_space_left s = s"
  by (simp add: trim_space_left.simps)

lemma trim_space_rev_done: "skip_space_rev s = None \<Longrightarrow> trim_space_rev s = s"
  by (simp add: trim_space_rev.simps)

lemma skip_space_trimmed: "skip_space (trim_space_left s) = None"
  by (induction s rule: trim_space_left.induct) (subst trim_space_left.simps, simp split: option.split)

lemma skip_space_rev_trimmed: "skip_space_rev (trim_space_rev s) = None"
  by (induction s rule: trim_space_rev.induct) (subst trim_space_rev.simps, simp split: option.split)

lemma trim_space_rev_suffix: "\<exists>p. s = p @ trim_space_rev s"
proof (induction s rule: trim_space_rev.induct)
  case (1 s)
  show ?case
  proof (cases "skip_space_rev s")
    case None
    then show ?thesis by (simp add: trim_space_rev_done)
  next
    case (Some t)
    then obtain p q where "s = p @ t" "t = q @ trim_space_rev t"
      using 1 strip_first_suffix [of "map rev space_runes" s t] by (auto simp: skip_space_rev_def)
    then have "s = (p @ q) @ trim_space_rev t" by simp
    moreover have "trim_space_rev s = trim_space_rev t" using Some by (simp add: trim_space_rev.simps [of s])
    ultimately show ?thesis by metis
  qed
qed

lemma trim_space_prefix: "\<exists>q. trim_space_left s = trim_space s @ q"
proof -
  obtain p where "rev (trim_space_left s) = p @ trim_space_rev (rev (trim_space_left s))"
    using trim_space_rev_suffix by blast
  then have "rev (rev (trim_space_left s)) = rev (p @ trim_space_rev (rev (trim_space_left s)))" by simp
  then have "trim_space_left s = trim_space s @ rev p" by (simp add: trim_space_def)
  then show ?thesis by blast
qed

lemma trim_space_idem [simp]: "trim_space (trim_space s) = trim_space s"
proof -
  obtain q where q: "trim_space_left s = trim_space s @ q" using trim_space_prefix by blast
  have "\<not> has_prefix p (trim_space s)" if "p \<in> set space_runes" for p
    using skip_space_trimmed [of s] that q by (auto simp: skip_space_def strip_first_None has_prefix_iff)
  then have l: "trim_space_left (trim_space s) = trim_space s"
    by (intro trim_space_left_done) (simp add: skip_space_def strip_first_None)
  have "trim_space_rev (rev (trim_space s)) = rev (trim_space s)"
    using skip_space_rev_trimmed by (simp add: trim_space_rev_done trim_space_def)
  then show ?thesis by (simp add: trim_space_def [of "trim_space s"] l)
qed

lemma trim_space_Nil [simp]: "trim_space [] = []"
proof -
  have "\<not> has_prefix p []" if "p \<in> set space_runes" for p using that by (auto simp: space_runes_def has_prefix_def)
  moreover have "\<not> has_prefix (rev p) []" if "p \<in> set space_runes" for p using that by (auto simp: space_runes_def has_prefix_def)
  ultimately show ?thesis
    by (simp add: trim_space_def trim_space_left_done trim_space_rev_done skip_space_def skip_space_rev_def strip_first_None)
qed

end
