(* ===== verification/Identity.thy ===== *)
theory Identity
  imports Session Go_Strings
begin

text \<open>
  Package utils, keys.go: fresh identities, what they derive for peers, and \<open>DeterministicKey\<close>; reqresp/identity.go: the same
  identity for libp2p; session/output.go and time.go: formatted output and \<open>Sleep\<close>. The key material is third-party code and
  the parameter \<open>key_env\<close>.
\<close>

section \<open>Identities\<close>

text \<open>
  \<open>ke_generate\<close> is \<open>crypto.GenerateKey\<close>, \<open>ke_copy\<close> the copy through bytes, \<open>ke_key\<close> is \<open>crypto.ToECDSA\<close>, \<open>ke_pub\<close> the
  uncompressed public key, \<open>ke_cl\<close> the conversion for libp2p and \<open>ke_peer\<close> the peer ID of a libp2p key, as text.
\<close>

record ('k, 'p) key_env =
  ke_generate :: "goerr + 'k"
  ke_copy :: "'k \<Rightarrow> goerr + 'k"
  ke_key :: "bytes \<Rightarrow> goerr + 'k"
  ke_pub :: "'k \<Rightarrow> bytes"
  ke_keccak :: "bytes \<Rightarrow> bytes"
  ke_sha256 :: "bytes \<Rightarrow> bytes"
  ke_cl :: "'k \<Rightarrow> goerr + 'p"
  ke_peer :: "'p \<Rightarrow> goerr + string"

definition NewParticipantIdentity :: "('k, 'p) key_env \<Rightarrow> goerr + 'k participant" where
  "NewParticipantIdentity ke =
     (case ke_generate ke of
        Inl e \<Rightarrow> Inl (Wrapf ''generate participant identity: %w'' [] e)
      | Inr key \<Rightarrow> Inr \<lparr>id_key = Some key\<rparr>)"

text \<open>The public key without its first byte, \<open>None\<close> if it had none.\<close>

definition pub_tail :: "('k, 'p) key_env \<Rightarrow> 'k \<Rightarrow> bytes option" where
  "pub_tail ke key = slice 1 (length (ke_pub ke key)) (ke_pub ke key)"

definition node_id :: "('k, 'p) key_env \<Rightarrow> 'k \<Rightarrow> string option" where
  "node_id ke key = map_option (\<lambda>p. hex_bytes (ke_keccak ke p)) (pub_tail ke key)"

text \<open>The derivations panic (\<open>None\<close>) only for an empty public key.\<close>

definition ELPeerIdentities :: "('k, 'p) key_env \<Rightarrow> 'k participant option \<Rightarrow> (goerr + string list) option" where
  "ELPeerIdentities ke identity =
     (case ELKey (ke_copy ke) identity of
        Inl e \<Rightarrow> Some (Inl e)
      | Inr key \<Rightarrow>
          (case (node_id ke key, pub_tail ke key) of
             (Some nodeID, Some p) \<Rightarrow> Some (Inr [nodeID, hex_bytes p])
           | _ \<Rightarrow> None))"

definition CLKey :: "('k, 'p) key_env \<Rightarrow> 'k participant option \<Rightarrow> goerr + 'p" where
  "CLKey ke identity = err_bind (ELKey (ke_copy ke) identity) (ke_cl ke)"

definition CLPeerIdentities :: "('k, 'p) key_env \<Rightarrow> 'k participant option \<Rightarrow> (goerr + string list) option" where
  "CLPeerIdentities ke identity =
     (case CLKey ke identity of
        Inl e \<Rightarrow> Some (Inl e)
      | Inr key \<Rightarrow>
     (case ke_peer ke key of
        Inl e \<Rightarrow> Some (Inl (Wrapf ''derive participant peer ID: %w'' [] e))
      | Inr peerID \<Rightarrow>
     (case ELKey (ke_copy ke) identity of
        Inl e \<Rightarrow> Some (Inl e)
      | Inr secp \<Rightarrow> map_option (\<lambda>nodeID. Inr [peerID, nodeID]) (node_id ke secp))))"

section \<open>Deterministic keys\<close>

definition deterministicSeed :: string where "deterministicSeed = ''raidan-sdk-deterministic-key-v1''"

definition key_input :: "string \<Rightarrow> u32 \<Rightarrow> bytes" where
  "key_input label attempt = string_bytes deterministicSeed @ [0] @ string_bytes label @ be_bytes 4 attempt"

function derive_key :: "('k, 'p) key_env \<Rightarrow> string \<Rightarrow> u32 \<Rightarrow> goerr + 'k" where
  "derive_key ke label attempt =
     (if attempt < 1024 then
        (case ke_key ke (ke_sha256 ke (key_input label attempt)) of
           Inr key \<Rightarrow> Inr key
         | Inl _ \<Rightarrow> derive_key ke label (attempt + 1))
      else Inl (Errorf ''derive deterministic key: exhausted attempts'' []))"
  by pat_completeness auto
termination
  by (relation "measure (\<lambda>(ke, label, attempt). 1024 - unat attempt)")
    (auto simp: word_less_nat_alt unat_word_ariths)

declare derive_key.simps [simp del]

definition DeterministicKey :: "('k, 'p) key_env \<Rightarrow> string \<Rightarrow> goerr + 'k" where
  "DeterministicKey ke label =
     (if label = [] then Inl (Errorf ''derive deterministic key: label is empty'' []) else derive_key ke label 0)"

section \<open>Output and sleep\<close>

text \<open>The writer and the text that is written to it; the format is already applied.\<close>

definition Printf :: "'w \<Rightarrow> ('w, 'o, 'k) go_ctx option \<Rightarrow> string \<Rightarrow> 'w \<times> string" where
  "Printf stdout ctx text = (OutputOf stdout ctx, text)"

definition Println :: "'w \<Rightarrow> ('w, 'o, 'k) go_ctx option \<Rightarrow> string list \<Rightarrow> 'w \<times> string" where
  "Println stdout ctx args =
     (OutputOf stdout ctx, concat (case args of [] \<Rightarrow> [] | a # as \<Rightarrow> a # map ((#) CHR '' '') as) @ [CHR 0x0A])"

text \<open>How long \<open>Sleep\<close> waits; \<open>cancel\<close> is when the context ends, from now.\<close>

definition session_Sleep :: "int option \<Rightarrow> int \<Rightarrow> int" where
  "session_Sleep cancel d =
     (let d = max 0 d in case cancel of None \<Rightarrow> d | Some c \<Rightarrow> min d (max 0 c))"

section \<open>Keys of labels\<close>

lemma key_input_inj: "key_input l a = key_input m b \<longleftrightarrow> l = m \<and> a = b"
proof
  assume "key_input l a = key_input m b"
  then have "string_bytes l @ be_bytes 4 a = string_bytes m @ be_bytes 4 b" by (simp add: key_input_def)
  then have "string_bytes l = string_bytes m" "be_bytes 4 a = be_bytes 4 b"
    by (simp_all add: append_eq_append_conv)
  moreover from this(2) have "be_val (be_bytes 4 a) = (be_val (be_bytes 4 b) :: u32)" by simp
  then have "a = b" by (simp add: be_val_be_bytes)
  ultimately show "l = m \<and> a = b" by simp
qed simp

lemma derive_key_find:
  "derive_key ke label a =
     (case find (\<lambda>r. \<not> isl r) (map (\<lambda>i. ke_key ke (ke_sha256 ke (key_input label (of_nat i)))) [unat a..<1024]) of
        Some r \<Rightarrow> r | None \<Rightarrow> Inl (Errorf ''derive deterministic key: exhausted attempts'' []))"
proof (induction ke label a rule: derive_key.induct)
  case (1 ke label a)
  show ?case
  proof (cases "a < 1024")
    case True
    have "unat a < 1024" using True by (simp add: word_less_nat_alt)
    then have u: "[unat a..<1024] = unat a # [unat (a + 1)..<1024]" using True
      by (simp add: upt_rec [of "unat a"] unat_word_ariths)
    show ?thesis
    proof (cases "ke_key ke (ke_sha256 ke (key_input label a))")
      case (Inl e)
      then show ?thesis using 1 [OF True Inl] True by (subst derive_key.simps) (simp only: u, simp)
    next
      case (Inr k)
      then show ?thesis using True by (subst derive_key.simps) (simp only: u, simp)
    qed
  next
    case False
    then have "1024 \<le> unat a" by (simp add: word_less_nat_alt)
    then show ?thesis using False by (subst derive_key.simps) simp
  qed
qed

text \<open>
  \<open>DeterministicKey\<close> meets its contract for every label: it is the first of the 1024 attempts, in order, whose hash is a
  valid key, and the error that all are exhausted otherwise; an empty label is refused; and what is hashed differs for any two
  different labels or attempts, so two labels never share a derivation.
\<close>

theorem DeterministicKey_reference:
  "DeterministicKey ke label =
     (if label = [] then Inl (Errorf ''derive deterministic key: label is empty'' [])
      else (case find (\<lambda>r. \<not> isl r) (map (\<lambda>i. ke_key ke (ke_sha256 ke (key_input label (of_nat i)))) [0..<1024]) of
        Some r \<Rightarrow> r | None \<Rightarrow> Inl (Errorf ''derive deterministic key: exhausted attempts'' []))) \<and>
   (key_input label a = key_input other b \<longleftrightarrow> label = other \<and> a = b)"
  by (simp add: DeterministicKey_def derive_key_find key_input_inj)

text \<open>Both transports of one participant present the same discovery node ID.\<close>

lemma peer_identities_agree:
  assumes "ELPeerIdentities ke identity = Some (Inr el)" "CLPeerIdentities ke identity = Some (Inr cl)"
  shows "el ! 0 = cl ! 1"
  using assms by (auto simp: ELPeerIdentities_def CLPeerIdentities_def split: sum.splits option.splits)

end
