(* ===== verification/Udp.thy ===== *)
theory Udp
  imports Session
begin

text \<open>
  Package discovery: UDP addresses, the socket that a discovery connection owns, and \<open>readUDPWithContext\<close> (udp_read.go),
  \<open>listenUDPToPeer\<close> and \<open>SameUDPAddr\<close> (discv4_conn.go).

  The socket carries the clock. Its future is the list of what its reads will get, each with the time it arrives:
  a datagram with its source, or an error. A read ends with the first that arrives before its deadline, or with a
  timeout at the deadline. A context that is done from some time on interrupts the read at that time.
\<close>

section \<open>Addresses\<close>

record udp_addr =
  ua_IP :: bytes
  ua_Port :: int
  ua_Zone :: string

definition v4_prefix :: bytes where "v4_prefix = replicate 10 0 @ [0xff, 0xff]"

definition To4 :: "bytes \<Rightarrow> bytes option" where
  "To4 ip = (if length ip = 4 then Some ip
             else if length ip = 16 \<and> take 12 ip = v4_prefix then Some (drop 12 ip) else None)"

definition To16 :: "bytes \<Rightarrow> bytes option" where
  "To16 ip = (if length ip = 4 then Some (v4_prefix @ ip) else if length ip = 16 then Some ip else None)"

definition ip_equal :: "bytes \<Rightarrow> bytes \<Rightarrow> bool" where
  "ip_equal a b \<longleftrightarrow>
     (if length a = length b then a = b
      else if length a = 4 \<and> length b = 16 then take 12 b = v4_prefix \<and> a = drop 12 b
      else if length a = 16 \<and> length b = 4 then take 12 a = v4_prefix \<and> drop 12 a = b
      else False)"

definition IPv4zero :: bytes where "IPv4zero = v4_prefix @ replicate 4 0"
definition IPv6unspecified :: bytes where "IPv6unspecified = replicate 16 0"

definition IsUnspecified :: "bytes \<Rightarrow> bool" where
  "IsUnspecified ip \<longleftrightarrow> ip_equal ip IPv4zero \<or> ip_equal ip IPv6unspecified"

definition SameUDPAddr :: "udp_addr option \<Rightarrow> udp_addr option \<Rightarrow> bool" where
  "SameUDPAddr left right \<longleftrightarrow>
     (case (left, right) of
        (Some l, Some r) \<Rightarrow> ua_Port l = ua_Port r \<and> ua_Zone l = ua_Zone r \<and> ip_equal (ua_IP l) (ua_IP r)
      | _ \<Rightarrow> False)"

text \<open>It is an equivalence, except that a malformed address can only equal itself.\<close>

lemma ip_equal_refl [simp]: "ip_equal a a" by (simp add: ip_equal_def)

lemma ip_equal_sym: "ip_equal a b \<Longrightarrow> ip_equal b a" by (auto simp: ip_equal_def split: if_splits)

lemma ip_equal_To16: "To16 a = Some x \<Longrightarrow> To16 b = Some y \<Longrightarrow> ip_equal a b \<longleftrightarrow> x = y"
proof -
  assume a: "To16 a = Some x" and b: "To16 b = Some y"
  have l: "length v4_prefix = 12" by (simp add: v4_prefix_def)
  show "ip_equal a b \<longleftrightarrow> x = y"
    using a b l
    by (auto simp: To16_def ip_equal_def append_eq_conv_conj split: if_splits) (metis append_take_drop_id)+
qed

lemma SameUDPAddr_simps [simp]: "SameUDPAddr (Some a) (Some a)" "\<not> SameUDPAddr None b"
  by (simp_all add: SameUDPAddr_def)

section \<open>The socket\<close>

record udp =
  u_now :: int
  u_events :: "(int \<times> (goerr + bytes \<times> udp_addr)) list"
  u_done :: "(int \<times> goerr) option"
  u_local :: udp_addr
  u_sendres :: "nat \<Rightarrow> goerr option"
  u_sent :: "(bytes \<times> udp_addr) list"
  u_dlres :: "nat \<Rightarrow> goerr option"
  u_deadlines :: nat

definition io_timeout :: goerr where "io_timeout = Extern ''i/o timeout'' (Some True)"

text \<open>\<open>ctx.Err()\<close> at this time.\<close>

definition ctx_err :: "udp \<Rightarrow> goerr option" where
  "ctx_err u = (case u_done u of None \<Rightarrow> None | Some (t, e) \<Rightarrow> if t \<le> u_now u then Some e else None)"

definition write_to :: "bytes \<Rightarrow> udp_addr \<Rightarrow> udp \<Rightarrow> goerr option \<times> udp" where
  "write_to data addr u = (u_sendres u (length (u_sent u)), u\<lparr>u_sent := u_sent u @ [(data, addr)]\<rparr>)"

text \<open>\<open>ReadFromUDP\<close> into a buffer of the given size, under a deadline; it cuts longer datagrams off.\<close>

definition read_from :: "int \<Rightarrow> nat \<Rightarrow> udp \<Rightarrow> (goerr + bytes \<times> udp_addr) \<times> udp" where
  "read_from deadline sz u =
     (let limit = (case u_done u of None \<Rightarrow> deadline | Some (t, _) \<Rightarrow> min deadline t)
      in if limit \<le> u_now u then (Inl io_timeout, u)
         else case u_events u of
             [] \<Rightarrow> (Inl io_timeout, u\<lparr>u_now := limit\<rparr>)
           | (t, r) # es \<Rightarrow>
               if t < limit
               then (map_sum (\<lambda>e. e) (\<lambda>(data, from). (take sz data, from)) r, u\<lparr>u_now := max (u_now u) t, u_events := es\<rparr>)
               else (Inl io_timeout, u\<lparr>u_now := limit\<rparr>))"

definition set_read_deadline :: "udp \<Rightarrow> goerr option \<times> udp" where
  "set_read_deadline u = (u_dlres u (u_deadlines u), u\<lparr>u_deadlines := Suc (u_deadlines u)\<rparr>)"

text \<open>A connection's context is never nil, since every dial replaces nil by the background context.\<close>

definition readUDPWithContext ::
    "('w, 'o, 'k) go_ctx option \<Rightarrow> nat \<Rightarrow> int \<Rightarrow> udp \<Rightarrow> (goerr + bytes \<times> udp_addr) \<times> udp" where
  "readUDPWithContext ctx sz timeout u =
     (case ctx_err u of
        Some e \<Rightarrow> (Inl e, u)
      | None \<Rightarrow>
        let remaining = Remaining (u_now u) (Some (case ctx of None \<Rightarrow> Background | Some c \<Rightarrow> c)) timeout
        in if remaining \<le> 0 then (Inl (case ctx_err u of Some e \<Rightarrow> e | None \<Rightarrow> DeadlineExceeded), u)
           else (case set_read_deadline u of
                (Some e, u) \<Rightarrow> (Inl (Wrapf ''set read deadline: %w'' [] e), u)
              | (None, u) \<Rightarrow>
                  (case read_from (u_now u + remaining) sz u of
                     (r, u) \<Rightarrow> (case ctx_err u of Some e \<Rightarrow> (Inl e, u) | None \<Rightarrow> (r, u)))))"

lemma read_from_events:
  "read_from d sz u = (Inr x, v) \<Longrightarrow> length (u_events v) < length (u_events u)"
  by (auto simp: read_from_def Let_def split: if_splits list.splits)

lemma readUDP_Inr:
  assumes "readUDPWithContext ctx sz timeout u = (Inr x, v)"
  shows "length (u_events v) < length (u_events u)"
  using assms
  by (auto simp: readUDPWithContext_def set_read_deadline_def Let_def split: option.splits if_splits prod.splits
      dest!: read_from_events)

text \<open>A read whose next event arrives before the local timeout, the context's deadline and its end.\<close>

definition arrives :: "('w, 'o, 'k) go_ctx option \<Rightarrow> int \<Rightarrow> int \<Rightarrow> udp \<Rightarrow> bool" where
  "arrives ctx timeout t u \<longleftrightarrow>
     t < u_now u + Remaining (u_now u) (Some (case ctx of None \<Rightarrow> Background | Some c \<Rightarrow> c)) timeout \<and>
     0 < Remaining (u_now u) (Some (case ctx of None \<Rightarrow> Background | Some c \<Rightarrow> c)) timeout \<and>
     (case u_done u of None \<Rightarrow> True | Some (t', _) \<Rightarrow> max (u_now u) t < t') \<and> (\<forall>k. u_dlres u k = None)"

lemma read_arrives:
  assumes "arrives ctx timeout t u" "u_events u = (t, Inr (data, from)) # es"
  shows "readUDPWithContext ctx sz timeout u =
    (Inr (take sz data, from), u\<lparr>u_now := max (u_now u) t, u_events := es, u_deadlines := Suc (u_deadlines u)\<rparr>)"
  using assms
  by (auto simp: readUDPWithContext_def arrives_def ctx_err_def set_read_deadline_def read_from_def Let_def
      split: option.splits prod.splits)

text \<open>What a read returns was the next event.\<close>

lemma map_sum_Inr_iff: "map_sum f g x = Inr y \<longleftrightarrow> (\<exists>a. x = Inr a \<and> g a = y)"
  by (cases x) auto

lemma readUDP_event:
  assumes "readUDPWithContext ctx sz timeout u = (Inr (packet, from), v)"
  shows "\<exists>t data. u_events u = (t, Inr (data, from)) # u_events v \<and> packet = take sz data"
  using assms
  by (auto simp: map_sum_Inr_iff readUDPWithContext_def set_read_deadline_def read_from_def Let_def
      split: option.splits if_splits prod.splits list.splits sum.splits)

section \<open>Opening a socket to a peer\<close>

text \<open>The operating system: the local address of a route to the peer, and a listening socket.\<close>

record udp_env =
  ue_route :: "string \<Rightarrow> udp_addr \<Rightarrow> goerr + udp_addr"
  ue_listen :: "string \<Rightarrow> bytes \<Rightarrow> goerr + udp"

definition listenUDPToPeer :: "udp_env \<Rightarrow> udp_addr option \<Rightarrow> goerr + udp" where
  "listenUDPToPeer env peer =
     (case peer of None \<Rightarrow> Inl (Errorf ''discv4 peer has no IP address'' [])
      | Some p \<Rightarrow>
        if ua_IP p = [] then Inl (Errorf ''discv4 peer has no IP address'' [])
        else if To4 (ua_IP p) = None \<and> To16 (ua_IP p) = None
        then Inl (Errorf ''discv4 peer has invalid IP address %q'' [VBytes (ua_IP p)])
        else
          let (network, bindIP) = (if To4 (ua_IP p) \<noteq> None then (''udp4'', IPv4zero) else (''udp6'', IPv6unspecified))
          in err_bind (wrap_err ''resolve local udp source: %w'' [] (ue_route env network p)) (\<lambda>addr.
               let bindIP = (if ua_IP addr \<noteq> [] \<and> \<not> IsUnspecified (ua_IP addr) then ua_IP addr else bindIP)
               in wrap_err ''listen udp on %s: %w'' [VBytes bindIP] (ue_listen env network bindIP)))"

text \<open>The socket is of the peer's address family, and bound to an address only on the route to it.\<close>

lemma listen_family:
  "listenUDPToPeer env (Some p) = Inr fd \<Longrightarrow>
     \<exists>ip. ue_listen env (if To4 (ua_IP p) \<noteq> None then ''udp4'' else ''udp6'') ip = Inr fd"
  by (auto simp: listenUDPToPeer_def err_bind_Inr_iff Let_def split: if_splits prod.splits)

end
