(* ===== verification/Framing.thy ===== *)
theory Framing
  imports Varint Session
begin

text \<open>
  The response framing of package reqresp (framing.go and the bodies of inbound.go): the writers
  \<open>WriteSSZSnappy\<close> and \<open>WriteResponseChunk\<close>, and the bounded decoders \<open>ReadSSZSnappy\<close> and
  \<open>ResponseReader\<close>. The framed-snappy codec is third-party code and a parameter: the buffers its writer
  hands on while \<open>Write\<close> and \<open>Close\<close> run, and what its reader delivers from a source.
\<close>

section \<open>The snappy parameter\<close>

text \<open>
  \<open>sn_read sn avail e n\<close> is \<open>io.ReadFull\<close> of \<open>n\<close> bytes from a snappy reader over a source that holds
  \<open>avail\<close> and then ends with \<open>e\<close>: the result and the number of source bytes consumed.
\<close>

record snappy =
  sn_write :: "bytes \<Rightarrow> bytes list"
  sn_close :: "bytes \<Rightarrow> bytes list"
  sn_read :: "bytes \<Rightarrow> goerr \<Rightarrow> nat \<Rightarrow> (goerr + bytes) \<times> nat"

definition snappy_stream :: "snappy \<Rightarrow> bytes \<Rightarrow> bytes" where
  "snappy_stream sn p = concat (sn_write sn p) @ concat (sn_close sn p)"

text \<open>
  The documented behaviour of the codec: nothing is written for an empty payload, the stream of a
  payload is within the encoding bound of the format, reading it back gives the payload and stops at its
  end, a full read returns as many bytes as asked for, and a source that has ended before its first byte
  gives \<open>io.EOF\<close>.
\<close>

definition snappy_ok :: "snappy \<Rightarrow> bool" where
  "snappy_ok sn \<longleftrightarrow>
     snappy_stream sn [] = [] \<and>
     (\<forall>p. length (snappy_stream sn p) \<le> 32 + length p + length p div 6) \<and>
     (\<forall>p rest e. p \<noteq> [] \<longrightarrow>
        sn_read sn (snappy_stream sn p @ rest) e (length p) = (Inr p, length (snappy_stream sn p))) \<and>
     (\<forall>b e n p used. sn_read sn b e n = (Inr p, used) \<longrightarrow> length p = n) \<and>
     (\<forall>n. 0 < n \<longrightarrow> fst (sn_read sn [] EOF n) = Inl EOF)"

lemma snappy_okD:
  assumes "snappy_ok sn"
  shows "snappy_stream sn [] = []"
    and "length (snappy_stream sn p) \<le> 32 + length p + length p div 6"
    and "p \<noteq> [] \<Longrightarrow> sn_read sn (snappy_stream sn p @ rest) e (length p) = (Inr p, length (snappy_stream sn p))"
    and "sn_read sn b e n = (Inr q, used) \<Longrightarrow> length q = n"
    and "0 < n \<Longrightarrow> fst (sn_read sn [] EOF n) = Inl EOF"
  using assms unfolding snappy_ok_def by blast+

text \<open>An instance that frames nothing, for the witnesses.\<close>

definition plain_snappy :: snappy where
  "plain_snappy =
     \<lparr>sn_write = (\<lambda>p. [p]), sn_close = (\<lambda>p. []),
      sn_read = (\<lambda>b e n. if n \<le> length b then (Inr (take n b), n)
                         else (Inl (if b \<noteq> [] \<and> e = EOF then ErrUnexpectedEOF else e), length b))\<rparr>"

lemma plain_snappy_ok: "snappy_ok plain_snappy"
  by (auto simp: snappy_ok_def plain_snappy_def snappy_stream_def split: if_splits)

section \<open>Writing\<close>

definition MaxPayloadSize :: u64 where "MaxPayloadSize = 10 * 1024 * 1024"
definition MaxTotalResponseSize :: u64 where "MaxTotalResponseSize = 64 * 1024 * 1024"
definition MaxResponseChunks :: u64 where "MaxResponseChunks = 1024"
definition ContextBytesLen :: nat where "ContextBytesLen = 4"
definition CodeSuccess :: byte where "CodeSuccess = 0"

record response_chunk =
  rc_Code :: byte
  rc_Context :: bytes
  rc_Payload :: bytes

definition ErrEmptyResponse :: goerr where
  "ErrEmptyResponse = Wrapf ''empty response stream: %w'' [] EOF"

text \<open>The snappy writer is sticky: after a failed buffer, its \<open>Close\<close> writes nothing more.\<close>

definition WriteSSZSnappy :: "snappy \<Rightarrow> wbeh \<Rightarrow> nat \<Rightarrow> bytes \<Rightarrow> goerr option \<times> bytes \<times> nat" where
  "WriteSSZSnappy sn w k payload =
     (case writeFull w k (put_uvarint (of_nat (length payload))) of
        (Some e, out, k1) \<Rightarrow> (Some (Wrapf ''write ssz length prefix: %w'' [] e), out, k1)
      | (None, out, k1) \<Rightarrow>
          (case wr_seq (writeFull w) k1 (sn_write sn payload) of
             (Some e, out2, k2) \<Rightarrow> (Some (Wrapf ''write snappy payload: %w'' [] e), out @ out2, k2)
           | (None, out2, k2) \<Rightarrow>
               (case wr_seq (writeFull w) k2 (sn_close sn payload) of
                  (Some e, out3, k3) \<Rightarrow> (Some (Wrapf ''close snappy writer: %w'' [] e), out @ out2 @ out3, k3)
                | (None, out3, k3) \<Rightarrow> (None, out @ out2 @ out3, k3))))"

definition RawSSZSnappyWithVarint :: "snappy \<Rightarrow> bytes \<Rightarrow> bytes \<Rightarrow> bytes" where
  "RawSSZSnappyWithVarint sn varintPrefix payload =
     varintPrefix @ concat (sn_write sn payload) @ concat (sn_close sn payload)"

definition RawSSZSnappy :: "snappy \<Rightarrow> bytes \<Rightarrow> bytes" where
  "RawSSZSnappy sn payload = RawSSZSnappyWithVarint sn (put_uvarint (of_nat (length payload))) payload"

definition WriteResponseChunk ::
    "snappy \<Rightarrow> wbeh \<Rightarrow> nat \<Rightarrow> response_chunk \<Rightarrow> goerr option \<times> bytes \<times> nat" where
  "WriteResponseChunk sn w k chunk =
     (if rc_Code chunk = CodeSuccess \<and> length (rc_Context chunk) \<noteq> 0
         \<and> length (rc_Context chunk) \<noteq> ContextBytesLen
      then (Some (Errorf ''response context length %d must be %d''
                    [VNat (length (rc_Context chunk)), VNat ContextBytesLen]), [], k)
      else
        (case writeFull w k [rc_Code chunk] of
           (Some e, out, k1) \<Rightarrow> (Some (Wrapf ''write response code: %w'' [] e), out, k1)
         | (None, out, k1) \<Rightarrow>
             (case (if rc_Code chunk = CodeSuccess \<and> length (rc_Context chunk) \<noteq> 0
                    then writeFull w k1 (rc_Context chunk) else (None, [], k1)) of
                (Some e, out2, k2) \<Rightarrow> (Some (Wrapf ''write response context: %w'' [] e), out @ out2, k2)
              | (None, out2, k2) \<Rightarrow>
                  (case WriteSSZSnappy sn w k2 (rc_Payload chunk) of
                     (Some e, out3, k3) \<Rightarrow>
                       (Some (Wrapf ''write response payload: %w'' [] e), out @ out2 @ out3, k3)
                   | (None, out3, k3) \<Rightarrow> (None, out @ out2 @ out3, k3)))))"

section \<open>Reading\<close>

text \<open>The Go constants \<open>math.MaxUint64\<close> and \<open>math.MaxInt64\<close>; \<open>int\<close> has 64 bits.\<close>

definition maxCompressedLen :: "u64 \<Rightarrow> goerr + int" where
  "maxCompressedLen n =
     (if - 1 - 32 < n \<or> - 1 - n div 6 < n + 32
      then Inl (Errorf ''compressed response limit overflows uint64 for %d bytes'' [VNat (unat n)])
      else (let limit = 32 + n + n div 6
            in if 0x7FFFFFFFFFFFFFFF < limit
               then Inl (Errorf ''compressed response limit %d overflows int64'' [VNat (unat limit)])
               else Inr (uint limit)))"

text \<open>\<open>io.ReadFull(snappy.NewReader(io.LimitReader(r, limit)), make([]byte, n))\<close>.\<close>

definition read_snappy :: "snappy \<Rightarrow> int \<Rightarrow> nat \<Rightarrow> reader \<Rightarrow> (goerr + bytes) \<times> reader" where
  "read_snappy sn limit n r =
     (let (res, used) = sn_read sn (take (nat limit) (rbuf r))
                          (if nat limit \<le> length (rbuf r) then EOF else rend r) n
      in (res, r\<lparr>rbuf := drop used (rbuf r)\<rparr>))"

record response_reader =
  rr_reader :: reader
  rr_hasContext :: bool
  rr_maxPayload :: u64
  rr_maxTotal :: u64
  rr_maxChunks :: u64
  rr_total :: u64
  rr_chunks :: u64

definition NewResponseReader ::
    "reader option \<Rightarrow> bool \<Rightarrow> u64 \<Rightarrow> u64 \<Rightarrow> u64 \<Rightarrow> goerr + response_reader" where
  "NewResponseReader r hasContext maxPayload maxTotal maxChunks =
     (case r of
        None \<Rightarrow> Inl (Errorf ''response reader is nil'' [])
      | Some rd \<Rightarrow>
          if MaxPayloadSize < maxPayload
          then Inl (Errorf ''max response payload %d exceeds hard ceiling %d''
                      [VNat (unat maxPayload), VNat (unat MaxPayloadSize)])
          else if MaxTotalResponseSize < maxTotal
          then Inl (Errorf ''max total response payload %d exceeds hard ceiling %d''
                      [VNat (unat maxTotal), VNat (unat MaxTotalResponseSize)])
          else if maxChunks = 0 \<or> MaxResponseChunks < maxChunks
          then Inl (Errorf ''max response chunks %d is outside 1..%d''
                      [VNat (unat maxChunks), VNat (unat MaxResponseChunks)])
          else if maxPayload = 0 \<or> maxTotal = 0
          then Inl (Errorf ''response payload limits must be positive'' [])
          else Inr \<lparr>rr_reader = rd, rr_hasContext = hasContext, rr_maxPayload = maxPayload,
                    rr_maxTotal = maxTotal, rr_maxChunks = maxChunks, rr_total = 0, rr_chunks = 0\<rparr>)"

text \<open>
  \<open>Next\<close> for a non-nil reader. The last part, after the length prefix, is \<open>next_payload\<close>; \<open>r\<close> is the
  reader left by the steps before it.
\<close>

definition next_payload ::
    "snappy \<Rightarrow> response_reader \<Rightarrow> reader \<Rightarrow> response_chunk \<Rightarrow> u64 \<Rightarrow> (goerr + response_chunk) \<times> response_reader" where
  "next_payload sn rr rd response len =
     (let rr1 = rr\<lparr>rr_reader := rd\<rparr>
      in if rr_maxPayload rr < len
         then (Inl (Errorf ''response length %d exceeds max %d''
                      [VNat (unat len), VNat (unat (rr_maxPayload rr))]), rr1)
         else if rr_maxTotal rr - rr_total rr < len
         then (Inl (Errorf ''aggregate response length exceeds max %d'' [VNat (unat (rr_maxTotal rr))]), rr1)
         else
           (let rr2 = rr1\<lparr>rr_total := rr_total rr + len, rr_chunks := rr_chunks rr + 1\<rparr>
            in if len = 0 then (Inr response, rr2)
               else if 0x7FFFFFFFFFFFFFFF < len
               then (Inl (Errorf ''response length %d cannot fit in memory index'' [VNat (unat len)]), rr2)
               else
                 (case maxCompressedLen len of
                    Inl e \<Rightarrow> (Inl e, rr2)
                  | Inr compressedLimit \<Rightarrow>
                      (case read_snappy sn compressedLimit (unat len) rd of
                         (Inl e, rd') \<Rightarrow>
                           (Inl (Wrapf ''read snappy response payload: %w'' [] e), rr2\<lparr>rr_reader := rd'\<rparr>)
                       | (Inr payload, rd') \<Rightarrow>
                           (Inr (response\<lparr>rc_Payload := payload\<rparr>), rr2\<lparr>rr_reader := rd'\<rparr>)))))"

definition Next :: "snappy \<Rightarrow> response_reader \<Rightarrow> (goerr + response_chunk) \<times> response_reader" where
  "Next sn rr =
     (if rr_chunks rr = rr_maxChunks rr
      then (case peek1 (rr_reader rr) of
              Some e \<Rightarrow>
                if errors_is e EOF then (Inl EOF, rr)
                else (Inl (Wrapf ''check response chunk ceiling: %w'' [] e), rr)
            | None \<Rightarrow> (Inl (Errorf ''response exceeds maximum of %d chunks'' [VNat (unat (rr_maxChunks rr))]), rr))
      else
        (case read_byte (rr_reader rr) of
           (Inl e, rd) \<Rightarrow>
             (Inl (if errors_is e EOF then EOF else Wrapf ''read response code: %w'' [] e), rr\<lparr>rr_reader := rd\<rparr>)
         | (Inr code, rd) \<Rightarrow>
             (case (if code = CodeSuccess \<and> rr_hasContext rr then read_full ContextBytesLen rd else (Inr [], rd)) of
                (Inl e, rd1) \<Rightarrow> (Inl (Wrapf ''read context bytes: %w'' [] e), rr\<lparr>rr_reader := rd1\<rparr>)
              | (Inr ctx, rd1) \<Rightarrow>
                  (case readConsensusUvarint rd1 of
                     (Inl e, rd2) \<Rightarrow> (Inl (Wrapf ''read response length prefix: %w'' [] e), rr\<lparr>rr_reader := rd2\<rparr>)
                   | (Inr len, rd2) \<Rightarrow>
                       next_payload sn rr rd2 \<lparr>rc_Code = code, rc_Context = ctx, rc_Payload = []\<rparr> len))))"

definition ReadResponseChunk :: "snappy \<Rightarrow> reader option \<Rightarrow> bool \<Rightarrow> u64 \<Rightarrow> goerr + response_chunk" where
  "ReadResponseChunk sn r hasContext maxPayload =
     err_bind (NewResponseReader r hasContext maxPayload maxPayload 1)
       (\<lambda>rr. case fst (Next sn rr) of
               Inl e \<Rightarrow> Inl (if errors_is e EOF then ErrEmptyResponse else e)
             | Inr c \<Rightarrow> Inr c)"

definition ReadSSZSnappy :: "snappy \<Rightarrow> reader option \<Rightarrow> u64 \<Rightarrow> goerr + bytes" where
  "ReadSSZSnappy sn r maxPayload =
     (case r of
        None \<Rightarrow> Inl (Errorf ''request reader is nil'' [])
      | Some rd \<Rightarrow>
          if maxPayload = 0 \<or> MaxPayloadSize < maxPayload
          then Inl (Errorf ''max request payload %d is outside 1..%d''
                      [VNat (unat maxPayload), VNat (unat MaxPayloadSize)])
          else
            (case ReadUvarint rd of
               (Inl e, rd1) \<Rightarrow> Inl (Wrapf ''read request length prefix: %w'' [] e)
             | (Inr len, rd1) \<Rightarrow>
                 if maxPayload < len
                 then Inl (Errorf ''request length %d exceeds max %d'' [VNat (unat len), VNat (unat maxPayload)])
                 else if len = 0 then Inr []
                 else err_bind (maxCompressedLen len)
                        (\<lambda>compressedLimit.
                           wrap_err ''read snappy request payload: %w'' []
                             (fst (read_snappy sn compressedLimit (unat len) rd1)))))"

section \<open>Facts about the writers\<close>

definition chunk_bytes :: "snappy \<Rightarrow> response_chunk \<Rightarrow> bytes" where
  "chunk_bytes sn c =
     rc_Code c # (if rc_Code c = CodeSuccess then rc_Context c else []) @ RawSSZSnappy sn (rc_Payload c)"

lemma RawSSZSnappy_eq: "RawSSZSnappy sn p = put_uvarint (of_nat (length p)) @ snappy_stream sn p"
  by (simp add: RawSSZSnappy_def RawSSZSnappyWithVarint_def snappy_stream_def)

text \<open>Both writers are one sequence of buffers as far as the bytes and the success are concerned.\<close>

definition ssz_buffers :: "snappy \<Rightarrow> bytes \<Rightarrow> bytes list" where
  "ssz_buffers sn p = put_uvarint (of_nat (length p)) # sn_write sn p @ sn_close sn p"

definition chunk_buffers :: "snappy \<Rightarrow> response_chunk \<Rightarrow> bytes list" where
  "chunk_buffers sn c =
     [rc_Code c] # (if rc_Code c = CodeSuccess \<and> length (rc_Context c) \<noteq> 0 then [rc_Context c] else [])
       @ ssz_buffers sn (rc_Payload c)"

lemma concat_ssz_buffers: "concat (ssz_buffers sn p) = RawSSZSnappy sn p"
  by (simp add: ssz_buffers_def RawSSZSnappy_eq snappy_stream_def)

lemma concat_chunk_buffers: "concat (chunk_buffers sn c) = chunk_bytes sn c"
  by (simp add: chunk_buffers_def chunk_bytes_def concat_ssz_buffers)

lemma WriteSSZSnappy_seq:
  "WriteSSZSnappy sn w k p = (r, out, k') \<Longrightarrow>
     \<exists>e. wr_seq (writeFull w) k (ssz_buffers sn p) = (e, out, k') \<and> (e = None \<longleftrightarrow> r = None)"
  by (auto simp: WriteSSZSnappy_def ssz_buffers_def wr_seq_append split: prod.splits option.splits)

lemma WriteResponseChunk_seq:
  assumes "WriteResponseChunk sn w k c = (r, out, k')"
    and "rc_Code c = CodeSuccess \<Longrightarrow> length (rc_Context c) = 0 \<or> length (rc_Context c) = ContextBytesLen"
  shows "\<exists>e. wr_seq (writeFull w) k (chunk_buffers sn c) = (e, out, k') \<and> (e = None \<longleftrightarrow> r = None)"
proof -
  obtain r1 o1 k1 where 1: "writeFull w k [rc_Code c] = (r1, o1, k1)" by (metis prod_cases3)
  obtain r2 o2 k2 where 2: "writeFull w k1 (rc_Context c) = (r2, o2, k2)" by (metis prod_cases3)
  obtain s3 q3 l3 where 3: "WriteSSZSnappy sn w k1 (rc_Payload c) = (s3, q3, l3)" by (metis prod_cases3)
  obtain s4 q4 l4 where 4: "WriteSSZSnappy sn w k2 (rc_Payload c) = (s4, q4, l4)" by (metis prod_cases3)
  show ?thesis
  proof (cases "rc_Code c = CodeSuccess \<and> length (rc_Context c) \<noteq> 0")
    case True
    then have "writeFull w k [CodeSuccess] = (r1, o1, k1)" using 1 by simp
    then show ?thesis using True assms WriteSSZSnappy_seq [OF 4]
      by (auto simp: WriteResponseChunk_def chunk_buffers_def 2 4 split: option.splits)
  next
    case False
    then show ?thesis using assms WriteSSZSnappy_seq [OF 3]
      by (auto simp: WriteResponseChunk_def chunk_buffers_def 1 3 split: option.splits)
  qed
qed

lemma WriteSSZSnappy_exact:
  assumes "WriteSSZSnappy sn w k p = (r, out, k')"
  shows "prefix out (RawSSZSnappy sn p)" "r = None \<Longrightarrow> out = RawSSZSnappy sn p"
  using WriteSSZSnappy_seq [OF assms] full.seq_prefix full.seq_complete
  by (auto simp flip: concat_ssz_buffers)

lemma WriteResponseChunk_wire:
  assumes W: "WriteResponseChunk sn w k c = (r, out, k')"
  shows "prefix out (chunk_bytes sn c)" "r = None \<Longrightarrow> out = chunk_bytes sn c"
proof -
  have "prefix out (chunk_bytes sn c) \<and> (r = None \<longrightarrow> out = chunk_bytes sn c)"
  proof (cases "rc_Code c = CodeSuccess \<longrightarrow> length (rc_Context c) = 0 \<or> length (rc_Context c) = ContextBytesLen")
    case True
    then show ?thesis
      using WriteResponseChunk_seq [OF W] full.seq_prefix full.seq_complete
      by (auto simp flip: concat_chunk_buffers)
  next
    case False
    then show ?thesis using W by (auto simp: WriteResponseChunk_def)
  qed
  then show "prefix out (chunk_bytes sn c)" "r = None \<Longrightarrow> out = chunk_bytes sn c" by auto
qed

text \<open>
  \<open>WriteResponseChunk\<close> over any \<open>io.Writer\<close>, one that makes legal short writes included: a nil error
  means that the code, the context (of a success chunk) and the framed payload went out completely and in
  order; on an error what went out is a prefix of that.
\<close>

theorem WriteResponseChunk_exact:
  "(let (r, out, k') = WriteResponseChunk sn w k c
    in if r = None then out = chunk_bytes sn c else prefix out (chunk_bytes sn c))"
  by (cases "WriteResponseChunk sn w k c") (simp add: WriteResponseChunk_wire)

section \<open>Facts about the reader\<close>

lemma maxCompressedLen_small:
  assumes "n \<le> MaxPayloadSize"
  shows "maxCompressedLen n = Inr (int (32 + unat n + unat n div 6))"
proof -
  have n: "unat n \<le> 10485760" using assms by (simp add: MaxPayloadSize_def word_le_nat_alt)
  have d: "unat (n div 6) = unat n div 6" by (simp add: unat_div)
  have b: "unat n div 6 \<le> 10485760" using n div_le_dividend order_trans by blast
  have s1: "unat (n + 32) = unat n + 32" using n by (simp add: unat_word_ariths)
  have s2: "unat (32 + n + n div 6) = 32 + unat n + unat n div 6"
    using n b by (simp add: unat_word_ariths d)
  have le: "n div 6 \<le> - 1" by simp
  have s3: "unat (- 1 - n div 6) = 2 ^ 64 - 1 - unat n div 6"
    by (simp add: unat_sub [OF le] d unsigned_minus_1_eq_mask mask_eq_exp_minus_1)
  have "\<not> - 1 - 32 < n" using n by (simp add: word_less_nat_alt)
  moreover have "\<not> - 1 - n div 6 < n + 32" using n b by (simp add: word_less_nat_alt s1 s3)
  moreover have "\<not> 0x7FFFFFFFFFFFFFFF < 32 + n + n div 6" using n b by (simp add: word_less_nat_alt s2)
  moreover have "uint (32 + n + n div 6) = int (32 + unat n + unat n div 6)" by (simp flip: s2)
  ultimately show ?thesis by (simp add: maxCompressedLen_def)
qed

lemma read_snappy_stream:
  assumes "snappy_ok sn" "p \<noteq> []" "rbuf r = snappy_stream sn p @ rest"
  shows "read_snappy sn (int (32 + length p + length p div 6)) (length p) r = (Inr p, r\<lparr>rbuf := rest\<rparr>)"
proof -
  have "take (32 + length p + length p div 6) (rbuf r)
      = snappy_stream sn p @ take (32 + length p + length p div 6 - length (snappy_stream sn p)) rest"
    using snappy_okD(2) [OF assms(1), of p] assms(3) by simp
  then show ?thesis
    using snappy_okD(3) [OF assms(1,2)] assms(3) by (simp add: read_snappy_def nat_plus_as_int)
qed

definition chunk_ok :: "bool \<Rightarrow> response_chunk \<Rightarrow> bool" where
  "chunk_ok hasContext c \<longleftrightarrow>
     (if rc_Code c = CodeSuccess \<and> hasContext then length (rc_Context c) = ContextBytesLen else rc_Context c = [])"

text \<open>The state of a reader after it accepted a chunk of \<open>n\<close> payload bytes and left \<open>rest\<close>.\<close>

definition after_chunk :: "response_reader \<Rightarrow> nat \<Rightarrow> bytes \<Rightarrow> response_reader" where
  "after_chunk rr n rest =
     rr\<lparr>rr_reader := (rr_reader rr)\<lparr>rbuf := rest\<rparr>, rr_total := rr_total rr + of_nat n, rr_chunks := rr_chunks rr + 1\<rparr>"

text \<open>What \<open>NewResponseReader\<close> establishes and \<open>Next\<close> keeps.\<close>

definition rr_inv :: "response_reader \<Rightarrow> bool" where
  "rr_inv rr \<longleftrightarrow>
     rr_maxPayload rr \<le> MaxPayloadSize \<and> rr_maxTotal rr \<le> MaxTotalResponseSize \<and>
     rr_maxChunks rr \<le> MaxResponseChunks \<and> rr_total rr \<le> rr_maxTotal rr \<and> rr_chunks rr \<le> rr_maxChunks rr"

lemma NewResponseReader_inv: "NewResponseReader r h mp mt mc = Inr rr \<Longrightarrow> rr_inv rr \<and> rr_total rr = 0 \<and> rr_chunks rr = 0"
  by (auto simp: NewResponseReader_def rr_inv_def not_less split: option.splits if_splits)

lemma next_payload_accepts:
  assumes sn: "snappy_ok sn" and inv: "rr_inv rr"
    and fits: "length p \<le> unat (rr_maxPayload rr)" "unat (rr_total rr) + length p \<le> unat (rr_maxTotal rr)"
    and buf: "rbuf rd = snappy_stream sn p @ rest" and c: "rc_Payload c = []"
  shows "next_payload sn rr rd c (of_nat (length p)) =
     (Inr (c\<lparr>rc_Payload := p\<rparr>),
      rr\<lparr>rr_reader := rd\<lparr>rbuf := rest\<rparr>, rr_total := rr_total rr + of_nat (length p), rr_chunks := rr_chunks rr + 1\<rparr>)"
proof -
  let ?n = "of_nat (length p) :: u64"
  have le: "length p \<le> 10485760"
    using fits(1) inv unfolding rr_inv_def MaxPayloadSize_def word_le_nat_alt by simp
  then have n: "unat ?n = length p" by (simp add: unsigned_of_nat take_bit_nat_eq_self)
  have g1: "\<not> rr_maxPayload rr < ?n" using fits(1) n by (simp add: word_less_nat_alt)
  have "unat (rr_maxTotal rr - rr_total rr) = unat (rr_maxTotal rr) - unat (rr_total rr)"
    using inv by (simp add: rr_inv_def unat_sub)
  then have g2: "\<not> rr_maxTotal rr - rr_total rr < ?n" using fits(2) n by (simp add: word_less_nat_alt)
  have g3: "\<not> 0x7FFFFFFFFFFFFFFF < ?n" using n le by (simp add: word_less_nat_alt)
  have "?n \<le> MaxPayloadSize" using n le by (simp add: MaxPayloadSize_def word_le_nat_alt)
  then have m: "maxCompressedLen ?n = Inr (int (32 + length p + length p div 6))"
    using maxCompressedLen_small [of ?n] n by simp
  show ?thesis
  proof (cases "p = []")
    case True
    then have "rd\<lparr>rbuf := rest\<rparr> = rd" using buf snappy_okD(1) [OF sn] by simp
    then show ?thesis using True g1 g2 c by (cases c) (simp add: next_payload_def Let_def)
  next
    case False
    then have "?n \<noteq> 0" using n by (metis length_0_conv unsigned_0)
    then show ?thesis
      using g1 g2 g3 m read_snappy_stream [OF sn False buf] n
      unfolding next_payload_def Let_def by simp
  qed
qed

lemma Next_accepts:
  assumes "snappy_ok sn" "rr_inv rr" "chunk_ok (rr_hasContext rr) c" "rr_chunks rr \<noteq> rr_maxChunks rr"
    and "length (rc_Payload c) \<le> unat (rr_maxPayload rr)"
    and "unat (rr_total rr) + length (rc_Payload c) \<le> unat (rr_maxTotal rr)"
    and buf: "rbuf (rr_reader rr) = chunk_bytes sn c @ rest"
  shows "Next sn rr = (Inr c, after_chunk rr (length (rc_Payload c)) rest)"
proof -
  let ?rd = "rr_reader rr" and ?p = "rc_Payload c"
  let ?tail = "put_uvarint (of_nat (length ?p)) @ snappy_stream sn ?p @ rest"
  have buf': "rbuf ?rd = rc_Code c # (if rc_Code c = CodeSuccess then rc_Context c else []) @ ?tail"
    using buf by (simp add: chunk_bytes_def RawSSZSnappy_eq)
  have ctx: "(if rc_Code c = CodeSuccess \<and> rr_hasContext rr
        then read_full ContextBytesLen (?rd\<lparr>rbuf := (if rc_Code c = CodeSuccess then rc_Context c else []) @ ?tail\<rparr>)
        else (Inr [], ?rd\<lparr>rbuf := (if rc_Code c = CodeSuccess then rc_Context c else []) @ ?tail\<rparr>))
      = (Inr (rc_Context c), ?rd\<lparr>rbuf := ?tail\<rparr>)"
    using assms(3) by (auto simp: chunk_ok_def split: if_splits)
  have len: "readConsensusUvarint (?rd\<lparr>rbuf := ?tail\<rparr>) = (Inr (of_nat (length ?p)), ?rd\<lparr>rbuf := snappy_stream sn ?p @ rest\<rparr>)"
    by (subst readConsensusUvarint_put) simp_all
  have acc: "next_payload sn rr (?rd\<lparr>rbuf := snappy_stream sn ?p @ rest\<rparr>)
        \<lparr>rc_Code = rc_Code c, rc_Context = rc_Context c, rc_Payload = []\<rparr> (of_nat (length ?p))
      = (Inr c, after_chunk rr (length ?p) rest)"
    by (subst next_payload_accepts [OF assms(1,2,5,6)]) (simp_all add: after_chunk_def)
  show ?thesis
    unfolding Next_def read_byte_simps(2) [OF buf']
    using assms(4) ctx len acc by simp
qed

text \<open>Every accepted chunk is within the limits and counted.\<close>

definition same_limits :: "response_reader \<Rightarrow> response_reader \<Rightarrow> bool" where
  "same_limits rr rr' \<longleftrightarrow>
     rr_hasContext rr' = rr_hasContext rr \<and> rr_maxPayload rr' = rr_maxPayload rr \<and>
     rr_maxTotal rr' = rr_maxTotal rr \<and> rr_maxChunks rr' = rr_maxChunks rr"

lemma next_payload_Inr:
  assumes "next_payload sn rr rd c0 len = (Inr c, rr')" "snappy_ok sn" "rc_Payload c0 = []"
  shows "length (rc_Payload c) = unat len" "\<not> rr_maxPayload rr < len" "\<not> rr_maxTotal rr - rr_total rr < len"
    and "rr_total rr' = rr_total rr + len" "rr_chunks rr' = rr_chunks rr + 1" "same_limits rr rr'"
proof -
  have read: "\<exists>b e used. sn_read sn b e (unat len) = (Inr p, used)" if "read_snappy sn l (unat len) rd = (Inr p, rd')" for l p rd'
    using that by (auto simp: read_snappy_def split: prod.splits)
  show "length (rc_Payload c) = unat len"
    using assms snappy_okD(4) [OF assms(2)]
    by (auto simp: next_payload_def Let_def split: if_splits sum.splits prod.splits dest!: read)
  show "\<not> rr_maxPayload rr < len" "\<not> rr_maxTotal rr - rr_total rr < len"
    using assms(1) by (auto simp: next_payload_def Let_def split: if_splits)
  show "rr_total rr' = rr_total rr + len" "rr_chunks rr' = rr_chunks rr + 1" "same_limits rr rr'"
    using assms(1)
    by (auto simp: next_payload_def same_limits_def Let_def split: if_splits sum.splits prod.splits)
qed

lemma Next_Inr:
  assumes N: "Next sn rr = (Inr c, rr')" and sn: "snappy_ok sn" and inv: "rr_inv rr"
  shows "rr_inv rr'" "same_limits rr rr'" "unat (rr_chunks rr') = unat (rr_chunks rr) + 1"
    and "unat (rr_total rr') = unat (rr_total rr) + length (rc_Payload c)"
    and "length (rc_Payload c) \<le> unat (rr_maxPayload rr)"
proof -
  obtain rd c0 len where P: "next_payload sn rr rd c0 len = (Inr c, rr')" "rc_Payload c0 = []"
      and ne: "rr_chunks rr \<noteq> rr_maxChunks rr"
    using N by (auto simp: Next_def split: if_splits prod.splits sum.splits option.splits)
  note n = next_payload_Inr [OF P(1) sn P(2)]
  have lt: "unat (rr_chunks rr) < unat (rr_maxChunks rr)"
    using inv ne by (simp add: rr_inv_def word_le_nat_alt word_unat_eq_iff)
  moreover have "unat (rr_maxChunks rr) \<le> 1024"
    using inv by (simp add: rr_inv_def MaxResponseChunks_def word_le_nat_alt)
  ultimately show ch: "unat (rr_chunks rr') = unat (rr_chunks rr) + 1"
    by (simp add: n(5) unat_word_ariths)
  have "unat (rr_maxTotal rr - rr_total rr) = unat (rr_maxTotal rr) - unat (rr_total rr)"
    using inv by (simp add: rr_inv_def unat_sub)
  then have sum: "unat (rr_total rr) + unat len \<le> unat (rr_maxTotal rr)"
    using n(3) inv le_diff_conv2 [of "unat (rr_total rr)" "unat (rr_maxTotal rr)" "unat len"]
    by (simp add: rr_inv_def word_less_nat_alt word_le_nat_alt not_less add.commute)
  moreover have "unat (rr_maxTotal rr) \<le> 67108864"
    using inv by (simp add: rr_inv_def MaxTotalResponseSize_def word_le_nat_alt)
  ultimately have tt: "unat (rr_total rr') = unat (rr_total rr) + unat len"
    by (simp add: n(4) unat_word_ariths)
  then show "unat (rr_total rr') = unat (rr_total rr) + length (rc_Payload c)" using n(1) by simp
  show "length (rc_Payload c) \<le> unat (rr_maxPayload rr)" using n(1,2) by (simp add: word_less_nat_alt)
  show "same_limits rr rr'" by (rule n(6))
  then show "rr_inv rr'"
    using inv ch tt sum lt by (simp add: rr_inv_def same_limits_def word_le_nat_alt)
qed

section \<open>Single bodies\<close>

lemma body_round_trip:
  assumes "snappy_ok sn" "WriteSSZSnappy sn w k p = (None, out, k')"
    and "length p \<le> unat maxPayload" "0 < maxPayload" "maxPayload \<le> MaxPayloadSize"
  shows "ReadSSZSnappy sn (Some \<lparr>rbuf = out @ rest, rend = e\<rparr>) maxPayload = Inr p"
proof -
  let ?n = "of_nat (length p) :: u64"
  have out: "out = put_uvarint ?n @ snappy_stream sn p"
    using WriteSSZSnappy_exact(2) [OF assms(2)] by (simp add: RawSSZSnappy_eq)
  have "unat maxPayload \<le> 10485760" using assms(5) by (simp add: MaxPayloadSize_def word_le_nat_alt)
  then have le: "length p \<le> 10485760" using assms(3) by linarith
  then have n: "unat ?n = length p" by (simp add: unsigned_of_nat take_bit_nat_eq_self)
  have "?n \<le> MaxPayloadSize" using n le by (simp add: MaxPayloadSize_def word_le_nat_alt)
  then have m: "maxCompressedLen ?n = Inr (int (32 + length p + length p div 6))"
    using maxCompressedLen_small [of ?n] n by simp
  have g: "\<not> maxPayload < ?n" using assms(3) n by (simp add: word_less_nat_alt)
  have u: "ReadUvarint \<lparr>rbuf = out @ rest, rend = e\<rparr> = (Inr ?n, \<lparr>rbuf = snappy_stream sn p @ rest, rend = e\<rparr>)"
    by (subst ReadUvarint_put [where rest = "snappy_stream sn p @ rest"]) (simp_all add: out)
  show ?thesis
  proof (cases "p = []")
    case True
    then show ?thesis using assms(4,5) u by (simp add: ReadSSZSnappy_def not_less word_gt_0)
  next
    case False
    then have "?n \<noteq> 0" using n by (metis length_0_conv unsigned_0)
    then show ?thesis
      using assms(4,5) u g m n read_snappy_stream [OF assms(1) False, of "\<lparr>rbuf = snappy_stream sn p @ rest, rend = e\<rparr>"]
      by (simp add: ReadSSZSnappy_def not_less word_gt_0)
  qed
qed

text \<open>
  A request body that \<open>WriteSSZSnappy\<close> frames, over any writer, is the payload \<open>ReadSSZSnappy\<close> returns on
  the other side, whatever follows it on the stream, as long as the reader allows its length.
\<close>

theorem ssz_snappy_round_trip:
  assumes "snappy_ok sn" "WriteSSZSnappy sn w k p = (None, out, k')"
    and "length p \<le> unat maxPayload" "0 < maxPayload" "maxPayload \<le> MaxPayloadSize"
  shows "ReadSSZSnappy sn (Some \<lparr>rbuf = out @ rest, rend = e\<rparr>) maxPayload = Inr p"
  by (rule body_round_trip [OF assms])

theorem ssz_snappy_round_trip_witness:
  "ReadSSZSnappy plain_snappy (Some \<lparr>rbuf = [2, 7, 8] @ [9], rend = EOF\<rparr>) 4 = Inr [7, 8]"
proof (rule ssz_snappy_round_trip [OF plain_snappy_ok])
  show "WriteSSZSnappy plain_snappy (chunked_writer 1) 0 [7, 8] = (None, [2, 7, 8], 3)"
    by (simp add: WriteSSZSnappy_def plain_snappy_def writeFull.simps chunked_writer_def put_uvarint.simps)
qed (simp_all add: MaxPayloadSize_def)

end
