(* ===== verification/Reqresp_Request.thy ===== *)
theory Reqresp_Request
  imports Framing Go_Strings
begin

text \<open>
  The request side of package reqresp: protocol identifiers (protocol.go), one exchange on an open
  session (\<open>Session.request\<close> in request.go), the retrying \<open>Request\<close> and \<open>RequestChunks\<close> with the error
  classification of conn.go, and \<open>pinExplicitAddrs\<close>.

  The libp2p stream is a behaviour: the errors of its calls, a writer, and the reader of the peer's bytes.
  A run returns its result and the calls it made, in order; \<open>Observe\<close> is what a configured observer gets.
\<close>

section \<open>Protocol identifiers\<close>

definition ProtocolPrefix :: string where "ProtocolPrefix = ''/eth2/beacon_chain/req''"
definition Encoding :: string where "Encoding = ''ssz_snappy''"

definition req_ProtocolID :: "string \<Rightarrow> int \<Rightarrow> goerr + string" where
  "req_ProtocolID message version =
     (if version < 0 \<or> 999 < version
      then Inl (Errorf ''protocol version %d is outside 0..999'' [VInt version])
      else (let message = trim (CHR ''/'') message
            in if message = '''' then Inl (Errorf ''protocol message is empty'' [])
               else Inr (ProtocolPrefix @ ''/'' @ message @ ''/'' @ show_int version @ ''/'' @ Encoding)))"

definition multiResponseProtocol :: "string \<Rightarrow> bool" where
  "multiResponseProtocol proto \<longleftrightarrow> contains ''_by_range/'' proto \<or> contains ''_by_root/'' proto"

section \<open>One exchange\<close>

text \<open>\<open>BeforeSend\<close> is nil or a callback with the error it returns.\<close>

record request_options =
  o_NoBody :: bool
  o_RawBody :: bytes
  o_HasRawBody :: bool
  o_HasContext :: bool
  o_Handshake :: bool
  o_Timeout :: int
  o_MaxPayload :: u64
  o_MaxTotalPayload :: u64
  o_MaxChunks :: u64
  o_SkipResponse :: bool
  o_BeforeSend :: "goerr option option"

record peer_stream =
  st_open :: "goerr option"
  st_deadline :: "goerr option"
  st_write :: wbeh
  st_closeWrite :: "goerr option"
  st_in :: reader

datatype ev =
    ClearAddrs | AddAddrs "string list"
  | NewStream string int
  | CallBeforeSend "goerr option"
  | Observe write_event
  | Wire bytes
  | ResetStream | CloseWrite | CloseStream

definition request_defaults :: "request_options \<Rightarrow> request_options" where
  "request_defaults opt =
     opt\<lparr>o_Timeout := (if o_Timeout opt = 0 then 8 * 10 ^ 9 else o_Timeout opt),
         o_MaxPayload := (if o_MaxPayload opt = 0 then MaxPayloadSize else o_MaxPayload opt),
         o_MaxTotalPayload := (if o_MaxTotalPayload opt = 0 then MaxTotalResponseSize else o_MaxTotalPayload opt),
         o_MaxChunks := (if o_MaxChunks opt = 0 then MaxResponseChunks else o_MaxChunks opt)\<rparr>"

definition pinExplicitAddrs :: "string list \<Rightarrow> ev list" where
  "pinExplicitAddrs addrs = (if addrs = [] then [] else [ClearAddrs, AddAddrs addrs])"

lemma Next_counts:
  assumes "Next sn rr = (Inr c, rr')"
  shows "rr_chunks rr \<noteq> rr_maxChunks rr" "rr_chunks rr' = rr_chunks rr + 1" "rr_maxChunks rr' = rr_maxChunks rr"
  using assms
  by (auto simp: Next_def next_payload_def Let_def
      split: if_splits prod.splits sum.splits option.splits)

lemma Next_measure:
  assumes "Next sn rr = (Inr c, rr')"
  shows "unat (rr_maxChunks rr' - rr_chunks rr') < unat (rr_maxChunks rr - rr_chunks rr)"
proof -
  have "rr_maxChunks rr - rr_chunks rr \<noteq> 0" using Next_counts(1) [OF assms] by simp
  then have "unat (rr_maxChunks rr - rr_chunks rr - 1) < unat (rr_maxChunks rr - rr_chunks rr)"
    by (rule measure_unat)
  then show ?thesis by (simp add: Next_counts(2,3) [OF assms] algebra_simps)
qed

text \<open>The loop that reads the chunks after the first; the flag says that the stream was reset.\<close>

function collect :: "snappy \<Rightarrow> response_reader \<Rightarrow> response_chunk list \<Rightarrow> (goerr + response_chunk list) \<times> bool" where
  "collect sn rr chunks =
     (case Next sn rr of
        (Inl e, rr') \<Rightarrow> if errors_is e EOF then (Inr chunks, False) else (Inl e, True)
      | (Inr chunk, rr') \<Rightarrow>
          if rc_Code chunk \<noteq> CodeSuccess then (Inr (chunks @ [chunk]), False)
          else collect sn rr' (chunks @ [chunk]))"
  by pat_completeness auto
termination
  by (relation "measure (\<lambda>(sn, rr, chunks). unat (rr_maxChunks rr - rr_chunks rr))", rule wf_measure)
    (simp only: in_measure split_conv Next_measure [OF sym])

declare collect.simps [simp del]

definition read_responses ::
    "snappy \<Rightarrow> request_options \<Rightarrow> bool \<Rightarrow> reader \<Rightarrow> (goerr + response_chunk list) \<times> bool" where
  "read_responses sn opt all rd =
     (case NewResponseReader (Some rd) (o_HasContext opt) (o_MaxPayload opt) (o_MaxTotalPayload opt) (o_MaxChunks opt) of
        Inl e \<Rightarrow> (Inl e, True)
      | Inr responses \<Rightarrow>
          (case Next sn responses of
             (Inl e, rr) \<Rightarrow> if errors_is e EOF then (Inl ErrEmptyResponse, False) else (Inl e, True)
           | (Inr first, rr) \<Rightarrow>
               if \<not> all \<or> rc_Code first \<noteq> CodeSuccess then (Inr [first], False)
               else collect sn rr [first]))"

definition captured_body :: "snappy \<Rightarrow> request_options \<Rightarrow> bytes \<Rightarrow> bytes" where
  "captured_body sn opt payload =
     (if o_NoBody opt then [] else if o_HasRawBody opt then o_RawBody opt else RawSSZSnappy sn payload)"

definition send_body :: "snappy \<Rightarrow> wbeh \<Rightarrow> request_options \<Rightarrow> bytes \<Rightarrow> goerr option \<times> bytes" where
  "send_body sn w opt payload =
     (if o_NoBody opt then (None, [])
      else if o_HasRawBody opt then
        (case writeFull w 0 (o_RawBody opt) of
           (Some e, out, k) \<Rightarrow> (Some (Wrapf ''write raw request: %w'' [] e), out)
         | (None, out, k) \<Rightarrow> (None, out))
      else (case WriteSSZSnappy sn w 0 payload of (r, out, k) \<Rightarrow> (r, out)))"

definition resets :: "bool \<Rightarrow> ev list" where "resets b = (if b then [ResetStream] else [])"

definition exchange ::
    "snappy \<Rightarrow> peer_stream \<Rightarrow> string \<Rightarrow> bytes \<Rightarrow> request_options \<Rightarrow> bool \<Rightarrow> (goerr + response_chunk list) \<times> ev list" where
  "exchange sn st proto payload opt all =
     (case st_deadline st of
        Some e \<Rightarrow> (Inl (Wrapf ''set stream deadline: %w'' [] e), [ResetStream])
      | None \<Rightarrow>
          (let before = (case o_BeforeSend opt of None \<Rightarrow> [] | Some r \<Rightarrow> [CallBeforeSend r])
           in case (case o_BeforeSend opt of None \<Rightarrow> None | Some r \<Rightarrow> r) of
                Some e \<Rightarrow> (Inl (Wrapf ''before request send: %w'' [] e), before @ [ResetStream])
              | None \<Rightarrow>
                  (let observed = Observe ((write_of ''reqresp'')\<lparr>w_ProtocolID := proto,
                                              w_Payload := captured_body sn opt payload\<rparr>)
                   in case send_body sn (st_write st) opt payload of
                        (Some e, out) \<Rightarrow> (Inl e, before @ [observed, Wire out, ResetStream])
                      | (None, out) \<Rightarrow>
                          (case st_closeWrite st of
                             Some e \<Rightarrow>
                               (Inl (Wrapf ''close write side: %w'' [] e),
                                before @ [observed, Wire out, CloseWrite, ResetStream])
                           | None \<Rightarrow>
                               if o_SkipResponse opt then (Inr [], before @ [observed, Wire out, CloseWrite])
                               else
                                 (case read_responses sn opt all (st_in st) of
                                    (res, was_reset) \<Rightarrow>
                                      (res, before @ [observed, Wire out, CloseWrite] @ resets was_reset))))))"

text \<open>\<open>left\<close> is \<open>session.Remaining\<close> on the session's context.\<close>

definition request ::
    "snappy \<Rightarrow> (int \<Rightarrow> int) \<Rightarrow> string list \<Rightarrow> peer_stream \<Rightarrow> string \<Rightarrow> bytes \<Rightarrow> request_options \<Rightarrow> bool
       \<Rightarrow> (goerr + response_chunk list) \<times> ev list" where
  "request sn left addrs st proto payload options all =
     (let opt = request_defaults options;
          start = pinExplicitAddrs addrs @ [NewStream proto (left (o_Timeout opt))]
      in case st_open st of
           Some e \<Rightarrow> (Inl (Wrapf ''open stream %s: %w'' [VStr proto] e), start)
         | None \<Rightarrow>
             (case exchange sn st proto payload opt all of
                (res, tr) \<Rightarrow> (res, start @ tr @ [CloseStream])))"

text \<open>\<open>Session.Request\<close>: the first chunk that is not a success, or the first one; \<open>None\<close> is a nil chunk.\<close>

definition pick_response :: "response_chunk list \<Rightarrow> response_chunk option" where
  "pick_response chunks =
     (if chunks = [] then None
      else (case filter (\<lambda>c. rc_Code c \<noteq> CodeSuccess) chunks of c # _ \<Rightarrow> Some c | [] \<Rightarrow> Some (hd chunks)))"

definition session_Request ::
    "snappy \<Rightarrow> (int \<Rightarrow> int) \<Rightarrow> string list \<Rightarrow> peer_stream \<Rightarrow> string \<Rightarrow> bytes \<Rightarrow> request_options
       \<Rightarrow> (goerr + response_chunk option) \<times> ev list" where
  "session_Request sn left addrs st proto payload opt =
     (case request sn left addrs st proto payload opt (multiResponseProtocol proto) of
        (Inl e, tr) \<Rightarrow> (Inl e, tr)
      | (Inr chunks, tr) \<Rightarrow> (Inr (pick_response chunks), tr))"

definition session_RequestChunks ::
    "snappy \<Rightarrow> (int \<Rightarrow> int) \<Rightarrow> string list \<Rightarrow> peer_stream \<Rightarrow> string \<Rightarrow> bytes \<Rightarrow> request_options
       \<Rightarrow> (goerr + response_chunk list) \<times> ev list" where
  "session_RequestChunks sn left addrs st proto payload opt = request sn left addrs st proto payload opt True"

section \<open>Limits\<close>

text \<open>What was accepted from a reader, relative to its counters.\<close>

definition within_limits :: "response_reader \<Rightarrow> response_chunk list \<Rightarrow> bool" where
  "within_limits rr cs \<longleftrightarrow>
     (\<forall>c \<in> set cs. length (rc_Payload c) \<le> unat (rr_maxPayload rr)) \<and>
     unat (rr_chunks rr) + length cs \<le> unat (rr_maxChunks rr) \<and>
     unat (rr_total rr) + (\<Sum>c \<leftarrow> cs. length (rc_Payload c)) \<le> unat (rr_maxTotal rr)"

lemma within_limits_Nil: "rr_inv rr \<Longrightarrow> within_limits rr []"
  by (simp add: within_limits_def rr_inv_def word_le_nat_alt)

lemma within_limits_Cons:
  assumes "Next sn rr = (Inr c, rr')" "snappy_ok sn" "rr_inv rr" "within_limits rr' cs"
  shows "within_limits rr (c # cs)"
  using Next_Inr [OF assms(1-3)] assms(4)
  by (auto simp: within_limits_def same_limits_def)

lemma collect_limits:
  "collect sn rr cs = (Inr ds, b) \<Longrightarrow> snappy_ok sn \<Longrightarrow> rr_inv rr \<Longrightarrow>
     \<exists>new. ds = cs @ new \<and> within_limits rr new"
proof (induction sn rr cs arbitrary: ds b rule: collect.induct)
  case (1 sn rr cs)
  obtain res rr' where N: "Next sn rr = (res, rr')" by (cases "Next sn rr")
  show ?case
  proof (cases res)
    case (Inl e)
    then have "ds = cs" using "1.prems"(1) N by (simp add: collect.simps [of sn rr] split: if_splits)
    then show ?thesis using within_limits_Nil [OF "1.prems"(3)] by simp
  next
    case (Inr c)
    note N' = N [unfolded Inr]
    note n = Next_Inr [OF N' "1.prems"(2,3)]
    show ?thesis
    proof (cases "rc_Code c = CodeSuccess")
      case False
      then have "ds = cs @ [c]" using "1.prems"(1) N' by (simp add: collect.simps [of sn rr])
      then show ?thesis
        using within_limits_Cons [OF N' "1.prems"(2,3) within_limits_Nil [OF n(1)]] by blast
    next
      case True
      then have "collect sn rr' (cs @ [c]) = (Inr ds, b)"
        using "1.prems"(1) N' by (simp add: collect.simps [of sn rr])
      from "1.IH" [OF N' [symmetric] refl _ this "1.prems"(2) n(1)] True
      obtain new where "ds = (cs @ [c]) @ new" "within_limits rr' new" by blast
      then show ?thesis using within_limits_Cons [OF N' "1.prems"(2,3)] by auto
    qed
  qed
qed

lemma read_responses_limits:
  assumes "read_responses sn opt all rd = (Inr cs, b)" "snappy_ok sn"
  shows "length cs \<le> unat (o_MaxChunks opt)"
    and "(\<Sum>c \<leftarrow> cs. length (rc_Payload c)) \<le> unat (o_MaxTotalPayload opt)"
    and "\<forall>c \<in> set cs. length (rc_Payload c) \<le> unat (o_MaxPayload opt)"
proof -
  obtain rr where R: "NewResponseReader (Some rd) (o_HasContext opt) (o_MaxPayload opt) (o_MaxTotalPayload opt) (o_MaxChunks opt) = Inr rr"
    using assms(1) by (auto simp: read_responses_def split: sum.splits)
  note inv = NewResponseReader_inv [OF R]
  have lim: "rr_maxPayload rr = o_MaxPayload opt" "rr_maxTotal rr = o_MaxTotalPayload opt" "rr_maxChunks rr = o_MaxChunks opt"
    using R by (auto simp: NewResponseReader_def split: if_splits)
  obtain first rr' where F: "Next sn rr = (Inr first, rr')"
    using assms(1) R by (auto simp: read_responses_def split: sum.splits prod.splits if_splits)
  note n = Next_Inr [OF F assms(2)]
  have "within_limits rr cs"
  proof (cases "\<not> all \<or> rc_Code first \<noteq> CodeSuccess")
    case True
    then have "cs = [first]" using assms(1) R F by (auto simp: read_responses_def)
    then show ?thesis using within_limits_Cons [OF F assms(2)] within_limits_Nil n(1) inv by simp
  next
    case False
    then have "collect sn rr' [first] = (Inr cs, b)" using assms(1) R F by (simp add: read_responses_def)
    from collect_limits [OF this assms(2)] inv n(1)
    obtain new where "cs = [first] @ new" "within_limits rr' new" by blast
    then show ?thesis using within_limits_Cons [OF F assms(2)] inv by simp
  qed
  then show "length cs \<le> unat (o_MaxChunks opt)"
    "(\<Sum>c \<leftarrow> cs. length (rc_Payload c)) \<le> unat (o_MaxTotalPayload opt)"
    "\<forall>c \<in> set cs. length (rc_Payload c) \<le> unat (o_MaxPayload opt)"
    using inv lim by (auto simp: within_limits_def)
qed

lemma request_reads:
  assumes "request sn left addrs st proto payload options all = (Inr cs, tr)"
  shows "cs = [] \<or> (\<exists>b. read_responses sn (request_defaults options) all (st_in st) = (Inr cs, b))"
  using assms
  by (auto simp: request_def exchange_def Let_def split: option.splits prod.splits if_splits)

lemma collect_extends: "collect sn rr cs = (Inr ds, b) \<Longrightarrow> \<exists>new. ds = cs @ new"
proof (induction sn rr cs arbitrary: ds b rule: collect.induct)
  case (1 sn rr cs)
  obtain res rr' where N: "Next sn rr = (res, rr')" by (cases "Next sn rr")
  show ?case
  proof (cases res)
    case (Inl e)
    then show ?thesis using "1.prems" N by (simp add: collect.simps [of sn rr] split: if_splits)
  next
    case (Inr c)
    then show ?thesis
      using "1.prems" N "1.IH" [OF N [symmetric] Inr]
      by (auto simp: collect.simps [of sn rr] split: if_splits)
  qed
qed

lemma read_responses_not_Nil: "read_responses sn opt all rd = (Inr cs, b) \<Longrightarrow> cs \<noteq> []"
  by (auto simp: read_responses_def dest!: collect_extends split: sum.splits prod.splits if_splits)

lemma request_Nil:
  assumes "request sn left addrs st proto payload options all = (Inr [], tr)"
  shows "o_SkipResponse options"
proof -
  have "o_SkipResponse (request_defaults options) \<or> (\<exists>b. read_responses sn (request_defaults options) all (st_in st) = (Inr [], b))"
    using assms by (auto simp: request_def exchange_def Let_def split: option.splits prod.splits if_splits)
  then show ?thesis by (auto simp: request_defaults_def dest: read_responses_not_Nil)
qed

text \<open>
  C3: Whatever a peer sends, an exchange that succeeds hands the caller at most \<open>MaxChunks\<close> chunks, none longer than
  \<open>MaxPayload\<close>, and together no longer than \<open>MaxTotalPayload\<close> (zero options standing for the ceilings).
\<close>

theorem request_within_limits:
  "snappy_ok sn \<Longrightarrow> request sn left addrs st proto payload options all = (Inr cs, tr) \<Longrightarrow>
     length cs \<le> unat (o_MaxChunks (request_defaults options)) \<and>
     (\<Sum>c \<leftarrow> cs. length (rc_Payload c)) \<le> unat (o_MaxTotalPayload (request_defaults options)) \<and>
     (\<forall>c \<in> set cs. length (rc_Payload c) \<le> unat (o_MaxPayload (request_defaults options)))"
  using request_reads [of sn left addrs st proto payload options all cs tr]
    read_responses_limits [of sn "request_defaults options" all "st_in st" cs]
  by auto

definition demo_options :: request_options where
  "demo_options = \<lparr>o_NoBody = True, o_RawBody = [], o_HasRawBody = False, o_HasContext = False, o_Handshake = False,
     o_Timeout = 0, o_MaxPayload = 3, o_MaxTotalPayload = 3, o_MaxChunks = 2, o_SkipResponse = False,
     o_BeforeSend = None\<rparr>"

definition demo_stream :: "bytes \<Rightarrow> peer_stream" where
  "demo_stream input = \<lparr>st_open = None, st_deadline = None, st_write = chunked_writer 1, st_closeWrite = None,
     st_in = \<lparr>rbuf = input, rend = EOF\<rparr>\<rparr>"

theorem request_within_limits_witness:
  "length [\<lparr>rc_Code = 0, rc_Context = [], rc_Payload = [7]\<rparr>] \<le> unat (o_MaxChunks (request_defaults demo_options))"
proof -
  have "request plain_snappy (\<lambda>t. t) [] (demo_stream [0, 1, 7]) ''/ping/1/'' [] demo_options True =
      (Inr [\<lparr>rc_Code = 0, rc_Context = [], rc_Payload = [7]\<rparr>],
       [NewStream ''/ping/1/'' 8000000000, Observe ((write_of ''reqresp'')\<lparr>w_ProtocolID := ''/ping/1/''\<rparr>), Wire [], CloseWrite, CloseStream])"
    by code_simp
  from request_within_limits [OF plain_snappy_ok this] show ?thesis by simp
qed

section \<open>What a responder writes is what the requester reads\<close>

text \<open>A responder that writes its chunks one after the other, as callers of \<open>WriteResponse\<close> do.\<close>

fun serve :: "snappy \<Rightarrow> wbeh \<Rightarrow> nat \<Rightarrow> response_chunk list \<Rightarrow> goerr option \<times> bytes \<times> nat" where
  "serve sn w k [] = (None, [], k)"
| "serve sn w k (c # cs) =
     (case WriteResponseChunk sn w k c of
        (Some e, out, k1) \<Rightarrow> (Some e, out, k1)
      | (None, out, k1) \<Rightarrow> (case serve sn w k1 cs of (r, out2, k2) \<Rightarrow> (r, out @ out2, k2)))"

fun upto_failure :: "response_chunk list \<Rightarrow> response_chunk list" where
  "upto_failure [] = []"
| "upto_failure (c # cs) = (if rc_Code c = CodeSuccess then c # upto_failure cs else [c])"

lemma serve_wire: "serve sn w k cs = (None, out, k') \<Longrightarrow> out = concat (map (chunk_bytes sn) cs)"
  by (induction cs arbitrary: k out k')
    (auto split: prod.splits option.splits dest: WriteResponseChunk_wire(2))

lemma Next_end: "rbuf (rr_reader rr) = [] \<Longrightarrow> rend (rr_reader rr) = EOF \<Longrightarrow> \<exists>rr'. Next sn rr = (Inl EOF, rr')"
  by (auto simp: Next_def peek1_def)

lemma after_chunk_simps [simp]:
  "rr_maxPayload (after_chunk rr n rest) = rr_maxPayload rr" "rr_maxTotal (after_chunk rr n rest) = rr_maxTotal rr"
  "rr_maxChunks (after_chunk rr n rest) = rr_maxChunks rr" "rr_hasContext (after_chunk rr n rest) = rr_hasContext rr"
  "rr_reader (after_chunk rr n rest) = (rr_reader rr)\<lparr>rbuf := rest\<rparr>"
  by (simp_all add: after_chunk_def)

lemma Next_step:
  assumes "snappy_ok sn" "rr_inv rr" "chunk_ok (rr_hasContext rr) c" "within_limits rr (c # cs)"
    and "rbuf (rr_reader rr) = chunk_bytes sn c @ rest"
  shows "Next sn rr = (Inr c, after_chunk rr (length (rc_Payload c)) rest)"
    and "rr_inv (after_chunk rr (length (rc_Payload c)) rest)"
    and "within_limits (after_chunk rr (length (rc_Payload c)) rest) cs"
proof -
  have "rr_chunks rr \<noteq> rr_maxChunks rr" using assms(4) by (auto simp: within_limits_def)
  then show N: "Next sn rr = (Inr c, after_chunk rr (length (rc_Payload c)) rest)"
    using assms by (intro Next_accepts) (auto simp: within_limits_def)
  note n = Next_Inr [OF N assms(1,2)]
  show "rr_inv (after_chunk rr (length (rc_Payload c)) rest)" by (rule n(1))
  show "within_limits (after_chunk rr (length (rc_Payload c)) rest) cs"
    using n(3,4) assms(4) by (simp add: within_limits_def)
qed

text \<open>The loop over an input that starts with whole chunks and then makes \<open>Next\<close> report an end.\<close>

lemma collect_chunks:
  assumes "snappy_ok sn" "rr_inv rr" "\<forall>c \<in> set cs. chunk_ok (rr_hasContext rr) c" "within_limits rr cs"
    and "rbuf (rr_reader rr) = concat (map (chunk_bytes sn) cs) @ tail"
    and "\<And>rr'. rr_inv rr' \<Longrightarrow> same_limits rr rr' \<Longrightarrow> unat (rr_chunks rr') = unat (rr_chunks rr) + length cs \<Longrightarrow>
           unat (rr_total rr') = unat (rr_total rr) + (\<Sum>c \<leftarrow> cs. length (rc_Payload c)) \<Longrightarrow>
           rr_reader rr' = (rr_reader rr)\<lparr>rbuf := tail\<rparr> \<Longrightarrow>
           \<exists>e rr''. Next sn rr' = (Inl e, rr'') \<and> errors_is e EOF"
  shows "collect sn rr acc = (Inr (acc @ upto_failure cs), False)"
  using assms
proof (induction cs arbitrary: rr acc)
  case Nil
  from Nil.prems(6) [of rr] Nil.prems(2,5) show ?case
    by (subst collect.simps) (auto simp: same_limits_def)
next
  case (Cons c cs)
  let ?rr = "after_chunk rr (length (rc_Payload c)) (concat (map (chunk_bytes sn) cs) @ tail)"
  have N: "Next sn rr = (Inr c, ?rr)" and inv: "rr_inv ?rr" and lim: "within_limits ?rr cs"
    using Next_step [OF Cons.prems(1,2), of c cs] Cons.prems(3-5) by simp_all
  show ?case
  proof (cases "rc_Code c = CodeSuccess")
    case False
    then show ?thesis by (subst collect.simps) (simp add: N)
  next
    case True
    have "collect sn ?rr (acc @ [c]) = (Inr ((acc @ [c]) @ upto_failure cs), False)"
    proof (rule Cons.IH [OF Cons.prems(1) inv _ lim])
      show "\<exists>e rr''. Next sn rr' = (Inl e, rr'') \<and> errors_is e EOF"
        if "rr_inv rr'" "same_limits ?rr rr'" "unat (rr_chunks rr') = unat (rr_chunks ?rr) + length cs"
          "unat (rr_total rr') = unat (rr_total ?rr) + (\<Sum>c \<leftarrow> cs. length (rc_Payload c))"
          "rr_reader rr' = (rr_reader ?rr)\<lparr>rbuf := tail\<rparr>" for rr'
        using that Next_Inr(3,4) [OF N Cons.prems(1,2)] Cons.prems(6) [of rr'] by (simp add: same_limits_def)
    qed (use Cons.prems(3) in simp_all)
    then show ?thesis using True by (subst collect.simps) (simp add: N)
  qed
qed

text \<open>The limits of a fresh reader, over the options of the request.\<close>

definition fits_options :: "request_options \<Rightarrow> response_chunk list \<Rightarrow> bool" where
  "fits_options opt cs \<longleftrightarrow>
     (\<forall>c \<in> set cs. chunk_ok (o_HasContext opt) c \<and> length (rc_Payload c) \<le> unat (o_MaxPayload opt)) \<and>
     length cs \<le> unat (o_MaxChunks opt) \<and> (\<Sum>c \<leftarrow> cs. length (rc_Payload c)) \<le> unat (o_MaxTotalPayload opt)"

lemma read_responses_chunks:
  assumes sn: "snappy_ok sn" and opt: "fits_options opt cs" and cs: "cs \<noteq> []"
    and R: "NewResponseReader (Some rd) (o_HasContext opt) (o_MaxPayload opt) (o_MaxTotalPayload opt) (o_MaxChunks opt) = Inr rr"
    and buf: "rbuf rd = concat (map (chunk_bytes sn) cs) @ tail"
    and last: "\<And>rr'. rr_inv rr' \<Longrightarrow> same_limits rr rr' \<Longrightarrow> unat (rr_chunks rr') = length cs \<Longrightarrow>
           unat (rr_total rr') = (\<Sum>c \<leftarrow> cs. length (rc_Payload c)) \<Longrightarrow> rr_reader rr' = rd\<lparr>rbuf := tail\<rparr> \<Longrightarrow>
           \<exists>e rr''. Next sn rr' = (Inl e, rr'') \<and> errors_is e EOF"
  shows "read_responses sn opt True rd = (Inr (upto_failure cs), False)"
proof -
  note inv = NewResponseReader_inv [OF R]
  have lim: "rr_maxPayload rr = o_MaxPayload opt" "rr_maxTotal rr = o_MaxTotalPayload opt"
    "rr_maxChunks rr = o_MaxChunks opt" "rr_hasContext rr = o_HasContext opt" "rr_reader rr = rd"
    using R by (auto simp: NewResponseReader_def split: if_splits)
  have ok: "within_limits rr cs" "\<forall>c \<in> set cs. chunk_ok (rr_hasContext rr) c"
    using opt inv by (simp_all add: fits_options_def within_limits_def lim)
  have all: "collect sn rr [] = (Inr ([] @ upto_failure cs), False)"
    by (rule collect_chunks [OF sn _ ok(2,1), where tail = tail]) (use inv lim buf last in auto)
  obtain c cs' where c: "cs = c # cs'" using cs by (cases cs) auto
  obtain rr1 where N: "Next sn rr = (Inr c, rr1)"
    using Next_step(1) [OF sn _ _ ok(1) [unfolded c], of "concat (map (chunk_bytes sn) cs') @ tail"] ok(2) inv lim buf c
    by auto
  show ?thesis
  proof (cases "rc_Code c = CodeSuccess")
    case True
    then have "collect sn rr1 [c] = (Inr (upto_failure cs), False)"
      using all N by (simp add: collect.simps [of sn rr])
    then show ?thesis using True N by (simp add: read_responses_def R)
  next
    case False
    then show ?thesis using N c by (simp add: read_responses_def R)
  qed
qed

lemma served_chunks_read:
  assumes "snappy_ok sn" "serve sn w 0 cs = (None, wire, k)" "cs \<noteq> []" "fits_options opt cs"
    and "NewResponseReader (Some \<lparr>rbuf = wire, rend = EOF\<rparr>) (o_HasContext opt) (o_MaxPayload opt)
           (o_MaxTotalPayload opt) (o_MaxChunks opt) = Inr rr"
  shows "read_responses sn opt True \<lparr>rbuf = wire, rend = EOF\<rparr> = (Inr (upto_failure cs), False)"
proof (rule read_responses_chunks [OF assms(1,4,3,5), where tail = "[]"])
  show "rbuf \<lparr>rbuf = wire, rend = EOF\<rparr> = concat (map (chunk_bytes sn) cs) @ []"
    using serve_wire [OF assms(2)] by simp
  show "\<exists>e rr''. Next sn rr' = (Inl e, rr'') \<and> errors_is e EOF"
    if "rr_reader rr' = \<lparr>rbuf = wire, rend = EOF\<rparr>\<lparr>rbuf := []\<rparr>" for rr'
    using Next_end [of rr' sn] that errors_is_EOF(1) by auto
qed

text \<open>
  A responder that writes its chunks with \<open>WriteResponseChunk\<close>, over any writer, and closes its stream, is
  read back exactly: within its limits the requester gets the chunks in order, up to and including the first one
  that is not a success.
\<close>

theorem responses_round_trip:
  assumes "snappy_ok sn" "serve sn w 0 cs = (None, wire, k)" "cs \<noteq> []" "fits_options opt cs"
    and "NewResponseReader (Some \<lparr>rbuf = wire, rend = EOF\<rparr>) (o_HasContext opt) (o_MaxPayload opt)
           (o_MaxTotalPayload opt) (o_MaxChunks opt) = Inr rr"
  shows "read_responses sn opt True \<lparr>rbuf = wire, rend = EOF\<rparr> = (Inr (upto_failure cs), False)"
  by (rule served_chunks_read [OF assms])

theorem responses_round_trip_witness:
  "read_responses plain_snappy (request_defaults demo_options) True \<lparr>rbuf = [0, 1, 7, 2, 1, 9], rend = EOF\<rparr> =
     (Inr (upto_failure [\<lparr>rc_Code = 0, rc_Context = [], rc_Payload = [7]\<rparr>, \<lparr>rc_Code = 2, rc_Context = [], rc_Payload = [9]\<rparr>]), False)"
proof (rule responses_round_trip [OF plain_snappy_ok])
  show "serve plain_snappy (chunked_writer 1) 0
      [\<lparr>rc_Code = 0, rc_Context = [], rc_Payload = [7]\<rparr>, \<lparr>rc_Code = 2, rc_Context = [], rc_Payload = [9]\<rparr>]
      = (None, [0, 1, 7, 2, 1, 9], 6)"
    by code_simp
  show "NewResponseReader (Some \<lparr>rbuf = [0, 1, 7, 2, 1, 9], rend = EOF\<rparr>) (o_HasContext (request_defaults demo_options))
      (o_MaxPayload (request_defaults demo_options)) (o_MaxTotalPayload (request_defaults demo_options))
      (o_MaxChunks (request_defaults demo_options))
      = Inr \<lparr>rr_reader = \<lparr>rbuf = [0, 1, 7, 2, 1, 9], rend = EOF\<rparr>, rr_hasContext = False, rr_maxPayload = 3,
             rr_maxTotal = 3, rr_maxChunks = 2, rr_total = 0, rr_chunks = 0\<rparr>"
    by code_simp
  show "fits_options (request_defaults demo_options)
     [\<lparr>rc_Code = 0, rc_Context = [], rc_Payload = [7]\<rparr>, \<lparr>rc_Code = 2, rc_Context = [], rc_Payload = [9]\<rparr>]"
    by code_simp
qed simp

text \<open>
  A chunk cut after \<open>k\<close> bytes. The cut is silent when it falls right behind the code, or behind the whole
  context and no later than the first byte of a payload that is not empty; inside the context it is not.
\<close>

definition header_length :: "response_chunk \<Rightarrow> nat" where
  "header_length c = 1 + length (rc_Context c) + length (put_uvarint (of_nat (length (rc_Payload c))))"

definition silent_cut :: "response_chunk \<Rightarrow> nat \<Rightarrow> bool" where
  "silent_cut c k \<longleftrightarrow>
     (k = 1 \<or> 1 + length (rc_Context c) \<le> k \<and> k < header_length c \<or> k = header_length c \<and> rc_Payload c \<noteq> [])"

lemma cut_payload:
  assumes "snappy_ok sn" "rr_inv rr" "p \<noteq> []" "length p \<le> unat (rr_maxPayload rr)"
    and "unat (rr_total rr) + length p \<le> unat (rr_maxTotal rr)"
  shows "\<exists>rr''. next_payload sn rr \<lparr>rbuf = [], rend = EOF\<rparr> c (of_nat (length p))
           = (Inl (Wrapf ''read snappy response payload: %w'' [] EOF), rr'')"
proof -
  let ?n = "of_nat (length p) :: u64"
  have le: "length p \<le> 10485760"
    using assms(2,4) unfolding rr_inv_def MaxPayloadSize_def word_le_nat_alt by simp
  then have n: "unat ?n = length p" by (simp add: unsigned_of_nat take_bit_nat_eq_self)
  have "unat (rr_maxTotal rr - rr_total rr) = unat (rr_maxTotal rr) - unat (rr_total rr)"
    using assms(2) by (simp add: rr_inv_def unat_sub)
  then have g: "\<not> rr_maxPayload rr < ?n" "\<not> rr_maxTotal rr - rr_total rr < ?n" "\<not> 0x7FFFFFFFFFFFFFFF < ?n"
    using assms(4,5) n le by (simp_all add: word_less_nat_alt)
  have m: "maxCompressedLen ?n = Inr (int (32 + length p + length p div 6))"
    using maxCompressedLen_small [of ?n] n le by (simp add: MaxPayloadSize_def word_le_nat_alt)
  have nz: "?n \<noteq> 0" using n assms(3) by (metis length_0_conv unsigned_0)
  obtain rd where r: "read_snappy sn (int (32 + length p + length p div 6)) (length p) \<lparr>rbuf = [], rend = EOF\<rparr> = (Inl EOF, rd)"
    using snappy_okD(5) [OF assms(1), of "length p"] assms(3)
    by (cases "sn_read sn [] EOF (length p)") (simp add: read_snappy_def)
  show ?thesis using g m nz r n by (simp add: next_payload_def Let_def)
qed

lemma Next_cut:
  assumes sn: "snappy_ok sn" "rr_inv rr" "chunk_ok (rr_hasContext rr) c" "rr_chunks rr \<noteq> rr_maxChunks rr"
    and fits: "length (rc_Payload c) \<le> unat (rr_maxPayload rr)"
      "unat (rr_total rr) + length (rc_Payload c) \<le> unat (rr_maxTotal rr)"
    and cut: "silent_cut c k" and rd: "rr_reader rr = \<lparr>rbuf = take k (chunk_bytes sn c), rend = EOF\<rparr>"
  shows "\<exists>e rr''. Next sn rr = (Inl e, rr'') \<and> errors_is e EOF"
proof -
  let ?ctx = "rc_Context c" and ?n = "of_nat (length (rc_Payload c)) :: u64"
  have bytes: "chunk_bytes sn c = rc_Code c # ?ctx @ put_uvarint ?n @ snappy_stream sn (rc_Payload c)"
    using sn(3) by (auto simp: chunk_bytes_def RawSSZSnappy_eq chunk_ok_def split: if_splits)
  have ctx: "(if rc_Code c = CodeSuccess \<and> rr_hasContext rr then read_full ContextBytesLen \<lparr>rbuf = ?ctx @ rest, rend = EOF\<rparr>
      else (Inr [], \<lparr>rbuf = ?ctx @ rest, rend = EOF\<rparr>)) = (Inr ?ctx, \<lparr>rbuf = rest, rend = EOF\<rparr>)" for rest
    using sn(3) by (auto simp: chunk_ok_def split: if_splits)
  have prefix: ?thesis if j: "rr_reader rr = \<lparr>rbuf = rc_Code c # ?ctx @ take j (put_uvarint ?n), rend = EOF\<rparr>"
      "j < length (put_uvarint ?n)" for j
  proof -
    obtain rd' where "readConsensusUvarint \<lparr>rbuf = take j (put_uvarint ?n), rend = EOF\<rparr> = (Inl EOF, rd')"
      using readConsensusUvarint_cut [OF j(2), of EOF]
      by (cases "readConsensusUvarint \<lparr>rbuf = take j (put_uvarint ?n), rend = EOF\<rparr>") simp
    then show ?thesis using sn(4) ctx by (simp add: Next_def j(1))
  qed
  consider "k = 1" "?ctx \<noteq> []" | j where "k = 1 + length ?ctx + j" "j < length (put_uvarint ?n)"
    | "k = header_length c" "rc_Payload c \<noteq> []"
    using cut by (cases "?ctx = []")
      (auto simp: silent_cut_def header_length_def le_iff_add dest: spec [where x = 0])
  then show ?thesis
  proof cases
    case 1
    then have "rc_Code c = CodeSuccess \<and> rr_hasContext rr" using sn(3) by (auto simp: chunk_ok_def split: if_splits)
    then show ?thesis using sn(4) 1 by (simp add: Next_def rd bytes read_full_def ContextBytesLen_def)
  next
    case 2
    then show ?thesis by (intro prefix [of j]) (simp_all add: rd bytes)
  next
    case 3
    have "readConsensusUvarint \<lparr>rbuf = put_uvarint ?n, rend = EOF\<rparr> = (Inr ?n, \<lparr>rbuf = [], rend = EOF\<rparr>)"
      by (subst readConsensusUvarint_put [where rest = "[]"]) simp_all
    moreover obtain rr'' where "next_payload sn rr \<lparr>rbuf = [], rend = EOF\<rparr>
        \<lparr>rc_Code = rc_Code c, rc_Context = ?ctx, rc_Payload = []\<rparr> ?n
        = (Inl (Wrapf ''read snappy response payload: %w'' [] EOF), rr'')"
      using cut_payload [OF sn(1,2) 3(2) fits] by blast
    moreover have "rr_reader rr = \<lparr>rbuf = rc_Code c # ?ctx @ put_uvarint ?n, rend = EOF\<rparr>"
      using 3 by (simp add: rd bytes header_length_def)
    ultimately show ?thesis using sn(4) ctx by (simp add: Next_def)
  qed
qed

lemma NewResponseReader_fits:
  assumes "fits_options opt (cs @ [c])" "0 < o_MaxPayload opt" "0 < o_MaxTotalPayload opt"
    and "o_MaxPayload opt \<le> MaxPayloadSize" "o_MaxTotalPayload opt \<le> MaxTotalResponseSize" "o_MaxChunks opt \<le> MaxResponseChunks"
  obtains rr where "NewResponseReader (Some rd) (o_HasContext opt) (o_MaxPayload opt) (o_MaxTotalPayload opt) (o_MaxChunks opt) = Inr rr"
    and "rr_inv rr" "rr_total rr = 0" "rr_chunks rr = 0" "rr_reader rr = rd" "rr_hasContext rr = o_HasContext opt"
    and "rr_maxPayload rr = o_MaxPayload opt" "rr_maxTotal rr = o_MaxTotalPayload opt" "rr_maxChunks rr = o_MaxChunks opt"
proof -
  have "o_MaxChunks opt \<noteq> 0" using assms(1) by (auto simp: fits_options_def)
  then have "NewResponseReader (Some rd) (o_HasContext opt) (o_MaxPayload opt) (o_MaxTotalPayload opt) (o_MaxChunks opt)
      = Inr \<lparr>rr_reader = rd, rr_hasContext = o_HasContext opt, rr_maxPayload = o_MaxPayload opt,
             rr_maxTotal = o_MaxTotalPayload opt, rr_maxChunks = o_MaxChunks opt, rr_total = 0, rr_chunks = 0\<rparr>"
    using assms(2-) by (auto simp: NewResponseReader_def not_less)
  from that [OF this NewResponseReader_inv [OF this, THEN conjunct1]] show ?thesis by simp
qed

text \<open>Whole chunks, then nothing or a further chunk cut silently.\<close>

definition ends_like_EOF :: "snappy \<Rightarrow> response_chunk \<Rightarrow> bytes \<Rightarrow> bool" where
  "ends_like_EOF sn c tail \<longleftrightarrow> tail = [] \<or> (\<exists>k. silent_cut c k \<and> tail = take k (chunk_bytes sn c))"

lemma read_cut_response:
  assumes sn: "snappy_ok sn" and opt: "fits_options opt (cs @ [c])" "0 < o_MaxPayload opt" "0 < o_MaxTotalPayload opt"
    "o_MaxPayload opt \<le> MaxPayloadSize" "o_MaxTotalPayload opt \<le> MaxTotalResponseSize" "o_MaxChunks opt \<le> MaxResponseChunks"
    and tail: "ends_like_EOF sn c tail"
  shows "read_responses sn opt all \<lparr>rbuf = concat (map (chunk_bytes sn) cs) @ tail, rend = EOF\<rparr>
     = (if cs = [] then (Inl ErrEmptyResponse, False) else (Inr (if all then upto_failure cs else [hd cs]), False))"
proof -
  let ?rd = "\<lparr>rbuf = concat (map (chunk_bytes sn) cs) @ tail, rend = EOF\<rparr>"
  obtain rr where R: "NewResponseReader (Some ?rd) (o_HasContext opt) (o_MaxPayload opt) (o_MaxTotalPayload opt) (o_MaxChunks opt) = Inr rr"
    and inv: "rr_inv rr" and rr: "rr_total rr = 0" "rr_chunks rr = 0" "rr_reader rr = ?rd" "rr_hasContext rr = o_HasContext opt"
      "rr_maxPayload rr = o_MaxPayload opt" "rr_maxTotal rr = o_MaxTotalPayload opt" "rr_maxChunks rr = o_MaxChunks opt"
    by (rule NewResponseReader_fits [OF opt])
  have last: "\<exists>e rr''. Next sn rr' = (Inl e, rr'') \<and> errors_is e EOF"
    if "rr_inv rr'" "same_limits rr rr'" "unat (rr_chunks rr') = length cs"
      "unat (rr_total rr') = (\<Sum>c \<leftarrow> cs. length (rc_Payload c))" "rr_reader rr' = ?rd\<lparr>rbuf := tail\<rparr>" for rr'
  proof (cases "tail = []")
    case True
    then show ?thesis using Next_end [of rr' sn] that(5) errors_is_EOF(1) by auto
  next
    case False
    then obtain k where k: "silent_cut c k" "tail = take k (chunk_bytes sn c)" using tail by (auto simp: ends_like_EOF_def)
    show ?thesis
      using opt(1) rr that k by (intro Next_cut [OF sn that(1) _ _ _ _ k(1)]) (auto simp: fits_options_def same_limits_def)
  qed
  show ?thesis
  proof (cases cs)
    case Nil
    then obtain e rr'' where "Next sn rr = (Inl e, rr'') \<and> errors_is e EOF"
      using last [OF inv] rr by (auto simp: same_limits_def)
    then show ?thesis using Nil R by (simp add: read_responses_def)
  next
    case (Cons c' cs')
    have fits: "fits_options opt cs" using opt(1) by (simp add: fits_options_def)
    have every: "read_responses sn opt True ?rd = (Inr (upto_failure cs), False)"
      by (rule read_responses_chunks [OF sn fits _ R, where tail = tail]) (use Cons last in auto)
    obtain rr1 where "Next sn rr = (Inr c', rr1)"
      using Next_step(1) [OF sn inv, of c' cs' "concat (map (chunk_bytes sn) cs') @ tail"] fits rr Cons
      by (auto simp: fits_options_def within_limits_def)
    then show ?thesis using every R Cons by (auto simp: read_responses_def split: if_splits)
  qed
qed

lemma request_same_reading:
  assumes "read_responses sn (request_defaults options) all rd = read_responses sn (request_defaults options) all rd'"
  shows "request sn left addrs (st\<lparr>st_in := rd\<rparr>) proto payload options all
    = request sn left addrs (st\<lparr>st_in := rd'\<rparr>) proto payload options all"
proof -
  have "exchange sn (st\<lparr>st_in := rd\<rparr>) proto payload (request_defaults options) all
      = exchange sn (st\<lparr>st_in := rd'\<rparr>) proto payload (request_defaults options) all"
    using assms by (cases "st_deadline st"; cases "o_BeforeSend (request_defaults options)")
      (auto simp: exchange_def Let_def split: option.split prod.split)
  then show ?thesis by (auto simp: request_def Let_def split: option.split)
qed

text \<open>
  C39: A response cut inside a chunk is taken for a complete one. Let a peer send whole chunks \<open>cs\<close> and then
  the first \<open>k\<close> bytes of a further chunk \<open>c\<close> before the stream ends, the cut falling right behind the code
  (its context missing), inside the length prefix, or in front of the first payload byte. The request then has
  the result and the events it has when the peer ends the stream cleanly behind \<open>cs\<close>: the chunks of \<open>cs\<close> without
  an error and without a reset, or \<open>ErrEmptyResponse\<close> when there are none, for every request, caller and writer.
\<close>

theorem truncated_chunk_is_a_clean_end:
  assumes "snappy_ok sn" "silent_cut c k" "fits_options (request_defaults options) (cs @ [c])"
    and "o_MaxPayload options \<le> MaxPayloadSize" "o_MaxTotalPayload options \<le> MaxTotalResponseSize"
    and "o_MaxChunks options \<le> MaxResponseChunks"
  shows "request sn left addrs (st\<lparr>st_in := \<lparr>rbuf = concat (map (chunk_bytes sn) cs) @ take k (chunk_bytes sn c), rend = EOF\<rparr>\<rparr>)
             proto payload options all
           = request sn left addrs (st\<lparr>st_in := \<lparr>rbuf = concat (map (chunk_bytes sn) cs), rend = EOF\<rparr>\<rparr>) proto payload options all
       \<and> read_responses sn (request_defaults options) all
             \<lparr>rbuf = concat (map (chunk_bytes sn) cs) @ take k (chunk_bytes sn c), rend = EOF\<rparr>
           = (if cs = [] then (Inl ErrEmptyResponse, False) else (Inr (if all then upto_failure cs else [hd cs]), False))"
proof -
  have opt: "0 < o_MaxPayload (request_defaults options)" "0 < o_MaxTotalPayload (request_defaults options)"
    "o_MaxPayload (request_defaults options) \<le> MaxPayloadSize" "o_MaxChunks (request_defaults options) \<le> MaxResponseChunks"
    "o_MaxTotalPayload (request_defaults options) \<le> MaxTotalResponseSize"
    using assms(4-6) by (auto simp: request_defaults_def MaxPayloadSize_def MaxTotalResponseSize_def word_gt_0)
  note read = read_cut_response [OF assms(1,3) opt(1,2,3,5,4)]
  have cut: "ends_like_EOF sn c (take k (chunk_bytes sn c))" using assms(2) by (auto simp: ends_like_EOF_def)
  have "ends_like_EOF sn c []" by (simp add: ends_like_EOF_def)
  from read [OF cut] read [OF this] show ?thesis by (intro conjI request_same_reading) simp_all
qed

theorem truncated_chunk_is_a_clean_end_witness:
  "fst (request plain_snappy (\<lambda>t. t) [] (demo_stream [] \<lparr>st_in := \<lparr>rbuf = [0, 1, 7, 0, 2], rend = EOF\<rparr>\<rparr>) ''/ping/1/'' [] demo_options True)
     = Inr [\<lparr>rc_Code = 0, rc_Context = [], rc_Payload = [7]\<rparr>]"
proof -
  let ?c = "\<lparr>rc_Code = 0, rc_Context = [], rc_Payload = [7]\<rparr>" and ?d = "\<lparr>rc_Code = 0, rc_Context = [], rc_Payload = [8, 9]\<rparr>"
  have wire: "concat (map (chunk_bytes plain_snappy) [?c]) = [0, 1, 7]"
    "[0, 1, 7] @ take 2 (chunk_bytes plain_snappy ?d) = [0, 1, 7, 0, 2]" "silent_cut ?d 2"
    "fits_options (request_defaults demo_options) ([?c] @ [?d])" by code_simp+
  have limits: "o_MaxPayload demo_options \<le> MaxPayloadSize" "o_MaxTotalPayload demo_options \<le> MaxTotalResponseSize"
    "o_MaxChunks demo_options \<le> MaxResponseChunks" by code_simp+
  have clean: "fst (request plain_snappy (\<lambda>t. t) [] (demo_stream [] \<lparr>st_in := \<lparr>rbuf = [0, 1, 7], rend = EOF\<rparr>\<rparr>) ''/ping/1/'' [] demo_options True)
      = Inr [?c]" by code_simp
  have "request plain_snappy (\<lambda>t. t) [] (demo_stream [] \<lparr>st_in := \<lparr>rbuf = [0, 1, 7, 0, 2], rend = EOF\<rparr>\<rparr>) ''/ping/1/'' [] demo_options True
      = request plain_snappy (\<lambda>t. t) [] (demo_stream [] \<lparr>st_in := \<lparr>rbuf = [0, 1, 7], rend = EOF\<rparr>\<rparr>) ''/ping/1/'' [] demo_options True"
    using truncated_chunk_is_a_clean_end [OF plain_snappy_ok wire(3,4) limits, THEN conjunct1] unfolding wire(1,2) .
  then show ?thesis using clean by (simp only:)
qed

section \<open>What the observer is told\<close>

lemma send_body_observed:
  assumes "send_body sn w opt payload = (e, out)"
  shows "prefix out (captured_body sn opt payload)" and "e = None \<Longrightarrow> out = captured_body sn opt payload"
proof -
  obtain r ro k where raw: "writeFull w 0 (o_RawBody opt) = (r, ro, k)" by (metis prod_cases3)
  obtain x xo j where ssz: "WriteSSZSnappy sn w 0 payload = (x, xo, j)" by (metis prod_cases3)
  obtain x' where seq: "wr_seq (writeFull w) 0 (ssz_buffers sn payload) = (x', xo, j)" "x = None \<longleftrightarrow> x' = None"
    using WriteSSZSnappy_seq [OF ssz] by blast
  show "prefix out (captured_body sn opt payload)"
    using assms full.wr_prefix [OF raw] full.seq_prefix [OF seq(1)]
    by (auto simp: send_body_def captured_body_def raw ssz concat_ssz_buffers split: if_splits option.splits)
  assume "e = None"
  then show "out = captured_body sn opt payload"
    using assms full.wr_complete [of w 0 "o_RawBody opt"] full.seq_complete [of w 0 "ssz_buffers sn payload"] seq
    by (auto simp: send_body_def captured_body_def raw ssz concat_ssz_buffers split: if_splits option.splits)
qed

definition shown_or_sent :: "ev \<Rightarrow> bool" where
  "shown_or_sent e = (case e of Observe _ \<Rightarrow> True | Wire _ \<Rightarrow> True | _ \<Rightarrow> False)"

definition stream_end :: "ev \<Rightarrow> bool" where
  "stream_end e = (case e of CloseStream \<Rightarrow> True | _ \<Rightarrow> False)"

text \<open>
  C4: The observer is told what is sent. In a request the stream gets bytes only right after the observer was shown
  a body for the same protocol, at most once; what is written is a prefix of the body shown, and all of it if the request
  succeeds; a request that never got so far fails. A stream that was opened is closed exactly once, at the very end.
\<close>

theorem observer_sees_what_is_sent:
  "case request sn left addrs st proto payload options all of (res, tr) \<Rightarrow>
     (case filter shown_or_sent tr of
        [] \<Rightarrow> isl res
      | [Observe shown, Wire sent] \<Rightarrow>
          w_ProtocolID shown = proto \<and> prefix sent (w_Payload shown) \<and> (isl res \<or> sent = w_Payload shown)
      | _ \<Rightarrow> False) \<and>
     (if st_open st = None then last tr = CloseStream \<and> filter stream_end tr = [CloseStream] else filter stream_end tr = [])"
proof -
  define opt where "opt = request_defaults options"
  obtain e out where s: "send_body sn (st_write st) opt payload = (e, out)" by (metis surj_pair)
  have pins: "filter shown_or_sent (pinExplicitAddrs addrs) = []" "filter stream_end (pinExplicitAddrs addrs) = []"
    by (simp_all add: pinExplicitAddrs_def shown_or_sent_def stream_end_def)
  have resets: "filter shown_or_sent (resets b) = []" "filter stream_end (resets b) = []" for b
    by (simp_all add: resets_def shown_or_sent_def stream_end_def)
  have ex: "case exchange sn st proto payload opt all of (res, tr) \<Rightarrow>
     (case filter shown_or_sent tr of
        [] \<Rightarrow> isl res
      | [Observe shown, Wire sent] \<Rightarrow>
          w_ProtocolID shown = proto \<and> prefix sent (w_Payload shown) \<and> (isl res \<or> sent = w_Payload shown)
      | _ \<Rightarrow> False) \<and> filter stream_end tr = []"
    using send_body_observed [OF s] s resets
    by (auto simp: exchange_def Let_def shown_or_sent_def stream_end_def split: option.split prod.split)
  obtain res tr where x: "exchange sn st proto payload opt all = (res, tr)" by (metis surj_pair)
  show ?thesis
    using ex x pins
    by (simp add: request_def opt_def [symmetric] Let_def shown_or_sent_def stream_end_def split: option.split)
qed

end
