(* ===== verification/Reqresp_Retry.thy ===== *)
theory Reqresp_Retry
  imports Reqresp_Request
begin

text \<open>
  \<open>Request\<close> and \<open>RequestChunks\<close> of package reqresp (request.go): connect, optional Status warmup, one
  exchange, with up to three attempts, next to the error classification and the sleep of conn.go.
  What an attempt meets (the outcome of \<open>NewSession\<close>, of the warmup, of the user's \<open>BeforeSend\<close>, of the sleep,
  and the stream) is a function of its number.
\<close>

section \<open>Which errors are retried\<close>

definition retryableConsensusConnectError :: "goerr option \<Rightarrow> bool" where
  "retryableConsensusConnectError err =
     (case err of None \<Rightarrow> False
      | Some e \<Rightarrow>
          (let message = to_lower (err_text e)
           in contains ''connect consensus peer'' message \<or>
              contains ''open stream'' message \<and> contains ''connection failed'' message \<or>
              contains ''failed to dial'' message \<or>
              contains ''failed to negotiate stream multiplexer'' message \<or>
              contains ''failed to negotiate security protocol'' message \<or>
              contains ''use of closed network connection'' message \<or>
              contains ''i/o timeout'' message))"

definition consensusRequestAttempts :: nat where "consensusRequestAttempts = 3"

text \<open>The duration \<open>consensusRetrySleep\<close> waits for, in nanoseconds.\<close>

definition retry_delay :: "nat \<Rightarrow> int" where "retry_delay attempt = int (attempt + 1) * (500 * 10 ^ 6)"

section \<open>The loop\<close>

record attempt_env =
  ae_session :: "goerr + string list"
  ae_warmup :: "goerr option"
  ae_before :: "goerr option option"
  ae_stream :: peer_stream
  ae_sleep :: "goerr option"

datatype step_ev = Connect | Warmup | Exchange "ev list" | CloseSession | Sleep int

text \<open>The closure the loop installs: the user's callback, then the mark that sending was attempted.\<close>

definition wrapped_before :: "goerr option option \<Rightarrow> goerr option option" where
  "wrapped_before before = Some (case before of None \<Rightarrow> None | Some r \<Rightarrow> r)"

type_synonym 'r run = "attempt_env \<Rightarrow> request_options \<Rightarrow> (goerr + 'r) \<times> ev list"

function attempts ::
    "'r run \<Rightarrow> 'r \<Rightarrow> (nat \<Rightarrow> attempt_env) \<Rightarrow> request_options \<Rightarrow> nat \<Rightarrow> bool \<Rightarrow> goerr option
       \<Rightarrow> (goerr + 'r) \<times> step_ev list" where
  "attempts exchange_run nil env options attempt sendAttempted lastErr =
     (if attempt < consensusRequestAttempts then
        (case ae_session (env attempt) of
           Inl err \<Rightarrow>
             if attempt + 1 = consensusRequestAttempts \<or> \<not> retryableConsensusConnectError (Some err)
             then (Inl err, [Connect])
             else
               (case ae_sleep (env attempt) of
                  Some e \<Rightarrow> (Inl e, [Connect, Sleep (retry_delay attempt)])
                | None \<Rightarrow>
                    (case attempts exchange_run nil env options (attempt + 1) sendAttempted (Some err) of
                       (res, tr) \<Rightarrow> (res, [Connect, Sleep (retry_delay attempt)] @ tr)))
         | Inr addrs \<Rightarrow>
             (case (if o_Handshake options then ae_warmup (env attempt) else None) of
                Some e \<Rightarrow> (Inl (Wrapf ''status warmup: %w'' [] e), [Connect, Warmup, CloseSession])
              | None \<Rightarrow>
                  (let warm = (if o_Handshake options then [Warmup] else []);
                       (response, tr1) = exchange_run (env attempt)
                          (options\<lparr>o_BeforeSend := wrapped_before (ae_before (env attempt))\<rparr>);
                       sent = (sendAttempted \<or> CallBeforeSend None \<in> set tr1);
                       done = [Connect] @ warm @ [Exchange tr1, CloseSession]
                   in case response of
                        Inr r \<Rightarrow> (Inr r, done)
                      | Inl err \<Rightarrow>
                          if sent \<or> attempt + 1 = consensusRequestAttempts \<or> \<not> retryableConsensusConnectError (Some err)
                          then (Inl err, done)
                          else
                            (case ae_sleep (env attempt) of
                               Some e \<Rightarrow> (Inl e, done @ [Sleep (retry_delay attempt)])
                             | None \<Rightarrow>
                                 (case attempts exchange_run nil env options (attempt + 1) sent (Some err) of
                                    (res, tr) \<Rightarrow> (res, done @ Sleep (retry_delay attempt) # tr))))))
      else (case lastErr of Some e \<Rightarrow> (Inl e, []) | None \<Rightarrow> (Inr nil, [])))"
  by pat_completeness auto
termination
  by (relation "measure (\<lambda>(_, _, _, _, attempt, _, _). consensusRequestAttempts - attempt)") auto

declare attempts.simps [simp del]

definition Request ::
    "snappy \<Rightarrow> (int \<Rightarrow> int) \<Rightarrow> (nat \<Rightarrow> attempt_env) \<Rightarrow> string \<Rightarrow> bytes \<Rightarrow> request_options
       \<Rightarrow> (goerr + response_chunk option) \<times> step_ev list" where
  "Request sn left env proto payload options =
     attempts (\<lambda>a. session_Request sn left (case ae_session a of Inr addrs \<Rightarrow> addrs | Inl _ \<Rightarrow> []) (ae_stream a) proto payload)
       None env options 0 False None"

definition RequestChunks ::
    "snappy \<Rightarrow> (int \<Rightarrow> int) \<Rightarrow> (nat \<Rightarrow> attempt_env) \<Rightarrow> string \<Rightarrow> bytes \<Rightarrow> request_options
       \<Rightarrow> (goerr + response_chunk list) \<times> step_ev list" where
  "RequestChunks sn left env proto payload options =
     attempts (\<lambda>a. session_RequestChunks sn left (case ae_session a of Inr addrs \<Rightarrow> addrs | Inl _ \<Rightarrow> []) (ae_stream a) proto payload)
       [] env options 0 False None"

section \<open>At most one send\<close>

text \<open>The events that put the request on the network or show it to the observer.\<close>

fun is_send :: "ev \<Rightarrow> bool" where
  "is_send (Observe w) = True"
| "is_send (Wire b) = True"
| "is_send _ = False"

fun sends :: "step_ev \<Rightarrow> nat" where
  "sends (Exchange tr) = (if \<exists>e \<in> set tr. is_send e then 1 else 0)"
| "sends _ = 0"

fun delays :: "step_ev list \<Rightarrow> int list" where
  "delays [] = []"
| "delays (Sleep d # tr) = d # delays tr"
| "delays (_ # tr) = delays tr"

lemma delays_append [simp]: "delays (xs @ ys) = delays xs @ delays ys"
  by (induction xs rule: delays.induct) auto

text \<open>An exchange announces itself before it sends.\<close>

definition announces :: "'r run \<Rightarrow> bool" where
  "announces run \<longleftrightarrow>
     (\<forall>a opt r. (\<exists>e \<in> set (snd (run a (opt\<lparr>o_BeforeSend := Some r\<rparr>))). is_send e) \<longrightarrow>
        CallBeforeSend None \<in> set (snd (run a (opt\<lparr>o_BeforeSend := Some r\<rparr>))))"

lemma announcesD:
  "announces run \<Longrightarrow> e \<in> set (snd (run a (opt\<lparr>o_BeforeSend := Some r\<rparr>))) \<Longrightarrow> is_send e \<Longrightarrow>
     CallBeforeSend None \<in> set (snd (run a (opt\<lparr>o_BeforeSend := Some r\<rparr>)))"
  unfolding announces_def by blast

lemma exchange_announces:
  assumes "o_BeforeSend opt = Some r" "\<exists>e \<in> set (snd (exchange sn st proto payload opt all)). is_send e"
  shows "CallBeforeSend None \<in> set (snd (exchange sn st proto payload opt all))"
  using assms
  by (auto simp: exchange_def Let_def split: option.splits prod.splits if_splits)

lemma request_announces:
  assumes "o_BeforeSend opt = Some r" "\<exists>e \<in> set (snd (request sn left addrs st proto payload opt all)). is_send e"
  shows "CallBeforeSend None \<in> set (snd (request sn left addrs st proto payload opt all))"
proof -
  have "o_BeforeSend (request_defaults opt) = Some r" using assms(1) by (simp add: request_defaults_def)
  from exchange_announces [OF this, of sn st proto payload all] assms(2) show ?thesis
    by (auto simp: request_def Let_def pinExplicitAddrs_def split: option.splits prod.splits if_splits)
qed

lemma session_Request_announces: "announces (\<lambda>a. session_Request sn left (addrs a) (ae_stream a) proto payload)"
  unfolding announces_def
proof (intro allI impI)
  fix a r and opt :: request_options
  let ?o = "opt\<lparr>o_BeforeSend := Some r\<rparr>"
  have "snd (session_Request sn left (addrs a) (ae_stream a) proto payload ?o)
      = snd (request sn left (addrs a) (ae_stream a) proto payload ?o (multiResponseProtocol proto))"
    by (simp add: session_Request_def split: prod.splits sum.splits)
  moreover assume "\<exists>e \<in> set (snd (session_Request sn left (addrs a) (ae_stream a) proto payload ?o)). is_send e"
  ultimately show "CallBeforeSend None \<in> set (snd (session_Request sn left (addrs a) (ae_stream a) proto payload ?o))"
    using request_announces [of ?o r] by simp
qed

lemma session_RequestChunks_announces:
  "announces (\<lambda>a. session_RequestChunks sn left (addrs a) (ae_stream a) proto payload)"
  unfolding announces_def session_RequestChunks_def
proof (intro allI impI)
  fix a r and opt :: request_options
  assume "\<exists>e \<in> set (snd (request sn left (addrs a) (ae_stream a) proto payload (opt\<lparr>o_BeforeSend := Some r\<rparr>) True)). is_send e"
  then show "CallBeforeSend None \<in> set (snd (request sn left (addrs a) (ae_stream a) proto payload (opt\<lparr>o_BeforeSend := Some r\<rparr>) True))"
    by (intro request_announces [where r = r]) simp_all
qed

definition connects :: "step_ev list \<Rightarrow> nat" where
  "connects tr = length (filter (\<lambda>e. e = Connect) tr)"

text \<open>The bookkeeping the loop keeps from an attempt on.\<close>

definition retry_ok :: "nat \<Rightarrow> step_ev list \<Rightarrow> bool" where
  "retry_ok attempt tr \<longleftrightarrow>
     sum_list (map sends tr) \<le> 1 \<and> connects tr \<le> consensusRequestAttempts - attempt \<and>
     prefix (delays tr) (map retry_delay [attempt..<2])"

lemma retry_ok_last:
  "attempt < consensusRequestAttempts \<Longrightarrow> sum_list (map sends tr) \<le> 1 \<Longrightarrow> connects tr = 1 \<Longrightarrow> delays tr = [] \<Longrightarrow> retry_ok attempt tr"
  by (simp add: retry_ok_def)

lemma retry_ok_sleep:
  assumes "attempt + 1 < consensusRequestAttempts" "sum_list (map sends tr) = 0" "connects tr = 1" "delays tr = []"
    and "retry_ok (attempt + 1) rest"
  shows "retry_ok attempt (tr @ Sleep (retry_delay attempt) # rest)"
proof -
  have "[attempt..<2] = attempt # [attempt + 1..<2]"
    using assms(1) by (simp add: consensusRequestAttempts_def upt_conv_Cons)
  then have "prefix (delays (tr @ Sleep (retry_delay attempt) # rest)) (map retry_delay [attempt..<2])"
    using assms(4,5) by (simp add: retry_ok_def)
  moreover have "sum_list (map sends (tr @ Sleep (retry_delay attempt) # rest)) = sum_list (map sends rest)"
    using assms(2) by (simp del: sum_list_eq_0_iff)
  then have "sum_list (map sends (tr @ Sleep (retry_delay attempt) # rest)) \<le> 1"
    using assms(5) unfolding retry_ok_def by linarith
  moreover have "connects (tr @ Sleep (retry_delay attempt) # rest) \<le> consensusRequestAttempts - attempt"
    using assms(1,3,5) unfolding retry_ok_def connects_def by simp linarith
  ultimately show ?thesis unfolding retry_ok_def by blast
qed

lemma retry_ok_Nil: "retry_ok attempt []"
  by (simp add: retry_ok_def connects_def)

lemma attempts_retry_ok:
  "announces run \<Longrightarrow> \<not> sent \<Longrightarrow> retry_ok attempt (snd (attempts run nil env options attempt sent lastErr))"
proof (induction run nil env options attempt sent lastErr rule: attempts.induct)
  case (1 run nil env options attempt sent lastErr)
  let ?opt = "options\<lparr>o_BeforeSend := wrapped_before (ae_before (env attempt))\<rparr>"
  have s: "sent = False" using "1.prems"(2) by simp
  note step = attempts.simps [of run nil env options attempt False lastErr]
  note IH = "1.IH" [unfolded s]
  consider (over) "\<not> attempt < consensusRequestAttempts"
    | (down) err where "attempt < consensusRequestAttempts" "ae_session (env attempt) = Inl err"
    | (cold) addrs e where "attempt < consensusRequestAttempts" "ae_session (env attempt) = Inr addrs"
        "(if o_Handshake options then ae_warmup (env attempt) else None) = Some e"
    | (up) addrs where "attempt < consensusRequestAttempts" "ae_session (env attempt) = Inr addrs"
        "(if o_Handshake options then ae_warmup (env attempt) else None) = None"
    by (cases "ae_session (env attempt)") fastforce+
  then have "retry_ok attempt (snd (attempts run nil env options attempt False lastErr))"
  proof cases
    case over
    then show ?thesis by (simp add: step retry_ok_Nil split: option.splits)
  next
    case (down err)
    show ?thesis
    proof (cases "attempt + 1 = consensusRequestAttempts \<or> \<not> retryableConsensusConnectError (Some err)")
      case True
      then show ?thesis using down by (simp add: step retry_ok_last connects_def)
    next
      case goon: False
      then have lt: "attempt + 1 < consensusRequestAttempts" using down by simp
      show ?thesis
      proof (cases "ae_sleep (env attempt)")
        case (Some e)
        have "retry_ok attempt ([Connect] @ [Sleep (retry_delay attempt)])"
          using retry_ok_sleep [OF lt, of "[Connect]" "[]"] retry_ok_Nil by (simp add: connects_def)
        then show ?thesis using down goon Some by (simp add: step)
      next
        case None
        have "retry_ok (attempt + 1) (snd (attempts run nil env options (attempt + 1) False (Some err)))"
          by (rule IH(1) [OF down(1,2) goon None "1.prems"(1)]) simp
        then have "retry_ok attempt ([Connect] @ Sleep (retry_delay attempt)
            # snd (attempts run nil env options (attempt + 1) False (Some err)))"
          using lt by (intro retry_ok_sleep) (simp_all add: connects_def)
        then show ?thesis using down goon None by (simp add: step case_prod_beta)
      qed
    qed
  next
    case (cold addrs e)
    then show ?thesis by (simp add: step retry_ok_last connects_def)
  next
    case (up addrs)
    obtain response tr1 where R: "run (env attempt) ?opt = (response, tr1)" by (cases "run (env attempt) ?opt")
    let ?done = "[Connect] @ (if o_Handshake options then [Warmup] else []) @ [Exchange tr1, CloseSession]"
    have d: "connects ?done = 1" "delays ?done = []" "sum_list (map sends ?done) \<le> 1"
      by (simp_all add: connects_def)
    have quiet: "sum_list (map sends ?done) = 0" if "CallBeforeSend None \<notin> set tr1"
    proof -
      have "snd (run (env attempt) ?opt) = tr1" using R by simp
      then have "\<not> (\<exists>e \<in> set tr1. is_send e)"
        using announcesD [OF "1.prems"(1), of _ "env attempt" _ options] that unfolding wrapped_before_def by blast
      then show ?thesis by simp
    qed
    show ?thesis
    proof (cases response)
      case (Inr r)
      then show ?thesis using up R d retry_ok_last [OF up(1) d(3,1,2)] by (simp add: step)
    next
      case (Inl err)
      show ?thesis
      proof (cases "CallBeforeSend None \<in> set tr1 \<or> attempt + 1 = consensusRequestAttempts \<or>
          \<not> retryableConsensusConnectError (Some err)")
        case True
        then show ?thesis using up R Inl retry_ok_last [OF up(1) d(3,1,2)] by (simp add: step)
      next
        case goon: False
        then have lt: "attempt + 1 < consensusRequestAttempts" using up by simp
        have quiet: "sum_list (map sends ?done) = 0" using quiet goon by blast
        have no: "\<not> (False \<or> CallBeforeSend None \<in> set tr1)" using goon by blast
        show ?thesis
        proof (cases "ae_sleep (env attempt)")
          case (Some e)
          have "retry_ok attempt (?done @ Sleep (retry_delay attempt) # [])"
            using retry_ok_Nil by (intro retry_ok_sleep [OF lt quiet d(1,2)])
          then show ?thesis using up R Inl goon no Some by (simp add: step)
        next
          case None
          let ?rest = "snd (attempts run nil env options (attempt + 1) (False \<or> CallBeforeSend None \<in> set tr1) (Some err))"
          have "retry_ok (attempt + 1) ?rest"
          proof (rule IH(2) [OF up refl refl R [symmetric] refl refl Inl])
            show "\<not> ((False \<or> CallBeforeSend None \<in> set tr1) \<or> attempt + 1 = consensusRequestAttempts \<or>
                \<not> retryableConsensusConnectError (Some err))" using goon no by blast
          qed (fact None no "1.prems"(1))+
          then have "retry_ok attempt (?done @ Sleep (retry_delay attempt) # ?rest)"
            by (intro retry_ok_sleep [OF lt quiet d(1,2)])
          then show ?thesis using up R Inl goon no None by (simp add: step case_prod_beta)
        qed
      qed
    qed
  qed
  then show ?case by (simp add: s)
qed

text \<open>
  C5: \<open>Request\<close> never sends twice: across all its attempts at most one exchange shows the request to the observer or
  writes a byte, it connects at most three times, and it sleeps 500 ms and then 1 s between attempts.
\<close>

theorem Request_sends_at_most_once:
  "retry_ok 0 (snd (Request sn left env proto payload options))"
  unfolding Request_def by (rule attempts_retry_ok [OF session_Request_announces]) simp

text \<open> The same holds of \<open>RequestChunks\<close>.\<close>

theorem RequestChunks_sends_at_most_once:
  "retry_ok 0 (snd (RequestChunks sn left env proto payload options))"
  unfolding RequestChunks_def by (rule attempts_retry_ok [OF session_RequestChunks_announces]) simp

end
