(* ===== verification/Ssz.thy ===== *)
theory Ssz
  imports Codec
begin

text \<open>
  The SSZ request bodies of package reqresp (ssz.go, blocksbyrange.go, blocksbyroot.go, blobsidecarsbyroot.go,
  datacolumnsidecarsbyrange.go, datacolumnsidecarsbyroot.go, execution_proofs.go) and the signed execution
  proof of package gossipsub (execution_proof.go). The code fills a zeroed buffer by index; \<open>writes\<close> does the
  same, with \<open>None\<close> for a write out of range, and the results are compared with the SSZ layout: fixed parts,
  offsets, variable parts. Fixed byte arrays are words, \<open>[32]byte\<close> a \<open>256 word\<close>, read big-endian.
\<close>

type_synonym root = "256 word"

section \<open>Filling a buffer\<close>

definition write_at :: "nat \<Rightarrow> bytes \<Rightarrow> bytes \<Rightarrow> bytes option" where
  "write_at off p out =
     (if off + length p \<le> length out then Some (take off out @ p @ drop (off + length p) out) else None)"

fun writes :: "(nat \<times> bytes) list \<Rightarrow> bytes \<Rightarrow> bytes option" where
  "writes [] out = Some out"
| "writes ((off, p) # ws) out = (case write_at off p out of None \<Rightarrow> None | Some out' \<Rightarrow> writes ws out')"

definition zeros :: "nat \<Rightarrow> bytes" where "zeros n = replicate n 0"

definition u64b :: "u64 \<Rightarrow> bytes" where "u64b v = le_bytes 8 v"
definition u32b :: "nat \<Rightarrow> bytes" where "u32b n = le_bytes 4 (of_nat n :: u32)"
definition rootb :: "root \<Rightarrow> bytes" where "rootb r = be_bytes 32 r"

lemma length_zeros [simp]: "length (zeros n) = n"
  by (simp add: zeros_def)

lemma length_fields [simp, codec_simps]: "length (u64b v) = 8" "length (u32b n) = 4" "length (rootb r) = 32"
  by (simp_all add: u64b_def u32b_def rootb_def)

lemma write_at_between:
  "length a = off \<Longrightarrow> length b = length p \<Longrightarrow> write_at off p (a @ b @ c) = Some (a @ p @ c)"
  by (simp add: write_at_def)

lemma zeros_add: "zeros (m + n) = zeros m @ zeros n"
  by (simp add: zeros_def replicate_add)

lemma writes_append:
  "writes (xs @ ys) out = (case writes xs out of None \<Rightarrow> None | Some out' \<Rightarrow> writes ys out')"
  by (induction xs out rule: writes.induct) (auto split: option.splits)

text \<open>Consecutive parts written from \<open>off\<close> on.\<close>

fun in_order :: "nat \<Rightarrow> bytes list \<Rightarrow> (nat \<times> bytes) list" where
  "in_order off [] = []"
| "in_order off (p # ps) = (off, p) # in_order (off + length p) ps"

lemma writes_in_order:
  "length a = off \<Longrightarrow> writes (in_order off ps) (a @ zeros (length (concat ps)) @ c) = Some (a @ concat ps @ c)"
proof (induction ps arbitrary: a off)
  case (Cons p ps)
  have "write_at off p (a @ zeros (length p) @ (zeros (length (concat ps)) @ c)) = Some (a @ p @ zeros (length (concat ps)) @ c)"
    using Cons.prems by (intro write_at_between) simp_all
  then show ?case
    using Cons.IH [of "a @ p" "off + length p"] Cons.prems by (simp add: zeros_add)
qed (simp add: zeros_def)

lemma writes_all: "n = length (concat ps) \<Longrightarrow> writes (in_order 0 ps) (zeros n) = Some (concat ps)"
  using writes_in_order [of "[]" 0 ps "[]"] by simp

text \<open>Parts of one width, addressed by index as the loops do.\<close>

lemma in_order_indexed:
  "(\<And>x. length (f x) = w) \<Longrightarrow>
     map (\<lambda>(i, x). (off + i * w, f x)) (List.enumerate k xs) = in_order (off + k * w) (map f xs)"
proof (induction xs arbitrary: k)
  case (Cons x xs)
  then show ?case using Cons.IH [of "Suc k"] by (simp add: add.assoc add.commute [of w])
qed simp

section \<open>Fixed-size containers and lists\<close>

definition SSZUint64 :: "u64 \<Rightarrow> bytes" where "SSZUint64 value = le_bytes 8 value"

definition SSZTwoUint64Request :: "u64 \<Rightarrow> u64 \<Rightarrow> bytes option" where
  "SSZTwoUint64Request first second = writes [(0, u64b first), (8, u64b second)] (zeros 16)"

definition SSZBlocksByRangeRequest :: "u64 \<Rightarrow> u64 \<Rightarrow> u64 \<Rightarrow> bytes option" where
  "SSZBlocksByRangeRequest startSlot count step =
     writes [(0, u64b startSlot), (8, u64b count), (16, u64b step)] (zeros 24)"

definition MaxSSZRootListItems :: nat where "MaxSSZRootListItems = 2 ^ 20"
definition MaxSSZBlobIdentifiers :: nat where "MaxSSZBlobIdentifiers = 2 ^ 20"
definition MaxDataColumnsByRange :: nat where "MaxDataColumnsByRange = 2 ^ 20"
definition MaxDataColumnRootIdentifiers :: nat where "MaxDataColumnRootIdentifiers = 128"
definition MaxDataColumnsPerIdentifier :: nat where "MaxDataColumnsPerIdentifier = 128"
definition MaxExecutionProofTypes :: nat where "MaxExecutionProofTypes = 4"
definition MaxExecutionProofRootIdentifiers :: nat where "MaxExecutionProofRootIdentifiers = 128"

text \<open>A result is an error, or the buffer; \<open>None\<close> inside is a panic.\<close>

definition SSZRootList :: "root list \<Rightarrow> goerr + bytes option" where
  "SSZRootList roots =
     (if MaxSSZRootListItems < length roots
      then Inl (Errorf ''root count %d exceeds %d'' [VNat (length roots), VNat MaxSSZRootListItems])
      else Inr (writes (map (\<lambda>(i, r). (i * 32, rootb r)) (List.enumerate 0 roots)) (zeros (length roots * 32))))"

record blob_identifier =
  bi_BlockRoot :: root
  bi_Index :: u64

definition SSZBlobIdentifiers :: "blob_identifier list \<Rightarrow> goerr + bytes option" where
  "SSZBlobIdentifiers identifiers =
     (if MaxSSZBlobIdentifiers < length identifiers
      then Inl (Errorf ''blob identifier count %d exceeds %d'' [VNat (length identifiers), VNat MaxSSZBlobIdentifiers])
      else Inr (writes (concat (map (\<lambda>(i, d). [(i * 40, rootb (bi_BlockRoot d)), (i * 40 + 32, u64b (bi_Index d))])
                                    (List.enumerate 0 identifiers)))
                  (zeros (length identifiers * 40))))"

definition SSZDataColumnsByRangeRequest :: "u64 \<Rightarrow> u64 \<Rightarrow> u64 list \<Rightarrow> goerr + bytes option" where
  "SSZDataColumnsByRangeRequest startSlot count columns =
     (if MaxDataColumnsByRange < length columns
      then Inl (Errorf ''data column count %d exceeds %d'' [VNat (length columns), VNat MaxDataColumnsByRange])
      else Inr (writes ([(0, u64b startSlot), (8, u64b count), (16, u32b 20)]
                          @ map (\<lambda>(i, c). (20 + i * 8, u64b c)) (List.enumerate 0 columns))
                  (zeros (20 + 8 * length columns))))"

definition SSZExecutionProofsByRange :: "u64 \<Rightarrow> u64 \<Rightarrow> bytes \<Rightarrow> goerr + bytes option" where
  "SSZExecutionProofsByRange startSlot count proofTypes =
     (if MaxExecutionProofTypes < length proofTypes
      then Inl (Errorf ''proof type count %d exceeds %d'' [VNat (length proofTypes), VNat MaxExecutionProofTypes])
      else Inr (writes [(0, u64b startSlot), (8, u64b count), (16, u32b 20), (20, proofTypes)]
                  (zeros (20 + length proofTypes))))"

definition SSZExecutionProofStatus :: "root \<Rightarrow> u64 \<Rightarrow> bytes \<Rightarrow> goerr + bytes option" where
  "SSZExecutionProofStatus blockRoot slot proofTypes =
     (if MaxExecutionProofTypes < length proofTypes
      then Inl (Errorf ''proof type count %d exceeds %d'' [VNat (length proofTypes), VNat MaxExecutionProofTypes])
      else Inr (writes [(0, rootb blockRoot), (32, u64b slot), (40, u32b 44), (44, proofTypes)]
                  (zeros (44 + length proofTypes))))"

record signed_execution_proof =
  sp_ProofData :: bytes
  sp_ProofType :: byte
  sp_NewPayloadRequestRoot :: root
  sp_ValidatorIndex :: u64
  sp_Signature :: "768 word"

definition SSZSignedExecutionProof :: "signed_execution_proof \<Rightarrow> bytes option" where
  "SSZSignedExecutionProof proof =
     (let signedFixedSize = 108; proofFixedSize = 37
      in writes [(0, u32b signedFixedSize), (4, u64b (sp_ValidatorIndex proof)), (12, be_bytes 96 (sp_Signature proof)),
                 (108, u32b proofFixedSize), (112, [sp_ProofType proof]),
                 (113, rootb (sp_NewPayloadRequestRoot proof)), (145, sp_ProofData proof)]
           (zeros (signedFixedSize + proofFixedSize + length (sp_ProofData proof))))"

section \<open>Lists of variable-size containers\<close>

record column_identifier =
  ci_BlockRoot :: root
  ci_Columns :: "u64 list"

record proof_identifier =
  pi_BlockRoot :: root
  pi_ProofTypes :: bytes

text \<open>
  The first loop of the two encoders: the first identifier over its bound is reported by its index; the sum is
  the total length, checked against \<open>math.MaxInt\<close> by the column encoder.
\<close>

fun column_sizes :: "nat \<Rightarrow> nat \<Rightarrow> column_identifier list \<Rightarrow> goerr + nat" where
  "column_sizes i totalSize [] = Inr totalSize"
| "column_sizes i totalSize (d # ds) =
     (if MaxDataColumnsPerIdentifier < length (ci_Columns d)
      then Inl (Errorf ''identifier %d has %d columns, exceeds %d''
                  [VNat i, VNat (length (ci_Columns d)), VNat MaxDataColumnsPerIdentifier])
      else (let identifierSize = 36 + 8 * length (ci_Columns d)
            in if 2 ^ 63 - 1 - identifierSize < totalSize
               then Inl (Errorf ''data-column identifier encoding length overflows int'' [])
               else column_sizes (i + 1) (totalSize + identifierSize) ds))"

fun column_writes :: "nat \<Rightarrow> nat \<Rightarrow> column_identifier list \<Rightarrow> (nat \<times> bytes) list" where
  "column_writes i offset [] = []"
| "column_writes i offset (d # ds) =
     [(i * 4, u32b offset), (offset, rootb (ci_BlockRoot d)), (offset + 32, u32b 36)]
       @ map (\<lambda>(j, c). (offset + 36 + j * 8, u64b c)) (List.enumerate 0 (ci_Columns d))
       @ column_writes (i + 1) (offset + (36 + 8 * length (ci_Columns d))) ds"

definition SSZDataColumnsByRootIdentifiers :: "column_identifier list \<Rightarrow> goerr + bytes option" where
  "SSZDataColumnsByRootIdentifiers identifiers =
     (if MaxDataColumnRootIdentifiers < length identifiers
      then Inl (Errorf ''data-column identifier count %d exceeds %d''
                  [VNat (length identifiers), VNat MaxDataColumnRootIdentifiers])
      else (let prefixSize = 4 * length identifiers
            in err_bind (column_sizes 0 prefixSize identifiers)
                 (\<lambda>totalSize. Inr (writes (column_writes 0 prefixSize identifiers) (zeros totalSize)))))"

fun proof_sizes :: "nat \<Rightarrow> nat \<Rightarrow> proof_identifier list \<Rightarrow> goerr + nat" where
  "proof_sizes idx totalSize [] = Inr totalSize"
| "proof_sizes idx totalSize (d # ds) =
     (if MaxExecutionProofTypes < length (pi_ProofTypes d)
      then Inl (Errorf ''identifier %d proof type count %d exceeds %d''
                  [VNat idx, VNat (length (pi_ProofTypes d)), VNat MaxExecutionProofTypes])
      else proof_sizes (idx + 1) (totalSize + (36 + length (pi_ProofTypes d))) ds)"

fun proof_writes :: "nat \<Rightarrow> nat \<Rightarrow> proof_identifier list \<Rightarrow> (nat \<times> bytes) list" where
  "proof_writes idx offset [] = []"
| "proof_writes idx offset (d # ds) =
     [(idx * 4, u32b offset), (offset, rootb (pi_BlockRoot d)), (offset + 32, u32b 36), (offset + 36, pi_ProofTypes d)]
       @ proof_writes (idx + 1) (offset + (36 + length (pi_ProofTypes d))) ds"

definition SSZExecutionProofsByRoot :: "proof_identifier list \<Rightarrow> goerr + bytes option" where
  "SSZExecutionProofsByRoot identifiers =
     (if MaxExecutionProofRootIdentifiers < length identifiers
      then Inl (Errorf ''proof identifier count %d exceeds %d''
                  [VNat (length identifiers), VNat MaxExecutionProofRootIdentifiers])
      else (let offset = 4 * length identifiers
            in err_bind (proof_sizes 0 offset identifiers)
                 (\<lambda>totalSize. Inr (writes (proof_writes 0 offset identifiers) (zeros totalSize)))))"

section \<open>The SSZ layout\<close>

text \<open>
  The layout of the specification: a container is its fixed parts in order, with a four-byte offset in the place
  of each variable part, and then the variable parts. A list of variable-size elements is the container of them.
\<close>

datatype part = Fix bytes | Var bytes

fun heads :: "nat \<Rightarrow> part list \<Rightarrow> bytes" where
  "heads off [] = []"
| "heads off (Fix b # ps) = b @ heads off ps"
| "heads off (Var v # ps) = u32b off @ heads (off + length v) ps"

fun tails :: "part list \<Rightarrow> bytes" where
  "tails [] = []"
| "tails (Fix b # ps) = tails ps"
| "tails (Var v # ps) = v @ tails ps"

fun head_size :: "part list \<Rightarrow> nat" where
  "head_size [] = 0"
| "head_size (Fix b # ps) = length b + head_size ps"
| "head_size (Var v # ps) = 4 + head_size ps"

definition container :: "part list \<Rightarrow> bytes" where
  "container ps = heads (head_size ps) ps @ tails ps"

text \<open>Two values of one type: the same kind of part everywhere, fixed parts of the same length.\<close>

fun same_shape :: "part list \<Rightarrow> part list \<Rightarrow> bool" where
  "same_shape [] [] \<longleftrightarrow> True"
| "same_shape (Fix a # ps) (Fix b # qs) \<longleftrightarrow> length a = length b \<and> same_shape ps qs"
| "same_shape (Var v # ps) (Var w # qs) \<longleftrightarrow> same_shape ps qs"
| "same_shape _ _ \<longleftrightarrow> False"

lemma length_heads: "length (heads off ps) = head_size ps"
  by (induction off ps rule: heads.induct) simp_all

lemma length_container: "length (container ps) = head_size ps + length (tails ps)"
  by (simp add: container_def length_heads)

lemma u32b_inj: "u32b m = u32b n \<Longrightarrow> m < 2 ^ 32 \<Longrightarrow> n < 2 ^ 32 \<Longrightarrow> m = n"
proof -
  assume e: "u32b m = u32b n" and b: "m < 2 ^ 32" "n < 2 ^ 32"
  then have "(of_nat m :: u32) = of_nat n" unfolding u32b_def by (metis le_val32)
  then have "unat (of_nat m :: u32) = unat (of_nat n :: u32)" by simp
  then show ?thesis using b by (simp add: unsigned_of_nat take_bit_nat_eq_self)
qed

lemma heads_offset:
  "same_shape ps qs \<Longrightarrow> heads o1 ps = heads o2 qs \<Longrightarrow> o1 + length (tails ps) = o2 + length (tails qs) \<Longrightarrow>
     o1 + length (tails ps) < 2 ^ 32 \<Longrightarrow> o1 = o2"
proof (induction ps qs arbitrary: o1 o2 rule: same_shape.induct)
  case (3 v ps w qs)
  then show ?case by (auto dest!: u32b_inj)
qed auto

lemma parts_eq:
  "same_shape ps qs \<Longrightarrow> heads o1 ps = heads o2 qs \<Longrightarrow> tails ps = tails qs \<Longrightarrow>
     o1 + length (tails ps) < 2 ^ 32 \<Longrightarrow> o1 = o2 \<Longrightarrow> ps = qs"
proof (induction ps qs arbitrary: o1 o2 rule: same_shape.induct)
  case (3 v ps w qs)
  have h: "heads (o1 + length v) ps = heads (o1 + length w) qs" using 3 by auto
  have len: "length v + length (tails ps) = length w + length (tails qs)"
    using arg_cong [OF "3.prems"(3), of length] by simp
  have "o1 + length v = o1 + length w"
    by (rule heads_offset [of ps qs]) (use 3 h len in auto)
  then have vw: "length v = length w" by simp
  then have "v = w" "tails ps = tails qs" using "3.prems"(3) by auto
  moreover have "ps = qs"
    by (rule "3.IH" [of "o1 + length v" "o1 + length w"]) (use 3 h vw calculation in auto)
  ultimately show ?case by simp
qed auto

lemma container_inj:
  assumes "same_shape ps qs" "container ps = container qs" "length (container ps) < 2 ^ 32"
  shows "ps = qs"
proof -
  have hs: "head_size ps = head_size qs" using assms(1) by (induction ps qs rule: same_shape.induct) auto
  then have "heads (head_size ps) ps = heads (head_size qs) qs" "tails ps = tails qs"
    using assms(2) by (simp_all add: container_def length_heads)
  then show ?thesis using parts_eq [OF assms(1)] assms(3) hs by (simp add: length_container)
qed

section \<open>Offset tables filled while the bodies are written\<close>

fun table_writes :: "nat \<Rightarrow> nat \<Rightarrow> bytes list list \<Rightarrow> (nat \<times> bytes) list" where
  "table_writes i off [] = []"
| "table_writes i off (ps # pss) = (i * 4, u32b off) # in_order off ps @ table_writes (i + 1) (off + length (concat ps)) pss"

abbreviation bodies :: "bytes list list \<Rightarrow> part list" where "bodies pss \<equiv> map (\<lambda>ps. Var (concat ps)) pss"

lemma writes_table:
  "length t = i * 4 \<Longrightarrow> off = length t + 4 * length pss + length b \<Longrightarrow>
   writes (table_writes i off pss) (t @ zeros (4 * length pss) @ b @ zeros (length (tails (bodies pss))))
     = Some (t @ heads off (bodies pss) @ b @ tails (bodies pss))"
proof (induction pss arbitrary: i off t b)
  case (Cons ps pss)
  let ?z = "zeros (4 * length pss)" and ?p = "concat ps" and ?zt = "zeros (length (tails (bodies pss)))"
  have 1: "write_at (i * 4) (u32b off) (t @ zeros 4 @ ?z @ b @ zeros (length ?p) @ ?zt)
      = Some (t @ u32b off @ ?z @ b @ zeros (length ?p) @ ?zt)"
    using Cons.prems(1) by (intro write_at_between) simp_all
  have 2: "writes (in_order off ps) ((t @ u32b off @ ?z @ b) @ zeros (length ?p) @ ?zt)
      = Some ((t @ u32b off @ ?z @ b) @ ?p @ ?zt)"
    by (rule writes_in_order) (simp add: Cons.prems)
  have 3: "writes (table_writes (i + 1) (off + length ?p) pss) ((t @ u32b off) @ ?z @ (b @ ?p) @ ?zt)
      = Some ((t @ u32b off) @ heads (off + length ?p) (bodies pss) @ (b @ ?p) @ tails (bodies pss))"
    by (rule Cons.IH) (simp_all add: Cons.prems)
  show ?case using 1 2 3 by (simp add: writes_append zeros_add)
qed (simp add: zeros_def)

lemma head_size_bodies: "head_size (bodies pss) = 4 * length pss"
  by (induction pss) simp_all

lemma writes_table_all:
  "n = 4 * length pss + length (tails (bodies pss)) \<Longrightarrow>
     writes (table_writes 0 (4 * length pss) pss) (zeros n) = Some (container (bodies pss))"
  using writes_table [of "[]" 0 "4 * length pss" pss "[]"] by (simp add: zeros_add container_def head_size_bodies)

definition column_parts :: "column_identifier \<Rightarrow> bytes list" where
  "column_parts d = [rootb (ci_BlockRoot d), u32b 36] @ map u64b (ci_Columns d)"

definition proof_parts :: "proof_identifier \<Rightarrow> bytes list" where
  "proof_parts d = [rootb (pi_BlockRoot d), u32b 36, pi_ProofTypes d]"

lemma length_concat_u64b [simp]: "length (concat (map u64b xs)) = 8 * length xs"
  by (induction xs) simp_all

lemma column_writes_table: "column_writes i off ds = table_writes i off (map column_parts ds)"
proof (induction i off ds rule: column_writes.induct)
  case (2 i off d ds)
  have "map (\<lambda>(j, c). (off + 36 + j * 8, u64b c)) (List.enumerate 0 (ci_Columns d)) = in_order (off + 36) (map u64b (ci_Columns d))"
    using in_order_indexed [of u64b 8 "off + 36" 0] by simp
  then show ?case using 2 by (simp add: column_parts_def add.assoc)
qed simp

lemma proof_writes_table: "proof_writes i off ds = table_writes i off (map proof_parts ds)"
  by (induction i off ds rule: proof_writes.induct) (simp_all add: proof_parts_def add.assoc)

definition columns_ok :: "column_identifier list \<Rightarrow> bool" where
  "columns_ok ds \<longleftrightarrow> length ds \<le> MaxDataColumnRootIdentifiers
     \<and> (\<forall>d \<in> set ds. length (ci_Columns d) \<le> MaxDataColumnsPerIdentifier)"

definition proofs_ok :: "proof_identifier list \<Rightarrow> bool" where
  "proofs_ok ds \<longleftrightarrow> length ds \<le> MaxExecutionProofRootIdentifiers
     \<and> (\<forall>d \<in> set ds. length (pi_ProofTypes d) \<le> MaxExecutionProofTypes)"

lemma column_sizes_eq:
  assumes "\<forall>d \<in> set ds. length (ci_Columns d) \<le> MaxDataColumnsPerIdentifier"
    and "n + length ds * 1060 < 2 ^ 32"
  shows "column_sizes i n ds = Inr (n + length (tails (bodies (map column_parts ds))))"
  using assms
proof (induction i n ds rule: column_sizes.induct)
  case (2 i n d ds)
  have d: "length (ci_Columns d) \<le> 128" using 2(2) by (simp add: MaxDataColumnsPerIdentifier_def)
  then have "\<not> 2 ^ 63 - 1 - (36 + 8 * length (ci_Columns d)) < n" using 2(3) by simp
  moreover have "column_sizes (i + 1) (n + (36 + 8 * length (ci_Columns d))) ds
      = Inr (n + (36 + 8 * length (ci_Columns d)) + length (tails (bodies (map column_parts ds))))"
    using calculation d 2(2,3) by (intro 2(1)) (auto simp: MaxDataColumnsPerIdentifier_def)
  ultimately show ?case using d by (simp add: MaxDataColumnsPerIdentifier_def column_parts_def [of d] Let_def)
qed simp

lemma column_sizes_Inl:
  "\<not> (\<forall>d \<in> set ds. length (ci_Columns d) \<le> MaxDataColumnsPerIdentifier) \<Longrightarrow> isl (column_sizes i n ds)"
  by (induction i n ds rule: column_sizes.induct) (auto simp: Let_def not_le)

lemma proof_sizes_eq:
  "\<forall>d \<in> set ds. length (pi_ProofTypes d) \<le> MaxExecutionProofTypes \<Longrightarrow>
     proof_sizes i n ds = Inr (n + length (tails (bodies (map proof_parts ds))))"
  by (induction i n ds rule: proof_sizes.induct) (simp_all add: proof_parts_def [of "d :: proof_identifier" for d])

lemma proof_sizes_Inl:
  "\<not> (\<forall>d \<in> set ds. length (pi_ProofTypes d) \<le> MaxExecutionProofTypes) \<Longrightarrow> isl (proof_sizes i n ds)"
  by (induction i n ds rule: proof_sizes.induct) (auto simp: not_le)

section \<open>The encoders meet the layout\<close>

lemma length_concat_rootb [simp]: "length (concat (map rootb xs)) = 32 * length xs"
  by (induction xs) simp_all

definition blob_part :: "blob_identifier \<Rightarrow> bytes" where
  "blob_part d = rootb (bi_BlockRoot d) @ u64b (bi_Index d)"

lemma length_blob_parts [simp]: "length (concat (map blob_part ds)) = 40 * length ds"
  by (induction ds) (simp_all add: blob_part_def)

lemma blob_writes:
  "concat (map (\<lambda>(i, d). [(i * 40, rootb (bi_BlockRoot d)), (i * 40 + 32, u64b (bi_Index d))]) (List.enumerate k ds))
     = in_order (k * 40) (concat (map (\<lambda>d. [rootb (bi_BlockRoot d), u64b (bi_Index d)]) ds))"
  by (induction ds arbitrary: k) (simp_all add: algebra_simps)

lemma concat_blob_parts: "concat (concat (map (\<lambda>d. [rootb (bi_BlockRoot d), u64b (bi_Index d)]) ds)) = concat (map blob_part ds)"
  by (induction ds) (simp_all add: blob_part_def)

text \<open>
  The encoders of the containers without a list bound: none indexes outside its buffer, and each result is the
  SSZ layout of its fields, the nested message of the signed proof included.
\<close>

theorem ssz_containers_meet_layout:
  "SSZTwoUint64Request a b = Some (container [Fix (u64b a), Fix (u64b b)]) \<and>
   SSZBlocksByRangeRequest a b c = Some (container [Fix (u64b a), Fix (u64b b), Fix (u64b c)]) \<and>
   SSZSignedExecutionProof p =
     Some (container
       [Var (container [Var (sp_ProofData p), Fix [sp_ProofType p], Fix (rootb (sp_NewPayloadRequestRoot p))]),
        Fix (u64b (sp_ValidatorIndex p)), Fix (be_bytes 96 (sp_Signature p))])"
proof (intro conjI)
  show "SSZTwoUint64Request a b = Some (container [Fix (u64b a), Fix (u64b b)])"
    using writes_all [of 16 "[u64b a, u64b b]"] by (simp add: SSZTwoUint64Request_def container_def)
  show "SSZBlocksByRangeRequest a b c = Some (container [Fix (u64b a), Fix (u64b b), Fix (u64b c)])"
    using writes_all [of 24 "[u64b a, u64b b, u64b c]"] by (simp add: SSZBlocksByRangeRequest_def container_def)
  show "SSZSignedExecutionProof p =
     Some (container
       [Var (container [Var (sp_ProofData p), Fix [sp_ProofType p], Fix (rootb (sp_NewPayloadRequestRoot p))]),
        Fix (u64b (sp_ValidatorIndex p)), Fix (be_bytes 96 (sp_Signature p))])"
    using writes_all [of "145 + length (sp_ProofData p)" "[u32b 108, u64b (sp_ValidatorIndex p), be_bytes 96 (sp_Signature p),
       u32b 37, [sp_ProofType p], rootb (sp_NewPayloadRequestRoot p), sp_ProofData p]"]
    by (simp add: SSZSignedExecutionProof_def container_def Let_def)
qed

text \<open>
  The bounded encoders: over the bound an error and no bytes, otherwise, without indexing outside the buffer,
  the SSZ list or container of the arguments.
\<close>

theorem ssz_lists_meet_layout:
  "SSZRootList roots =
     (if length roots \<le> MaxSSZRootListItems then Inr (Some (concat (map rootb roots)))
      else Inl (Errorf ''root count %d exceeds %d'' [VNat (length roots), VNat MaxSSZRootListItems])) \<and>
   SSZBlobIdentifiers ids =
     (if length ids \<le> MaxSSZBlobIdentifiers then Inr (Some (concat (map blob_part ids)))
      else Inl (Errorf ''blob identifier count %d exceeds %d'' [VNat (length ids), VNat MaxSSZBlobIdentifiers])) \<and>
   SSZDataColumnsByRangeRequest start count columns =
     (if length columns \<le> MaxDataColumnsByRange
      then Inr (Some (container [Fix (u64b start), Fix (u64b count), Var (concat (map u64b columns))]))
      else Inl (Errorf ''data column count %d exceeds %d'' [VNat (length columns), VNat MaxDataColumnsByRange])) \<and>
   SSZExecutionProofsByRange start count types =
     (if length types \<le> MaxExecutionProofTypes
      then Inr (Some (container [Fix (u64b start), Fix (u64b count), Var types]))
      else Inl (Errorf ''proof type count %d exceeds %d'' [VNat (length types), VNat MaxExecutionProofTypes])) \<and>
   SSZExecutionProofStatus root slot types =
     (if length types \<le> MaxExecutionProofTypes
      then Inr (Some (container [Fix (rootb root), Fix (u64b slot), Var types]))
      else Inl (Errorf ''proof type count %d exceeds %d'' [VNat (length types), VNat MaxExecutionProofTypes]))"
proof (intro conjI)
  show "SSZRootList roots =
     (if length roots \<le> MaxSSZRootListItems then Inr (Some (concat (map rootb roots)))
      else Inl (Errorf ''root count %d exceeds %d'' [VNat (length roots), VNat MaxSSZRootListItems]))"
    using in_order_indexed [of rootb 32 0 0 roots] writes_all [of "length roots * 32" "map rootb roots"]
    by (simp add: SSZRootList_def not_less)
  show "SSZBlobIdentifiers ids =
     (if length ids \<le> MaxSSZBlobIdentifiers then Inr (Some (concat (map blob_part ids)))
      else Inl (Errorf ''blob identifier count %d exceeds %d'' [VNat (length ids), VNat MaxSSZBlobIdentifiers]))"
    using blob_writes [of 0 ids] concat_blob_parts [of ids]
      writes_all [of "length ids * 40" "concat (map (\<lambda>d. [rootb (bi_BlockRoot d), u64b (bi_Index d)]) ids)"]
    by (simp add: SSZBlobIdentifiers_def not_less)
  show "SSZDataColumnsByRangeRequest start count columns =
     (if length columns \<le> MaxDataColumnsByRange
      then Inr (Some (container [Fix (u64b start), Fix (u64b count), Var (concat (map u64b columns))]))
      else Inl (Errorf ''data column count %d exceeds %d'' [VNat (length columns), VNat MaxDataColumnsByRange]))"
    using in_order_indexed [of u64b 8 20 0 columns]
      writes_all [of "20 + 8 * length columns" "u64b start # u64b count # u32b 20 # map u64b columns"]
    by (simp add: SSZDataColumnsByRangeRequest_def container_def not_less)
  show "SSZExecutionProofsByRange start count types =
     (if length types \<le> MaxExecutionProofTypes
      then Inr (Some (container [Fix (u64b start), Fix (u64b count), Var types]))
      else Inl (Errorf ''proof type count %d exceeds %d'' [VNat (length types), VNat MaxExecutionProofTypes]))"
    using writes_all [of "20 + length types" "[u64b start, u64b count, u32b 20, types]"]
    by (simp add: SSZExecutionProofsByRange_def container_def not_less)
  show "SSZExecutionProofStatus root slot types =
     (if length types \<le> MaxExecutionProofTypes
      then Inr (Some (container [Fix (rootb root), Fix (u64b slot), Var types]))
      else Inl (Errorf ''proof type count %d exceeds %d'' [VNat (length types), VNat MaxExecutionProofTypes]))"
    using writes_all [of "44 + length types" "[rootb root, u64b slot, u32b 44, types]"]
    by (simp add: SSZExecutionProofStatus_def container_def not_less)
qed

definition column_body :: "column_identifier \<Rightarrow> bytes" where
  "column_body d = container [Fix (rootb (ci_BlockRoot d)), Var (concat (map u64b (ci_Columns d)))]"

definition proof_body :: "proof_identifier \<Rightarrow> bytes" where
  "proof_body d = container [Fix (rootb (pi_BlockRoot d)), Var (pi_ProofTypes d)]"

lemma concat_parts: "concat (column_parts d) = column_body d" "concat (proof_parts e) = proof_body e"
  by (simp_all add: column_parts_def column_body_def proof_parts_def proof_body_def container_def)

lemma bodies_column: "bodies (map column_parts ds) = map (\<lambda>d. Var (column_body d)) ds"
  by (simp add: concat_parts)

lemma bodies_proof: "bodies (map proof_parts ds) = map (\<lambda>d. Var (proof_body d)) ds"
  by (simp add: concat_parts)

lemma columns_by_root:
  assumes "columns_ok ds"
  shows "SSZDataColumnsByRootIdentifiers ds = Inr (Some (container (map (\<lambda>d. Var (column_body d)) ds)))"
proof -
  have "length ds \<le> 128" using assms by (simp add: columns_ok_def MaxDataColumnRootIdentifiers_def)
  then have "column_sizes 0 (4 * length ds) ds = Inr (4 * length ds + length (tails (bodies (map column_parts ds))))"
    using assms by (intro column_sizes_eq) (simp_all add: columns_ok_def)
  then show ?thesis
    using assms writes_table_all [of _ "map column_parts ds"]
    by (simp only: SSZDataColumnsByRootIdentifiers_def columns_ok_def Let_def column_writes_table bodies_column
        not_less [symmetric] if_False err_bind_simps simp_thms length_map)
qed

lemma columns_by_root_error: "\<not> columns_ok ds \<Longrightarrow> isl (SSZDataColumnsByRootIdentifiers ds)"
  using isl_err_bind [OF column_sizes_Inl [of ds 0 "4 * length ds"]]
  by (auto simp: columns_ok_def SSZDataColumnsByRootIdentifiers_def Let_def not_le)

lemma proofs_by_root:
  assumes "proofs_ok ds"
  shows "SSZExecutionProofsByRoot ds = Inr (Some (container (map (\<lambda>d. Var (proof_body d)) ds)))"
proof -
  have "proof_sizes 0 (4 * length ds) ds = Inr (4 * length ds + length (tails (bodies (map proof_parts ds))))"
    using assms by (intro proof_sizes_eq) (simp add: proofs_ok_def)
  then show ?thesis
    using assms writes_table_all [of _ "map proof_parts ds"]
    by (simp only: SSZExecutionProofsByRoot_def proofs_ok_def Let_def proof_writes_table bodies_proof
        not_less [symmetric] if_False err_bind_simps simp_thms length_map)
qed

lemma proofs_by_root_error: "\<not> proofs_ok ds \<Longrightarrow> isl (SSZExecutionProofsByRoot ds)"
  using isl_err_bind [OF proof_sizes_Inl [of ds 0 "4 * length ds"]]
  by (auto simp: proofs_ok_def SSZExecutionProofsByRoot_def Let_def not_le)

text \<open>
  The two by-root encoders, which fill the offset table while they write the bodies: within the bounds neither
  panics and the result is the SSZ list of the identifiers' containers, every offset included; outside them it is
  an error.
\<close>

theorem ssz_by_root_meets_layout:
  "(if columns_ok ds
    then SSZDataColumnsByRootIdentifiers ds = Inr (Some (container (map (\<lambda>d. Var (column_body d)) ds)))
    else isl (SSZDataColumnsByRootIdentifiers ds)) \<and>
   (if proofs_ok es
    then SSZExecutionProofsByRoot es = Inr (Some (container (map (\<lambda>d. Var (proof_body d)) es)))
    else isl (SSZExecutionProofsByRoot es))"
  by (simp add: columns_by_root columns_by_root_error proofs_by_root proofs_by_root_error)

section \<open>What a responder decodes\<close>

lemma be_val_rootb [simp]: "be_val (rootb r) = r"
  by (simp add: rootb_def be_val_be_bytes)

lemma rootb_inj: "rootb r = rootb s \<longleftrightarrow> r = s"
  by (metis be_val_rootb)

lemma u64b_concat_inj:
  assumes "concat (map u64b xs) = concat (map u64b ys)"
  shows "xs = ys"
proof -
  have "8 * length xs = 8 * length ys" using arg_cong [OF assms, of length] by simp
  then show ?thesis using c64.concat_inj [of xs ys] assms by (simp add: u64b_def [abs_def])
qed

lemma same_shape_vars: "length vs = length ws \<Longrightarrow> same_shape (map Var vs) (map Var ws)"
  by (induction vs ws rule: list_induct2) simp_all

lemma head_size_vars: "head_size (map Var vs) = 4 * length vs"
  by (induction vs) simp_all

text \<open>In a list of variable-size elements the first offset gives the number of elements.\<close>

lemma var_list_inj:
  assumes "container (map Var vs) = container (map Var ws)" "length (container (map Var vs)) < 2 ^ 32"
  shows "vs = ws"
proof -
  have len: "length vs = length ws"
  proof (cases "vs = [] \<or> ws = []")
    case True
    then show ?thesis using arg_cong [OF assms(1), of length]
      by (auto simp: length_container head_size_vars)
  next
    case False
    then obtain v vs' w ws' where vw: "vs = v # vs'" "ws = w # ws'" by (metis neq_Nil_conv)
    have c: "u32b (4 * length vs) @ x = u32b (4 * length ws) @ y \<Longrightarrow> 4 * length vs = 4 * length ws" for x y
    proof (rule u32b_inj)
      show "u32b (4 * length vs) @ x = u32b (4 * length ws) @ y \<Longrightarrow> u32b (4 * length vs) = u32b (4 * length ws)" by simp
      show "4 * length vs < 2 ^ 32" "4 * length ws < 2 ^ 32"
        using assms(2) assms(2) [unfolded assms(1)] by (simp_all add: length_container head_size_vars)
    qed
    show ?thesis
      using assms(1) c by (simp add: container_def head_size_vars vw)
  qed
  have "map Var vs = map Var ws"
    by (rule container_inj [OF same_shape_vars [OF len] assms])
  then show ?thesis by (simp add: inj_map_eq_map inj_def)
qed

lemma column_body_inj:
  assumes "column_body d = column_body e" "length (column_body d) < 2 ^ 32"
  shows "d = e"
proof -
  have "[Fix (rootb (ci_BlockRoot d)), Var (concat (map u64b (ci_Columns d)))]
      = [Fix (rootb (ci_BlockRoot e)), Var (concat (map u64b (ci_Columns e)))]"
    by (rule container_inj) (use assms in \<open>simp_all add: column_body_def\<close>)
  then show ?thesis by (auto simp: rootb_inj dest: u64b_concat_inj intro: column_identifier.equality)
qed

lemma column_list_size:
  assumes "columns_ok ds"
  shows "length (container (map (\<lambda>d. Var (column_body d)) ds)) < 2 ^ 32"
    and "d \<in> set ds \<Longrightarrow> length (column_body d) < 2 ^ 32"
proof -
  have b: "length (column_body d) \<le> 1060" if "d \<in> set ds" for d
    using that assms by (auto simp: columns_ok_def column_body_def length_container MaxDataColumnsPerIdentifier_def)
  then have "length (tails (map (\<lambda>d. Var (column_body d)) ds)) \<le> length ds * 1060"
    by (induction ds) (auto simp: le_SucI add_mono)
  moreover have "head_size (map (\<lambda>d. Var (column_body d)) ds) = 4 * length ds" by (induction ds) simp_all
  moreover have "length ds \<le> 128" using assms by (simp add: columns_ok_def MaxDataColumnRootIdentifiers_def)
  ultimately show "length (container (map (\<lambda>d. Var (column_body d)) ds)) < 2 ^ 32"
    by (simp add: length_container)
  show "d \<in> set ds \<Longrightarrow> length (column_body d) < 2 ^ 32" using b [of d] by simp
qed

text \<open>
  A by-root column request names one list of identifiers: two lists whose encodings are the same bytes are the
  same list, so the offsets and the nested column lists cannot be read two ways.
\<close>

theorem columns_by_root_injective:
  assumes "SSZDataColumnsByRootIdentifiers ds = Inr b" "SSZDataColumnsByRootIdentifiers es = Inr b"
  shows "ds = es"
proof -
  have ok: "columns_ok ds" "columns_ok es" using assms columns_by_root_error by force+
  then have c: "container (map Var (map column_body ds)) = container (map Var (map column_body es))"
    using assms columns_by_root [OF ok(1)] columns_by_root [OF ok(2)] by (auto simp: o_def)
  have "map column_body ds = map column_body es"
    by (rule var_list_inj [OF c]) (use column_list_size(1) [OF ok(1)] in \<open>simp add: o_def\<close>)
  moreover have "inj_on column_body (set ds \<union> set es)"
    by (rule inj_onI) (use column_body_inj column_list_size(2) [OF ok(1)] column_list_size(2) [OF ok(2)] in blast)
  ultimately show ?thesis by (rule map_inj_on)
qed

theorem columns_by_root_injective_witness:
  "[\<lparr>ci_BlockRoot = 5, ci_Columns = [1, 2]\<rparr>] = [\<lparr>ci_BlockRoot = 5, ci_Columns = [1, 2]\<rparr>]"
  by (rule columns_by_root_injective [OF columns_by_root columns_by_root])
    (simp_all add: columns_ok_def MaxDataColumnRootIdentifiers_def MaxDataColumnsPerIdentifier_def)

end
