(* ===== verification/Beacon_Status.thy ===== *)
theory Beacon_Status
  imports Reqresp_Retry Ssz "HOL-Library.Multiset"
begin

text \<open>
  Package reqresp, status.go: the Status bodies built from the beacon API, the fork digest with its
  blob-parameter mask, the config subset it needs, the JSON getter with its bounds, and the warmup with its
  fallback. URL parsing, the HTTP exchange, JSON decoding and SHA-256 are parameters; a response body is a
  reader.
\<close>

section \<open>Hex\<close>

definition hex_val :: "char \<Rightarrow> byte option" where
  "hex_val c =
     (let n = of_char c :: nat
      in if 48 \<le> n \<and> n \<le> 57 then Some (of_nat (n - 48))
         else if 97 \<le> n \<and> n \<le> 102 then Some (of_nat (n - 87))
         else if 65 \<le> n \<and> n \<le> 70 then Some (of_nat (n - 55))
         else None)"

definition InvalidByteError :: "char \<Rightarrow> goerr" where
  "InvalidByteError c = Errorf ''encoding/hex: invalid byte: %#U'' [VNat (of_char c)]"

fun DecodeString :: "string \<Rightarrow> goerr + bytes" where
  "DecodeString (a # b # s) =
     (case (hex_val a, hex_val b) of
        (None, _) \<Rightarrow> Inl (InvalidByteError a)
      | (Some _, None) \<Rightarrow> Inl (InvalidByteError b)
      | (Some x, Some y) \<Rightarrow> err_bind (DecodeString s) (\<lambda>bs. Inr ((push_bit 4 x OR y) # bs)))"
| "DecodeString [a] =
     (case hex_val a of None \<Rightarrow> Inl (InvalidByteError a)
      | Some _ \<Rightarrow> Inl (Sentinel ''encoding/hex: odd length hex string''))"
| "DecodeString [] = Inr []"

definition consensusHex :: "string \<Rightarrow> nat \<Rightarrow> goerr + bytes" where
  "consensusHex value want =
     err_bind (DecodeString (trim_prefix ''0x'' value))
       (\<lambda>decoded. if length decoded \<noteq> want
                  then Inl (Errorf ''got %d bytes, want %d'' [VNat (length decoded), VNat want])
                  else Inr decoded)"

lemma consensusHex_length: "consensusHex value want = Inr b \<Longrightarrow> length b = want"
  by (auto simp: consensusHex_def err_bind_Inr_iff split: if_splits)

section \<open>The beacon API\<close>

text \<open>A URL split at its path, the response of a GET (status and body), and the decoders of the five documents.\<close>

record ('u, 'raw) beacon =
  bc_parse :: "string \<Rightarrow> goerr + ('u \<times> string)"
  bc_request :: "'u \<Rightarrow> string \<Rightarrow> goerr option"
  bc_do :: "'u \<Rightarrow> string \<Rightarrow> goerr + (int \<times> reader)"
  bc_show :: "'u \<Rightarrow> string \<Rightarrow> string"
  bc_fork :: "bytes \<Rightarrow> goerr + string"
  bc_genesis :: "bytes \<Rightarrow> goerr + string"
  bc_header :: "bytes \<Rightarrow> goerr + (string \<times> string)"
  bc_finality :: "bytes \<Rightarrow> goerr + (string \<times> string)"
  bc_spec :: "bytes \<Rightarrow> goerr + (string \<times> 'raw) list"
  bc_text :: "'raw \<Rightarrow> string option"
  bc_entries :: "'raw \<Rightarrow> (string \<times> string) list option"
  bc_sha256 :: "bytes \<Rightarrow> bytes"

definition maxConsensusJSONBytes :: nat where "maxConsensusJSONBytes = 2 ^ 20"

definition consensusGetJSON ::
    "('u, 'raw) beacon \<Rightarrow> string \<Rightarrow> string \<Rightarrow> (bytes \<Rightarrow> goerr + 'a) \<Rightarrow> goerr + 'a" where
  "consensusGetJSON bc baseURL path unmarshal =
     err_bind (bc_parse bc baseURL) (\<lambda>(endpoint, base).
       let full = trim_right (CHR ''/'') base @ path
       in err_bind (to_err (bc_request bc endpoint full)) (\<lambda>_.
          err_bind (bc_do bc endpoint full) (\<lambda>(status, body).
            if status < 200 \<or> 299 < status
            then Inl (Errorf ''http %d from %s'' [VInt status, VStr (bc_show bc endpoint full)])
            else
              err_bind (wrap_err ''read JSON response: %w'' [] (read_limited (maxConsensusJSONBytes + 1) body))
                (\<lambda>data.
                  if maxConsensusJSONBytes < length data
                  then Inl (Errorf ''JSON response exceeds %d bytes'' [VNat maxConsensusJSONBytes])
                  else if length data = 0 then Inl (Errorf ''JSON response is empty'' [])
                  else wrap_err ''decode JSON response: %w'' [] (unmarshal data)))))"

section \<open>The config\<close>

record blob_schedule_entry =
  bs_Epoch :: u64
  bs_MaxBlobs :: u64

record consensus_spec =
  cs_values :: "string \<rightharpoonup> string"
  cs_schedule :: "blob_schedule_entry list"

definition spec_uint :: "consensus_spec \<Rightarrow> string \<Rightarrow> u64 option" where
  "spec_uint c key =
     (case cs_values c key of None \<Rightarrow> None
      | Some raw \<Rightarrow> (case ParseUint 10 (trim_space raw) of Inl _ \<Rightarrow> None | Inr v \<Rightarrow> Some v))"

text \<open>The loop of \<open>blobParameters\<close>: the best entry so far, if one was found.\<close>

fun best_entry :: "u64 \<Rightarrow> blob_schedule_entry option \<Rightarrow> blob_schedule_entry list \<Rightarrow> blob_schedule_entry option" where
  "best_entry epoch best [] = best"
| "best_entry epoch best (e # es) =
     best_entry epoch
       (if bs_Epoch e \<le> epoch \<and> (case best of None \<Rightarrow> True | Some b \<Rightarrow> bs_Epoch b < bs_Epoch e)
        then Some e else best) es"

definition or_zero :: "u64 option \<Rightarrow> u64" where "or_zero v = (case v of None \<Rightarrow> 0 | Some x \<Rightarrow> x)"

definition blobParameters :: "consensus_spec \<Rightarrow> u64 \<Rightarrow> u64 \<times> u64" where
  "blobParameters c epoch =
     (case best_entry epoch None (cs_schedule c) of
        Some best \<Rightarrow> (bs_Epoch best, bs_MaxBlobs best)
      | None \<Rightarrow> (or_zero (spec_uint c ''ELECTRA_FORK_EPOCH''), or_zero (spec_uint c ''MAX_BLOBS_PER_BLOCK_ELECTRA'')))"

text \<open>One turn of the loop of \<open>consensusConfig\<close> over the decoded document.\<close>

definition schedule_entry :: "string \<times> string \<Rightarrow> blob_schedule_entry list" where
  "schedule_entry e =
     (case (ParseUint 10 (trim_space (fst e)), ParseUint 10 (trim_space (snd e))) of
        (Inr epoch, Inr maxBlobs) \<Rightarrow> [\<lparr>bs_Epoch = epoch, bs_MaxBlobs = maxBlobs\<rparr>]
      | _ \<Rightarrow> [])"

definition config_entry :: "('u, 'raw) beacon \<Rightarrow> string \<times> 'raw \<Rightarrow> consensus_spec \<Rightarrow> consensus_spec" where
  "config_entry bc kr spec =
     (case bc_text bc (snd kr) of
        Some text \<Rightarrow> spec\<lparr>cs_values := (cs_values spec)(fst kr \<mapsto> text)\<rparr>
      | None \<Rightarrow>
          if fst kr \<noteq> ''BLOB_SCHEDULE'' then spec
          else (case bc_entries bc (snd kr) of
                  None \<Rightarrow> spec
                | Some entries \<Rightarrow> spec\<lparr>cs_schedule := cs_schedule spec @ concat (map schedule_entry entries)\<rparr>))"

definition config_of :: "('u, 'raw) beacon \<Rightarrow> (string \<times> 'raw) list \<Rightarrow> consensus_spec" where
  "config_of bc data = fold (config_entry bc) data \<lparr>cs_values = Map.empty, cs_schedule = []\<rparr>"

definition consensusConfig :: "('u, 'raw) beacon \<Rightarrow> string \<Rightarrow> goerr + consensus_spec" where
  "consensusConfig bc beaconURL =
     err_bind (consensusGetJSON bc beaconURL ''/eth/v1/config/spec'' (bc_spec bc)) (\<lambda>data. Inr (config_of bc data))"

section \<open>The fork digest\<close>

definition pad32 :: "bytes \<Rightarrow> bytes" where "pad32 b = take 32 b @ zeros (32 - length b)"

definition consensusForkDigest ::
    "('u, 'raw) beacon \<Rightarrow> string \<Rightarrow> bytes \<Rightarrow> bytes \<Rightarrow> u64 \<Rightarrow> goerr + bytes" where
  "consensusForkDigest bc beaconURL currentVersion genesisValidatorsRoot headSlot =
     (let base = bc_sha256 bc (pad32 currentVersion @ pad32 genesisValidatorsRoot)
      in case consensusConfig bc beaconURL of
           Inl _ \<Rightarrow> Inr (take 4 base)
         | Inr config \<Rightarrow>
             (case spec_uint config ''FULU_FORK_EPOCH'' of
                None \<Rightarrow> Inr (take 4 base)
              | Some fuluEpoch \<Rightarrow>
                  (let slotsPerEpoch = spec_uint config ''SLOTS_PER_EPOCH''
                   in if slotsPerEpoch = None \<or> slotsPerEpoch = Some 0
                      then Inl (Errorf ''config spec has no usable SLOTS_PER_EPOCH'' [])
                      else
                        (let epoch = headSlot div the slotsPerEpoch
                         in if epoch < fuluEpoch then Inr (take 4 base)
                            else
                              (let (blobEpoch, maxBlobs) = blobParameters config epoch;
                                   masked = bc_sha256 bc (le_bytes 8 blobEpoch @ le_bytes 8 maxBlobs)
                               in Inr (map2 (XOR) (take 4 base) (take 4 masked)))))))"

section \<open>The Status bodies\<close>

definition StatusV1 :: string where "StatusV1 = ProtocolPrefix @ ''/status/1/'' @ Encoding"
definition StatusV2 :: string where "StatusV2 = ProtocolPrefix @ ''/status/2/'' @ Encoding"

text \<open>The buffer is filled as in the code; \<open>None\<close> would be a panic.\<close>

definition status_bodies :: "bytes \<Rightarrow> bytes \<Rightarrow> u64 \<Rightarrow> bytes \<Rightarrow> u64 \<Rightarrow> (bytes \<times> bytes) option" where
  "status_bodies forkDigest finalizedRoot finalizedEpoch headRoot headSlot =
     (case writes [(0, forkDigest), (4, finalizedRoot), (36, u64b finalizedEpoch), (44, headRoot), (76, u64b headSlot)]
             (zeros 84) of
        None \<Rightarrow> None
      | Some v1 \<Rightarrow> (case writes [(0, v1)] (zeros 92) of None \<Rightarrow> None | Some v2 \<Rightarrow> Some (v1, v2)))"

definition BeaconStatus :: "('u, 'raw) beacon \<Rightarrow> string \<Rightarrow> goerr + (bytes \<times> bytes) option" where
  "BeaconStatus bc beaconURL =
     err_bind (wrap_err ''fetch fork: %w'' []
         (consensusGetJSON bc beaconURL ''/eth/v1/beacon/states/head/fork'' (bc_fork bc))) (\<lambda>version.
     err_bind (wrap_err ''current_version: %w'' [] (consensusHex version 4)) (\<lambda>currentVersion.
     err_bind (wrap_err ''fetch genesis: %w'' []
         (consensusGetJSON bc beaconURL ''/eth/v1/beacon/genesis'' (bc_genesis bc))) (\<lambda>gvr.
     err_bind (wrap_err ''genesis_validators_root: %w'' [] (consensusHex gvr 32)) (\<lambda>genesisRoot.
     err_bind (wrap_err ''fetch head header: %w'' []
         (consensusGetJSON bc beaconURL ''/eth/v1/beacon/headers/head'' (bc_header bc))) (\<lambda>(root, slot).
     err_bind (wrap_err ''head root: %w'' [] (consensusHex root 32)) (\<lambda>headRoot.
     err_bind (wrap_err ''head slot: %w'' [] (ParseUint 10 slot)) (\<lambda>headSlot.
     err_bind (wrap_err ''fetch finality: %w'' []
         (consensusGetJSON bc beaconURL ''/eth/v1/beacon/states/head/finality_checkpoints'' (bc_finality bc))) (\<lambda>(froot, fepoch).
     err_bind (wrap_err ''finalized root: %w'' [] (consensusHex froot 32)) (\<lambda>finalizedRoot.
     err_bind (wrap_err ''finalized epoch: %w'' [] (ParseUint 10 fepoch)) (\<lambda>finalizedEpoch.
     err_bind (consensusForkDigest bc beaconURL currentVersion genesisRoot headSlot) (\<lambda>forkDigest.
     Inr (status_bodies forkDigest finalizedRoot finalizedEpoch headRoot headSlot))))))))))))"

section \<open>The warmup\<close>

text \<open>
  \<open>req\<close> is \<open>Session.Request\<close> on this session; a nil response would panic (\<open>None\<close>). \<open>status_try\<close> is the outcome
  of one version: \<open>None\<close> for success, otherwise the error reported for it.
\<close>

definition status_try :: "goerr + response_chunk option \<Rightarrow> goerr option option" where
  "status_try r =
     (case r of
        Inl e \<Rightarrow> Some (Some e)
      | Inr None \<Rightarrow> None
      | Inr (Some c) \<Rightarrow>
          Some (if rc_Code c = CodeSuccess then None else Some (Errorf ''response code %d'' [VNat (unat (rc_Code c))])))"

definition StatusWarmup ::
    "(string \<Rightarrow> bytes \<Rightarrow> goerr + response_chunk option) \<Rightarrow> goerr + (bytes \<times> bytes) option \<Rightarrow> goerr option option" where
  "StatusWarmup req built =
     (case built of
        Inl e \<Rightarrow> Some (Some e)
      | Inr None \<Rightarrow> None
      | Inr (Some (statusV1, statusV2)) \<Rightarrow>
          (case status_try (req StatusV2 statusV2) of
             None \<Rightarrow> None
           | Some None \<Rightarrow> Some None
           | Some (Some errV2) \<Rightarrow>
               (case status_try (req StatusV1 statusV1) of
                  None \<Rightarrow> None
                | Some None \<Rightarrow> Some None
                | Some (Some errV1) \<Rightarrow>
                    Some (Some (Wrapf ''status warmup failed: v2: %w; v1: %v'' [VStr (err_text errV1)] errV2)))))"

section \<open>The blob schedule\<close>

definition due :: "u64 \<Rightarrow> blob_schedule_entry list \<Rightarrow> blob_schedule_entry list" where
  "due epoch es = filter (\<lambda>e. bs_Epoch e \<le> epoch) es"

lemma best_entry_due: "best_entry epoch best es = best_entry epoch best (due epoch es)"
  by (induction epoch best es rule: best_entry.induct) (auto simp: due_def)

text \<open>The newest entry, the first of several of one epoch.\<close>

fun newest :: "blob_schedule_entry \<Rightarrow> blob_schedule_entry list \<Rightarrow> blob_schedule_entry" where
  "newest b [] = b"
| "newest b (e # es) = newest (if bs_Epoch b < bs_Epoch e then e else b) es"

lemma best_entry_newest:
  "\<forall>e \<in> set es. bs_Epoch e \<le> epoch \<Longrightarrow> best_entry epoch (Some b) es = Some (newest b es)"
  by (induction es arbitrary: b) auto

lemma newest_Max: "bs_Epoch (newest b es) = Max (bs_Epoch ` set (b # es))"
proof (induction es arbitrary: b)
  case (Cons e es)
  have "Max (bs_Epoch ` set (b # e # es)) = max (max (bs_Epoch b) (bs_Epoch e)) (if es = [] then bs_Epoch b else Max (bs_Epoch ` set es))"
    by (cases "es = []") (simp_all add: max.assoc, simp add: max.left_commute max.commute)
  moreover have "Max (bs_Epoch ` set (x # es)) = max (bs_Epoch x) (if es = [] then bs_Epoch x else Max (bs_Epoch ` set es))" for x
    by (cases "es = []") simp_all
  ultimately show ?case
    using Cons.IH [of b] Cons.IH [of e] by (auto simp: max_def split: if_splits)
qed simp

lemma newest_in: "newest b es \<in> set (b # es)"
proof (induction es arbitrary: b)
  case (Cons e es)
  then show ?case using Cons.IH [of b] Cons.IH [of e] by auto
qed simp

lemma newest_ge: "bs_Epoch b \<le> bs_Epoch (newest b es)"
  by (simp add: newest_Max)

lemma newest_first: "hd (filter (\<lambda>e. bs_Epoch e = bs_Epoch (newest b es)) (b # es)) = newest b es"
proof (induction es arbitrary: b)
  case (Cons e es)
  show ?case
  proof (cases "bs_Epoch b < bs_Epoch e")
    case True
    then have "bs_Epoch b \<noteq> bs_Epoch (newest e es)" using newest_ge [of e es] by simp
    then show ?thesis using True Cons.IH [of e] by simp
  next
    case False
    show ?thesis
    proof (cases "bs_Epoch b = bs_Epoch (newest b es)")
      case True
      then show ?thesis using False Cons.IH [of b] by simp
    next
      case ne: False
      then have "bs_Epoch e \<noteq> bs_Epoch (newest b es)" using False newest_ge [of b es] by auto
      then show ?thesis using False ne Cons.IH [of b] by simp
    qed
  qed
qed simp

text \<open>
  \<open>blobParameters\<close> is get_blob_parameters of the specification: among the entries at or below the epoch the one of
  the greatest epoch (the first listed, if several share it), and the Electra values when there is none.
\<close>

theorem blobParameters_newest:
  "blobParameters c epoch =
     (if due epoch (cs_schedule c) = []
      then (or_zero (spec_uint c ''ELECTRA_FORK_EPOCH''), or_zero (spec_uint c ''MAX_BLOBS_PER_BLOCK_ELECTRA''))
      else (let m = Max (bs_Epoch ` set (due epoch (cs_schedule c)))
            in (m, bs_MaxBlobs (hd (filter (\<lambda>e. bs_Epoch e = m) (cs_schedule c))))))"
proof (cases "due epoch (cs_schedule c)")
  case Nil
  then show ?thesis using best_entry_due [of epoch None "cs_schedule c"] by (simp add: blobParameters_def)
next
  case (Cons b es)
  have all: "\<forall>e \<in> set (b # es). bs_Epoch e \<le> epoch" using Cons [symmetric] by (auto simp: due_def)
  then have best: "best_entry epoch None (cs_schedule c) = Some (newest b es)"
    using best_entry_due [of epoch None "cs_schedule c"] Cons by (simp add: best_entry_newest)
  let ?m = "Max (bs_Epoch ` set (due epoch (cs_schedule c)))"
  have m: "?m = bs_Epoch (newest b es)" by (simp only: Cons newest_Max)
  have "bs_Epoch (newest b es) \<le> epoch" using all newest_in [of b es] by blast
  then have "filter (\<lambda>e. bs_Epoch e = ?m) (cs_schedule c) = filter (\<lambda>e. bs_Epoch e = ?m) (b # es)"
    unfolding Cons [symmetric] m by (simp add: due_def) (metis (mono_tags, lifting) filter_cong)
  moreover have "hd (filter (\<lambda>e. bs_Epoch e = ?m) (b # es)) = newest b es"
    unfolding m by (rule newest_first)
  ultimately show ?thesis using best Cons m by (simp add: blobParameters_def Let_def)
qed

section \<open>Map iteration order\<close>

lemma config_entry_commute:
  "fst x \<noteq> fst y \<Longrightarrow> config_entry bc x \<circ> config_entry bc y = config_entry bc y \<circ> config_entry bc x"
  by (rule ext) (auto simp: config_entry_def fun_upd_twist split: option.splits)

text \<open>
  The config does not depend on the order in which Go iterates over the decoded map: any two orders of the same
  entries, under distinct keys, give the same values and the same schedule.
\<close>

theorem config_order_irrelevant:
  "distinct (map fst data) \<Longrightarrow> mset data' = mset data \<Longrightarrow> config_of bc data' = config_of bc data"
  unfolding config_of_def
proof (rule fun_cong [where x = "\<lparr>cs_values = Map.empty, cs_schedule = []\<rparr>"], rule fold_multiset_equiv)
  assume d: "distinct (map fst data)" and m: "mset data' = mset data"
  show "config_entry bc x \<circ> config_entry bc y = config_entry bc y \<circ> config_entry bc x"
    if "x \<in> set data'" "y \<in> set data'" for x y
  proof (cases "fst x = fst y")
    case True
    then have "x = y" using that d mset_eq_setD [OF m] by (auto simp: distinct_map inj_on_def)
    then show ?thesis by simp
  qed (simp add: config_entry_commute)
qed auto

definition demo_beacon :: "(unit, string) beacon" where
  "demo_beacon = \<lparr>bc_parse = (\<lambda>s. Inr ((), s)), bc_request = (\<lambda>u p. None),
     bc_do = (\<lambda>u p. Inr (200, \<lparr>rbuf = [1], rend = EOF\<rparr>)), bc_show = (\<lambda>u p. p),
     bc_fork = (\<lambda>b. Inr ''0x01020304''), bc_genesis = (\<lambda>b. Inr ''0000000000000000000000000000000000000000000000000000000000000000''),
     bc_header = (\<lambda>b. Inr (''aaaaaaaaaaaaaaaaaaaaaaaaaaaaaaaaaaaaaaaaaaaaaaaaaaaaaaaaaaaaaaaa'', ''65'')), bc_finality = (\<lambda>b. Inr (''bbbbbbbbbbbbbbbbbbbbbbbbbbbbbbbbbbbbbbbbbbbbbbbbbbbbbbbbbbbbbbbb'', ''1'')),
     bc_spec = (\<lambda>b. Inr [(''SLOTS_PER_EPOCH'', ''32''), (''FULU_FORK_EPOCH'', ''2'')]),
     bc_text = Some, bc_entries = (\<lambda>r. None), bc_sha256 = (\<lambda>b. replicate 32 (of_nat (length b)))\<rparr>"

theorem config_order_irrelevant_witness:
  "config_of demo_beacon [(''FULU_FORK_EPOCH'', ''2''), (''SLOTS_PER_EPOCH'', ''32'')]
     = config_of demo_beacon [(''SLOTS_PER_EPOCH'', ''32''), (''FULU_FORK_EPOCH'', ''2'')]"
  by (rule config_order_irrelevant) simp_all

section \<open>The bodies\<close>

lemma consensusForkDigest_length:
  "(\<And>b. length (bc_sha256 bc b) = 32) \<Longrightarrow> consensusForkDigest bc url v g slot = Inr d \<Longrightarrow> length d = 4"
  by (auto simp: consensusForkDigest_def Let_def split: sum.splits option.splits if_splits prod.splits)

lemma status_bodies_layout:
  assumes "length digest = 4" "length froot = 32" "length hroot = 32"
  shows "status_bodies digest froot fepoch hroot slot =
    (let v1 = digest @ froot @ u64b fepoch @ hroot @ u64b slot in Some (v1, v1 @ zeros 8))"
proof -
  have 1: "writes [(0, digest), (4, froot), (36, u64b fepoch), (44, hroot), (76, u64b slot)] (zeros 84)
      = Some (digest @ froot @ u64b fepoch @ hroot @ u64b slot)"
    using writes_all [of 84 "[digest, froot, u64b fepoch, hroot, u64b slot]"] assms by simp
  have 2: "writes [(0, v)] (zeros 92) = Some (v @ zeros 8)" if "length v = 84" for v
    using writes_in_order [of "[]" 0 "[v]" "zeros 8"] that by (simp add: zeros_def flip: replicate_add)
  show ?thesis using 1 2 assms by (simp add: status_bodies_def Let_def)
qed

text \<open>
  \<open>BeaconStatus\<close> never indexes outside its buffers, and a success is the 84-byte Status v1 container of four
  fixed fields and the fork digest, with the 92-byte Status v2 body its extension by an earliest slot that is
  always zero.
\<close>

theorem BeaconStatus_bodies:
  assumes "\<And>b. length (bc_sha256 bc b) = 32" "BeaconStatus bc url = Inr built"
  shows "\<exists>digest froot fepoch hroot slot.
           built = Some (container [Fix digest, Fix froot, Fix (u64b fepoch), Fix hroot, Fix (u64b slot)],
                         container [Fix digest, Fix froot, Fix (u64b fepoch), Fix hroot, Fix (u64b slot), Fix (u64b 0)])
           \<and> length digest = 4 \<and> length froot = 32 \<and> length hroot = 32"
proof -
  obtain digest froot fepoch hroot slot
    where b: "built = status_bodies digest froot fepoch hroot slot"
      and len: "length digest = 4" "length froot = 32" "length hroot = 32"
    using assms(2) consensusForkDigest_length [OF assms(1)]
    by (auto simp: BeaconStatus_def err_bind_Inr_iff dest!: consensusHex_length split: prod.splits)
  have "zeros 8 = u64b 0" by (simp add: zeros_def u64b_def numeral_eq_Suc)
  then show ?thesis
    using b len status_bodies_layout [OF len, of fepoch slot]
    by (intro exI [of _ digest] exI [of _ froot] exI [of _ fepoch] exI [of _ hroot] exI [of _ slot])
      (simp add: container_def Let_def)
qed

lemma demo_fields:
  "bc_fork demo_beacon x = Inr ''0x01020304''" "bc_genesis demo_beacon x = Inr ''0000000000000000000000000000000000000000000000000000000000000000''"
  "bc_header demo_beacon x = Inr (''aaaaaaaaaaaaaaaaaaaaaaaaaaaaaaaaaaaaaaaaaaaaaaaaaaaaaaaaaaaaaaaa'', ''65'')" "bc_finality demo_beacon x = Inr (''bbbbbbbbbbbbbbbbbbbbbbbbbbbbbbbbbbbbbbbbbbbbbbbbbbbbbbbbbbbbbbbb'', ''1'')"
  "bc_spec demo_beacon x = Inr [(''SLOTS_PER_EPOCH'', ''32''), (''FULU_FORK_EPOCH'', ''2'')]"
  "length (bc_sha256 demo_beacon x) = 32"
  by (simp_all add: demo_beacon_def)

lemma demo_get: "consensusGetJSON demo_beacon u p f = wrap_err ''decode JSON response: %w'' [] (f [1])"
  by (simp add: consensusGetJSON_def demo_beacon_def read_limited_def maxConsensusJSONBytes_def Let_def)

lemma demo_hex:
  "consensusHex ''0x01020304'' 4 = Inr [1, 2, 3, 4]" "\<exists>h. consensusHex ''0000000000000000000000000000000000000000000000000000000000000000'' 32 = Inr h"
  "\<exists>h. consensusHex ''aaaaaaaaaaaaaaaaaaaaaaaaaaaaaaaaaaaaaaaaaaaaaaaaaaaaaaaaaaaaaaaa'' 32 = Inr h" "\<exists>h. consensusHex ''bbbbbbbbbbbbbbbbbbbbbbbbbbbbbbbbbbbbbbbbbbbbbbbbbbbbbbbbbbbbbbbb'' 32 = Inr h"
  by (simp_all add: consensusHex_def trim_prefix_def has_prefix_def hex_val_def)

lemma demo_nums: "ParseUint 10 ''65'' = Inr 65" "ParseUint 10 ''1'' = Inr 1"
  by (simp_all add: ParseUint_def digit_val_def)

lemma demo_uint:
  "spec_uint (config_of demo_beacon [(''SLOTS_PER_EPOCH'', ''32''), (''FULU_FORK_EPOCH'', ''2'')]) ''FULU_FORK_EPOCH'' = Some 2"
  "spec_uint (config_of demo_beacon [(''SLOTS_PER_EPOCH'', ''32''), (''FULU_FORK_EPOCH'', ''2'')]) ''SLOTS_PER_EPOCH'' = Some 32"
  by (simp_all add: config_of_def config_entry_def demo_beacon_def spec_uint_def ParseUint_def digit_val_def Let_def
      trim_space_def trim_space_left.simps trim_space_rev.simps skip_space_def skip_space_rev_def space_runes_def
      has_prefix_def)

lemma demo_digest: "\<exists>d. consensusForkDigest demo_beacon u v g 65 = Inr d"
  by (simp add: consensusForkDigest_def consensusConfig_def demo_get demo_fields demo_uint Let_def split: prod.splits)

theorem BeaconStatus_bodies_witness:
  "\<exists>built. BeaconStatus demo_beacon ''u'' = Inr built \<and>
     (\<exists>digest froot fepoch hroot slot.
           built = Some (container [Fix digest, Fix froot, Fix (u64b fepoch), Fix hroot, Fix (u64b slot)],
                         container [Fix digest, Fix froot, Fix (u64b fepoch), Fix hroot, Fix (u64b slot), Fix (u64b 0)])
           \<and> length digest = 4 \<and> length froot = 32 \<and> length hroot = 32)"
proof -
  obtain g h f where hex: "consensusHex ''0000000000000000000000000000000000000000000000000000000000000000'' 32 = Inr g" "consensusHex ''aaaaaaaaaaaaaaaaaaaaaaaaaaaaaaaaaaaaaaaaaaaaaaaaaaaaaaaaaaaaaaaa'' 32 = Inr h" "consensusHex ''bbbbbbbbbbbbbbbbbbbbbbbbbbbbbbbbbbbbbbbbbbbbbbbbbbbbbbbbbbbbbbbb'' 32 = Inr f"
    using demo_hex by blast
  obtain d where d: "consensusForkDigest demo_beacon ''u'' [1, 2, 3, 4] g 65 = Inr d" using demo_digest by blast
  have b: "BeaconStatus demo_beacon ''u'' = Inr (status_bodies d f 1 h 65)"
    unfolding BeaconStatus_def demo_get demo_fields
    by (simp only: wrap_err_simps err_bind_simps demo_hex(1) hex demo_nums d prod.case)
  from BeaconStatus_bodies [OF demo_fields(6) b] b show ?thesis by blast
qed

section \<open>The warmup never panics\<close>

lemma response_not_nil:
  "session_Request sn left addrs st proto payload opt = (Inr None, tr) \<Longrightarrow> o_SkipResponse opt"
  by (auto simp: session_Request_def pick_response_def dest!: request_Nil
      split: prod.splits sum.splits if_splits list.splits)

text \<open>The zero \<open>RequestOptions\<close>.\<close>

definition no_options :: request_options where
  "no_options = \<lparr>o_NoBody = False, o_RawBody = [], o_HasRawBody = False, o_HasContext = False, o_Handshake = False,
     o_Timeout = 0, o_MaxPayload = 0, o_MaxTotalPayload = 0, o_MaxChunks = 0, o_SkipResponse = False,
     o_BeforeSend = None\<rparr>"

lemma status_try_request: "status_try (fst (session_Request sn left addrs st proto body no_options)) \<noteq> None"
proof
  assume n: "status_try (fst (session_Request sn left addrs st proto body no_options)) = None"
  then obtain tr where "session_Request sn left addrs st proto body no_options = (Inr None, tr)"
    by (cases "session_Request sn left addrs st proto body no_options") (auto simp: status_try_def split: sum.splits option.splits)
  then have "o_SkipResponse no_options" by (rule response_not_nil)
  then show False by (simp add: no_options_def)
qed

text \<open>
  \<open>StatusWarmup\<close> over the session's own \<open>Request\<close> never dereferences a nil response, and it succeeds exactly
  when the v2 exchange, or after its failure the v1 exchange, returns a success chunk.
\<close>

theorem StatusWarmup_outcome:
  "(let req = (\<lambda>p b. fst (session_Request sn left addrs (st p) p b no_options));
        good = (\<lambda>r. \<exists>c. r = Inr (Some c) \<and> rc_Code c = CodeSuccess)
    in StatusWarmup req (Inr (Some (v1, v2))) \<noteq> None \<and>
       (StatusWarmup req (Inr (Some (v1, v2))) = Some None) = (good (req StatusV2 v2) \<or> good (req StatusV1 v1)))"
proof -
  let ?r = "\<lambda>p b. fst (session_Request sn left addrs (st p) p b no_options)"
  have ok: "status_try r = Some None \<longleftrightarrow> (\<exists>c. r = Inr (Some c) \<and> rc_Code c = CodeSuccess)" for r
    by (auto simp: status_try_def split: sum.splits option.splits if_splits)
  show ?thesis
    using status_try_request [of sn left addrs "st StatusV2" StatusV2 v2]
      status_try_request [of sn left addrs "st StatusV1" StatusV1 v1]
      ok [of "?r StatusV2 v2"] ok [of "?r StatusV1 v1"]
    unfolding Let_def StatusWarmup_def by (auto split: option.splits)
qed

end
