(* ===== verification/Consensus_Session.thy ===== *)
theory Consensus_Session
  imports Identity Udp Reqresp_Retry Beacon_Status
begin

text \<open>
  Package reqresp, conn.go, endpoints.go and raw_stream.go: resolving the peer's ID and address, connecting a transient libp2p
  host that runs a gossipsub router, closing it, and raw streams on it. libp2p, multiaddresses and node records are the
  parameter \<open>libp2p\<close>; a multiaddress and a peer ID are their texts. A run comes with the calls it made on the host.
\<close>

section \<open>Host and port\<close>

text \<open>\<open>net.SplitHostPort\<close> and \<open>net.JoinHostPort\<close>; the error is an \<open>AddrError\<close>.\<close>

fun index_of :: "char \<Rightarrow> string \<Rightarrow> nat option" where
  "index_of c [] = None"
| "index_of c (x # xs) = (if x = c then Some 0 else map_option Suc (index_of c xs))"

definition last_index :: "char \<Rightarrow> string \<Rightarrow> nat option" where
  "last_index c s = map_option (\<lambda>i. length s - 1 - i) (index_of c (rev s))"

definition addr_error :: "string \<Rightarrow> string \<Rightarrow> goerr" where
  "addr_error addr why = Errorf ''address %s: %s'' [VStr addr, VStr why]"

text \<open>The host and the offsets from which no further bracket may open and close.\<close>

definition split_host :: "string \<Rightarrow> nat \<Rightarrow> goerr + string \<times> nat \<times> nat" where
  "split_host hp i =
     (if hp ! 0 = CHR ''['' then
        (case index_of CHR '']'' hp of
           None \<Rightarrow> Inl (addr_error hp (''missing '' @ [CHR 39, CHR '']'', CHR 39] @ '' in address''))
         | Some e \<Rightarrow>
             if e + 1 = length hp then Inl (addr_error hp ''missing port in address'')
             else if e + 1 = i then Inr (take (e - 1) (drop 1 hp), 1, e + 1)
             else if hp ! (e + 1) = CHR '':'' then Inl (addr_error hp ''too many colons in address'')
             else Inl (addr_error hp ''missing port in address''))
      else if index_of CHR '':'' (take i hp) \<noteq> None then Inl (addr_error hp ''too many colons in address'')
      else Inr (take i hp, 0, 0))"

definition SplitHostPort :: "string \<Rightarrow> goerr + string \<times> string" where
  "SplitHostPort hp =
     (case last_index CHR '':'' hp of
        None \<Rightarrow> Inl (addr_error hp ''missing port in address'')
      | Some i \<Rightarrow>
          err_bind (split_host hp i) (\<lambda>(host, j, k).
            if index_of CHR ''['' (drop j hp) \<noteq> None
            then Inl (addr_error hp (''unexpected '' @ [CHR 39, CHR ''['', CHR 39] @ '' in address''))
            else if index_of CHR '']'' (drop k hp) \<noteq> None
            then Inl (addr_error hp (''unexpected '' @ [CHR 39, CHR '']'', CHR 39] @ '' in address''))
            else Inr (host, drop (i + 1) hp)))"

definition JoinHostPort :: "string \<Rightarrow> string \<Rightarrow> string" where
  "JoinHostPort host port =
     (if index_of CHR '':'' host \<noteq> None then ''['' @ host @ '']:'' @ port else host @ '':'' @ port)"

section \<open>Peer addresses\<close>

text \<open>
  \<open>lp_multiaddr\<close> is \<open>ma.NewMultiaddr\<close>, \<open>lp_info\<close> splits an address into peer ID and transports, \<open>lp_decode\<close> reads a peer ID,
  \<open>lp_node\<close> gives address and TCP port of a node record, \<open>lp_value\<close> is \<open>ValueForProtocol\<close>. \<open>lp_host\<close>, \<open>lp_router\<close> and
  \<open>lp_connect\<close> (under a timeout) are what setting up the host returns, \<open>lp_close\<close> what closing it returns.
\<close>

record 'p libp2p =
  lp_multiaddr :: "string \<Rightarrow> goerr + string"
  lp_info :: "string \<Rightarrow> goerr + string \<times> string list"
  lp_decode :: "string \<Rightarrow> goerr + string"
  lp_node :: "string \<Rightarrow> goerr + bytes option \<times> int"
  lp_ip_text :: "bytes \<Rightarrow> string"
  lp_parse_ip :: "string \<Rightarrow> bytes option"
  lp_value :: "string \<Rightarrow> string \<Rightarrow> string option"
  lp_peer_id :: "bytes \<Rightarrow> goerr + string"
  lp_host :: "'p \<Rightarrow> goerr option"
  lp_router :: "goerr option"
  lp_connect :: "int \<Rightarrow> string \<Rightarrow> string list \<Rightarrow> goerr option"
  lp_close :: "goerr option"

text \<open>\<open>lp_peer_id\<close> reads the peer ID of an identity response.\<close>

definition full_address :: "string \<Rightarrow> bool" where
  "full_address p2pAddr \<longleftrightarrow> has_prefix ''/'' p2pAddr \<and> contains ''/p2p/'' p2pAddr"

definition PeerID :: "'p libp2p \<Rightarrow> ('u, 'raw) beacon \<Rightarrow> string \<Rightarrow> string \<Rightarrow> goerr + string" where
  "PeerID lp bc beaconURL p2pAddr =
     (case (if full_address p2pAddr then err_bind (lp_multiaddr lp p2pAddr) (lp_info lp) else Inl EOF) of
        Inr (peerID, _) \<Rightarrow> Inr peerID
      | Inl _ \<Rightarrow>
          err_bind (wrap_err ''fetch node identity: %w'' [] (consensusGetJSON bc beaconURL ''/eth/v1/node/identity'' (lp_peer_id lp)))
            (\<lambda>peerID.
              if peerID = [] then Inl (Errorf ''node identity returned empty peer_id'' [])
              else wrap_err ''decode peer id: %w'' [] (lp_decode lp peerID)))"

definition ip_protocol :: "bytes \<Rightarrow> string" where
  "ip_protocol ip = (if To4 ip \<noteq> None then ''ip4'' else ''ip6'')"

definition transport_text :: "string \<Rightarrow> string \<Rightarrow> string \<Rightarrow> string \<Rightarrow> string" where
  "transport_text protocol host port peerID = ''/'' @ protocol @ ''/'' @ host @ ''/tcp/'' @ port @ ''/p2p/'' @ peerID"

definition record_address :: "'p libp2p \<Rightarrow> string \<Rightarrow> string \<Rightarrow> goerr + string" where
  "record_address lp p2pAddr peerID =
     err_bind (wrap_err ''parse consensus ENR: %w'' [] (lp_node lp p2pAddr)) (\<lambda>(ip, port).
       case ip of
         None \<Rightarrow> Inl (Errorf ''consensus ENR has no routable IP address'' [])
       | Some ip \<Rightarrow>
           if IsUnspecified ip then Inl (Errorf ''consensus ENR has no routable IP address'' [])
           else if port < 1 \<or> 65535 < port then Inl (Errorf ''consensus ENR has invalid TCP port %d'' [VInt port])
           else lp_multiaddr lp (transport_text (ip_protocol ip) (lp_ip_text lp ip) (show_int port) peerID))"

definition host_port_address :: "'p libp2p \<Rightarrow> string \<Rightarrow> string \<Rightarrow> goerr + string" where
  "host_port_address lp p2pAddr peerID =
     err_bind (wrap_err ''split p2p address %q: %w'' [VStr p2pAddr] (SplitHostPort p2pAddr)) (\<lambda>(host, port).
       let protocol = (case lp_parse_ip lp host of None \<Rightarrow> ''dns4'' | Some ip \<Rightarrow> ip_protocol ip)
       in lp_multiaddr lp (transport_text protocol host port peerID))"

definition Multiaddr :: "'p libp2p \<Rightarrow> string \<Rightarrow> string \<Rightarrow> goerr + string" where
  "Multiaddr lp p2pAddr peerID =
     (if has_prefix ''enr:'' p2pAddr then record_address lp p2pAddr peerID
      else if has_prefix ''/'' p2pAddr then
        (if contains ''/p2p/'' p2pAddr then lp_multiaddr lp p2pAddr
         else lp_multiaddr lp (p2pAddr @ ''/p2p/'' @ peerID))
      else host_port_address lp p2pAddr peerID)"

section \<open>Endpoints\<close>

record transport_endpoints =
  TCP :: string
  UDP :: string
  QUIC :: bool

definition first_value :: "'p libp2p \<Rightarrow> string \<Rightarrow> string list \<Rightarrow> string" where
  "first_value lp address codes =
     (case find (\<lambda>v. v \<noteq> None) (map (\<lambda>code. lp_value lp code address) codes) of Some (Some value) \<Rightarrow> value | _ \<Rightarrow> [])"

definition ResolveTransportEndpoints :: "'p libp2p \<Rightarrow> string \<Rightarrow> string \<Rightarrow> goerr + transport_endpoints" where
  "ResolveTransportEndpoints lp p2pAddr peerID =
     err_bind (Multiaddr lp p2pAddr peerID) (\<lambda>address.
       let host = first_value lp address [''ip4'', ''ip6'', ''dns4'', ''dns6'']
       in if host = [] then Inl (Errorf ''peer multiaddress has no host'' [])
          else Inr \<lparr>TCP = (case lp_value lp ''tcp'' address of Some port \<Rightarrow> JoinHostPort host port | None \<Rightarrow> []),
                    UDP = (case lp_value lp ''udp'' address of Some port \<Rightarrow> JoinHostPort host port | None \<Rightarrow> []),
                    QUIC = lp_value lp ''quic-v1'' address \<noteq> None\<rparr>)"

section \<open>Sessions\<close>

definition consensusDialTimeout :: int where "consensusDialTimeout = 10 * 10 ^ 9"

definition gossipMaxMessageSize :: int where "gossipMaxMessageSize = 10 * 1024 * 1024 + 64 * 1024"

datatype host_ev = NewHost | NewRouter int | Learn string "string list" | DialPeer string int | StopRouter | CloseHost

text \<open>\<open>cs_host\<close> says whether there is a host; its router lives as long as it.\<close>

record ('w, 'o, 'k) csession =
  cs_ctx :: "('w, 'o, 'k) go_ctx"
  cs_host :: bool
  cs_peer :: string
  cs_addrs :: "string list"

definition ctx_or_background :: "('w, 'o, 'k) go_ctx option \<Rightarrow> ('w, 'o, 'k) go_ctx" where
  "ctx_or_background ctx = (case ctx of None \<Rightarrow> Background | Some c \<Rightarrow> c)"

definition connect_host ::
    "'p libp2p \<Rightarrow> int \<Rightarrow> ('w, 'o, 'k) go_ctx \<Rightarrow> 'p \<Rightarrow> string \<Rightarrow> string list \<Rightarrow> (goerr + ('w, 'o, 'k) csession) \<times> host_ev list" where
  "connect_host lp timeout ctx identity peerID addrs =
     (case lp_host lp identity of
        Some e \<Rightarrow> (Inl (Wrapf ''new libp2p host: %w'' [] e), [])
      | None \<Rightarrow>
     (case lp_router lp of
        Some e \<Rightarrow> (Inl (Wrapf ''new gossipsub router: %w'' [] e), [NewHost, StopRouter, CloseHost])
      | None \<Rightarrow>
          let start = [NewHost, NewRouter gossipMaxMessageSize, Learn peerID addrs, DialPeer peerID timeout]
          in (case lp_connect lp timeout peerID addrs of
                Some e \<Rightarrow> (Inl (Wrapf ''connect consensus peer: %w'' [] e), start @ [StopRouter, CloseHost])
              | None \<Rightarrow> (Inr \<lparr>cs_ctx = ctx, cs_host = True, cs_peer = peerID, cs_addrs = addrs\<rparr>, start))))"

definition peer_address :: "'p libp2p \<Rightarrow> ('u, 'raw) beacon \<Rightarrow> string \<Rightarrow> string \<Rightarrow> goerr + string \<times> string list" where
  "peer_address lp bc beaconURL p2pAddr =
     err_bind (PeerID lp bc beaconURL p2pAddr) (\<lambda>peerID.
     err_bind (Multiaddr lp p2pAddr peerID) (\<lambda>addr.
     wrap_err ''parse peer multiaddr: %w'' [] (lp_info lp addr)))"

definition NewSessionWithIdentity ::
    "'p libp2p \<Rightarrow> ('u, 'raw) beacon \<Rightarrow> int \<Rightarrow> ('w, 'o, 'k) go_ctx option \<Rightarrow> string \<Rightarrow> string \<Rightarrow> 'p option \<Rightarrow>
     (goerr + ('w, 'o, 'k) csession) \<times> host_ev list" where
  "NewSessionWithIdentity lp bc now ctx beaconURL p2pAddr identity =
     (case identity of
        None \<Rightarrow> (Inl (Errorf ''consensus local identity is nil'' []), [])
      | Some identity \<Rightarrow>
          let ctx = ctx_or_background ctx; timeout = Remaining now (Some ctx) consensusDialTimeout
          in (case peer_address lp bc beaconURL p2pAddr of
                Inl e \<Rightarrow> (Inl e, [])
              | Inr (peerID, addrs) \<Rightarrow> connect_host lp timeout ctx identity peerID addrs))"

definition NewSession ::
    "('k, 'p) key_env \<Rightarrow> 'p libp2p \<Rightarrow> ('u, 'raw) beacon \<Rightarrow> int \<Rightarrow> ('w, 'o, 'k) go_ctx option \<Rightarrow> string \<Rightarrow> string \<Rightarrow>
     (goerr + ('w, 'o, 'k) csession) \<times> host_ev list" where
  "NewSession ke lp bc now ctx beaconURL p2pAddr =
     (case wrap_err ''load Raidan participant key: %w'' []
             (err_bind (ParticipantIdentity ctx) (\<lambda>participant. CLKey ke (Some participant))) of
        Inl e \<Rightarrow> (Inl e, [])
      | Inr identity \<Rightarrow> NewSessionWithIdentity lp bc now ctx beaconURL p2pAddr (Some identity))"

definition session_Close :: "'p libp2p \<Rightarrow> ('w, 'o, 'k) csession option \<Rightarrow> goerr option \<times> host_ev list" where
  "session_Close lp s =
     (case s of None \<Rightarrow> (None, [])
      | Some s \<Rightarrow> if \<not> cs_host s then (None, []) else (lp_close lp, [StopRouter, CloseHost]))"

text \<open>\<open>PubSub\<close> and \<open>Host\<close> hand out what the session has.\<close>

definition session_Host :: "('w, 'o, 'k) csession option \<Rightarrow> bool" where
  "session_Host s = (case s of None \<Rightarrow> False | Some s \<Rightarrow> cs_host s)"

section \<open>Raw streams\<close>

text \<open>
  The two errors are those of opening the stream and of setting its deadline. The session's own context stands in for a nil
  one; a session that was never dialled has no host.
\<close>

definition OpenStream ::
    "int \<Rightarrow> ('w, 'o, 'k) csession option \<Rightarrow> ('w, 'o, 'k) go_ctx option \<Rightarrow> string \<Rightarrow> int \<Rightarrow> goerr option \<Rightarrow> goerr option \<Rightarrow>
     goerr option \<times> ev list" where
  "OpenStream now s ctx proto timeout opened deadline =
     (if \<not> session_Host s then (Some (Errorf ''consensus session is nil'' []), [])
      else if proto = [] then (Some (Errorf ''protocol ID is empty'' []), [])
      else
        let ctx = (case ctx of None \<Rightarrow> map_option cs_ctx s | Some c \<Rightarrow> Some c);
            timeout = (if timeout \<le> 0 then 8 * 10 ^ 9 else timeout);
            timeout = Remaining now ctx timeout;
            start = pinExplicitAddrs (cs_addrs (the s)) @ [NewStream proto timeout]
        in (case opened of
              Some e \<Rightarrow> (Some (Wrapf ''open stream %s: %w'' [VStr proto] e), start)
            | None \<Rightarrow>
                (case deadline of
                   Some e \<Rightarrow> (Some (Wrapf ''set stream deadline: %w'' [] e), start @ [ResetStream])
                 | None \<Rightarrow> (None, start))))"

section \<open>Waiting between attempts\<close>

text \<open>\<open>ended d\<close> is the error of the context if it ends within \<open>d\<close>.\<close>

definition consensusRetrySleep :: "(int \<Rightarrow> goerr option) \<Rightarrow> nat \<Rightarrow> goerr option" where
  "consensusRetrySleep ended attempt = ended (retry_delay attempt)"

section \<open>No host is leaked\<close>

text \<open>What is alive after a run: the host and the context of its router. A context starts with the host.\<close>

fun alive :: "host_ev \<Rightarrow> int \<times> int \<Rightarrow> int \<times> int" where
  "alive NewHost (h, r) = (h + 1, r + 1)"
| "alive CloseHost (h, r) = (h - 1, r)"
| "alive StopRouter (h, r) = (h, r - 1)"
| "alive _ s = s"

definition left_alive :: "host_ev list \<Rightarrow> int \<times> int" where "left_alive tr = fold alive tr (0, 0)"

lemma connect_host_alive:
  "case connect_host lp timeout ctx identity peerID addrs of
     (Inl e, tr) \<Rightarrow> left_alive tr = (0, 0)
   | (Inr s, tr) \<Rightarrow> left_alive tr = (1, 1) \<and> s = \<lparr>cs_ctx = ctx, cs_host = True, cs_peer = peerID, cs_addrs = addrs\<rparr> \<and>
       tr = [NewHost, NewRouter gossipMaxMessageSize, Learn peerID addrs, DialPeer peerID timeout]"
  by (simp add: connect_host_def left_alive_def Let_def split: option.split)

lemma NewSessionWithIdentity_alive:
  "case NewSessionWithIdentity lp bc now ctx url p2p identity of
     (Inl e, tr) \<Rightarrow> left_alive tr = (0, 0)
   | (Inr s, tr) \<Rightarrow> left_alive tr = (1, 1) \<and> cs_host s \<and> cs_ctx s = ctx_or_background ctx \<and>
       peer_address lp bc url p2p = Inr (cs_peer s, cs_addrs s) \<and>
       (\<exists>timeout. tr = [NewHost, NewRouter gossipMaxMessageSize, Learn (cs_peer s) (cs_addrs s), DialPeer (cs_peer s) timeout])"
proof (cases identity)
  case None
  then show ?thesis by (simp add: NewSessionWithIdentity_def left_alive_def)
next
  case (Some key)
  show ?thesis
  proof (cases "peer_address lp bc url p2p")
    case (Inl e)
    then show ?thesis using Some by (simp add: NewSessionWithIdentity_def left_alive_def Let_def)
  next
    case (Inr pa)
    then obtain peerID addrs where "peer_address lp bc url p2p = Inr (peerID, addrs)" by (cases pa) auto
    then show ?thesis
      using Some connect_host_alive [where lp = lp and timeout = "Remaining now (Some (ctx_or_background ctx)) consensusDialTimeout"
        and ctx = "ctx_or_background ctx" and identity = key and peerID = peerID and addrs = addrs]
      by (auto simp: NewSessionWithIdentity_def Let_def split: prod.splits sum.splits)
  qed
qed

text \<open>
  C12: A consensus session never leaks its libp2p host. Whatever fails in \<open>NewSession\<close> (identity, beacon API, address, host,
  router, connection), no host and no router context is left alive; on success exactly one of each is, the host was connected to
  the peer ID of the resolved address, which is the peer of the session with its addresses pinned; and \<open>Close\<close> then releases both.
\<close>

theorem NewSession_leaks_no_host:
  "case NewSession ke lp bc now ctx beaconURL p2pAddr of
     (Inl e, tr) \<Rightarrow> left_alive tr = (0, 0)
   | (Inr s, tr) \<Rightarrow> left_alive tr = (1, 1) \<and> left_alive (tr @ snd (session_Close lp (Some s))) = (0, 0) \<and>
       fst (session_Close lp (Some s)) = lp_close lp \<and>
       peer_address lp bc beaconURL p2pAddr = Inr (cs_peer s, cs_addrs s) \<and>
       (\<exists>timeout. tr = [NewHost, NewRouter gossipMaxMessageSize, Learn (cs_peer s) (cs_addrs s), DialPeer (cs_peer s) timeout])"
proof -
  have "left_alive (tr @ [StopRouter, CloseHost]) = (0, 0)" if "left_alive tr = (1, 1)" for tr
    using that by (simp add: left_alive_def)
  then have *: "case NewSessionWithIdentity lp bc now ctx beaconURL p2pAddr (Some identity) of
     (Inl e, tr) \<Rightarrow> left_alive tr = (0, 0)
   | (Inr s, tr) \<Rightarrow> left_alive tr = (1, 1) \<and> left_alive (tr @ snd (session_Close lp (Some s))) = (0, 0) \<and>
       fst (session_Close lp (Some s)) = lp_close lp \<and>
       peer_address lp bc beaconURL p2pAddr = Inr (cs_peer s, cs_addrs s) \<and>
       (\<exists>timeout. tr = [NewHost, NewRouter gossipMaxMessageSize, Learn (cs_peer s) (cs_addrs s), DialPeer (cs_peer s) timeout])"
    for identity
    using NewSessionWithIdentity_alive [where lp = lp and bc = bc and now = now and ctx = ctx and url = beaconURL and p2p = p2pAddr
      and identity = "Some identity"]
    by (auto simp: session_Close_def split: prod.splits sum.splits)
  show ?thesis
  proof (cases "wrap_err ''load Raidan participant key: %w'' [] (err_bind (ParticipantIdentity ctx) (\<lambda>participant. CLKey ke (Some participant)))")
    case (Inl e)
    then show ?thesis by (simp add: NewSession_def left_alive_def)
  next
    case (Inr identity)
    then show ?thesis using * [of identity] by (simp add: NewSession_def)
  qed
qed

section \<open>A refused connection is tried again\<close>

lemma to_lower_ascii: "c \<noteq> CHR 0xE2 \<Longrightarrow> c \<noteq> CHR 0xC4 \<Longrightarrow> to_lower (c # s) = lower_char c # to_lower s"
  by (cases "c # s" rule: to_lower.cases) auto

lemma has_prefix_contains: "has_prefix p s \<Longrightarrow> contains p s"
  by (auto simp: has_prefix_iff contains_iff intro: exI [of _ "[]"])

lemma connect_refusal_retryable:
  "retryableConsensusConnectError (Some (Wrapf ''connect consensus peer: %w'' [] e))"
proof -
  have "err_text (Wrapf ''connect consensus peer: %w'' [] e) = ''connect consensus peer: '' @ err_text e" by simp
  moreover have "to_lower (''connect consensus peer: '' @ s) = ''connect consensus peer: '' @ to_lower s" for s
    by (simp add: to_lower_ascii lower_char_def)
  ultimately show ?thesis
    by (simp add: retryableConsensusConnectError_def Let_def has_prefix_contains has_prefix_def)
qed

text \<open>What \<open>Request\<close> uses of the outcome of \<open>NewSession\<close>.\<close>

definition session_outcome :: "(goerr + ('w, 'o, 'k) csession) \<times> host_ev list \<Rightarrow> goerr + string list" where
  "session_outcome r = (case fst r of Inl e \<Rightarrow> Inl e | Inr s \<Rightarrow> Inr (cs_addrs s))"

text \<open>The identity and the address are fine and the host starts, but the peer refuses the connection with \<open>e\<close>.\<close>

definition refuses ::
    "('k, 'p) key_env \<Rightarrow> 'p libp2p \<Rightarrow> ('u, 'raw) beacon \<Rightarrow> int \<Rightarrow> ('w, 'o, 'k) go_ctx option \<Rightarrow> string \<Rightarrow> string \<Rightarrow> goerr \<Rightarrow> bool" where
  "refuses ke lp bc now ctx beaconURL p2pAddr e \<longleftrightarrow>
     (case (err_bind (ParticipantIdentity ctx) (\<lambda>participant. CLKey ke (Some participant)), peer_address lp bc beaconURL p2pAddr) of
        (Inr key, Inr (peerID, addrs)) \<Rightarrow>
          lp_host lp key = None \<and> lp_router lp = None \<and>
          lp_connect lp (Remaining now (Some (ctx_or_background ctx)) consensusDialTimeout) peerID addrs = Some e
      | _ \<Rightarrow> False)"

lemma NewSession_refused:
  assumes "refuses ke lp bc now ctx beaconURL p2pAddr e"
  shows "\<exists>tr. NewSession ke lp bc now ctx beaconURL p2pAddr = (Inl (Wrapf ''connect consensus peer: %w'' [] e), tr) \<and> left_alive tr = (0, 0)"
proof -
  obtain key peerID addrs where ok: "err_bind (ParticipantIdentity ctx) (\<lambda>participant. CLKey ke (Some participant)) = Inr key"
      "peer_address lp bc beaconURL p2pAddr = Inr (peerID, addrs)" "lp_host lp key = None" "lp_router lp = None"
      "lp_connect lp (Remaining now (Some (ctx_or_background ctx)) consensusDialTimeout) peerID addrs = Some e"
    using assms by (auto simp: refuses_def split: sum.splits)
  then show ?thesis
    by (auto simp: NewSession_def NewSessionWithIdentity_def connect_host_def left_alive_def Let_def)
qed

lemma attempts_connect_refused:
  assumes "ae_session (env a) = Inl err" "retryableConsensusConnectError (Some err)" "ae_sleep (env a) = None" "a + 1 < 3"
  shows "attempts run nil env options a sent lastErr =
     (case attempts run nil env options (a + 1) sent (Some err) of (res, tr) \<Rightarrow> (res, [Connect, Sleep (retry_delay a)] @ tr))"
  using assms by (subst attempts.simps) (simp add: consensusRequestAttempts_def)

lemma attempts_last_refused:
  "ae_session (env 2) = Inl err \<Longrightarrow> attempts run nil env options 2 sent lastErr = (Inl err, [Connect])"
  by (subst attempts.simps) (simp add: consensusRequestAttempts_def)

text \<open>
  C15: A peer that refuses connections is tried three times. When each attempt of \<open>Request\<close> reaches the dial of \<open>NewSession\<close> and
  is refused there, with any errors, and the waits are not interrupted, then \<open>Request\<close> waits half a second and then one second
  between its attempts, sends nothing, returns the last refusal, and none of the three attempts leaves a host alive.
\<close>

theorem Request_retries_refused_connections:
  assumes "\<And>a. a < 3 \<Longrightarrow> refuses ke (lp a) bc (now a) ctx beaconURL p2pAddr (e a)"
    and "\<And>a. a < 3 \<Longrightarrow> ae_session (env a) = session_outcome (NewSession ke (lp a) bc (now a) ctx beaconURL p2pAddr)"
    and "\<And>a. a < 2 \<Longrightarrow> ae_sleep (env a) = None"
  shows "Request sn left env proto payload options =
      (Inl (Wrapf ''connect consensus peer: %w'' [] (e 2)), [Connect, Sleep (500 * 10 ^ 6), Connect, Sleep (10 ^ 9), Connect]) \<and>
    (\<forall>a \<in> {0, 1, 2}. left_alive (snd (NewSession ke (lp a) bc (now a) ctx beaconURL p2pAddr)) = (0, 0))"
proof -
  have s: "ae_session (env a) = Inl (Wrapf ''connect consensus peer: %w'' [] (e a)) \<and>
      left_alive (snd (NewSession ke (lp a) bc (now a) ctx beaconURL p2pAddr)) = (0, 0)" if "a < 3" for a
    using NewSession_refused [OF assms(1) [OF that]] assms(2) [OF that] by (auto simp: session_outcome_def)
  show ?thesis
    using s [of 0] s [of 1] s [of 2] assms(3) [of 0] assms(3) [of 1]
    by (simp add: Request_def attempts_connect_refused connect_refusal_retryable attempts_last_refused retry_delay_def numeral_2_eq_2 [symmetric])
qed

section \<open>Endpoints split back\<close>

lemma index_of_None [simp]: "index_of c s = None \<longleftrightarrow> c \<notin> set s"
  by (induction s) auto

lemma index_of_append: "c \<notin> set a \<Longrightarrow> index_of c (a @ c # b) = Some (length a)"
  by (induction a) auto

lemma last_index_append: "c \<notin> set b \<Longrightarrow> last_index c (a @ c # b) = Some (length a)"
  using index_of_append [of c "rev b" "rev a"] by (simp add: last_index_def)

text \<open>A host has no brackets; a port has neither brackets nor colons.\<close>

definition clean_host :: "string \<Rightarrow> bool" where
  "clean_host h \<longleftrightarrow> h \<noteq> [] \<and> CHR ''['' \<notin> set h \<and> CHR '']'' \<notin> set h"

definition clean_port :: "string \<Rightarrow> bool" where
  "clean_port p \<longleftrightarrow> CHR '':'' \<notin> set p \<and> CHR ''['' \<notin> set p \<and> CHR '']'' \<notin> set p"

lemma clean_host_hd: "clean_host h \<Longrightarrow> (h @ s) ! 0 \<noteq> CHR ''[''"
  by (cases h) (auto simp: clean_host_def)

lemma SplitHostPort_Join: "clean_host h \<Longrightarrow> clean_port p \<Longrightarrow> SplitHostPort (JoinHostPort h p) = Inr (h, p)"
proof (cases "CHR '':'' \<in> set h")
  case True
  assume c: "clean_host h" "clean_port p"
  have j: "JoinHostPort h p = (CHR ''['' # h @ [CHR '']'']) @ CHR '':'' # p" using True by (simp add: JoinHostPort_def)
  have l: "last_index CHR '':'' (JoinHostPort h p) = Some (length h + 2)"
    unfolding j using last_index_append [of "CHR '':''" p "CHR ''['' # h @ [CHR '']'']"] c by (simp add: clean_port_def)
  have "index_of CHR '']'' (CHR ''['' # h @ CHR '']'' # CHR '':'' # p) = Some (Suc (length h))"
    using index_of_append [of "CHR '']''" "CHR ''['' # h" "CHR '':'' # p"] c by (simp add: clean_host_def)
  then have "split_host (JoinHostPort h p) (length h + 2) = Inr (h, 1, length h + 2)"
    unfolding j by (simp add: split_host_def)
  moreover have "drop 1 (JoinHostPort h p) = h @ CHR '']'' # CHR '':'' # p" "drop (length h + 2) (JoinHostPort h p) = CHR '':'' # p"
    "drop (length h + 2 + 1) (JoinHostPort h p) = p" by (simp_all add: j)
  ultimately show ?thesis using c by (simp add: SplitHostPort_def l clean_host_def clean_port_def)
next
  case False
  assume c: "clean_host h" "clean_port p"
  have j: "JoinHostPort h p = h @ CHR '':'' # p" using False by (simp add: JoinHostPort_def)
  have l: "last_index CHR '':'' (JoinHostPort h p) = Some (length h)"
    unfolding j using last_index_append [of "CHR '':''" p h] c by (simp add: clean_port_def)
  have "split_host (JoinHostPort h p) (length h) = Inr (h, 0, 0)"
    using clean_host_hd [OF c(1), of "CHR '':'' # p"] False by (simp add: split_host_def j)
  then show ?thesis using c l by (simp add: SplitHostPort_def j clean_host_def clean_port_def)
qed

definition host_of :: "'p libp2p \<Rightarrow> string \<Rightarrow> string" where
  "host_of lp address = first_value lp address [''ip4'', ''ip6'', ''dns4'', ''dns6'']"

text \<open>
  The socket endpoints of \<open>ResolveTransportEndpoints\<close> mean what the multiaddress says, also for IPv6: each non-empty one
  splits back into the host and the port of the address, it is present exactly when the address has the transport, and giving
  the TCP endpoint to the host-and-port case of \<open>Multiaddr\<close> builds an address with that host and port and the given peer ID. The values of a
  multiaddress are taken to have no brackets, and its ports no colons.
\<close>

theorem endpoints_round_trip:
  assumes "ResolveTransportEndpoints lp p2pAddr peerID = Inr ep" "Multiaddr lp p2pAddr peerID = Inr address"
    and "clean_host (host_of lp address)" "\<And>code port. code = ''tcp'' \<or> code = ''udp'' \<Longrightarrow> lp_value lp code address = Some port \<Longrightarrow> clean_port port"
  shows "(case lp_value lp ''tcp'' address of
            None \<Rightarrow> TCP ep = []
          | Some port \<Rightarrow> SplitHostPort (TCP ep) = Inr (host_of lp address, port) \<and>
              host_port_address lp (TCP ep) peerID = lp_multiaddr lp (transport_text
                (case lp_parse_ip lp (host_of lp address) of None \<Rightarrow> ''dns4'' | Some ip \<Rightarrow> ip_protocol ip) (host_of lp address) port peerID)) \<and>
         (case lp_value lp ''udp'' address of
            None \<Rightarrow> UDP ep = []
          | Some port \<Rightarrow> SplitHostPort (UDP ep) = Inr (host_of lp address, port)) \<and>
         (QUIC ep \<longleftrightarrow> lp_value lp ''quic-v1'' address \<noteq> None)"
proof -
  have "SplitHostPort (JoinHostPort (host_of lp address) port) = Inr (host_of lp address, port)"
    if "lp_value lp code address = Some port" "code = ''tcp'' \<or> code = ''udp''" for code port
    using SplitHostPort_Join [OF assms(3) assms(4) [OF that(2,1)]] .
  then show ?thesis using assms(1,2)
    by (auto simp: ResolveTransportEndpoints_def host_of_def host_port_address_def Let_def split: option.splits if_splits)
qed

section \<open>Concrete instances\<close>

definition demo_lp :: "unit libp2p" where
  "demo_lp = \<lparr>lp_multiaddr = Inr, lp_info = (\<lambda>a. Inr (''Qm'', [a])), lp_decode = Inr, lp_node = (\<lambda>s. Inl EOF),
     lp_ip_text = (\<lambda>b. ''::1''), lp_parse_ip = (\<lambda>s. Some (replicate 15 0 @ [1])),
     lp_value = (\<lambda>code a. if code = ''ip6'' then Some ''::1'' else if code = ''tcp'' then Some ''9000'' else None),
     lp_peer_id = (\<lambda>b. Inl EOF), lp_host = (\<lambda>k. None), lp_router = None, lp_connect = (\<lambda>t p a. Some DeadlineExceeded),
     lp_close = None\<rparr>"

lemma endpoints_round_trip_witness:
  "ResolveTransportEndpoints demo_lp ''/ip6/::1/tcp/9000'' ''Qm'' = Inr \<lparr>TCP = ''[::1]:9000'', UDP = [], QUIC = False\<rparr> \<and>
   SplitHostPort ''[::1]:9000'' = Inr (''::1'', ''9000'')"
proof -
  have m: "Multiaddr demo_lp ''/ip6/::1/tcp/9000'' ''Qm'' = Inr ''/ip6/::1/tcp/9000/p2p/Qm''" by code_simp
  have h: "host_of demo_lp a = ''::1''" for a by (simp add: host_of_def first_value_def demo_lp_def)
  have r: "ResolveTransportEndpoints demo_lp ''/ip6/::1/tcp/9000'' ''Qm'' = Inr \<lparr>TCP = ''[::1]:9000'', UDP = [], QUIC = False\<rparr>"
    by code_simp
  have c: "clean_host (host_of demo_lp ''/ip6/::1/tcp/9000/p2p/Qm'')" by (simp add: h clean_host_def)
  have p: "clean_port port" if "code = ''tcp'' \<or> code = ''udp''" "lp_value demo_lp code ''/ip6/::1/tcp/9000/p2p/Qm'' = Some port" for code port
    using that by (auto simp: demo_lp_def clean_port_def)
  have v: "lp_value demo_lp ''tcp'' ''/ip6/::1/tcp/9000/p2p/Qm'' = Some ''9000''" by (simp add: demo_lp_def)
  show ?thesis using endpoints_round_trip [OF r m c p] r v by (simp add: h)
qed

definition demo_keys :: "(unit, unit) key_env" where
  "demo_keys = \<lparr>ke_generate = Inr (), ke_copy = Inr, ke_key = (\<lambda>b. Inr ()), ke_pub = (\<lambda>k. [4, 7]), ke_keccak = (\<lambda>b. b),
     ke_sha256 = (\<lambda>b. b), ke_cl = Inr, ke_peer = (\<lambda>k. Inr ''Qm'')\<rparr>"

definition demo_ctx :: "(unit, unit, unit) go_ctx" where
  "demo_ctx = With None (empty_scope\<lparr>Identities := [Some \<lparr>id_key = Some ()\<rparr>]\<rparr>)"

definition demo_attempt :: attempt_env where
  "demo_attempt = \<lparr>ae_session = session_outcome (NewSession demo_keys demo_lp demo_beacon 0 (Some demo_ctx) ''b'' ''/ip4/p2p/Qm''),
     ae_warmup = None, ae_before = None, ae_stream = demo_stream [], ae_sleep = None\<rparr>"

lemma Request_retries_refused_connections_witness:
  "Request plain_snappy (\<lambda>t. t) (\<lambda>a. demo_attempt) ''/ping/1/'' [] demo_options =
     (Inl (Wrapf ''connect consensus peer: %w'' [] DeadlineExceeded), [Connect, Sleep (500 * 10 ^ 6), Connect, Sleep (10 ^ 9), Connect]) \<and>
   left_alive (snd (NewSession demo_keys demo_lp demo_beacon 0 (Some demo_ctx) ''b'' ''/ip4/p2p/Qm'')) = (0, 0)"
proof -
  have a: "peer_address demo_lp demo_beacon ''b'' ''/ip4/p2p/Qm'' = Inr (''Qm'', [''/ip4/p2p/Qm''])" by code_simp
  have k: "err_bind (ParticipantIdentity (Some demo_ctx)) (\<lambda>participant. CLKey demo_keys (Some participant)) = Inr ()" by code_simp
  have r: "refuses demo_keys demo_lp demo_beacon 0 (Some demo_ctx) ''b'' ''/ip4/p2p/Qm'' DeadlineExceeded"
    unfolding refuses_def a k by (simp add: demo_lp_def)
  have "Request plain_snappy (\<lambda>t. t) (\<lambda>a. demo_attempt) ''/ping/1/'' [] demo_options =
     (Inl (Wrapf ''connect consensus peer: %w'' [] DeadlineExceeded), [Connect, Sleep (500 * 10 ^ 6), Connect, Sleep (10 ^ 9), Connect]) \<and>
   (\<forall>a \<in> {0, 1, 2 :: nat}. left_alive (snd (NewSession demo_keys demo_lp demo_beacon 0 (Some demo_ctx) ''b'' ''/ip4/p2p/Qm'')) = (0, 0))"
    by (rule Request_retries_refused_connections [where lp = "\<lambda>a. demo_lp" and now = "\<lambda>a. 0" and e = "\<lambda>a. DeadlineExceeded"])
      (simp_all add: r, simp_all add: demo_attempt_def)
  then show ?thesis by blast
qed

end
