(* ===== verification/Sdk_Run.thy ===== *)
theory Sdk_Run
  imports Session
begin

text \<open>
  The root package: \<open>Run\<close> (run.go) with the verdicts of package result (result.go) and the test
  signature of package target (test.go). A test is a function that returns a result or panics.
\<close>

section \<open>Verdicts\<close>

datatype verdict = VerdictAccept | VerdictDisconnect | VerdictTimeout | VerdictInvalid | VerdictError

record result =
  Verdict :: verdict
  Detail :: string

definition Accept :: "string \<Rightarrow> result" where "Accept d = \<lparr>Verdict = VerdictAccept, Detail = d\<rparr>"
definition Disconnect :: "string \<Rightarrow> result" where
  "Disconnect d = \<lparr>Verdict = VerdictDisconnect, Detail = d\<rparr>"
definition Timeout :: "string \<Rightarrow> result" where "Timeout d = \<lparr>Verdict = VerdictTimeout, Detail = d\<rparr>"
definition Invalid :: "string \<Rightarrow> result" where "Invalid d = \<lparr>Verdict = VerdictInvalid, Detail = d\<rparr>"
definition Error :: "string \<Rightarrow> result" where "Error d = \<lparr>Verdict = VerdictError, Detail = d\<rparr>"

fun verdict_text :: "verdict \<Rightarrow> string" where
  "verdict_text VerdictAccept = ''ACCEPT''"
| "verdict_text VerdictDisconnect = ''DISCONNECT''"
| "verdict_text VerdictTimeout = ''TIMEOUT''"
| "verdict_text VerdictInvalid = ''INVALID''"
| "verdict_text VerdictError = ''ERROR''"

text \<open>The line \<open>Print\<close> writes; the dash between verdict and detail is U+2014 in UTF-8.\<close>

definition em_dash :: string where "em_dash = [CHR 0xE2, CHR 0x80, CHR 0x94]"

definition Print :: "result \<Rightarrow> string" where
  "Print outcome =
     (let color = (case Verdict outcome of
                     VerdictAccept \<Rightarrow> esc ''0;32''
                   | VerdictDisconnect \<Rightarrow> esc ''0;31''
                   | _ \<Rightarrow> esc ''0;33'')
      in if Detail outcome = ''''
         then color @ verdict_text (Verdict outcome) @ esc ''0'' @ [CHR 0x0A]
         else color @ verdict_text (Verdict outcome) @ esc ''0'' @ '' '' @ em_dash @ '' ''
              @ Detail outcome @ [CHR 0x0A])"

section \<open>Running a test\<close>

datatype 'r outcome = Returns 'r | Panics string

record target =
  ExecutionURL :: string
  ExecutionP2P :: string
  ExecutionDNS :: string
  ConsensusURL :: string
  ConsensusP2P :: string
  TClient :: string

type_synonym ('w, 'o, 'k) test = "('w, 'o, 'k) go_ctx \<Rightarrow> target \<Rightarrow> result outcome"

text \<open>The context \<open>Run\<close> hands to the test: the client label falls back to the target's.\<close>

definition run_ctx ::
    "('w, 'o, 'k) go_ctx option \<Rightarrow> target \<Rightarrow> ('w, 'o, 'k) scope \<Rightarrow> ('w, 'o, 'k) go_ctx" where
  "run_ctx ctx t scope =
     (let c = (case ctx of None \<Rightarrow> Background | Some c \<Rightarrow> c);
          s = (if Client scope = '''' \<and> ClientOf (Some c) = ''''
               then scope\<lparr>Client := TClient t\<rparr> else scope)
      in With (Some c) s)"

text \<open>
  \<open>err_text\<close> is the error's text and \<open>stack\<close> the trace \<open>debug.Stack\<close> returns; only the detail of an
  ERROR result depends on them.
\<close>

definition Run ::
    "(goerr \<Rightarrow> string) \<Rightarrow> string \<Rightarrow> ('w, 'o, 'k) go_ctx option \<Rightarrow> ('w, 'o, 'k) test option
       \<Rightarrow> target \<Rightarrow> ('w, 'o, 'k) scope \<Rightarrow> result" where
  "Run err_text stack ctx test t scope =
     (case test of
        None \<Rightarrow> Error ''portable case function is nil''
      | Some run \<Rightarrow>
          (let c = run_ctx ctx t scope
           in case ParticipantIdentity (Some c) of
                Inl e \<Rightarrow> Error (err_text e)
              | Inr p \<Rightarrow>
                  (case run c t of
                     Returns r \<Rightarrow> r
                   | Panics v \<Rightarrow> Error (''portable case panicked: '' @ v @ [CHR 0x0A] @ stack))))"

lemma run_ctx_fields [simp]:
  "cdeadline (run_ctx (Some ctx) t scope) = cdeadline ctx"
  "ClientOf (Some (run_ctx (Some ctx) t scope)) =
     (if Client scope \<noteq> '''' then Client scope
      else if ClientOf (Some ctx) \<noteq> '''' then ClientOf (Some ctx) else TClient t)"
  "Identities (scopeFrom (Some (run_ctx (Some ctx) t scope))) =
     (if Identities scope = [] then Identities (scopeFrom (Some ctx)) else Identities scope)"
  by (simp_all add: run_ctx_def Let_def ClientOf_def)

lemma ParticipantIdentity_Inr:
  "ParticipantIdentity ctx = Inr p \<longleftrightarrow> (\<exists>ps. Identities (scopeFrom ctx) = Some p # ps)"
  by (cases "Identities (scopeFrom ctx)") (auto simp: ParticipantIdentity_def ParticipantIdentityAt_Inr)

text \<open>
  the test runs, once, under a context that carries the caller's scope and deadline, with the
  client label taken from the scope, else from the surrounding context, else from the target; it runs
  only when the first identity is configured; a returned result is passed on unchanged, a panic and
  every refusal become ERROR results.
\<close>

theorem Run_contract:
  "cdeadline (run_ctx (Some ctx) t scope) = cdeadline ctx \<and>
   ClientOf (Some (run_ctx (Some ctx) t scope)) =
     (if Client scope \<noteq> '''' then Client scope
      else if ClientOf (Some ctx) \<noteq> '''' then ClientOf (Some ctx) else TClient t) \<and>
   Run et st (Some ctx) (Some run) t scope =
     (case (if Identities scope = [] then Identities (scopeFrom (Some ctx)) else Identities scope) of
        Some p # ps \<Rightarrow>
          (case run (run_ctx (Some ctx) t scope) t of
             Returns r \<Rightarrow> r
           | Panics v \<Rightarrow> Error (''portable case panicked: '' @ v @ [CHR 0x0A] @ st))
      | ids \<Rightarrow> Error (et (Errorf ''participant identity is not configured'' []))) \<and>
   Run et st (Some ctx) None t scope = Error ''portable case function is nil''"
proof -
  let ?ids = "if Identities scope = [] then Identities (scopeFrom (Some ctx)) else Identities scope"
  have "ParticipantIdentity (Some (run_ctx (Some ctx) t scope)) =
      (case ?ids of Some p # ps \<Rightarrow> Inr p
       | ids \<Rightarrow> Inl (Errorf ''participant identity is not configured'' []))"
    by (simp add: ParticipantIdentity_def ParticipantIdentityAt_def Let_def
        split: list.split option.split)
  then show ?thesis
    by (simp add: Run_def Let_def split: list.split option.split)
qed

section \<open>Progress lines\<close>

text \<open>The writer and the gray line; the format is already applied.\<close>

definition Progress :: "'w \<Rightarrow> ('w, 'o, 'k) go_ctx option \<Rightarrow> string \<Rightarrow> 'w \<times> string" where
  "Progress stdout ctx text = (OutputOf stdout ctx, esc ''0;90'' @ text @ esc ''0'' @ [CHR 0x0A])"

end
