(* ===== verification/Mplex_Dial.thy ===== *)
theory Mplex_Dial
  imports Mplex Consensus_Session Sdk_Run
begin

text \<open>
  Package mplex, mplex.go: \<open>Dial\<close> and \<open>DialWithIdentity\<close>, from the resolved address over TCP, Noise and the negotiation of the
  multiplexer to a connection of theory Mplex. Sockets, Noise and multistream are the parameter \<open>mplex_env\<close>. A dial that
  would panic is \<open>None\<close>; it comes with the calls it made, in order.
\<close>

section \<open>The dial\<close>

text \<open>\<open>mx_netaddr\<close> turns a TCP multiaddress into an address to dial; the others return the error of the named call.\<close>

record 'p mplex_env =
  mx_netaddr :: "string \<Rightarrow> goerr + string"
  mx_dial :: "int \<Rightarrow> string \<Rightarrow> goerr option"
  mx_noiseID :: string
  mx_select :: "string \<Rightarrow> goerr option"
  mx_noise :: "'p \<Rightarrow> goerr option"
  mx_secure :: "string \<Rightarrow> goerr option"

datatype dial_ev =
    DialTCP string int | RawDeadline int | Negotiate string | Secure string | ClearDeadline | CloseRaw | CloseSecured

definition dialTimeout :: int where "dialTimeout = 10 * 10 ^ 9"

fun tcp_dest :: "'p mplex_env \<Rightarrow> 'p libp2p \<Rightarrow> string list \<Rightarrow> goerr + string option" where
  "tcp_dest env lp [] = Inr None"
| "tcp_dest env lp (a # as) =
     (if lp_value lp ''tcp'' a = None then tcp_dest env lp as
      else (case mx_netaddr env a of Inl e \<Rightarrow> Inl e | Inr d \<Rightarrow> Inr (Some d)))"

definition mplex_address ::
    "'p mplex_env \<Rightarrow> 'p libp2p \<Rightarrow> ('u, 'raw) beacon \<Rightarrow> target \<Rightarrow> goerr + string \<times> string" where
  "mplex_address env lp bc t =
     err_bind (PeerID lp bc (ConsensusURL t) (ConsensusP2P t)) (\<lambda>peerID.
     err_bind (Multiaddr lp (ConsensusP2P t) peerID) (\<lambda>addr.
     err_bind (wrap_err ''parse peer multiaddr: %w'' [] (lp_info lp addr)) (\<lambda>(_, addrs).
     err_bind (tcp_dest env lp addrs) (\<lambda>dest.
       case dest of None \<Rightarrow> Inl (Errorf ''the peer has no TCP address'' []) | Some d \<Rightarrow> Inr (peerID, d)))))"

text \<open>On a connected socket; \<open>deadline\<close> is that of the dialling context.\<close>

definition mplex_handshake ::
    "'p mplex_env \<Rightarrow> int \<Rightarrow> string \<Rightarrow> 'p \<Rightarrow> u64 \<Rightarrow> (goerr + mconn) \<times> dial_ev list" where
  "mplex_handshake env deadline peerID key maxSend =
     (case mx_select env (mx_noiseID env) of
        Some e \<Rightarrow> (Inl (Wrapf ''multistream-select %s: %w'' [VStr (mx_noiseID env)] e),
                    [RawDeadline deadline, Negotiate (mx_noiseID env), CloseRaw])
      | None \<Rightarrow>
     (case mx_noise env key of
        Some e \<Rightarrow> (Inl (Wrapf ''noise: %w'' [] e), [RawDeadline deadline, Negotiate (mx_noiseID env), CloseRaw])
      | None \<Rightarrow>
     (case mx_secure env peerID of
        Some e \<Rightarrow> (Inl (Wrapf ''noise handshake: %w'' [] e),
                    [RawDeadline deadline, Negotiate (mx_noiseID env), Secure peerID, CloseRaw])
      | None \<Rightarrow>
     (case mx_select env ProtocolID of
        Some e \<Rightarrow> (Inl (Wrapf ''the peer did not accept %s: %w'' [VStr ProtocolID] e),
                    [RawDeadline deadline, Negotiate (mx_noiseID env), Secure peerID, Negotiate ProtocolID, CloseSecured])
      | None \<Rightarrow> (Inr (dial_conn maxSend),
                  [RawDeadline deadline, Negotiate (mx_noiseID env), Secure peerID, Negotiate ProtocolID, ClearDeadline])))))"

text \<open>A nil context only fails when the timeout is put on it, after the peer was resolved.\<close>

definition DialWithIdentity ::
    "'p mplex_env \<Rightarrow> 'p libp2p \<Rightarrow> ('u, 'raw) beacon \<Rightarrow> int \<Rightarrow> ('w, 'o, 'k) go_ctx option \<Rightarrow> target \<Rightarrow> 'p option \<Rightarrow> u64 \<Rightarrow>
     ((goerr + mconn) \<times> dial_ev list) option" where
  "DialWithIdentity env lp bc now ctx t key maxSend =
     (case key of
        None \<Rightarrow> Some (Inl (Errorf ''mplex local identity is nil'' []), [])
      | Some key \<Rightarrow>
     (case mplex_address env lp bc t of
        Inl e \<Rightarrow> Some (Inl e, [])
      | Inr (peerID, dest) \<Rightarrow>
     (case ctx of
        None \<Rightarrow> None
      | Some c \<Rightarrow>
          let timeout = Remaining now ctx dialTimeout
          in (case mx_dial env timeout dest of
                Some e \<Rightarrow> Some (Inl (Wrapf ''dial peer: %w'' [] e), [])
              | None \<Rightarrow>
                  (case mplex_handshake env (now + timeout) peerID key maxSend of
                     (r, tr) \<Rightarrow> Some (r, DialTCP dest timeout # tr))))))"

definition mplex_Dial ::
    "('k, 'p) key_env \<Rightarrow> 'p mplex_env \<Rightarrow> 'p libp2p \<Rightarrow> ('u, 'raw) beacon \<Rightarrow> int \<Rightarrow> ('w, 'o, 'k) go_ctx option \<Rightarrow> target \<Rightarrow> u64 \<Rightarrow>
     ((goerr + mconn) \<times> dial_ev list) option" where
  "mplex_Dial ke env lp bc now ctx t maxSend =
     (case wrap_err ''load Raidan participant key: %w'' []
             (err_bind (ParticipantIdentity ctx) (\<lambda>participant. CLKey ke (Some participant))) of
        Inl e \<Rightarrow> Some (Inl e, [])
      | Inr key \<Rightarrow> DialWithIdentity env lp bc now ctx t (Some key) maxSend)"

section \<open>Sockets\<close>

text \<open>Closing the secured connection closes the socket below it; a deadline is in force from its setting to its clearing.\<close>

fun sock :: "dial_ev \<Rightarrow> int \<times> int option \<Rightarrow> int \<times> int option" where
  "sock (DialTCP a t) (n, d) = (n + 1, d)"
| "sock (RawDeadline d) (n, _) = (n, Some d)"
| "sock ClearDeadline (n, _) = (n, None)"
| "sock CloseRaw (n, d) = (n - 1, d)"
| "sock CloseSecured (n, d) = (n - 1, d)"
| "sock _ s = s"

definition sockets :: "dial_ev list \<Rightarrow> int \<times> int option" where "sockets tr = fold sock tr (0, None)"

lemma mplex_handshake_sockets:
  "case mplex_handshake env deadline peerID key maxSend of
     (Inl e, tr) \<Rightarrow> fst (sockets (DialTCP a t # tr)) = 0
   | (Inr c, tr) \<Rightarrow> c = dial_conn maxSend \<and> sockets (DialTCP a t # tr) = (1, None) \<and> Secure peerID \<in> set tr \<and>
       Negotiate ProtocolID \<in> set tr"
  by (simp add: mplex_handshake_def sockets_def split: option.split)

lemma DialWithIdentity_sockets:
  "case DialWithIdentity env lp bc now ctx t key maxSend of
     None \<Rightarrow> ctx = None
   | Some (Inl e, tr) \<Rightarrow> fst (sockets tr) = 0
   | Some (Inr c, tr) \<Rightarrow> c = dial_conn maxSend \<and> sockets tr = (1, None) \<and> Negotiate ProtocolID \<in> set tr \<and>
       (\<exists>peerID. PeerID lp bc (ConsensusURL t) (ConsensusP2P t) = Inr peerID \<and> Secure peerID \<in> set tr)"
proof (cases "\<exists>k p d c. key = Some k \<and> mplex_address env lp bc t = Inr (p, d) \<and> ctx = Some c \<and>
    mx_dial env (Remaining now ctx dialTimeout) d = None")
  case True
  then obtain k p d c where ok: "key = Some k" "mplex_address env lp bc t = Inr (p, d)" "ctx = Some c"
    "mx_dial env (Remaining now ctx dialTimeout) d = None" by blast
  have "PeerID lp bc (ConsensusURL t) (ConsensusP2P t) = Inr p"
    using ok(2) by (auto simp: mplex_address_def err_bind_Inr_iff split: option.splits)
  then show ?thesis
    using ok mplex_handshake_sockets [where env = env and deadline = "now + Remaining now ctx dialTimeout" and peerID = p and key = k
        and maxSend = maxSend and a = d and t = "Remaining now ctx dialTimeout"]
    by (auto simp: DialWithIdentity_def Let_def split: prod.splits sum.splits)
next
  case False
  then show ?thesis
    by (auto simp: DialWithIdentity_def Let_def sockets_def split: option.splits sum.splits prod.splits)
qed

lemma ParticipantIdentity_nil: "ParticipantIdentity None = Inl (Errorf ''participant identity is not configured'' [])"
  by (simp add: ParticipantIdentity_def ParticipantIdentityAt_def scopeFrom_def empty_scope_def)

text \<open>
  C16: \<open>Dial\<close> never panics and leaks no socket. A failed dial leaves no socket open and closed none twice; a successful one
  leaves one open without a deadline, on which Noise authenticated the peer ID that the target resolves to and the multiplexer
  was negotiated, and returns a connection that has sent nothing under the cap: \<open>maxSend\<close>, or 64 MiB if that is zero or more.
\<close>

theorem mplex_Dial_leaks_no_socket:
  "case mplex_Dial ke env lp bc now ctx t maxSend of
     None \<Rightarrow> False
   | Some (Inl e, tr) \<Rightarrow> fst (sockets tr) = 0
   | Some (Inr c, tr) \<Rightarrow> sockets tr = (1, None) \<and> Negotiate ProtocolID \<in> set tr \<and>
       (\<exists>peerID. PeerID lp bc (ConsensusURL t) (ConsensusP2P t) = Inr peerID \<and> Secure peerID \<in> set tr) \<and>
       sent c = 0 \<and> buf c = [] \<and> limit c = (if maxSend = 0 \<or> MaxSend < maxSend then MaxSend else maxSend)"
proof (cases "err_bind (ParticipantIdentity ctx) (\<lambda>participant. CLKey ke (Some participant))")
  case (Inl e)
  then show ?thesis by (simp add: mplex_Dial_def sockets_def)
next
  case (Inr key)
  have "ctx \<noteq> None"
  proof
    assume "ctx = None"
    then show False using Inr by (simp add: ParticipantIdentity_nil)
  qed
  then show ?thesis
    using Inr DialWithIdentity_sockets [where env = env and lp = lp and bc = bc and now = now and ctx = ctx and t = t
        and key = "Some key" and maxSend = maxSend]
    by (auto simp: mplex_Dial_def dial_conn_def Let_def split: option.splits prod.splits sum.splits)
qed

text \<open>An explicit identity with a nil context panics once the peer is resolved, where the other dials take the background context.\<close>

lemma DialWithIdentity_nil_context:
  "mplex_address env lp bc t = Inr p \<Longrightarrow>
     DialWithIdentity env lp bc now (None :: ('w, 'o, 'k) go_ctx option) t (Some key) maxSend = None"
  by (cases p) (simp add: DialWithIdentity_def)

definition demo_mplex :: "unit mplex_env" where
  "demo_mplex = \<lparr>mx_netaddr = Inr, mx_dial = (\<lambda>t d. None), mx_noiseID = ''/noise'', mx_select = (\<lambda>s. None), mx_noise = (\<lambda>k. None),
     mx_secure = (\<lambda>p. None)\<rparr>"

lemma mplex_Dial_connects:
  "mplex_Dial demo_keys demo_mplex demo_lp demo_beacon 0 (Some demo_ctx)
     \<lparr>ExecutionURL = '''', ExecutionP2P = '''', ExecutionDNS = '''', ConsensusURL = '''', ConsensusP2P = ''/ip4/p2p/Qm'', TClient = ''''\<rparr> 5 =
   Some (Inr (dial_conn 5), [DialTCP ''/ip4/p2p/Qm'' (10 * 10 ^ 9), RawDeadline (10 * 10 ^ 9), Negotiate ''/noise'', Secure ''Qm'',
     Negotiate ProtocolID, ClearDeadline])"
  by code_simp

section \<open>Accessors\<close>

text \<open>The peer's flags, of which the model only sends its own side; \<open>Shut\<close> closes the socket.\<close>

definition FlagDataReceiver :: u64 where "FlagDataReceiver = 1"
definition FlagCloseReceiver :: u64 where "FlagCloseReceiver = 3"
definition FlagResetReceiver :: u64 where "FlagResetReceiver = 5"

definition mplex_Sent :: "mconn \<Rightarrow> u64" where "mplex_Sent c = sent c"
definition mplex_Received :: "mconn \<Rightarrow> u64" where "mplex_Received c = received c"
definition mplex_Shut :: "goerr option \<Rightarrow> goerr option \<times> dial_ev list" where "mplex_Shut closed = (closed, [CloseSecured])"

definition mplex_Negotiated :: "mconn \<Rightarrow> string" where "mplex_Negotiated c = ProtocolID"

end
