(* ===== verification/Rlp_Encode.thy ===== *)
theory Rlp_Encode
  imports Codec
begin

text \<open>
  The RLP encoders of wire.go, next to the RLP grammar they have to meet. The grammar is the one of the
  Ethereum specification: \<open>rlp_split\<close> takes one canonical item off the front of the input and rejects
  every other spelling of it. The encoders are shown to be its inverse, so that a caller who nests
  \<open>EncodeRLPBytes\<close> and \<open>EncodeRLPList\<close> gets an encoding that decodes to one value only.
\<close>

section \<open>The encoders\<close>

text \<open>\<open>skip_zeros first bs\<close> is the loop of \<open>minimalBigEndian\<close>: at most \<open>first\<close> leading zeros are skipped.\<close>

fun skip_zeros :: "nat \<Rightarrow> bytes \<Rightarrow> bytes" where
  "skip_zeros (Suc n) (b # bs) = (if b = 0 then skip_zeros n bs else b # bs)"
| "skip_zeros n bs = bs"

definition minimalBigEndian :: "u64 \<Rightarrow> bytes" where
  "minimalBigEndian value = (let buffer = be_bytes 8 value in skip_zeros (length buffer - 1) buffer)"

definition EncodeRLPBytes :: "bytes \<Rightarrow> bytes" where
  "EncodeRLPBytes payload =
     (if length payload = 1 \<and> payload ! 0 < 0x80 then payload
      else if length payload \<le> 55 then (0x80 + of_nat (length payload)) # payload
      else (let len = minimalBigEndian (of_nat (length payload))
            in (0xb7 + of_nat (length len)) # len @ payload))"

definition EncodeRLPList :: "bytes list \<Rightarrow> bytes" where
  "EncodeRLPList items =
     (let payloadSize = sum_list (map length items);
          header = (if payloadSize \<le> 55 then [0xc0 + of_nat payloadSize]
                    else (let len = minimalBigEndian (of_nat payloadSize)
                          in (0xf7 + of_nat (length len)) # len))
      in header @ concat items)"

section \<open>Minimal big-endian integers\<close>

lemma le_val_snoc_zero [simp]: "le_val (bs @ [0]) = le_val bs"
  by (induction bs) simp_all

lemma be_val_Cons_zero [simp]: "be_val (0 # bs) = be_val bs"
  by (simp add: be_val_def)

lemma be_val_skip_zeros: "be_val (skip_zeros n bs) = be_val bs"
  by (induction n bs rule: skip_zeros.induct) simp_all

lemma length_skip_zeros: "length (skip_zeros n bs) \<le> length bs \<and> (bs \<noteq> [] \<longrightarrow> length bs \<le> n + length (skip_zeros n bs))"
  by (induction n bs rule: skip_zeros.induct) auto

lemma hd_skip_zeros:
  "length bs = Suc n \<Longrightarrow> hd (skip_zeros n bs) = 0 \<Longrightarrow> be_val bs = (0 :: u64)"
proof (induction n arbitrary: bs)
  case 0
  then show ?case by (cases bs) (simp_all add: be_val_def)
next
  case (Suc n)
  then show ?case by (cases bs) (auto split: if_splits)
qed

lemma be_val_minimalBigEndian [simp, codec_simps]: "be_val (minimalBigEndian v) = v"
  by (simp add: minimalBigEndian_def be_val_skip_zeros)

lemma minimalBigEndian_length: "length (minimalBigEndian v) \<le> 8" "0 < length (minimalBigEndian v)"
proof -
  have "length (be_bytes 8 v) = 8" "be_bytes 8 v \<noteq> []" by (simp, metis length_be_bytes list.size(3) zero_neq_numeral)
  then show "length (minimalBigEndian v) \<le> 8" "0 < length (minimalBigEndian v)"
    using length_skip_zeros [of 7 "be_bytes 8 v"] by (simp_all add: minimalBigEndian_def Let_def del: length_greater_0_conv)
qed

lemma minimalBigEndian_hd: "v \<noteq> 0 \<Longrightarrow> hd (minimalBigEndian v) \<noteq> 0"
  using hd_skip_zeros [of "be_bytes 8 v" 7] by (auto simp: minimalBigEndian_def Let_def)

lemma minimalBigEndian_not_Nil [simp]: "minimalBigEndian v \<noteq> []"
  using minimalBigEndian_length(2) [of v] by auto

section \<open>The grammar\<close>

datatype kind = KString | KList

definition long_payload :: "nat \<Rightarrow> bytes \<Rightarrow> (bytes \<times> bytes) option" where
  "long_payload k r =
     (if length r < k \<or> hd r = 0 then None
      else (let n = unat (be_val (take k r) :: u64); body = drop k r
            in if n \<le> 55 \<or> length body < n then None else Some (take n body, drop n body)))"

definition short_payload :: "nat \<Rightarrow> bytes \<Rightarrow> (bytes \<times> bytes) option" where
  "short_payload n r = (if length r < n then None else Some (take n r, drop n r))"

definition tagged :: "kind \<Rightarrow> (bytes \<times> bytes) option \<Rightarrow> ((kind \<times> bytes) \<times> bytes) option" where
  "tagged k r = (case r of None \<Rightarrow> None | Some (c, rest) \<Rightarrow> Some ((k, c), rest))"

fun rlp_split :: "bytes \<Rightarrow> ((kind \<times> bytes) \<times> bytes) option" where
  "rlp_split [] = None"
| "rlp_split (p # r) =
     (let t = unat p
      in if t < 0x80 then Some ((KString, [p]), r)
         else if t \<le> 0xb7 then
           (case short_payload (t - 0x80) r of
              Some ([b], rest) \<Rightarrow> if b < 0x80 then None else Some ((KString, [b]), rest)
            | x \<Rightarrow> tagged KString x)
         else if t \<le> 0xbf then tagged KString (long_payload (t - 0xb7) r)
         else if t \<le> 0xf7 then tagged KList (short_payload (t - 0xc0) r)
         else tagged KList (long_payload (t - 0xf7) r))"

lemma byte_add: "m + k < 256 \<Longrightarrow> unat (of_nat m + of_nat k :: byte) = m + k"
  by (simp add: unsigned_of_nat take_bit_nat_eq_self flip: of_nat_add)

lemma long_payload_minimal:
  assumes "55 < length p" "length p < 2 ^ 64"
  shows "long_payload (length (minimalBigEndian (of_nat (length p)))) (minimalBigEndian (of_nat (length p)) @ p @ rest)
           = Some (p, rest)"
proof -
  let ?len = "minimalBigEndian (of_nat (length p))"
  have v: "unat (of_nat (length p) :: u64) = length p"
    using assms(2) by (simp add: unsigned_of_nat take_bit_nat_eq_self)
  have "of_nat (length p) \<noteq> (0 :: u64)" using v assms(1) by (metis not_less_zero unsigned_0)
  then have "hd (?len @ p @ rest) \<noteq> 0"
    using minimalBigEndian_hd [of "of_nat (length p)"] minimalBigEndian_length(2) [of "of_nat (length p)"] by simp
  then show ?thesis using assms(1) v by (simp add: long_payload_def Let_def)
qed

lemma split_EncodeRLPBytes:
  assumes "length p < 2 ^ 64"
  shows "rlp_split (EncodeRLPBytes p @ rest) = Some ((KString, p), rest)"
proof -
  let ?len = "minimalBigEndian (of_nat (length p))"
  consider b where "p = [b]" "b < 0x80" | "length p \<le> 55" "\<forall>b. p = [b] \<longrightarrow> \<not> b < 0x80" | "55 < length p"
    by (cases "length p \<le> 55") auto
  then show ?thesis
  proof cases
    case (1 b)
    then show ?thesis by (simp add: EncodeRLPBytes_def word_less_nat_alt)
  next
    case 2
    have t: "unat (0x80 + of_nat (length p) :: byte) = 128 + length p" using 2 byte_add [of 128 "length p"] by simp
    have "short_payload (length p) (p @ rest) = Some (p, rest)" by (simp add: short_payload_def)
    then show ?thesis using 2 t
      by (auto simp: EncodeRLPBytes_def tagged_def length_Suc_conv split: list.splits)
  next
    case 3
    have t: "unat (0xb7 + of_nat (length ?len) :: byte) = 183 + length ?len" "0 < length ?len" "length ?len \<le> 8"
      using byte_add [of 183 "length ?len"] minimalBigEndian_length [of "of_nat (length p)"] by simp_all
    show ?thesis using 3 t long_payload_minimal [OF 3 assms, of rest]
      by (simp add: EncodeRLPBytes_def tagged_def Let_def del: length_greater_0_conv)
  qed
qed

lemma split_EncodeRLPList:
  assumes "length (concat items) < 2 ^ 64"
  shows "rlp_split (EncodeRLPList items @ rest) = Some ((KList, concat items), rest)"
proof -
  let ?p = "concat items" let ?len = "minimalBigEndian (of_nat (length ?p))"
  have sz: "sum_list (map length items) = length ?p" by (simp add: length_concat)
  show ?thesis
  proof (cases "length ?p \<le> 55")
    case True
    have "unat (0xc0 + of_nat (length ?p) :: byte) = 192 + length ?p" using True byte_add [of 192 "length ?p"] by simp
    then show ?thesis using True by (simp add: EncodeRLPList_def sz tagged_def short_payload_def)
  next
    case False
    have t: "unat (0xf7 + of_nat (length ?len) :: byte) = 247 + length ?len" "0 < length ?len"
      using byte_add [of 247 "length ?len"] minimalBigEndian_length [of "of_nat (length ?p)"] by simp_all
    show ?thesis using False t long_payload_minimal [of ?p rest] assms
      by (simp add: EncodeRLPList_def sz tagged_def Let_def del: length_greater_0_conv)
  qed
qed

interpretation rlp_str: stream_codec EncodeRLPBytes
    "\<lambda>b. case rlp_split b of Some ((KString, c), r) \<Rightarrow> Some (c, r) | _ \<Rightarrow> None" "\<lambda>p. length p < 2 ^ 64"
  by unfold_locales (simp add: split_EncodeRLPBytes)

section \<open>Nested values\<close>

text \<open>A value built the way callers build one: byte strings and lists of already encoded items.\<close>

datatype item = Str bytes | Lst "item list"

fun enc_item :: "item \<Rightarrow> bytes" where
  "enc_item (Str b) = EncodeRLPBytes b"
| "enc_item (Lst xs) = EncodeRLPList (map enc_item xs)"

fun rlp_fits :: "item \<Rightarrow> bool" where
  "rlp_fits (Str b) \<longleftrightarrow> length b < 2 ^ 64"
| "rlp_fits (Lst xs) \<longleftrightarrow> (\<forall>x \<in> set xs. rlp_fits x) \<and> length (concat (map enc_item xs)) < 2 ^ 64"

fun item_view :: "item \<Rightarrow> kind \<times> bytes" where
  "item_view (Str b) = (KString, b)"
| "item_view (Lst xs) = (KList, concat (map enc_item xs))"

lemma split_enc_item: "rlp_fits i \<Longrightarrow> rlp_split (enc_item i @ rest) = Some (item_view i, rest)"
  by (cases i) (simp_all add: split_EncodeRLPBytes split_EncodeRLPList)

lemma enc_item_not_Nil: "rlp_fits i \<Longrightarrow> enc_item i \<noteq> []"
  using split_enc_item [of i "[]"] by auto

lemma enc_items_inj:
  assumes "\<And>x y. x \<in> set xs \<Longrightarrow> rlp_fits x \<Longrightarrow> rlp_fits y \<Longrightarrow> item_view x = item_view y \<Longrightarrow> x = y"
    and "\<forall>x \<in> set xs. rlp_fits x" "\<forall>y \<in> set ys. rlp_fits y"
    and "concat (map enc_item xs) = concat (map enc_item ys)"
  shows "xs = ys"
  using assms
proof (induction xs arbitrary: ys)
  case Nil
  then show ?case by (cases ys) (auto dest: enc_item_not_Nil)
next
  case (Cons x xs)
  have "enc_item x \<noteq> []" using Cons.prems(2) by (intro enc_item_not_Nil) simp
  with Cons.prems(4) obtain y ys' where ys: "ys = y # ys'" by (cases ys) simp_all
  have f: "rlp_fits x" "rlp_fits y" and e: "enc_item x @ concat (map enc_item xs) = enc_item y @ concat (map enc_item ys')"
    using Cons.prems(2-4) by (simp_all add: ys)
  have "Some (item_view x, concat (map enc_item xs)) = Some (item_view y, concat (map enc_item ys'))"
    by (rule trans [OF split_enc_item [OF f(1), symmetric] trans [OF arg_cong [OF e, of rlp_split] split_enc_item [OF f(2)]]])
  then have v: "item_view x = item_view y" and r: "concat (map enc_item xs) = concat (map enc_item ys')"
    by (simp_all only: option.inject prod.inject)
  have "x = y" using Cons.prems(1) [OF _ f v] by simp
  moreover have "xs = ys'"
  proof (rule Cons.IH [OF _ _ _ r])
    show "u = v" if "u \<in> set xs" "rlp_fits u" "rlp_fits v" "item_view u = item_view v" for u v
      using that by (intro Cons.prems(1)) simp_all
  qed (use Cons.prems(2,3) ys in simp_all)
  ultimately show ?case by (simp add: ys)
qed

lemma item_view_inj: "rlp_fits i \<Longrightarrow> rlp_fits j \<Longrightarrow> item_view i = item_view j \<Longrightarrow> i = j"
proof (induction i arbitrary: j)
  case (Str b)
  then show ?case by (cases j) auto
next
  case (Lst xs)
  then obtain ys where j: "j = Lst ys" by (cases j) auto
  have "xs = ys" by (rule enc_items_inj) (use Lst j in auto)
  then show ?case by (simp add: j)
qed

text \<open>
  C33: The RLP encoders are prefix-free and injective on nested values: two values built with
  \<open>EncodeRLPBytes\<close> and \<open>EncodeRLPList\<close> share an encoding, whatever bytes follow, only if they are the same
  value, so a peer decodes exactly what the caller nested.
\<close>

theorem rlp_unique_decoding:
  "rlp_fits i \<Longrightarrow> rlp_fits j \<Longrightarrow> enc_item i @ r = enc_item j @ s \<Longrightarrow> i = j \<and> r = s"
  using split_enc_item [of i r] split_enc_item [of j s] by (simp add: item_view_inj)

theorem rlp_unique_decoding_witness:
  "enc_item (Lst [Str [7], Lst []]) = [0xc2, 7, 0xc0] \<and> Lst [Str [7], Lst []] = Lst [Str [7], Lst []]"
proof -
  have "enc_item (Lst [Str [7], Lst []]) = [0xc2, 7, 0xc0]"
    by (simp add: EncodeRLPBytes_def EncodeRLPList_def Let_def)
  moreover from this have "Lst [Str [7], Lst []] = Lst [Str [7], Lst []] \<and> [1] = [1 :: byte]"
    by (intro rlp_unique_decoding) (simp_all add: EncodeRLPBytes_def EncodeRLPList_def Let_def)
  ultimately show ?thesis by simp
qed

end
