(* ===== verification/Fork_Id.thy ===== *)
theory Fork_Id
  imports Go_Strings
begin

text \<open>
  Package rpc, chainparams.go: the fork schedule read from the node's config, the EIP-2124 fork identifier of a
  head, and the validation of a peer's identifier. The CRC-32 of hash/crc32 is written out bit by bit. Raw JSON
  values are strings and decoding a quoted one is a parameter; a config is the list of its entries in the order Go
  iterates over them.
\<close>

section \<open>Checksums\<close>

definition crc_bit :: "u32 \<Rightarrow> u32" where
  "crc_bit c = (if bit c 0 then drop_bit 1 c XOR 0xEDB88320 else drop_bit 1 c)"

definition crc_byte :: "byte \<Rightarrow> u32 \<Rightarrow> u32" where
  "crc_byte b c = (crc_bit ^^ 8) (c XOR ucast b)"

text \<open>\<open>crc32.Update\<close> with the IEEE table; \<open>ChecksumIEEE\<close> starts from zero.\<close>

definition crc_update :: "u32 \<Rightarrow> bytes \<Rightarrow> u32" where
  "crc_update crc p = NOT (fold crc_byte p (NOT crc))"

definition checksumUpdate :: "u32 \<Rightarrow> u64 \<Rightarrow> u32" where
  "checksumUpdate hash fork = crc_update hash (be_bytes 8 fork)"

definition checksumToBytes :: "u32 \<Rightarrow> bytes" where
  "checksumToBytes hash = be_bytes 4 hash"

section \<open>Identifiers\<close>

type_synonym hash = "256 word"

record fork_id =
  fid_Hash :: bytes
  fid_Next :: u64

record fork_schedule =
  blocks :: "u64 list"
  times :: "u64 list"

record chain_params =
  Genesis :: hash
  HeadHash :: hash
  StateRoot :: hash
  NetworkID :: u64
  ForkID :: fork_id
  HeadNumber :: u64
  HeadTime :: u64
  ForkBlocks :: "u64 list"
  ForkTimes :: "u64 list"

text \<open>One of the two loops of \<open>computeForkID\<close>: the identifier, or the checksum past all the forks.\<close>

fun fork_loop :: "u64 \<Rightarrow> u32 \<Rightarrow> u64 list \<Rightarrow> fork_id + u32" where
  "fork_loop head h [] = Inr h"
| "fork_loop head h (fork # forks) =
     (if head < fork then Inl \<lparr>fid_Hash = checksumToBytes h, fid_Next = fork\<rparr>
      else fork_loop head (checksumUpdate h fork) forks)"

definition computeForkID :: "hash \<Rightarrow> u64 \<Rightarrow> u64 \<Rightarrow> fork_schedule \<Rightarrow> fork_id" where
  "computeForkID genesisHash headNumber headTime schedule =
     (case fork_loop headNumber (crc_update 0 (be_bytes 32 genesisHash)) (blocks schedule) of
        Inl fid \<Rightarrow> fid
      | Inr h \<Rightarrow>
          (case fork_loop headTime h (times schedule) of
             Inl fid \<Rightarrow> fid
           | Inr h' \<Rightarrow> \<lparr>fid_Hash = checksumToBytes h', fid_Next = 0\<rparr>))"

section \<open>Validation\<close>

definition forkTimestampThreshold :: u64 where "forkTimestampThreshold = 1438269973"

fun fork_sums :: "u32 \<Rightarrow> u64 list \<Rightarrow> bytes list" where
  "fork_sums h [] = [checksumToBytes h]"
| "fork_sums h (fork # forks) = checksumToBytes h # fork_sums (checksumUpdate h fork) forks"

definition stale_next :: "chain_params \<Rightarrow> u64 \<Rightarrow> fork_id \<Rightarrow> bool" where
  "stale_next params head remote \<longleftrightarrow>
     0 < fid_Next remote \<and>
     (fid_Next remote \<le> head \<or> forkTimestampThreshold < fid_Next remote \<and> fid_Next remote \<le> HeadTime params)"

definition incompatible :: "string \<Rightarrow> fork_id \<Rightarrow> goerr" where
  "incompatible what remote =
     Errorf (''remote fork %x/%d is '' @ what) [VBytes (fid_Hash remote), VNat (unat (fid_Next remote))]"

text \<open>The decision for the first fork \<open>i\<close> the local head has not passed.\<close>

definition decide :: "chain_params \<Rightarrow> bytes list \<Rightarrow> u64 list \<Rightarrow> fork_id \<Rightarrow> nat \<Rightarrow> u64 \<Rightarrow> goerr option" where
  "decide params sums forks remote i head =
     (if sums ! i = fid_Hash remote then
        (if stale_next params head remote then Some (incompatible ''incompatible or stale'' remote) else None)
      else
        (case filter (\<lambda>j. sums ! j = fid_Hash remote) [0..<i] of
           j # _ \<Rightarrow>
             if forks ! j \<noteq> fid_Next remote
             then Some (Errorf ''remote fork %x/%d is stale (expected next %d)''
                    [VBytes (fid_Hash remote), VNat (unat (fid_Next remote)), VNat (unat (forks ! j))])
             else None
         | [] \<Rightarrow>
             if \<exists>j \<in> set [i + 1..<length sums]. sums ! j = fid_Hash remote then None
             else Some (incompatible ''incompatible'' remote)))"

fun validate_loop :: "chain_params \<Rightarrow> bytes list \<Rightarrow> u64 list \<Rightarrow> nat \<Rightarrow> fork_id \<Rightarrow> nat \<Rightarrow> u64 list \<Rightarrow> goerr option" where
  "validate_loop params sums forks blockForkCount remote i [] =
     Some (Errorf ''fork schedule validation reached an invalid state'' [])"
| "validate_loop params sums forks blockForkCount remote i (fork # rest) =
     (let head = (if blockForkCount \<le> i then HeadTime params else HeadNumber params)
      in if fork \<le> head then validate_loop params sums forks blockForkCount remote (i + 1) rest
         else decide params sums forks remote i head)"

definition ValidateForkID :: "chain_params \<Rightarrow> fork_id \<Rightarrow> goerr option" where
  "ValidateForkID params remote =
     (let schedule = ForkBlocks params @ ForkTimes params;
          sums = fork_sums (crc_update 0 (be_bytes 32 (Genesis params))) schedule;
          forks = schedule @ [- 1];
          blockForkCount = length (ForkBlocks params) + (if ForkTimes params = [] then 1 else 0)
      in validate_loop params sums forks blockForkCount remote 0 forks)"

section \<open>The schedule\<close>

datatype fork_kind = forkNone | forkBlock | forkTime

definition classifyFork :: "string \<Rightarrow> fork_kind" where
  "classifyFork key =
     (let key = to_lower key
      in if has_suffix ''transitiontimestamp'' key \<or> has_suffix ''time'' key then forkTime
         else if has_suffix ''block'' key \<or> has_suffix ''transition'' key then forkBlock
         else forkNone)"

definition parseUint :: "(string \<Rightarrow> goerr + string) \<Rightarrow> string \<Rightarrow> goerr + u64" where
  "parseUint unquote raw =
     (let value = trim_space raw
      in err_bind (if has_prefix [CHR 0x22] value then unquote raw else Inr value) (\<lambda>value.
         let hex = has_prefix ''0x'' value \<or> has_prefix ''0X'' value;
             base = (if hex then 16 else 10);
             value = (if hex then drop 2 value else value)
         in if value = '''' then Inl (Errorf ''empty integer'' []) else ParseUint base value))"

fun parse_forks ::
    "(string \<Rightarrow> goerr + string) \<Rightarrow> u64 \<Rightarrow> fork_schedule \<Rightarrow> (string \<times> string) list \<Rightarrow> goerr + fork_schedule" where
  "parse_forks unquote genesisTime schedule [] = Inr schedule"
| "parse_forks unquote genesisTime schedule ((key, raw) # config) =
     (let kind = classifyFork key
      in if kind = forkNone \<or> raw = ''null'' then parse_forks unquote genesisTime schedule config
         else
           err_bind (wrap_err ''parse fork %q: %w'' [VStr key] (parseUint unquote raw)) (\<lambda>fork.
             parse_forks unquote genesisTime
               (if kind = forkBlock
                then (if fork \<noteq> 0 then schedule\<lparr>blocks := blocks schedule @ [fork]\<rparr> else schedule)
                else (if genesisTime < fork then schedule\<lparr>times := times schedule @ [fork]\<rparr> else schedule))
               config))"

definition parseForkSchedule ::
    "(string \<Rightarrow> goerr + string) \<Rightarrow> (string \<times> string) list \<Rightarrow> u64 \<Rightarrow> goerr + fork_schedule" where
  "parseForkSchedule unquote config genesisTime =
     err_bind (parse_forks unquote genesisTime \<lparr>blocks = [], times = []\<rparr> config) (\<lambda>schedule.
       Inr \<lparr>blocks = remdups_adj (sort (blocks schedule)), times = remdups_adj (sort (times schedule))\<rparr>)"

section \<open>Stages\<close>

text \<open>The first fork a head has not passed; the number of forks, if it passed them all.\<close>

fun stage :: "(nat \<Rightarrow> u64) \<Rightarrow> nat \<Rightarrow> u64 list \<Rightarrow> nat" where
  "stage head i [] = i"
| "stage head i (fork # forks) = (if fork \<le> head i then stage head (i + 1) forks else i)"

definition heads_of :: "nat \<Rightarrow> u64 \<Rightarrow> u64 \<Rightarrow> nat \<Rightarrow> u64" where
  "heads_of count number time i = (if count \<le> i then time else number)"

lemma stage_bounds: "i \<le> stage head i fs \<and> stage head i fs \<le> i + length fs"
  by (induction head i fs rule: stage.induct) auto

lemma stage_append:
  "stage head i (fs @ gs) =
     (if stage head i fs = i + length fs then stage head (i + length fs) gs else stage head i fs)"
proof (induction head i fs rule: stage.induct)
  case (2 head i f fs)
  then show ?case using stage_bounds [of "i + 1" head fs] by auto
qed simp

lemma stage_cong: "(\<And>k. i \<le> k \<Longrightarrow> k < i + length fs \<Longrightarrow> head k = head' k) \<Longrightarrow> stage head i fs = stage head' i fs"
  by (induction head i fs rule: stage.induct) auto

lemma stage_head: "stage head i fs < i + length fs \<Longrightarrow> head (stage head i fs) < fs ! (stage head i fs - i)"
proof (induction head i fs rule: stage.induct)
  case (2 head i f fs)
  then show ?case using stage_bounds [of "i + 1" head fs] by (auto simp: not_le nth_Cons')
qed simp

lemma length_fork_sums [simp]: "length (fork_sums h fs) = length fs + 1"
  by (induction h fs rule: fork_sums.induct) simp_all

lemma stage_shift: "stage head (i + n) fs = stage (\<lambda>k. head (k + n)) i fs + n"
  by (induction fs arbitrary: i) (simp_all, metis add_Suc)

abbreviation end_sum :: "u32 \<Rightarrow> u64 list \<Rightarrow> u32" where "end_sum h fs \<equiv> fold (\<lambda>f c. checksumUpdate c f) fs h"

lemma fork_loop_stage:
  "fork_loop head h fs =
     (let k = stage (\<lambda>_. head) 0 fs
      in if k = length fs then Inr (end_sum h fs)
         else Inl \<lparr>fid_Hash = fork_sums h fs ! k, fid_Next = fs ! k\<rparr>)"
proof (induction head h fs rule: fork_loop.induct)
  case (2 head h f fs)
  then show ?case using stage_shift [of "\<lambda>_. head" 0 1 fs] by (auto simp: Let_def not_less)
qed simp

lemma fork_sums_append:
  "k \<le> length fs \<Longrightarrow> fork_sums h (fs @ gs) ! k = fork_sums h fs ! k"
  "fork_sums h (fs @ gs) ! (length fs + j) = fork_sums (end_sum h fs) gs ! j"
proof (induction fs arbitrary: h k)
  case Nil
  { case 1 then show ?case by (cases gs) simp_all }
  { case 2 then show ?case by simp }
next
  case (Cons f fs)
  { case 1 then show ?case using Cons.IH(1) by (cases k) simp_all }
  { case 2 then show ?case using Cons.IH(2) by simp }
qed

lemma fork_sums_end: "fork_sums h fs ! length fs = checksumToBytes (end_sum h fs)"
  by (induction h fs rule: fork_sums.induct) simp_all

text \<open>The identifier in terms of the joined schedule the validation works on.\<close>

definition all_forks :: "fork_schedule \<Rightarrow> u64 list" where "all_forks s = blocks s @ times s"

definition genesis_sum :: "hash \<Rightarrow> u32" where "genesis_sum g = crc_update 0 (be_bytes 32 g)"

lemma computeForkID_stage:
  "computeForkID g n t s =
     (let k = stage (heads_of (length (blocks s)) n t) 0 (all_forks s)
      in \<lparr>fid_Hash = fork_sums (genesis_sum g) (all_forks s) ! k,
          fid_Next = (if k = length (all_forks s) then 0 else all_forks s ! k)\<rparr>)"
proof -
  let ?h = "heads_of (length (blocks s)) n t" and ?b = "blocks s" and ?t = "times s" and ?g = "genesis_sum g"
  have b: "stage ?h 0 ?b = stage (\<lambda>_. n) 0 ?b" by (rule stage_cong) (simp add: heads_of_def)
  have t: "stage ?h (length ?b) ?t = stage (\<lambda>_. t) 0 ?t + length ?b"
    using stage_shift [of ?h 0 "length ?b" ?t] stage_cong [of 0 ?t "\<lambda>k. ?h (k + length ?b)" "\<lambda>_. t"]
    by (simp add: heads_of_def)
  show ?thesis
  proof (cases "stage (\<lambda>_. n) 0 ?b = length ?b")
    case False
    then have "stage (\<lambda>_. n) 0 ?b < length ?b" using stage_bounds [of 0 "\<lambda>_. n" ?b] by simp
    then show ?thesis using False
      by (simp add: computeForkID_def fork_loop_stage Let_def all_forks_def stage_append b genesis_sum_def
          fork_sums_append nth_append)
  next
    case True
    have "stage (\<lambda>_. t) 0 ?t \<le> length ?t" using stage_bounds [of 0 "\<lambda>_. t" ?t] by simp
    then show ?thesis using True
      by (auto simp: computeForkID_def fork_loop_stage Let_def all_forks_def stage_append b t genesis_sum_def
          fork_sums_append fork_sums_end nth_append add.commute)
  qed
qed

lemma validate_loop_stage:
  assumes "\<And>k. heads k = (if bfc \<le> k then HeadTime params else HeadNumber params)"
    and "stage heads i rest < i + length rest"
  shows "validate_loop params sums forks bfc remote i rest
     = decide params sums forks remote (stage heads i rest) (heads (stage heads i rest))"
  using assms(2)
proof (induction rest arbitrary: i)
  case (Cons f fs)
  then show ?case by (auto simp: Let_def not_less assms(1) simp flip: assms(1))
qed simp

section \<open>Compatibility\<close>

abbreviation local_schedule :: "chain_params \<Rightarrow> fork_schedule" where
  "local_schedule p \<equiv> \<lparr>blocks = ForkBlocks p, times = ForkTimes p\<rparr>"

definition local_sums :: "chain_params \<Rightarrow> bytes list" where
  "local_sums p = fork_sums (genesis_sum (Genesis p)) (all_forks (local_schedule p))"

definition local_stage :: "chain_params \<Rightarrow> nat" where
  "local_stage p = stage (heads_of (length (ForkBlocks p)) (HeadNumber p) (HeadTime p)) 0 (all_forks (local_schedule p))"

lemma local_stage_le: "local_stage p \<le> length (all_forks (local_schedule p))"
  using stage_bounds [of 0 "heads_of (length (ForkBlocks p)) (HeadNumber p) (HeadTime p)" "all_forks (local_schedule p)"]
  by (simp add: local_stage_def)

definition local_head :: "chain_params \<Rightarrow> u64" where
  "local_head p =
     heads_of (length (ForkBlocks p) + (if ForkTimes p = [] then 1 else 0)) (HeadNumber p) (HeadTime p) (local_stage p)"

lemma ValidateForkID_decide:
  assumes "HeadNumber p \<noteq> - 1" "HeadTime p \<noteq> - 1"
  shows "ValidateForkID p remote =
     decide p (local_sums p) (all_forks (local_schedule p) @ [- 1]) remote (local_stage p) (local_head p)"
proof -
  let ?fs = "all_forks (local_schedule p)" and ?bfc = "length (ForkBlocks p) + (if ForkTimes p = [] then 1 else 0)"
  let ?h = "heads_of ?bfc (HeadNumber p) (HeadTime p)"
  have same: "stage ?h 0 ?fs = local_stage p"
    unfolding local_stage_def by (rule stage_cong) (cases "ForkTimes p = []"; simp add: heads_of_def all_forks_def)
  have "x \<noteq> - 1 \<Longrightarrow> \<not> - 1 \<le> x" for x :: u64 by (metis antisym word_n1_ge)
  then have top: "\<not> - 1 \<le> ?h k" for k using assms by (simp add: heads_of_def)
  have st: "stage ?h 0 (?fs @ [- 1]) = local_stage p"
    using same top local_stage_le [of p] by (simp add: stage_append)
  have "validate_loop p (local_sums p) (?fs @ [- 1]) ?bfc remote 0 (?fs @ [- 1])
      = decide p (local_sums p) (?fs @ [- 1]) remote (stage ?h 0 (?fs @ [- 1])) (?h (stage ?h 0 (?fs @ [- 1])))"
    using local_stage_le [of p] st by (intro validate_loop_stage) (simp_all add: heads_of_def)
  then have "validate_loop p (local_sums p) (?fs @ [- 1]) ?bfc remote 0 (?fs @ [- 1])
      = decide p (local_sums p) (?fs @ [- 1]) remote (local_stage p) (local_head p)"
    by (simp only: st local_head_def)
  moreover have "ForkBlocks p @ ForkTimes p = ?fs" by (simp add: all_forks_def)
  ultimately show ?thesis
    by (simp only: ValidateForkID_def Let_def local_sums_def genesis_sum_def)
qed

lemma filter_upt_distinct:
  assumes "distinct xs" "j < length xs" "i \<le> length xs"
  shows "filter (\<lambda>k. xs ! k = xs ! j) [0..<i] = (if j < i then [j] else [])"
proof -
  have "filter (\<lambda>k. xs ! k = xs ! j) [0..<i] = filter (\<lambda>k. k = j) [0..<i]"
    using assms by (intro filter_cong) (auto simp: nth_eq_iff_index_eq)
  also have "\<dots> = (if j < i then [j] else [])"
    by (induction i) auto
  finally show ?thesis .
qed

lemma decide_known:
  assumes d: "distinct sums" and j: "j < length sums" "sums ! j = fid_Hash remote" and i: "i < length sums"
  shows "decide p sums forks remote i head = None \<longleftrightarrow>
     (if j = i then \<not> stale_next p head remote else if j < i then forks ! j = fid_Next remote else True)"
proof -
  have f: "filter (\<lambda>k. sums ! k = fid_Hash remote) [0..<i] = (if j < i then [j] else [])"
    using filter_upt_distinct [OF d j(1), of i] i by (simp add: j(2))
  have e: "sums ! i = fid_Hash remote \<longleftrightarrow> j = i" using d i j by (metis nth_eq_iff_index_eq)
  consider "j = i" | "j < i" | "i < j" by linarith
  then show ?thesis
    by cases (use e f j in \<open>auto simp: decide_def\<close>)
qed

lemma decide_unknown:
  assumes "fid_Hash remote \<notin> set sums" "i < length sums"
  shows "decide p sums forks remote i head \<noteq> None"
proof -
  have n: "sums ! k \<noteq> fid_Hash remote" if "k < length sums" for k using assms(1) that by (metis nth_mem)
  then have "filter (\<lambda>k. sums ! k = fid_Hash remote) [0..<i] = []" using assms(2) by (auto simp: filter_empty_conv)
  then show ?thesis using n assms(2) by (auto simp: decide_def)
qed

lemma ValidateForkID_iff:
  assumes "HeadNumber p \<noteq> - 1" "HeadTime p \<noteq> - 1" "distinct (local_sums p)"
  shows "ValidateForkID p remote = None \<longleftrightarrow>
     (\<exists>j < length (local_sums p). local_sums p ! j = fid_Hash remote \<and>
        (if j = local_stage p then \<not> stale_next p (local_head p) remote
         else if j < local_stage p then all_forks (local_schedule p) ! j = fid_Next remote else True))"
proof (cases "fid_Hash remote \<in> set (local_sums p)")
  case True
  then obtain j where j: "j < length (local_sums p)" "local_sums p ! j = fid_Hash remote"
    by (metis in_set_conv_nth)
  have i: "local_stage p < length (local_sums p)" using local_stage_le [of p] by (simp add: local_sums_def)
  have nth: "j < local_stage p \<Longrightarrow> (all_forks (local_schedule p) @ [- 1]) ! j = all_forks (local_schedule p) ! j"
    using local_stage_le [of p] by (simp add: nth_append)
  have uniq: "k = j" if "k < length (local_sums p)" "local_sums p ! k = fid_Hash remote" for k
    using assms(3) j that by (metis nth_eq_iff_index_eq)
  have "ValidateForkID p remote = None \<longleftrightarrow>
      (if j = local_stage p then \<not> stale_next p (local_head p) remote
       else if j < local_stage p then all_forks (local_schedule p) ! j = fid_Next remote else True)"
    unfolding ValidateForkID_decide [OF assms(1,2)] decide_known [OF assms(3) j i] by (simp add: nth)
  then show ?thesis using j uniq by blast
next
  case False
  have "local_stage p < length (local_sums p)" using local_stage_le [of p] by (simp add: local_sums_def)
  from decide_unknown [OF False this] show ?thesis
    unfolding ValidateForkID_decide [OF assms(1,2)] using False nth_mem by metis
qed

text \<open>
  Two honest nodes of one chain: the identifier computed from the same genesis and fork schedule at any other head
  passes, as long as no block fork number is past the timestamp threshold and the checksums do not collide.
\<close>

lemma same_chain_None:
  assumes "HeadNumber p \<noteq> - 1" "HeadTime p \<noteq> - 1" "distinct (local_sums p)"
    and "\<forall>f \<in> set (ForkBlocks p). f \<le> forkTimestampThreshold"
  shows "ValidateForkID p (computeForkID (Genesis p) n t (local_schedule p)) = None"
proof -
  let ?fs = "all_forks (local_schedule p)" and ?b = "length (ForkBlocks p)"
  define j where "j = stage (heads_of ?b n t) 0 ?fs"
  have j: "j \<le> length ?fs" using stage_bounds [of 0 "heads_of ?b n t" ?fs] by (simp add: j_def)
  have r: "computeForkID (Genesis p) n t (local_schedule p)
      = \<lparr>fid_Hash = local_sums p ! j, fid_Next = (if j = length ?fs then 0 else ?fs ! j)\<rparr>" (is "?r = _")
    by (simp add: computeForkID_stage j_def local_sums_def Let_def)
  have i: "local_stage p < length (local_sums p)" and jl: "j < length (local_sums p)"
    using local_stage_le [of p] j by (simp_all add: local_sums_def)
  have "\<not> stale_next p (local_head p) ?r" if ji: "j = local_stage p"
  proof (cases "j = length ?fs")
    case True
    then show ?thesis by (simp add: stale_next_def r)
  next
    case False
    then have lt: "local_stage p < length ?fs" using j ji by simp
    have "heads_of ?b (HeadNumber p) (HeadTime p) (local_stage p) < ?fs ! local_stage p"
      using stage_head [of "heads_of ?b (HeadNumber p) (HeadTime p)" 0 ?fs] lt by (simp add: local_stage_def)
    moreover have "local_head p = heads_of ?b (HeadNumber p) (HeadTime p) (local_stage p)"
      using lt by (cases "ForkTimes p = []"; simp add: local_head_def heads_of_def all_forks_def)
    moreover have "?fs ! local_stage p \<le> forkTimestampThreshold" if "local_stage p < ?b"
      using that assms(4) by (simp add: all_forks_def nth_append)
    ultimately show ?thesis
      using False ji by (cases "local_stage p < ?b") (auto simp: stale_next_def r heads_of_def)
  qed
  then show ?thesis
    unfolding ValidateForkID_decide [OF assms(1,2)]
    using decide_known [OF assms(3) jl _ i, of ?r] local_stage_le [of p] by (auto simp: r nth_append)
qed

section \<open>A concrete chain\<close>

text \<open>Genesis hash zero, one block fork at 4 and one timestamp fork; the checksums below are those of any CRC-32.\<close>

definition demo_params :: chain_params where
  "demo_params = \<lparr>Genesis = 0, HeadHash = 0, StateRoot = 0, NetworkID = 1,
     ForkID = \<lparr>fid_Hash = [0, 0, 0, 0], fid_Next = 0\<rparr>, HeadNumber = 5, HeadTime = 3,
     ForkBlocks = [4], ForkTimes = [1700000000]\<rparr>"

lemma crc_byte_unfold:
  "crc_byte b c = crc_bit (crc_bit (crc_bit (crc_bit (crc_bit (crc_bit (crc_bit (crc_bit (c XOR ucast b))))))))"
  by (simp add: crc_byte_def numeral_eq_Suc)

lemma demo_folds:
  "fold crc_byte [0, 0, 0, 0, 0, 0, 0, 0, 0, 0, 0, 0, 0, 0, 0, 0, 0, 0, 0, 0, 0, 0, 0, 0, 0, 0, 0, 0, 0, 0, 0, 0] 0xFFFFFFFF = 0xe6f5aa52"
  "fold crc_byte [0, 0, 0, 0, 0, 0, 0, 4] 0xe6f5aa52 = 0x117e0657"
  "fold crc_byte [0, 0, 0, 0, 101, 83, 241, 0] 0x117e0657 = 0x3f3e5a42"
  by (simp_all add: crc_byte_unfold crc_bit_def)

lemma demo_bytes:
  "be_bytes 32 (0 :: hash) = [0, 0, 0, 0, 0, 0, 0, 0, 0, 0, 0, 0, 0, 0, 0, 0, 0, 0, 0, 0, 0, 0, 0, 0, 0, 0, 0, 0, 0, 0, 0, 0]" "be_bytes 8 (4 :: u64) = [0, 0, 0, 0, 0, 0, 0, 4]" "be_bytes 8 (1700000000 :: u64) = [0, 0, 0, 0, 101, 83, 241, 0]"
  by (simp_all add: be_bytes_def le_bytes_numeral)

lemma demo_nots:
  "NOT 0 = (0xFFFFFFFF :: u32)" "NOT 0xe6f5aa52 = (0x190a55ad :: u32)" "NOT 0x117e0657 = (0xee81f9a8 :: u32)"
  "NOT 0x3f3e5a42 = (0xc0c1a5bd :: u32)" "NOT 0x190a55ad = (0xe6f5aa52 :: u32)" "NOT 0xee81f9a8 = (0x117e0657 :: u32)"
  by simp_all

lemma demo_sums: "local_sums demo_params = map checksumToBytes [0x190a55ad, 0xee81f9a8, 0xc0c1a5bd]"
proof -
  have g: "genesis_sum (Genesis demo_params) = 0x190a55ad"
    unfolding genesis_sum_def crc_update_def demo_params_def chain_params.select_convs demo_bytes demo_nots demo_folds ..
  have 1: "checksumUpdate 0x190a55ad 4 = 0xee81f9a8" "checksumUpdate 0xee81f9a8 1700000000 = 0xc0c1a5bd"
    unfolding checksumUpdate_def crc_update_def demo_bytes demo_nots demo_folds by (rule refl)+
  show ?thesis unfolding local_sums_def g by (simp add: all_forks_def demo_params_def 1)
qed

lemma checksumToBytes_inj: "checksumToBytes a = checksumToBytes b \<longleftrightarrow> a = b"
  unfolding checksumToBytes_def by (metis be_bytes_def le_val32 rev_rev_ident)

lemma demo_ok:
  "HeadNumber demo_params \<noteq> - 1" "HeadTime demo_params \<noteq> - 1" "distinct (local_sums demo_params)"
  "\<forall>f \<in> set (ForkBlocks demo_params). f \<le> forkTimestampThreshold"
  by (simp_all add: demo_sums checksumToBytes_inj) (simp_all add: demo_params_def forkTimestampThreshold_def)

section \<open>The parsed schedule\<close>

lemma sorted_remdups_adj: "sorted xs \<Longrightarrow> sorted_wrt (<) (remdups_adj xs)" for xs :: "u64 list"
  by (induction xs rule: remdups_adj.induct) fastforce+

lemma sorted_compact: "sorted_wrt (<) (remdups_adj (sort xs))" for xs :: "u64 list"
  by (simp add: sorted_remdups_adj)

lemma parse_forks_keeps:
  "parse_forks unquote g s config = Inr s' \<Longrightarrow> \<forall>f \<in> set (blocks s). f \<noteq> 0 \<Longrightarrow> \<forall>f \<in> set (times s). g < f \<Longrightarrow>
     (\<forall>f \<in> set (blocks s'). f \<noteq> 0) \<and> (\<forall>f \<in> set (times s'). g < f)"
proof (induction unquote g s config rule: parse_forks.induct)
  case (2 unquote g s key raw config)
  show ?case
  proof (cases "classifyFork key = forkNone \<or> raw = ''null''")
    case True
    have "parse_forks unquote g s config = Inr s'"
      using "2.prems"(1) unfolding parse_forks.simps Let_def if_P [OF True] .
    then show ?thesis using "2.IH"(1) [OF refl True] "2.prems"(2,3) by blast
  next
    case False
    let ?next = "\<lambda>fork. if classifyFork key = forkBlock
        then (if fork \<noteq> 0 then s\<lparr>blocks := blocks s @ [fork]\<rparr> else s)
        else (if g < fork then s\<lparr>times := times s @ [fork]\<rparr> else s)"
    obtain fork where F: "parse_forks unquote g (?next fork) config = Inr s'"
      using "2.prems"(1) unfolding parse_forks.simps Let_def if_not_P [OF False] err_bind_Inr_iff by blast
    have "(\<forall>f \<in> set (blocks (?next fork)). f \<noteq> 0) \<and> (\<forall>f \<in> set (times (?next fork)). g < f)"
      using "2.prems"(2,3) by simp
    then show ?thesis using "2.IH"(2) [OF refl False F] by blast
  qed
qed auto

text \<open>
  A schedule \<open>parseForkSchedule\<close> returns is in canonical form: block forks strictly increasing and none zero,
  timestamp forks strictly increasing and all after genesis, whatever the config said, which is the form the fork
  identifier and its validation assume.
\<close>

theorem parsed_schedule_canonical:
  "(case parseForkSchedule unquote config genesisTime of
      Inl _ \<Rightarrow> True
    | Inr s \<Rightarrow> sorted_wrt (<) (blocks s) \<and> 0 \<notin> set (blocks s) \<and>
               sorted_wrt (<) (times s) \<and> list_all (\<lambda>f. genesisTime < f) (times s))"
proof (cases "parse_forks unquote genesisTime \<lparr>blocks = [], times = []\<rparr> config")
  case (Inl e)
  then show ?thesis by (simp add: parseForkSchedule_def)
next
  case (Inr s)
  from parse_forks_keeps [OF Inr] show ?thesis
    by (auto simp: parseForkSchedule_def Inr sorted_compact list_all_iff)
qed

end
