(* ===== verification/Chain_Cache.thy ===== *)
theory Chain_Cache
  imports Fork_Id "HOL-Library.List_Lexorder" "HOL-Library.Char_ord" "HOL-Library.AList"
begin

text \<open>
  Package rpc, chainparams.go: the cache of chain parameters and \<open>FetchChainParams\<close> over it. The map is the
  list of its entries in the order Go iterates over them, one per key; times are clock readings in nanoseconds.
  The mutex makes each operation one step. The contract the client uses is the locale \<open>ttl_cache\<close>.
\<close>

section \<open>State and operations\<close>

record cache_entry =
  ce_cp :: chain_params
  ce_exp :: int

record cache =
  entries :: "(string \<times> cache_entry) list"
  cap :: int

text \<open>\<open>newChainParamsCache\<close> panics (\<open>None\<close>) on a limit below one.\<close>

definition newChainParamsCache :: "int \<Rightarrow> cache option" where
  "newChainParamsCache lim = (if lim < 1 then None else Some \<lparr>entries = [], cap = lim\<rparr>)"

definition pruneExpiredLocked :: "int \<Rightarrow> cache \<Rightarrow> cache" where
  "pruneExpiredLocked now c = c\<lparr>entries := filter (\<lambda>(key, e). now < ce_exp e) (entries c)\<rparr>"

text \<open>The loop of \<open>evictOldestLocked\<close>; the empty key stands for "none yet", as in the code.\<close>

fun oldest :: "string \<Rightarrow> int \<Rightarrow> (string \<times> cache_entry) list \<Rightarrow> string" where
  "oldest oldestKey oldestExpiry [] = oldestKey"
| "oldest oldestKey oldestExpiry ((key, entry) # es) =
     (if oldestKey = '''' \<or> ce_exp entry < oldestExpiry \<or> ce_exp entry = oldestExpiry \<and> key < oldestKey
      then oldest key (ce_exp entry) es
      else oldest oldestKey oldestExpiry es)"

definition evictOldestLocked :: "cache \<Rightarrow> cache" where
  "evictOldestLocked c = c\<lparr>entries := AList.delete (oldest '''' 0 (entries c)) (entries c)\<rparr>"

definition Load :: "int \<Rightarrow> string \<Rightarrow> cache \<Rightarrow> cache_entry option \<times> cache" where
  "Load now key c = (let c = pruneExpiredLocked now c in (map_of (entries c) key, c))"

definition Store :: "int \<Rightarrow> string \<Rightarrow> cache_entry \<Rightarrow> cache \<Rightarrow> cache" where
  "Store now key entry c =
     (let c = pruneExpiredLocked now c;
          c = (if map_of (entries c) key = None \<and> cap c \<le> int (length (entries c)) then evictOldestLocked c else c)
      in c\<lparr>entries := AList.update key entry (entries c)\<rparr>)"

definition Clear :: "cache \<Rightarrow> cache" where "Clear c = c\<lparr>entries := []\<rparr>"

definition Len :: "int \<Rightarrow> cache \<Rightarrow> nat \<times> cache" where
  "Len now c = (let c = pruneExpiredLocked now c in (length (entries c), c))"

section \<open>Eviction\<close>

text \<open>The order of the evictions: the earliest expiry first, then the smallest key.\<close>

datatype rank = Rank (rank_exp: int) (rank_key: string)

instantiation rank :: linorder
begin

definition less_rank :: "rank \<Rightarrow> rank \<Rightarrow> bool" where
  "less_rank a b \<longleftrightarrow> rank_exp a < rank_exp b \<or> rank_exp a = rank_exp b \<and> rank_key a < rank_key b"

definition less_eq_rank :: "rank \<Rightarrow> rank \<Rightarrow> bool" where
  "less_eq_rank a b \<longleftrightarrow> a < b \<or> a = (b :: rank)"

instance
proof
  fix x y :: rank
  show "x \<le> y \<or> y \<le> x"
    by (metis less_eq_rank_def less_rank_def linorder_neqE rank.expand)
qed (auto simp: less_rank_def less_eq_rank_def)

end

definition rank_of :: "string \<times> cache_entry \<Rightarrow> rank" where
  "rank_of ke = Rank (ce_exp (snd ke)) (fst ke)"

lemma oldest_min:
  "k \<noteq> '''' \<Longrightarrow> '''' \<notin> fst ` set es \<Longrightarrow>
     oldest k x es = rank_key (Min (insert (Rank x k) (rank_of ` set es)))"
proof (induction k x es rule: oldest.induct)
  case (2 k x key e es)
  have step: "Min (insert a (insert b S)) = (if b < a then Min (insert b S) else Min (insert a S))"
    if "finite S" for a b :: rank and S
    using that by (cases "S = {}") (auto simp: min_def not_less)
  have lt: "Rank (ce_exp e) key < Rank x k \<longleftrightarrow> ce_exp e < x \<or> ce_exp e = x \<and> key < k"
    by (simp add: less_rank_def)
  have eq: "rank_of ` set ((key, e) # es) = insert (Rank (ce_exp e) key) (rank_of ` set es)"
    by (simp add: rank_of_def)
  have ne: "key \<noteq> ''''" "'''' \<notin> fst ` set es" using "2.prems"(2) by auto
  show ?case
    unfolding eq step [OF finite_imageI [OF finite_set]] lt
    using 2 ne by (simp del: Min_insert)
qed simp

lemma oldest_in: "es \<noteq> [] \<Longrightarrow> oldest k x es \<in> insert k (fst ` set es) \<and> (k = '''' \<longrightarrow> oldest k x es \<in> fst ` set es)"
proof (induction k x es rule: oldest.induct)
  case (2 k x key e es)
  then show ?case by (cases "es = []") auto
qed simp

text \<open>
  Eviction takes the entry with the earliest expiry, ties broken by the smallest key, whatever order Go iterates
  in: with no empty key among two orders of the same entries, the same entries remain.
\<close>

theorem eviction_order_irrelevant:
  assumes "'''' \<notin> fst ` set (entries c)" "entries c \<noteq> []" "set (entries c') = set (entries c)"
    and "distinct (map fst (entries c))"
  shows "set (entries (evictOldestLocked c')) =
     {ke \<in> set (entries c). fst ke \<noteq> rank_key (Min (rank_of ` set (entries c)))}"
proof -
  have min: "oldest '''' 0 es = rank_key (Min (rank_of ` set es))" if "'''' \<notin> fst ` set es" "es \<noteq> []" for es
    using that by (cases es) (auto simp: oldest_min rank_of_def)
  have "entries c' \<noteq> []" using assms(2,3) by auto
  then show ?thesis
    using min [of "entries c'"] assms(1,3) by (auto simp: evictOldestLocked_def AList.delete_eq)
qed

lemma eviction_order_irrelevant_witness:
  "\<exists>(c::cache) (c'::cache). entries c \<noteq> entries c' \<and> set (entries (evictOldestLocked c')) =
     {ke \<in> set (entries c). fst ke \<noteq> rank_key (Min (rank_of ` set (entries c)))}"
proof -
  define e where "e n = \<lparr>ce_cp = undefined, ce_exp = n\<rparr>" for n
  define c where "c = \<lparr>entries = [(''a'', e 5), (''b'', e 3)], cap = 2\<rparr>"
  define c' where "c' = \<lparr>entries = [(''b'', e 3), (''a'', e 5)], cap = 2\<rparr>"
  have "set (entries (evictOldestLocked c')) =
      {ke \<in> set (entries c). fst ke \<noteq> rank_key (Min (rank_of ` set (entries c)))}"
    by (rule eviction_order_irrelevant) (auto simp: c_def c'_def)
  moreover have "entries c \<noteq> entries c'" by (simp add: c_def c'_def)
  ultimately show ?thesis by blast
qed

section \<open>The cache invariant\<close>

definition cache_ok :: "cache \<Rightarrow> bool" where
  "cache_ok c \<longleftrightarrow> distinct (map fst (entries c)) \<and> int (length (entries c)) \<le> cap c \<and> 1 \<le> cap c"

lemma distinct_filter_keys: "distinct (map fst es) \<Longrightarrow> distinct (map fst (filter P es))"
  by (induction es) auto

lemma prune_ok: "cache_ok c \<Longrightarrow> cache_ok (pruneExpiredLocked now c)"
  using length_filter_le [of _ "entries c"]
  by (auto simp: cache_ok_def pruneExpiredLocked_def distinct_filter_keys intro: order_trans [rotated])

lemma map_of_prune:
  "distinct (map fst es) \<Longrightarrow> map_of (filter (\<lambda>(k, e). now < ce_exp e) es) k =
     (case map_of es k of None \<Rightarrow> None | Some e \<Rightarrow> if now < ce_exp e then Some e else None)"
  by (induction es) (auto split: option.splits simp: map_of_eq_None_iff dest: map_of_SomeD)

lemma length_delete_in: "distinct (map fst es) \<Longrightarrow> k \<in> fst ` set es \<Longrightarrow> Suc (length (AList.delete k es)) = length es"
proof (induction es)
  case (Cons e es)
  then show ?case by (cases "fst e = k") auto
qed simp

lemma length_update_in: "length (AList.update k v es) = (if k \<in> fst ` set es then length es else Suc (length es))"
  by (induction es) auto

lemma evict_ok:
  assumes "distinct (map fst (entries c))" "entries c \<noteq> []"
  shows "distinct (map fst (entries (evictOldestLocked c)))"
    and "Suc (length (entries (evictOldestLocked c))) = length (entries c)"
  using assms oldest_in [of "entries c" "[]" 0]
  by (auto simp: evictOldestLocked_def distinct_delete length_delete_in)

lemma Store_ok: "cache_ok c \<Longrightarrow> cache_ok (Store now key e c)"
proof -
  assume ok: "cache_ok c"
  define p where "p = pruneExpiredLocked now c"
  have p: "cache_ok p" "cap p = cap c" using prune_ok [OF ok] by (simp_all add: p_def pruneExpiredLocked_def)
  define q where "q = (if map_of (entries p) key = None \<and> cap p \<le> int (length (entries p)) then evictOldestLocked p else p)"
  have "cap p \<le> int (length (entries p)) \<Longrightarrow> entries p \<noteq> []" using p by (auto simp: cache_ok_def)
  then have d: "distinct (map fst (entries q))"
    using p evict_ok(1) [of p] by (simp add: q_def cache_ok_def)
  have cap: "cap q = cap c" using p by (simp add: q_def evictOldestLocked_def)
  have len: "int (length (AList.update key e (entries q))) \<le> cap c"
  proof (cases "map_of (entries p) key")
    case (Some x)
    then have "key \<in> fst ` set (entries p)" by (force dest: map_of_SomeD)
    then show ?thesis using p Some by (simp add: q_def cache_ok_def length_update_in)
  next
    case None
    have "length (AList.update key e (entries q)) \<le> Suc (length (entries q))" by (simp add: length_update_in)
    moreover have "int (length (entries q)) < cap c"
    proof (cases "cap p \<le> int (length (entries p))")
      case True
      then have "entries p \<noteq> []" using p by (auto simp: cache_ok_def)
      then show ?thesis using p None True evict_ok(2) [of p] by (simp add: q_def cache_ok_def)
    next
      case False
      then show ?thesis using p by (simp add: q_def)
    qed
    ultimately show ?thesis by linarith
  qed
  have "Store now key e c = q\<lparr>entries := AList.update key e (entries q)\<rparr>"
    by (simp add: Store_def p_def q_def Let_def)
  then show ?thesis using d cap len ok by (simp add: cache_ok_def distinct_update)
qed

lemma Load_ok: "cache_ok c \<Longrightarrow> cache_ok (snd (Load now key c))"
  by (simp add: Load_def Let_def prune_ok)

lemma Len_ok: "cache_ok c \<Longrightarrow> cache_ok (snd (Len now c))"
  by (simp add: Len_def Let_def prune_ok)

lemma Clear_ok: "cache_ok c \<Longrightarrow> cache_ok (Clear c)"
  by (simp add: cache_ok_def Clear_def)

inductive cache_reach :: "int \<Rightarrow> cache \<Rightarrow> bool" for lim where
  fresh: "newChainParamsCache lim = Some c \<Longrightarrow> cache_reach lim c"
| load: "cache_reach lim c \<Longrightarrow> cache_reach lim (snd (Load now key c))"
| store: "cache_reach lim c \<Longrightarrow> cache_reach lim (Store now key e c)"
| clear: "cache_reach lim c \<Longrightarrow> cache_reach lim (Clear c)"
| len: "cache_reach lim c \<Longrightarrow> cache_reach lim (snd (Len now c))"

inductive_cases cache_reachE: "cache_reach lim c"

lemma cap_ops [simp]:
  "cap (snd (Load now key c)) = cap c" "cap (Store now key e c) = cap c" "cap (Clear c) = cap c" "cap (snd (Len now c)) = cap c"
  by (simp_all add: Load_def Store_def Clear_def Len_def Let_def pruneExpiredLocked_def evictOldestLocked_def)

text \<open>
  The capacity bound: through any sequence of loads, stores, clears and length queries, at any clock readings, the
  cache holds at most its limit of entries, one per key.
\<close>

theorem cache_capacity:
  "cache_reach lim c \<Longrightarrow> int (length (entries c)) \<le> lim \<and> distinct (map fst (entries c))"
proof -
  assume "cache_reach lim c"
  then have "cache_ok c \<and> cap c = lim"
  proof induction
    case (fresh c)
    then show ?case by (auto simp: newChainParamsCache_def cache_ok_def split: if_splits)
  qed (simp_all add: Store_ok Load_ok Len_ok Clear_ok)
  then show ?thesis by (simp add: cache_ok_def)
qed

lemma cache_capacity_witness:
  "\<exists>c::cache. cache_reach 1 c \<and> entries c \<noteq> [] \<and> int (length (entries c)) \<le> 1"
proof -
  define c where "c = Store 0 ''a'' \<lparr>ce_cp = undefined, ce_exp = 5\<rparr> \<lparr>entries = [], cap = 1\<rparr>"
  have "cache_reach 1 \<lparr>entries = [], cap = 1\<rparr>"
    by (rule cache_reach.fresh) (simp add: newChainParamsCache_def)
  then have r: "cache_reach 1 c" unfolding c_def by (rule cache_reach.store)
  have "entries c \<noteq> []" by (simp add: c_def Store_def pruneExpiredLocked_def)
  then show ?thesis using r cache_capacity [OF r] by blast
qed

section \<open>The contract of a cache with expiry\<close>

text \<open>
  What \<open>FetchChainParams\<close> relies on: a store is what a later load returns until its expiry, a load returns no expired
  entry, and a load changes nothing a later load of the same key at no earlier a time would see.
\<close>

locale ttl_cache =
  fixes load :: "int \<Rightarrow> 'k \<Rightarrow> 's \<Rightarrow> 'e option \<times> 's"
    and store :: "int \<Rightarrow> 'k \<Rightarrow> 'e \<Rightarrow> 's \<Rightarrow> 's"
    and expiry :: "'e \<Rightarrow> int"
    and inv :: "'s \<Rightarrow> bool"
  assumes load_inv: "inv s \<Longrightarrow> inv (snd (load t k s))"
    and store_inv: "inv s \<Longrightarrow> inv (store t k e s)"
    and load_fresh: "inv s \<Longrightarrow> fst (load t k s) = Some e \<Longrightarrow> t < expiry e"
    and load_store: "inv s \<Longrightarrow> fst (load t' k (store t k e s)) = (if t' < expiry e then Some e else None)"
    and load_load: "inv s \<Longrightarrow> t \<le> t' \<Longrightarrow> fst (load t' j (snd (load t k s))) = fst (load t' j s)"

context ttl_cache
begin

text \<open>What a client sees after it stored: its entry until the expiry, whatever it loads in between.\<close>

lemma stored_until_expiry:
  "inv s \<Longrightarrow> u \<le> t' \<Longrightarrow> t' < expiry e \<Longrightarrow> fst (load t' k (snd (load u j (store t k e s)))) = Some e"
  by (simp add: load_load store_inv load_store)

lemma stored_then_gone: "inv s \<Longrightarrow> expiry e \<le> t' \<Longrightarrow> fst (load t' k (store t k e s)) = None"
  by (simp add: load_store)

lemma miss_persists:
  "inv s \<Longrightarrow> fst (load t k s) = None \<Longrightarrow> t \<le> t' \<Longrightarrow> fst (load t' k (snd (load t k s))) = fst (load t' k s)"
  by (simp add: load_load)

end

lemma entries_prune: "entries (pruneExpiredLocked now c) = filter (\<lambda>(k, e). now < ce_exp e) (entries c)"
  by (simp add: pruneExpiredLocked_def)

lemma Load_value:
  "distinct (map fst (entries c)) \<Longrightarrow> fst (Load now k c) =
     (case map_of (entries c) k of None \<Rightarrow> None | Some e \<Rightarrow> if now < ce_exp e then Some e else None)"
  by (simp add: Load_def Let_def entries_prune map_of_prune)

lemma Store_value: "map_of (entries (Store now k e c)) k = Some e"
  by (simp add: Store_def Let_def update_conv')

interpretation params_cache: ttl_cache Load Store ce_exp cache_ok
proof
  fix s t t' j k e
  assume ok: "cache_ok s"
  then have d: "distinct (map fst (entries s))" by (simp add: cache_ok_def)
  show "cache_ok (snd (Load t k s))" using ok by (rule Load_ok)
  show "cache_ok (Store t k e s)" using ok by (rule Store_ok)
  show "fst (Load t k s) = Some e \<Longrightarrow> t < ce_exp e"
    using d by (simp add: Load_value split: option.splits if_splits)
  have "distinct (map fst (entries (Store t k e s)))" using Store_ok [OF ok] by (simp add: cache_ok_def)
  then show "fst (Load t' k (Store t k e s)) = (if t' < ce_exp e then Some e else None)"
    by (simp add: Load_value Store_value)
  assume le: "t \<le> t'"
  have p: "distinct (map fst (entries (pruneExpiredLocked t s)))"
    using d by (simp add: entries_prune distinct_filter_keys)
  have "fst (Load t' j (pruneExpiredLocked t s)) = fst (Load t' j s)"
    using le by (simp add: Load_value [OF p] Load_value [OF d] entries_prune map_of_prune [OF d] split: option.split)
  then show "fst (Load t' j (snd (Load t k s))) = fst (Load t' j s)"
    by (simp add: Load_def Let_def)
qed

section \<open>FetchChainParams\<close>

definition chainParamsTTL :: int where "chainParamsTTL = 30 * 10 ^ 9"

definition maxChainParamsCacheEntries :: int where "maxChainParamsCacheEntries = 256"

text \<open>Slices are immutable lists here, so the deep copy of \<open>cloneChainParams\<close> rebuilds the same record.\<close>

definition cloneChainParams :: "chain_params \<Rightarrow> chain_params" where
  "cloneChainParams p = p\<lparr>ForkBlocks := ForkBlocks p, ForkTimes := ForkTimes p\<rparr>"

definition loadChainParams :: "int \<Rightarrow> string \<Rightarrow> cache \<Rightarrow> chain_params option \<times> cache" where
  "loadChainParams now url c = (case Load now url c of (e, c) \<Rightarrow> (map_option (cloneChainParams \<circ> ce_cp) e, c))"

text \<open>
  The clock readings of one call in the order it takes them: the first load, the load inside the flight, the
  reading the expiry is computed from, the store.
\<close>

record readings =
  t_load :: int
  t_again :: int
  t_exp :: int
  t_store :: int

text \<open>
  The closure passed to \<open>DoChan\<close>; \<open>fetch\<close> is \<open>fetchChainParamsUncached\<close>, which also advances the state \<open>'w\<close> of the
  endpoint it asks.
\<close>

definition fetch_flight ::
    "('w \<Rightarrow> (goerr + chain_params) \<times> 'w) \<Rightarrow> readings \<Rightarrow> string \<Rightarrow> 'w \<times> cache \<Rightarrow> (goerr + chain_params) \<times> 'w \<times> cache" where
  "fetch_flight fetch t url st = (case st of (w, c) \<Rightarrow>
     (case loadChainParams (t_again t) url c of
        (Some p, c) \<Rightarrow> (Inr p, w, c)
      | (None, c) \<Rightarrow> (case fetch w of
            (Inl e, w) \<Rightarrow> (Inl e, w, c)
          | (Inr p, w) \<Rightarrow> (Inr p, w, Store (t_store t) url
                \<lparr>ce_cp = cloneChainParams p, ce_exp = t_exp t + chainParamsTTL\<rparr> c))))"

text \<open>
  \<open>flight\<close> is what a fetch of the same URL already under way delivers, if there is one (\<open>singleflight\<close> shares it);
  \<open>ctx_err\<close> is the caller's context error when that wins the select. The flight runs on in either case.
\<close>

definition FetchChainParams ::
    "('w \<Rightarrow> (goerr + chain_params) \<times> 'w) \<Rightarrow> readings \<Rightarrow> (goerr + chain_params) option \<Rightarrow> goerr option \<Rightarrow> string \<Rightarrow>
     'w \<times> cache \<Rightarrow> (goerr + chain_params) \<times> 'w \<times> cache" where
  "FetchChainParams fetch t flight ctx_err url st = (case st of (w, c) \<Rightarrow>
     (case loadChainParams (t_load t) url c of
        (Some p, c) \<Rightarrow> (Inr p, w, c)
      | (None, c) \<Rightarrow>
          (case (case flight of Some r \<Rightarrow> (r, w, c) | None \<Rightarrow> fetch_flight fetch t url (w, c)) of
             (r, st) \<Rightarrow> (case ctx_err of
                 Some e \<Rightarrow> (Inl e, st)
               | None \<Rightarrow> (case r of Inl e \<Rightarrow> (Inl e, st) | Inr p \<Rightarrow> (Inr (cloneChainParams p), st))))))"

lemma clone_id [simp]: "cloneChainParams p = p" by (simp add: cloneChainParams_def)

lemma loadChainParams_eq:
  "loadChainParams now url c = (map_option ce_cp (fst (Load now url c)), snd (Load now url c))"
  by (cases "Load now url c") (simp add: loadChainParams_def comp_def)

lemma fetch_hit:
  "fst (Load (t_load t) url c) = Some e \<Longrightarrow>
     FetchChainParams fetch t flight cerr url (w, c) = (Inr (ce_cp e), w, snd (Load (t_load t) url c))"
  by (simp add: FetchChainParams_def loadChainParams_eq)

lemma Load_miss_later:
  assumes "cache_ok c" "fst (Load t k c) = None" "t \<le> t'"
  shows "fst (Load t' k (snd (Load t k c))) = None"
proof -
  have d: "distinct (map fst (entries c))" using assms(1) by (simp add: cache_ok_def)
  have "fst (Load t' k (snd (Load t k c))) = fst (Load t' k c)"
    using assms params_cache.load_load by blast
  also have "\<dots> = None" using assms(2,3) by (auto simp: Load_value [OF d] split: option.splits if_splits)
  finally show ?thesis .
qed

text \<open>What a miss leads to when no fetch is under way and the caller does not give up.\<close>

lemma fetch_miss:
  assumes "cache_ok c" "fst (Load (t_load t) url c) = None" "t_load t \<le> t_again t"
  defines "c1 \<equiv> snd (Load (t_again t) url (snd (Load (t_load t) url c)))"
  shows "FetchChainParams fetch t None None url (w, c) = (case fetch w of
     (Inl e, w) \<Rightarrow> (Inl e, w, c1)
   | (Inr p, w) \<Rightarrow> (Inr p, w, Store (t_store t) url \<lparr>ce_cp = p, ce_exp = t_exp t + chainParamsTTL\<rparr> c1))"
  using Load_miss_later [OF assms(1-3)]
  by (simp add: FetchChainParams_def fetch_flight_def loadChainParams_eq assms(2) c1_def
      split: prod.split sum.split)

lemmas FetchChainParams_cases = fetch_hit fetch_miss

section \<open>What happens between two fetches\<close>

text \<open>Operations of other callers on the cache, each with its clock reading.\<close>

datatype cache_op = Loads int string | Stores int string cache_entry | Lens int

fun do_op :: "cache_op \<Rightarrow> cache \<Rightarrow> cache" where
  "do_op (Loads now key) c = snd (Load now key c)"
| "do_op (Stores now key e) c = Store now key e c"
| "do_op (Lens now) c = snd (Len now c)"

abbreviation do_ops :: "cache_op list \<Rightarrow> cache \<Rightarrow> cache" where "do_ops ops c \<equiv> fold do_op ops c"

fun op_time :: "cache_op \<Rightarrow> int" where
  "op_time (Loads now key) = now" | "op_time (Stores now key e) = now" | "op_time (Lens now) = now"

definition stored_keys :: "cache_op list \<Rightarrow> string set" where
  "stored_keys ops = {key. \<exists>now e. Stores now key e \<in> set ops}"

lemma finite_stored_keys [simp]: "finite (stored_keys ops)"
proof -
  have "stored_keys ops \<subseteq> (\<lambda>op. case op of Stores now key e \<Rightarrow> key | _ \<Rightarrow> '''') ` set ops" by (force simp: stored_keys_def)
  then show ?thesis by (rule finite_subset) simp
qed

text \<open>The other entries that would be evicted after the given one.\<close>

definition younger :: "string \<Rightarrow> int \<Rightarrow> cache \<Rightarrow> string set" where
  "younger url x c = {key. key \<noteq> url \<and> (\<exists>e. (key, e) \<in> set (entries c) \<and> Rank x url \<le> rank_of (key, e))}"

lemma finite_younger [simp]: "finite (younger url x c)"
  by (rule finite_subset [of _ "fst ` set (entries c)"]) (force simp: younger_def)+

text \<open>An entry that has survived so far: \<open>N\<close> bounds the other URLs that can outlive it.\<close>

definition survives :: "string \<Rightarrow> cache_entry \<Rightarrow> string set \<Rightarrow> cache \<Rightarrow> bool" where
  "survives url e N c \<longleftrightarrow> cache_ok c \<and> '''' \<notin> fst ` set (entries c) \<and> map_of (entries c) url = Some e \<and>
     younger url (ce_exp e) c \<subseteq> N"

lemma survives_prune: "survives url e N c \<Longrightarrow> now < ce_exp e \<Longrightarrow> survives url e N (pruneExpiredLocked now c)"
  using prune_ok [of c now]
  by (auto simp: survives_def cache_ok_def entries_prune map_of_prune younger_def)

lemma oldest_is_min: "'''' \<notin> fst ` set es \<Longrightarrow> es \<noteq> [] \<Longrightarrow> oldest '''' 0 es = rank_key (Min (rank_of ` set es))"
  by (cases es) (auto simp: oldest_min rank_of_def)

text \<open>In a full cache an entry with less than as many URLs to outlive it is not the one that is evicted.\<close>

lemma survives_evict:
  assumes s: "survives url e N c" and N: "finite N" "int (card N) < cap c" and full: "cap c \<le> int (length (entries c))"
    and k: "k \<in> N" "k \<notin> fst ` set (entries c)" "k \<noteq> url"
  shows "oldest '''' 0 (entries c) \<noteq> url"
proof -
  let ?es = "entries c" and ?r = "Rank (ce_exp e) url"
  have ok: "distinct (map fst ?es)" "'''' \<notin> fst ` set ?es" "(url, e) \<in> set ?es" "younger url (ce_exp e) c \<subseteq> N"
    using s by (auto simp: survives_def cache_ok_def dest: map_of_SomeD)
  have "\<exists>ke \<in> set ?es. rank_of ke < ?r"
  proof (rule ccontr)
    assume none: "\<not> (\<exists>ke \<in> set ?es. rank_of ke < ?r)"
    have "fst ` set ?es - {url} \<subseteq> N - {k}"
    proof
      fix key assume "key \<in> fst ` set ?es - {url}"
      then obtain x where x: "(key, x) \<in> set ?es" "key \<noteq> url" by auto
      then have "?r \<le> rank_of (key, x)" using none by (meson not_less)
      then have "key \<in> younger url (ce_exp e) c" using x by (auto simp: younger_def)
      then show "key \<in> N - {k}" using ok(4) k(2) x(1) by force
    qed
    then have "card (fst ` set ?es - {url}) \<le> card N - 1" using card_mono [of "N - {k}"] N(1) k(1) by simp
    moreover have "card (fst ` set ?es) = length ?es" using ok(1) by (metis distinct_card length_map set_map)
    moreover have "url \<in> fst ` set ?es" using ok(3) by force
    ultimately have "length ?es - 1 \<le> card N - 1" by simp
    moreover have "0 < card N" using N(1) k(1) by (auto simp: card_gt_0_iff)
    moreover have "length ?es \<noteq> 0" using ok(3) by auto
    ultimately show False using N(2) full by linarith
  qed
  then have less: "Min (rank_of ` set ?es) < ?r" by (auto intro: le_less_trans [OF Min_le])
  have "Min (rank_of ` set ?es) \<in> rank_of ` set ?es" using ok(3) by (intro Min_in) auto
  then obtain k' e' where m: "(k', e') \<in> set ?es" "Min (rank_of ` set ?es) = Rank (ce_exp e') k'" by (auto simp: rank_of_def)
  have "k' \<noteq> url"
  proof
    assume "k' = url"
    then have "e' = e" using m(1) ok(1,3) by (metis eq_key_imp_eq_value)
    then show False using less m(2) \<open>k' = url\<close> by simp
  qed
  moreover have "?es \<noteq> []" using ok(3) by auto
  ultimately show ?thesis using m(2) oldest_is_min [OF ok(2)] by simp
qed

lemma set_update_subset: "set (AList.update k x es) \<subseteq> insert (k, x) (set es)"
  by (induction es) auto

lemma survives_store:
  assumes s: "survives url e N c" "now < ce_exp e" and N: "finite N" "int (card N) < cap c" and k: "k \<in> N" "k \<noteq> url" "k \<noteq> ''''"
  shows "survives url e N (Store now k x c)"
proof -
  define p where "p = pruneExpiredLocked now c"
  define q where "q = (if map_of (entries p) k = None \<and> cap p \<le> int (length (entries p)) then evictOldestLocked p else p)"
  have p: "survives url e N p" "cap p = cap c" using survives_prune [OF s] by (simp_all add: p_def pruneExpiredLocked_def)
  have "oldest '''' 0 (entries p) \<noteq> url" if "map_of (entries p) k = None" "cap p \<le> int (length (entries p))"
    using survives_evict [OF p(1) N(1) _ that(2) k(1) _ k(2)] N(2) p(2) that(1) by (simp add: map_of_eq_None_iff)
  then have q: "map_of (entries q) url = Some e" "set (entries q) \<subseteq> set (entries p)"
    using p(1) by (auto simp: q_def survives_def evictOldestLocked_def AList.delete_eq map_of_filter_in)
  have eq: "Store now k x c = q\<lparr>entries := AList.update k x (entries q)\<rparr>"
    by (simp add: Store_def p_def q_def Let_def)
  have "cache_ok (Store now k x c)" using s(1) by (simp add: survives_def Store_ok)
  moreover have sub: "set (entries (Store now k x c)) \<subseteq> insert (k, x) (set (entries p))"
    using set_update_subset [of k x "entries q"] q(2) by (auto simp: eq)
  moreover have "'''' \<notin> fst ` set (entries (Store now k x c))" using sub p(1) k(3) by (force simp: survives_def)
  moreover have "younger url (ce_exp e) (Store now k x c) \<subseteq> insert k (younger url (ce_exp e) p)" using sub by (auto simp: younger_def)
  then have "younger url (ce_exp e) (Store now k x c) \<subseteq> N" using p(1) k(1) by (auto simp: survives_def)
  moreover have "map_of (entries (Store now k x c)) url = Some e" using q(1) k(2) by (simp add: eq update_conv')
  ultimately show ?thesis by (simp add: survives_def)
qed

lemma survives_ops:
  assumes "survives url e N c" "finite N" "int (card N) < cap c" "stored_keys ops \<subseteq> N - {url, ''''}"
    and "\<forall>op \<in> set ops. op_time op < ce_exp e"
  shows "survives url e N (do_ops ops c) \<and> cap (do_ops ops c) = cap c"
  using assms
proof (induction ops arbitrary: c)
  case (Cons op ops)
  have rest: "stored_keys ops \<subseteq> N - {url, ''''}" using Cons.prems(4) by (auto simp: stored_keys_def)
  have "survives url e N (do_op op c) \<and> cap (do_op op c) = cap c"
  proof (cases op)
    case (Stores now k x)
    then have "k \<in> stored_keys (op # ops)" by (auto simp: stored_keys_def)
    then show ?thesis using Cons.prems Stores survives_store [of url e N c now k x] by auto
  qed (use Cons.prems in \<open>simp_all add: Load_def Len_def Let_def survives_prune pruneExpiredLocked_def [of _ c, THEN arg_cong [where f = cap]]\<close>)
  then show ?case using Cons.IH [OF _ Cons.prems(2) _ rest] Cons.prems(3,5) by simp
qed simp

text \<open>An expired entry is gone, whatever happened since it was stored, unless its own URL was stored again.\<close>

lemma ops_same_entry:
  "\<forall>x. (url, x) \<in> set (entries c) \<longrightarrow> x = e \<Longrightarrow> cache_ok c \<Longrightarrow> url \<notin> stored_keys ops \<Longrightarrow>
     (\<forall>x. (url, x) \<in> set (entries (do_ops ops c)) \<longrightarrow> x = e) \<and> cache_ok (do_ops ops c)"
proof (induction ops arbitrary: c)
  case (Cons op ops)
  have rest: "url \<notin> stored_keys ops" using Cons.prems(3) by (auto simp: stored_keys_def)
  have "(\<forall>x. (url, x) \<in> set (entries (do_op op c)) \<longrightarrow> x = e) \<and> cache_ok (do_op op c)"
  proof (cases op)
    case (Stores now k y)
    have "k \<noteq> url" using Cons.prems(3) Stores by (auto simp: stored_keys_def)
    moreover have "set (entries (Store now k y c)) \<subseteq> insert (k, y) (set (entries c))"
      by (auto simp: Store_def Let_def evictOldestLocked_def AList.delete_eq entries_prune dest!: subsetD [OF set_update_subset])
    ultimately show ?thesis using Cons.prems(1,2) Stores by (auto simp: Store_ok)
  qed (use Cons.prems(1,2) in \<open>auto simp: Load_ok Len_ok\<close>, auto simp: Load_def Len_def Let_def entries_prune)
  from Cons.IH [OF conjunct1 [OF this] conjunct2 [OF this] rest] show ?case by simp
qed simp

text \<open>
  C32: A successful fetch serves the URL for the TTL: until 30 seconds after the reading its expiry came from, a call for
  that URL returns the same parameters and asks the endpoint nothing, whatever its context and any fetch under way, and
  whatever other callers loaded and counted and stored for other URLs in between, as long as the cache is not cleared and
  not crowded: fewer URLs than its limit (256) are stored meanwhile or were held already with a later expiry. From the
  expiry on the entry is gone.
\<close>

theorem FetchChainParams_serves_ttl:
  assumes "cache_ok c" "fst (Load (t_load t) url c) = None" "t_load t \<le> t_again t"
    and "FetchChainParams fetch t None None url (w, c) = (Inr p, w', c')"
    and "url \<noteq> ''''" "'''' \<notin> fst ` set (entries c)"
    and "\<forall>op \<in> set ops. op_time op \<le> t_load s" "stored_keys ops \<inter> {url, ''''} = {}"
    and "int (card (younger url (t_exp t + 30 * 10 ^ 9) c \<union> stored_keys ops)) < cap c"
  shows "if t_load s < t_exp t + 30 * 10 ^ 9
         then \<exists>c''. FetchChainParams fetch' s flight cerr url (v, do_ops ops c') = (Inr p, v, c'')
         else fst (Load (t_load s) url (do_ops ops c')) = None"
proof -
  define c1 where "c1 = snd (Load (t_again t) url (snd (Load (t_load t) url c)))"
  define e where "e = \<lparr>ce_cp = p, ce_exp = t_exp t + chainParamsTTL\<rparr>"
  let ?N = "younger url (ce_exp e) c \<union> stored_keys ops"
  have ok: "cache_ok c1" using assms(1) by (simp add: c1_def Load_ok)
  have sub1: "set (entries c1) \<subseteq> set (entries c)" by (auto simp: c1_def Load_def Let_def entries_prune)
  have none: "map_of (entries c1) url = None"
    using Load_miss_later [OF assms(1-3)] by (simp add: c1_def Load_def Let_def)
  have c': "c' = Store (t_store t) url e c1"
    using assms(4) unfolding fetch_miss [OF assms(1-3)] by (auto simp: c1_def e_def split: prod.splits sum.splits)
  have sub: "set (entries c') \<subseteq> insert (url, e) (set (entries c1))"
    unfolding c' by (auto simp: Store_def Let_def evictOldestLocked_def AList.delete_eq entries_prune dest!: subsetD [OF set_update_subset])
  have same: "\<forall>x. (url, x) \<in> set (entries c') \<longrightarrow> x = e" using sub none by (force simp: map_of_eq_None_iff)
  have ok': "cache_ok c'" "cap c' = cap c" using ok by (simp_all add: c' Store_ok c1_def)
  have "survives url e ?N c'"
  proof -
    have "'''' \<notin> fst ` set (entries c')" using sub sub1 assms(5,6) by force
    moreover have "younger url (ce_exp e) c' \<subseteq> younger url (ce_exp e) c" using sub sub1 by (auto simp: younger_def)
    moreover have "map_of (entries c') url = Some e" unfolding c' by (rule Store_value)
    ultimately show ?thesis using ok' by (auto simp: survives_def)
  qed
  moreover have "stored_keys ops \<subseteq> ?N - {url, ''''}" using assms(8) by auto
  moreover have "int (card ?N) < cap c'" using assms(9) ok'(2) by (simp add: e_def chainParamsTTL_def)
  ultimately have alive: "survives url e ?N (do_ops ops c')" if "t_load s < ce_exp e"
    using survives_ops [of url e ?N c' ops] assms(7) that by fastforce
  have gone: "(\<forall>x. (url, x) \<in> set (entries (do_ops ops c')) \<longrightarrow> x = e) \<and> cache_ok (do_ops ops c')"
    using ops_same_entry [OF same ok'(1)] assms(8) by blast
  then have loaded: "fst (Load (t_load s) url (do_ops ops c')) = (case map_of (entries (do_ops ops c')) url of None \<Rightarrow> None
      | Some e \<Rightarrow> if t_load s < ce_exp e then Some e else None)" by (simp add: Load_value cache_ok_def)
  show ?thesis
  proof (cases "t_load s < ce_exp e")
    case True
    then have "fst (Load (t_load s) url (do_ops ops c')) = Some e" using alive loaded by (simp add: survives_def)
    then show ?thesis using True by (simp add: fetch_hit e_def chainParamsTTL_def)
  next
    case False
    then have "fst (Load (t_load s) url (do_ops ops c')) = None" using gone loaded by (auto split: option.splits dest!: map_of_SomeD)
    then show ?thesis using False by (simp add: e_def chainParamsTTL_def)
  qed
qed

text \<open>A fetch, then a store for another URL and a load of it, and the fetch is repeated.\<close>

lemma FetchChainParams_serves_ttl_witness:
  "\<exists>p c' c''. FetchChainParams (\<lambda>n. (Inr p, Suc n)) \<lparr>t_load = 0, t_again = 1, t_exp = 2, t_store = 3\<rparr> None None ''u''
       (0, \<lparr>entries = [], cap = 256\<rparr>) = (Inr p, 1, c') \<and>
     FetchChainParams (\<lambda>n. (Inr p, Suc n)) \<lparr>t_load = 9, t_again = 9, t_exp = 9, t_store = 9\<rparr> None None ''u''
       (1, do_ops [Stores 4 ''v'' \<lparr>ce_cp = p, ce_exp = 7\<rparr>, Loads 5 ''v''] c') = (Inr p, 1, c'')"
proof -
  define p :: chain_params where "p = undefined"
  define f :: "nat \<Rightarrow> (goerr + chain_params) \<times> nat" where "f = (\<lambda>n. (Inr p, Suc n))"
  define c0 where "c0 = \<lparr>entries = [], cap = 256\<rparr>"
  define t where "t = \<lparr>t_load = 0, t_again = 1, t_exp = 2, t_store = 3\<rparr>"
  define s where "s = \<lparr>t_load = 9, t_again = 9, t_exp = 9, t_store = 9\<rparr>"
  define ops where "ops = [Stores 4 ''v'' \<lparr>ce_cp = p, ce_exp = 7\<rparr>, Loads 5 ''v'']"
  have 1: "cache_ok c0" "fst (Load (t_load t) ''u'' c0) = None" "t_load t \<le> t_again t"
    by (simp_all add: c0_def cache_ok_def Load_def pruneExpiredLocked_def t_def)
  have k: "stored_keys ops = {''v''}" by (auto simp: stored_keys_def ops_def)
  have 3: "\<forall>op \<in> set ops. op_time op \<le> t_load s" by (simp add: ops_def s_def)
  have 4: "'''' \<notin> fst ` set (entries c0)" "stored_keys ops \<inter> {''u'', ''''} = {}"
    "int (card (younger ''u'' (t_exp t + 30 * 10 ^ 9) c0 \<union> stored_keys ops)) < cap c0"
    by (simp_all add: k c0_def younger_def)
  obtain c' where 2: "FetchChainParams f t None None ''u'' (0, c0) = (Inr p, 1, c')"
    using fetch_miss [OF 1, of f 0] by (auto simp: f_def)
  have "\<exists>c''. FetchChainParams f s None None ''u'' (1, do_ops ops c') = (Inr p, 1, c'')"
    using FetchChainParams_serves_ttl [OF 1 2 _ 4(1) 3 4(2,3), of f None None 1] by (simp add: t_def s_def)
  then show ?thesis using 2 unfolding f_def t_def s_def c0_def ops_def by blast
qed

end
