(* ===== verification/Rlpx_Wire.thy ===== *)
theory Rlpx_Wire
  imports Session Go_Strings
begin

text \<open>
  Package rlpx: the base-protocol codes (codes.go), Disconnect reasons (disconnect.go) and \<open>waitCloseReason\<close>
  (conn.go). The framed connection that packages eth, snap and wit talk to is a \<open>wire\<close>; the contract of the loops
  that wait on one is the locale \<open>wait_loop\<close>. Frames and the handshake are in \<open>Rlpx_Frame\<close>.
\<close>

section \<open>A framed connection\<close>

definition HelloMsg :: u64 where "HelloMsg = 0"
definition DiscMsg :: u64 where "DiscMsg = 1"
definition PingMsg :: u64 where "PingMsg = 2"
definition PongMsg :: u64 where "PongMsg = 3"

lemmas msg_codes = HelloMsg_def DiscMsg_def PingMsg_def PongMsg_def

text \<open>
  What a connection does is its environment's choice: the messages to come and the error after them, the result of
  the k-th write and of the k-th deadline call. The rest records what the code did: the messages written, the
  deadlines set (\<open>None\<close> clears), the number of closes, and whether payloads are compressed. A deadline that expires
  is a timeout error at the end of the messages.
\<close>

datatype deadline = SetDeadline "int option" | SetReadDeadline "int option"

record wire =
  w_in :: "(u64 \<times> bytes) list"
  w_end :: goerr
  w_res :: "nat \<Rightarrow> goerr option"
  w_dlres :: "nat \<Rightarrow> goerr option"
  w_out :: "(u64 \<times> bytes) list"
  w_deadlines :: "deadline list"
  w_closed :: nat
  w_snappy :: bool

definition wire_read :: "wire \<Rightarrow> (goerr + u64 \<times> bytes) \<times> wire" where
  "wire_read w = (case w_in w of [] \<Rightarrow> (Inl (w_end w), w) | m # ms \<Rightarrow> (Inr m, w\<lparr>w_in := ms\<rparr>))"

definition wire_write :: "u64 \<Rightarrow> bytes \<Rightarrow> wire \<Rightarrow> goerr option \<times> wire" where
  "wire_write code payload w = (w_res w (length (w_out w)), w\<lparr>w_out := w_out w @ [(code, payload)]\<rparr>)"

definition set_deadline :: "deadline \<Rightarrow> wire \<Rightarrow> goerr option \<times> wire" where
  "set_deadline d w = (w_dlres w (length (w_deadlines w)), w\<lparr>w_deadlines := w_deadlines w @ [d]\<rparr>)"

definition close_wire :: "wire \<Rightarrow> wire" where "close_wire w = w\<lparr>w_closed := Suc (w_closed w)\<rparr>"

text \<open>The prologue of the waits: set the read deadline, and clear it on the way out whatever happened.\<close>

definition with_read_deadline :: "int \<Rightarrow> (goerr \<Rightarrow> 'r) \<Rightarrow> (wire \<Rightarrow> 'r \<times> wire) \<Rightarrow> wire \<Rightarrow> 'r \<times> wire" where
  "with_read_deadline t failed body w =
     (case set_deadline (SetReadDeadline (Some t)) w of
        (Some e, w) \<Rightarrow> (failed e, w)
      | (None, w) \<Rightarrow> (case body w of (r, w) \<Rightarrow> (r, snd (set_deadline (SetReadDeadline None) w))))"

text \<open>Termination of the loops: every turn that goes on consumed a message.\<close>

lemma wire_read_shorter [termination_simp]:
  "wire_read w = (Inr m, w') \<Longrightarrow> length (w_in w') < length (w_in w)"
  by (auto simp: wire_read_def split: list.splits)

lemma wire_write_in [termination_simp]: "wire_write c p w = (r, w') \<Longrightarrow> w_in w' = w_in w"
  by (auto simp: wire_write_def)

lemma wire_read_simps [simp]:
  "w_in w = [] \<Longrightarrow> wire_read w = (Inl (w_end w), w)"
  "w_in w = m # ms \<Longrightarrow> wire_read w = (Inr m, w\<lparr>w_in := ms\<rparr>)"
  by (simp_all add: wire_read_def)

section \<open>Waiting\<close>

text \<open>
  The loops of rlpx, eth and wit that read until a message decides: a message decides or is passed over; a ping
  passed over is answered with \<open>pong\<close>, where the loop answers pings; a read error and a failed answer end it.
\<close>

locale wait_loop =
  fixes loop :: "wire \<Rightarrow> 'r \<times> wire"
    and decides :: "u64 \<Rightarrow> bytes \<Rightarrow> 'r option"
    and lost :: "goerr \<Rightarrow> 'r"
    and pong :: "bytes option"
    and broken :: "goerr \<Rightarrow> 'r"
  assumes loop_end: "w_in w = [] \<Longrightarrow> loop w = (lost (w_end w), w)"
    and loop_decided: "w_in w = (c, d) # ms \<Longrightarrow> decides c d = Some r \<Longrightarrow> loop w = (r, w\<lparr>w_in := ms\<rparr>)"
    and loop_ping: "w_in w = (PingMsg, d) # ms \<Longrightarrow> decides PingMsg d = None \<Longrightarrow> pong = Some p \<Longrightarrow>
          loop w = (case wire_write PongMsg p (w\<lparr>w_in := ms\<rparr>) of (Some e, w) \<Rightarrow> (broken e, w) | (None, w) \<Rightarrow> loop w)"
    and loop_skip: "w_in w = (c, d) # ms \<Longrightarrow> decides c d = None \<Longrightarrow> c \<noteq> PingMsg \<or> pong = None \<Longrightarrow>
          loop w = loop (w\<lparr>w_in := ms\<rparr>)"

text \<open>What such a loop owes: the messages before the first that decides, the pings among them.\<close>

definition passed :: "(u64 \<Rightarrow> bytes \<Rightarrow> 'r option) \<Rightarrow> (u64 \<times> bytes) list \<Rightarrow> (u64 \<times> bytes) list" where
  "passed decides ms = takeWhile (\<lambda>(c, d). decides c d = None) ms"

definition deciding :: "(u64 \<Rightarrow> bytes \<Rightarrow> 'r option) \<Rightarrow> (u64 \<times> bytes) list \<Rightarrow> (u64 \<times> bytes) list" where
  "deciding decides ms = dropWhile (\<lambda>(c, d). decides c d = None) ms"

definition answers :: "bytes option \<Rightarrow> (u64 \<times> bytes) list \<Rightarrow> (u64 \<times> bytes) list" where
  "answers pong ms =
     (case pong of None \<Rightarrow> [] | Some p \<Rightarrow> map (\<lambda>_. (PongMsg, p)) (filter (\<lambda>(c, d). c = PingMsg) ms))"

definition writes_ok :: "wire \<Rightarrow> nat \<Rightarrow> bool" where
  "writes_ok w n \<longleftrightarrow> list_all (\<lambda>k. w_res w (length (w_out w) + k) = None) [0..<n]"

definition wait_result :: "(u64 \<Rightarrow> bytes \<Rightarrow> 'r option) \<Rightarrow> (goerr \<Rightarrow> 'r) \<Rightarrow> wire \<Rightarrow> 'r" where
  "wait_result decides lost w =
     (case deciding decides (w_in w) of [] \<Rightarrow> lost (w_end w) | (c, d) # _ \<Rightarrow> the (decides c d))"

definition wait_wire :: "(u64 \<Rightarrow> bytes \<Rightarrow> 'r option) \<Rightarrow> bytes option \<Rightarrow> wire \<Rightarrow> wire" where
  "wait_wire decides pong w =
     w\<lparr>w_in := tl (deciding decides (w_in w)), w_out := w_out w @ answers pong (passed decides (w_in w))\<rparr>"

lemma passed_simps [simp]:
  "passed dec [] = []" "deciding dec [] = []"
  "passed dec ((c, d) # ms) = (if dec c d = None then (c, d) # passed dec ms else [])"
  "deciding dec ((c, d) # ms) = (if dec c d = None then deciding dec ms else (c, d) # ms)"
  by (simp_all add: passed_def deciding_def)

lemma answers_simps [simp]:
  "answers None ms = []" "answers pong [] = []"
  "answers (Some p) ((c, d) # ms) = (if c = PingMsg then (PongMsg, p) # answers (Some p) ms else answers (Some p) ms)"
  by (simp_all add: answers_def split: option.split)

lemma writes_ok_Suc:
  "writes_ok w (Suc n) \<longleftrightarrow>
     w_res w (length (w_out w)) = None \<and> list_all (\<lambda>k. w_res w (Suc (length (w_out w) + k)) = None) [0..<n]"
  by (simp add: writes_ok_def list_all_length All_less_Suc2 del: upt_Suc cong: conj_cong)

lemma writes_ok_0 [simp]: "writes_ok w 0" by (simp add: writes_ok_def)

context wait_loop
begin

text \<open>The loop is determined by the first message that decides; it answers each ping before it, once and in order.\<close>

lemma waits:
  "if writes_ok w (length (answers pong (passed decides (w_in w))))
   then loop w = (wait_result decides lost w, wait_wire decides pong w)
   else \<exists>e. fst (loop w) = broken e"
proof (induction "w_in w" arbitrary: w)
  case Nil
  then show ?case
    by (simp add: loop_end wait_result_def wait_wire_def flip: Nil)
next
  case (Cons m ms)
  obtain c d where m: "m = (c, d)" by (cases m)
  have w: "w_in w = (c, d) # ms" using Cons.hyps(2) m by simp
  show ?case
  proof (cases "decides c d")
    case (Some r)
    then show ?thesis
      by (simp add: loop_decided [OF w Some] w wait_result_def wait_wire_def writes_ok_def)
  next
    case None
    show ?thesis
    proof (cases "c = PingMsg \<and> pong \<noteq> None")
      case False
      have "loop w = loop (w\<lparr>w_in := ms\<rparr>)" using loop_skip [OF w None] False by blast
      moreover have "answers pong (passed decides (w_in w)) = answers pong (passed decides ms)"
        using w None False by (cases pong) auto
      ultimately show ?thesis
        using Cons.hyps(1) [of "w\<lparr>w_in := ms\<rparr>"] w None
        by (simp add: wait_result_def wait_wire_def writes_ok_def split: list.split)
    next
      case True
      then obtain p where p: "pong = Some p" "c = PingMsg" by auto
      define v where "v = w\<lparr>w_in := ms, w_out := w_out w @ [(PongMsg, p)]\<rparr>"
      have step: "loop w = (case w_res w (length (w_out w)) of Some e \<Rightarrow> (broken e, v) | None \<Rightarrow> loop v)"
        using loop_ping [of w d ms p] w None p by (simp add: wire_write_def v_def split: option.split)
      have len: "answers pong (passed decides (w_in w)) = (PongMsg, p) # answers pong (passed decides ms)"
        using w None p by simp
      have IH: "if writes_ok v (length (answers pong (passed decides ms)))
          then loop v = (wait_result decides lost v, wait_wire decides pong v)
          else \<exists>e. fst (loop v) = broken e"
        using Cons.hyps(1) [of v] by (simp add: v_def)
      have ok: "writes_ok v n \<longleftrightarrow> list_all (\<lambda>k. w_res w (Suc (length (w_out w) + k)) = None) [0..<n]" for n
        by (simp add: writes_ok_def v_def)
      have eq: "wait_result decides lost v = wait_result decides lost w"
        "wait_wire decides pong v = wait_wire decides pong w"
        using w None len by (simp_all add: wait_result_def wait_wire_def v_def split: list.split)
      show ?thesis
        unfolding len step list.size(4) add_0_right add_Suc_right writes_ok_Suc ok [symmetric]
        using IH eq by (cases "w_res w (length (w_out w))") (auto split: if_splits)
    qed
  qed
qed

lemma waits_ok:
  "writes_ok w (length (answers pong (passed decides (w_in w)))) \<Longrightarrow>
     loop w = (wait_result decides lost w, wait_wire decides pong w)"
  using waits [of w] by simp

end

section \<open>Disconnect\<close>

text \<open>
  \<open>rlp.Stream\<close> over a payload (third-party): whether it starts with a list, and what decoding a \<open>uint64\<close> gives at the
  start of the payload (\<open>False\<close>) or inside its list (\<open>True\<close>).
\<close>

record rlp_stream =
  st_kind :: "bytes \<Rightarrow> goerr + bool"
  st_uint :: "bool \<Rightarrow> bytes \<Rightarrow> goerr + u64"

definition disconnectReasonName :: "u64 \<Rightarrow> string" where
  "disconnectReasonName reason =
     (if reason = 0x00 then ''disconnect requested''
      else if reason = 0x01 then ''network error''
      else if reason = 0x02 then ''breach of protocol''
      else if reason = 0x03 then ''useless peer''
      else if reason = 0x04 then ''too many peers''
      else if reason = 0x05 then ''already connected''
      else if reason = 0x06 then ''incompatible p2p protocol version''
      else if reason = 0x07 then ''invalid node identity''
      else if reason = 0x08 then ''client quitting''
      else if reason = 0x09 then ''unexpected identity''
      else if reason = 0x0a then ''connected to self''
      else if reason = 0x0b then ''read timeout''
      else if reason = 0x10 then ''subprotocol error''
      else if reason = 0xff then ''invalid disconnect reason''
      else ''unknown disconnect reason '' @ show_nat (unat reason))"

definition disconnectReasonHex :: "u64 \<Rightarrow> string" where
  "disconnectReasonHex reason =
     (if reason \<le> 0xff then ''0x'' @ [hex_digit (unat reason div 16), hex_digit (unat reason mod 16)]
      else ''0x'' @ show_hex (unat reason))"

definition DecodeDisconnectReason :: "'s rlp_stream_scheme \<Rightarrow> bytes \<Rightarrow> u64 \<times> string" where
  "DecodeDisconnectReason st payload =
     (if payload = [] then (0, ''empty disconnect reason'')
      else (case err_bind (st_kind st payload) (\<lambda>is_list. st_uint st is_list payload) of
              Inl e \<Rightarrow> (0xff, ''invalid disconnect reason payload: '' @ err_text e)
            | Inr reason \<Rightarrow>
                (reason, disconnectReasonName reason @ '' ('' @ disconnectReasonHex reason @ '')'')))"

definition DisconnectDetail :: "string \<Rightarrow> string" where
  "DisconnectDetail reason =
     (let reason = trim_space reason
      in if reason = '''' then ''peer disconnected'' else ''peer disconnected: '' @ reason)"

section \<open>WaitCloseReason\<close>

function close_loop :: "'s rlp_stream_scheme \<Rightarrow> wire \<Rightarrow> (bool \<times> string) \<times> wire" where
  "close_loop st w =
     (case wire_read w of
        (Inl e, w) \<Rightarrow> ((if is_timeout e then (False, '''') else (True, '''')), w)
      | (Inr (code, payload), w) \<Rightarrow>
          if code = DiscMsg then ((True, snd (DecodeDisconnectReason st payload)), w) else close_loop st w)"
  by pat_completeness auto
termination by (relation "measure (\<lambda>(st, w). length (w_in w))") (auto dest: wire_read_shorter [OF sym])

declare close_loop.simps [simp del]

definition waitCloseReason ::
    "'s rlp_stream_scheme \<Rightarrow> int \<Rightarrow> ('w, 'o, 'k) go_ctx option \<Rightarrow> int \<Rightarrow> wire \<Rightarrow> (bool \<times> string) \<times> wire" where
  "waitCloseReason st now ctx timeout =
     with_read_deadline (now + Remaining now ctx timeout) (\<lambda>e. (False, '''')) (close_loop st)"

definition WaitClose ::
    "'s rlp_stream_scheme \<Rightarrow> int \<Rightarrow> ('w, 'o, 'k) go_ctx option \<Rightarrow> int \<Rightarrow> wire \<Rightarrow> bool \<times> wire" where
  "WaitClose st now ctx timeout w = (case waitCloseReason st now ctx timeout w of ((closed, reason), w) \<Rightarrow> (closed, w))"

text \<open>What ends a wait for closure.\<close>

definition close_decides :: "'s rlp_stream_scheme \<Rightarrow> u64 \<Rightarrow> bytes \<Rightarrow> (bool \<times> string) option" where
  "close_decides st code payload =
     (if code = DiscMsg then Some (True, snd (DecodeDisconnectReason st payload)) else None)"

definition close_lost :: "goerr \<Rightarrow> bool \<times> string" where
  "close_lost e = (if is_timeout e then (False, '''') else (True, ''''))"

interpretation rlpx_close: wait_loop "close_loop st" "close_decides st" close_lost None "\<lambda>e. (True, '''')" for st
  by unfold_locales (auto simp: close_loop.simps [of st] close_decides_def close_lost_def split: if_splits)

end
