(* ===== verification/Eth_Caps.thy ===== *)
theory Eth_Caps
  imports Go_Strings "HOL-Library.List_Lexorder" "HOL-Library.Char_ord" "HOL-Library.AList"
begin

text \<open>
  Package eth, caps.go: the capability configuration and its validation, the default capability lists, the
  negotiation of the common capabilities, and the wire offsets they get. Go's \<open>uint\<close> has 64 bits; the maps of
  the code are association lists, and their key order disappears in the sort.
\<close>

record p2p_cap =
  cap_Name :: string
  cap_Version :: u64

record config =
  MaxVersion :: u64
  SnapVersion :: u64
  Capabilities :: "p2p_cap list"

definition baseProtocolLength :: u64 where "baseProtocolLength = 16"

definition supportedCapability :: "p2p_cap \<Rightarrow> bool" where
  "supportedCapability c \<longleftrightarrow>
     (if cap_Name c = ''eth'' then 68 \<le> cap_Version c \<and> cap_Version c \<le> 72
      else if cap_Name c = ''snap'' then cap_Version c = 1 \<or> cap_Version c = 2
      else if cap_Name c = ''wit'' then cap_Version c = 1
      else False)"

fun check_capabilities :: "p2p_cap list \<Rightarrow> p2p_cap list \<Rightarrow> goerr option" where
  "check_capabilities seen [] = None"
| "check_capabilities seen (c # cs) =
     (if \<not> supportedCapability c
      then Some (Errorf ''unsupported capability %s/%d'' [VStr (cap_Name c), VNat (unat (cap_Version c))])
      else if c \<in> set seen
      then Some (Errorf ''duplicate capability %s/%d'' [VStr (cap_Name c), VNat (unat (cap_Version c))])
      else check_capabilities (c # seen) cs)"

definition validate :: "config \<Rightarrow> goerr option" where
  "validate c =
     (if Capabilities c \<noteq> [] \<and> (MaxVersion c \<noteq> 0 \<or> SnapVersion c \<noteq> 0)
      then Some (Errorf ''exact capabilities cannot be combined with MaxVersion or SnapVersion'' [])
      else if MaxVersion c \<noteq> 0 \<and> (MaxVersion c < 68 \<or> 72 < MaxVersion c)
      then Some (Errorf ''unsupported ETH max version %d (want 68 through 72)'' [VNat (unat (MaxVersion c))])
      else if SnapVersion c \<noteq> 0 \<and> SnapVersion c \<noteq> 1 \<and> SnapVersion c \<noteq> 2
      then Some (Errorf ''unsupported SNAP version %d (want 1 or 2)'' [VNat (unat (SnapVersion c))])
      else check_capabilities [] (Capabilities c))"

text \<open>The loop of \<open>ethCapabilities\<close> counts down to 68, through zero if it starts below.\<close>

function eth_countdown :: "u64 \<Rightarrow> p2p_cap list" where
  "eth_countdown version =
     \<lparr>cap_Name = ''eth'', cap_Version = version\<rparr> # (if version = 68 then [] else eth_countdown (version - 1))"
  by pat_completeness auto
termination
proof (relation "measure (\<lambda>v. unat (v - 68))", rule wf_measure)
  fix version :: u64
  assume "version \<noteq> 68"
  then have "version - 68 \<noteq> 0" by simp
  then have "unat (version - 68 - 1) < unat (version - 68)" by (rule measure_unat)
  then show "(version - 1, version) \<in> measure (\<lambda>v. unat (v - 68))" by (simp add: algebra_simps)
qed

declare eth_countdown.simps [simp del]

text \<open>\<open>make\<close> panics (\<open>None\<close>) on a negative capacity.\<close>

definition ethCapabilities :: "u64 \<Rightarrow> p2p_cap list option" where
  "ethCapabilities maxVersion = (if sint maxVersion - 67 < 0 then None else Some (eth_countdown maxVersion))"

definition capabilities :: "config \<Rightarrow> p2p_cap list option" where
  "capabilities c =
     (if Capabilities c \<noteq> [] then Some (Capabilities c)
      else (case ethCapabilities (if MaxVersion c = 0 then 70 else MaxVersion c) of
              None \<Rightarrow> None
            | Some caps \<Rightarrow>
                Some (if SnapVersion c \<noteq> 0 then caps @ [\<lparr>cap_Name = ''snap'', cap_Version = SnapVersion c\<rparr>] else caps)))"

section \<open>Negotiation\<close>

fun local_versions :: "(string \<times> u64 list) list \<Rightarrow> p2p_cap list \<Rightarrow> goerr + (string \<times> u64 list) list" where
  "local_versions m [] = Inr m"
| "local_versions m (c # cs) =
     (if \<not> supportedCapability c
      then Inl (Errorf ''unsupported local capability %s/%d'' [VStr (cap_Name c), VNat (unat (cap_Version c))])
      else local_versions
             (AList.update (cap_Name c)
                (cap_Version c # (case map_of m (cap_Name c) of None \<Rightarrow> [] | Some vs \<Rightarrow> vs)) m) cs)"

definition has_version :: "(string \<times> u64 list) list \<Rightarrow> p2p_cap \<Rightarrow> bool" where
  "has_version m c \<longleftrightarrow> (case map_of m (cap_Name c) of None \<Rightarrow> False | Some vs \<Rightarrow> cap_Version c \<in> set vs)"

definition version_of :: "(string \<times> u64) list \<Rightarrow> string \<Rightarrow> u64" where
  "version_of m name = (case map_of m name of None \<Rightarrow> 0 | Some v \<Rightarrow> v)"

fun best_versions :: "(string \<times> u64 list) list \<Rightarrow> (string \<times> u64) list \<Rightarrow> p2p_cap list \<Rightarrow> (string \<times> u64) list" where
  "best_versions lv m [] = m"
| "best_versions lv m (c # cs) =
     best_versions lv
       (if has_version lv c \<and> version_of m (cap_Name c) < cap_Version c
        then AList.update (cap_Name c) (cap_Version c) m else m) cs"

definition negotiatedCapabilities :: "p2p_cap list \<Rightarrow> p2p_cap list \<Rightarrow> goerr + p2p_cap list" where
  "negotiatedCapabilities local remote =
     err_bind (local_versions [] local) (\<lambda>localVersions.
       let versions = best_versions localVersions [] remote;
           names = sort (map fst versions)
       in Inr (map (\<lambda>name. \<lparr>cap_Name = name, cap_Version = version_of versions name\<rparr>) names))"

section \<open>Message space\<close>

definition ProtocolLength :: "u64 \<Rightarrow> goerr + u64" where
  "ProtocolLength version =
     (if version = 68 then Inr 17
      else if version = 69 \<or> version = 70 then Inr 18
      else if version = 71 then Inr 20
      else if version = 72 then Inr 22
      else Inl (Errorf ''unsupported ETH protocol version %d'' [VNat (unat version)]))"

definition capabilityProtocolLength :: "string \<Rightarrow> u64 \<Rightarrow> goerr + u64" where
  "capabilityProtocolLength name version =
     (if name = ''eth'' then ProtocolLength version
      else if name = ''snap'' \<and> version = 1 then Inr 8
      else if name = ''snap'' \<and> version = 2 then Inr 10
      else if name = ''wit'' \<and> version = 1 then Inr 4
      else Inl (Errorf ''unsupported capability %s/%d'' [VStr name, VNat (unat version)]))"

fun offset_from :: "u64 \<Rightarrow> p2p_cap list \<Rightarrow> string \<Rightarrow> goerr + (u64 \<times> u64 \<times> bool)" where
  "offset_from offset [] name = Inr (0, 0, False)"
| "offset_from offset (c # cs) name =
     (if cap_Name c = name then Inr (offset, cap_Version c, True)
      else err_bind (capabilityProtocolLength (cap_Name c) (cap_Version c))
             (\<lambda>len. offset_from (offset + len) cs name))"

definition capabilityOffset :: "p2p_cap list \<Rightarrow> string \<Rightarrow> goerr + (u64 \<times> u64 \<times> bool)" where
  "capabilityOffset negotiated name = offset_from baseProtocolLength negotiated name"

section \<open>What negotiation computes\<close>

abbreviation cap_pair :: "p2p_cap \<Rightarrow> string \<times> u64" where "cap_pair c \<equiv> (cap_Name c, cap_Version c)"

definition common_versions :: "p2p_cap list \<Rightarrow> p2p_cap list \<Rightarrow> string \<Rightarrow> u64 set" where
  "common_versions local remote name = {v. (name, v) \<in> cap_pair ` set local \<and> (name, v) \<in> cap_pair ` set remote}"

lemma local_versions_ok:
  "\<forall>c \<in> set cs. supportedCapability c \<Longrightarrow>
     \<exists>m'. local_versions m cs = Inr m' \<and>
          (\<forall>c. has_version m' c \<longleftrightarrow> has_version m c \<or> cap_pair c \<in> cap_pair ` set cs)"
proof (induction cs arbitrary: m)
  case (Cons d ds)
  let ?m = "AList.update (cap_Name d) (cap_Version d # (case map_of m (cap_Name d) of None \<Rightarrow> [] | Some vs \<Rightarrow> vs)) m"
  have "has_version ?m c \<longleftrightarrow> has_version m c \<or> cap_pair c = cap_pair d" for c
    by (auto simp: has_version_def update_conv' split: option.splits)
  then show ?case using Cons.IH [of ?m] Cons.prems by auto
qed simp

lemma local_versions_error:
  "\<not> (\<forall>c \<in> set cs. supportedCapability c) \<Longrightarrow> isl (local_versions m cs)"
  by (induction cs arbitrary: m) auto

text \<open>No entry of the running map is zero, so its keys are the names with a version.\<close>

definition map_ok :: "(string \<times> u64) list \<Rightarrow> bool" where
  "map_ok m \<longleftrightarrow> distinct (map fst m) \<and> (\<forall>n v. map_of m n = Some v \<longrightarrow> v \<noteq> 0)"

lemma map_ok_keys: "map_ok m \<Longrightarrow> set (map fst m) = {n. version_of m n \<noteq> 0}"
  by (auto simp: map_ok_def version_of_def map_of_eq_None_iff split: option.splits)

lemma map_ok_update: "map_ok m \<Longrightarrow> v \<noteq> 0 \<Longrightarrow> map_ok (AList.update n v m)"
  by (auto simp: map_ok_def update_conv' distinct_update)

lemma version_of_update: "version_of (AList.update n v m) k = (if k = n then v else version_of m k)"
  by (simp add: version_of_def update_conv')

definition offered :: "(string \<times> u64 list) list \<Rightarrow> p2p_cap list \<Rightarrow> string \<Rightarrow> u64 set" where
  "offered lv cs n = {cap_Version c | c. c \<in> set cs \<and> has_version lv c \<and> cap_Name c = n}"

lemma offered_simps:
  "offered lv [] n = {}"
  "offered lv (c # cs) n = (if has_version lv c \<and> cap_Name c = n then insert (cap_Version c) (offered lv cs n) else offered lv cs n)"
  by (auto simp: offered_def)

lemma finite_offered [simp]: "finite (offered lv cs n)"
  by (induction cs) (simp_all add: offered_simps)

lemma best_versions_spec:
  "map_ok m \<Longrightarrow> map_ok (best_versions lv m cs) \<and>
     version_of (best_versions lv m cs) n = Max (insert (version_of m n) (offered lv cs n))"
proof (induction cs arbitrary: m)
  case Nil
  then show ?case by (simp add: offered_simps)
next
  case (Cons c cs)
  let ?m = "if has_version lv c \<and> version_of m (cap_Name c) < cap_Version c
        then AList.update (cap_Name c) (cap_Version c) m else m"
  have "x < v \<Longrightarrow> v \<noteq> (0 :: u64)" for x v by auto
  then have ok: "map_ok ?m" using Cons.prems map_ok_update [of m "cap_Version c" "cap_Name c"] by auto
  have "version_of ?m n = (if has_version lv c \<and> cap_Name c = n then max (version_of m n) (cap_Version c) else version_of m n)"
    by (auto simp: version_of_update max_def)
  moreover have "Max (insert (max a b) S) = Max (insert a (insert b S))" if "finite S" for a b :: u64 and S
    using that by (cases "S = {}") (simp_all add: max.assoc max.left_commute)
  ultimately show ?case using Cons.IH [OF ok] by (simp add: offered_simps)
qed

lemma sort_distinct_set:
  "distinct xs \<Longrightarrow> set xs = S \<Longrightarrow> sort xs = sorted_list_of_set S"
  by (auto simp: sorted_list_of_set_sort_remdups distinct_remdups_id)

definition newest_common :: "p2p_cap list \<Rightarrow> p2p_cap list \<Rightarrow> p2p_cap list" where
  "newest_common local remote =
     map (\<lambda>n. \<lparr>cap_Name = n, cap_Version = Max (common_versions local remote n)\<rparr>)
       (sorted_list_of_set {n. common_versions local remote n \<noteq> {}})"

lemma negotiated_eq:
  assumes "\<forall>c \<in> set local. supportedCapability c"
  shows "negotiatedCapabilities local remote = Inr (newest_common local remote)"
proof -
  obtain lv where L: "local_versions [] local = Inr lv" and H: "\<And>c. has_version lv c \<longleftrightarrow> cap_pair c \<in> cap_pair ` set local"
    using local_versions_ok [OF assms, of "[]"] by (auto simp: has_version_def)
  have C: "offered lv remote n = common_versions local remote n" for n
    by (auto simp: offered_def common_versions_def H image_iff) (metis p2p_cap.select_convs)+
  have pos: "0 \<notin> common_versions local remote n" for n
    using assms by (auto simp: common_versions_def supportedCapability_def split: if_splits)
  let ?v = "best_versions lv [] remote"
  have ok: "map_ok []" by (simp add: map_ok_def)
  note spec = best_versions_spec [OF ok, of lv remote]
  have v0: "version_of [] n = 0" for n by (simp add: version_of_def)
  have fin: "finite (common_versions local remote n)" for n by (simp flip: C)
  have ver: "version_of ?v n = (if common_versions local remote n = {} then 0 else Max (common_versions local remote n))" for n
    using spec [of n] fin [of n] by (simp add: v0 C max_def)
  have "Max (common_versions local remote n) \<noteq> 0" if "common_versions local remote n \<noteq> {}" for n
    using Max_in [OF fin that] pos [of n] by metis
  then have "{n. version_of ?v n \<noteq> 0} = {n. common_versions local remote n \<noteq> {}}"
    by (simp add: ver)
  then have names: "sort (map fst ?v) = sorted_list_of_set {n. common_versions local remote n \<noteq> {}}"
    using spec map_ok_keys by (intro sort_distinct_set) (auto simp: map_ok_def)
  have "finite {n. common_versions local remote n \<noteq> {}}"
    by (rule finite_subset [of _ "cap_Name ` set local"]) (auto simp: common_versions_def)
  then show ?thesis
    using ver by (simp add: negotiatedCapabilities_def L Let_def names newest_common_def)
qed

text \<open>
  C30: Negotiation: an unsupported local capability is an error; otherwise the result holds, in lexicographic order of
  the names, every name both sides list a common version of, at the highest such version, whatever else the peer
  advertises.
\<close>

theorem negotiation_is_newest_common:
  "(if list_all supportedCapability local
    then negotiatedCapabilities local remote = Inr (newest_common local remote)
    else isl (negotiatedCapabilities local remote))"
proof (cases "list_all supportedCapability local")
  case True
  then show ?thesis by (simp add: negotiated_eq list_all_iff)
next
  case False
  then have "isl (negotiatedCapabilities local remote)"
    unfolding negotiatedCapabilities_def list_all_iff by (intro isl_err_bind local_versions_error)
  then show ?thesis using False by (simp only: if_False)
qed

text \<open>
  The two ends agree: with the roles swapped, two peers with supported capabilities negotiate the same list, hence
  the same version and wire offset for every protocol.
\<close>

theorem negotiation_symmetric:
  assumes "\<forall>c \<in> set a. supportedCapability c" "\<forall>c \<in> set b. supportedCapability c"
  shows "negotiatedCapabilities a b = negotiatedCapabilities b a"
proof -
  have "common_versions a b = common_versions b a" by (auto simp: common_versions_def fun_eq_iff)
  then show ?thesis by (simp add: negotiated_eq assms newest_common_def)
qed

theorem negotiation_symmetric_witness:
  "negotiatedCapabilities [\<lparr>cap_Name = ''eth'', cap_Version = 68\<rparr>, \<lparr>cap_Name = ''snap'', cap_Version = 1\<rparr>]
     [\<lparr>cap_Name = ''snap'', cap_Version = 1\<rparr>, \<lparr>cap_Name = ''eth'', cap_Version = 69\<rparr>]
   = negotiatedCapabilities [\<lparr>cap_Name = ''snap'', cap_Version = 1\<rparr>, \<lparr>cap_Name = ''eth'', cap_Version = 69\<rparr>]
     [\<lparr>cap_Name = ''eth'', cap_Version = 68\<rparr>, \<lparr>cap_Name = ''snap'', cap_Version = 1\<rparr>]"
  by (rule negotiation_symmetric) (simp_all add: supportedCapability_def)

section \<open>Wire offsets\<close>

lemma supported_name: "supportedCapability c \<Longrightarrow> cap_Name c \<in> {''eth'', ''snap'', ''wit''}"
  by (auto simp: supportedCapability_def split: if_splits)

lemma sorted_list_of_filter:
  fixes xs :: "'a::linorder list"
  assumes "\<And>n. P n \<Longrightarrow> n \<in> set xs" "sorted xs" "distinct xs"
  shows "sorted_list_of_set {n. P n} = filter P xs"
proof -
  have "set (filter P xs) = {n. P n}" using assms(1) by auto
  moreover have "sorted (filter P xs)" using sorted_filter [of id xs P] assms(2) by simp
  ultimately show ?thesis using assms(3) by (metis distinct_filter sorted_list_of_set.idem_if_sorted_distinct)
qed

lemma newest_common_names:
  assumes "\<forall>c \<in> set local. supportedCapability c"
  shows "newest_common local remote =
     map (\<lambda>n. \<lparr>cap_Name = n, cap_Version = Max (common_versions local remote n)\<rparr>)
       (filter (\<lambda>n. common_versions local remote n \<noteq> {}) [''eth'', ''snap'', ''wit''])"
proof -
  have "n \<in> set [''eth'', ''snap'', ''wit'']" if ne: "common_versions local remote n \<noteq> {}" for n
  proof -
    obtain v where "(n, v) \<in> cap_pair ` set local" using ne unfolding common_versions_def by blast
    then obtain c where "c \<in> set local" "cap_Name c = n" by blast
    then have "n \<in> {''eth'', ''snap'', ''wit''}" using supported_name [of c] assms by metis
    then show ?thesis by (simp only: list.set)
  qed
  moreover have "sorted [''eth'', ''snap'', ''wit'']" "distinct [''eth'', ''snap'', ''wit'']"
    by (simp_all add: less_eq_list_code less_list_code less_char_def)
  ultimately have "sorted_list_of_set {n. common_versions local remote n \<noteq> {}} =
      filter (\<lambda>n. common_versions local remote n \<noteq> {}) [''eth'', ''snap'', ''wit'']"
    by (rule sorted_list_of_filter)
  then show ?thesis by (simp only: newest_common_def)
qed

lemma eth_version_cases:
  fixes v :: u64
  assumes "68 \<le> v" "v \<le> 72"
  shows "v = 68 \<or> v = 69 \<or> v = 70 \<or> v = 71 \<or> v = 72"
proof -
  have "unat v = 68 \<or> unat v = 69 \<or> unat v = 70 \<or> unat v = 71 \<or> unat v = 72"
    using assms by (simp add: word_le_nat_alt) linarith
  then show ?thesis by (simp add: word_unat_eq_iff)
qed

lemma supported_length: "supportedCapability c \<Longrightarrow> \<exists>l. capabilityProtocolLength (cap_Name c) (cap_Version c) = Inr l"
  using eth_version_cases [of "cap_Version c"]
  by (auto simp: supportedCapability_def capabilityProtocolLength_def ProtocolLength_def split: if_splits)

text \<open>The length of the message space of a name, zero if it was not negotiated.\<close>

definition space :: "p2p_cap list \<Rightarrow> p2p_cap list \<Rightarrow> string \<Rightarrow> u64" where
  "space local remote n =
     (if common_versions local remote n = {} then 0
      else (case capabilityProtocolLength n (Max (common_versions local remote n)) of Inl _ \<Rightarrow> 0 | Inr l \<Rightarrow> l))"

lemma space_length:
  assumes "\<forall>c \<in> set local. supportedCapability c" "common_versions local remote n \<noteq> {}"
  shows "capabilityProtocolLength n (Max (common_versions local remote n)) = Inr (space local remote n)"
proof -
  have fin: "finite (common_versions local remote n)"
    by (rule finite_subset [of _ "cap_Version ` set local"]) (auto simp: common_versions_def)
  have "Max (common_versions local remote n) \<in> common_versions local remote n" using Max_in [OF fin assms(2)] .
  then obtain c where "c \<in> set local" "cap_Name c = n" "cap_Version c = Max (common_versions local remote n)"
    by (auto simp: common_versions_def)
  then show ?thesis using supported_length [of c] assms by (auto simp: space_def)
qed

definition offset_of :: "p2p_cap list \<Rightarrow> p2p_cap list \<Rightarrow> string \<Rightarrow> u64 \<Rightarrow> goerr + (u64 \<times> u64 \<times> bool)" where
  "offset_of local remote n off =
     (if common_versions local remote n = {} then Inr (0, 0, False)
      else Inr (off, Max (common_versions local remote n), True))"

lemma capability_offsets:
  assumes "\<forall>c \<in> set local. supportedCapability c"
  shows "capabilityOffset (newest_common local remote) ''eth'' = offset_of local remote ''eth'' 16"
    and "capabilityOffset (newest_common local remote) ''snap'' =
           offset_of local remote ''snap'' (16 + space local remote ''eth'')"
    and "capabilityOffset (newest_common local remote) ''wit'' =
           offset_of local remote ''wit'' (16 + space local remote ''eth'' + space local remote ''snap'')"
proof -
  have s: "common_versions local remote n = {} \<Longrightarrow> space local remote n = 0" for n by (simp add: space_def)
  note l = space_length [OF assms, of remote]
  show "capabilityOffset (newest_common local remote) ''eth'' = offset_of local remote ''eth'' 16"
    and "capabilityOffset (newest_common local remote) ''snap'' =
           offset_of local remote ''snap'' (16 + space local remote ''eth'')"
    and "capabilityOffset (newest_common local remote) ''wit'' =
           offset_of local remote ''wit'' (16 + space local remote ''eth'' + space local remote ''snap'')"
    using s
    by (cases "common_versions local remote ''eth'' = {}"; cases "common_versions local remote ''snap'' = {}";
        cases "common_versions local remote ''wit'' = {}";
        simp add: newest_common_names [OF assms] capabilityOffset_def baseProtocolLength_def l add.assoc offset_of_def)+
qed

text \<open>
  The wire offsets: after a negotiation of supported capabilities the message spaces follow one another from 16 on,
  eth first, then snap, then wit, each as long as its negotiated version asks for; a name that was not negotiated has
  none. In particular the ETH offset is always 16, the constant \<open>WaitStatus\<close> relies on, and no two spaces overlap.
\<close>

theorem wire_offsets:
  "(let neg = newest_common local remote; common = common_versions local remote;
        at = (\<lambda>n off. if common n = {} then Inr (0, 0, False) else Inr (off, Max (common n), True))
    in if list_all supportedCapability local
       then negotiatedCapabilities local remote = Inr neg \<and>
            capabilityOffset neg ''eth'' = at ''eth'' 16 \<and>
            capabilityOffset neg ''snap'' = at ''snap'' (16 + space local remote ''eth'') \<and>
            capabilityOffset neg ''wit'' = at ''wit'' (16 + space local remote ''eth'' + space local remote ''snap'')
       else isl (negotiatedCapabilities local remote))"
proof (cases "list_all supportedCapability local")
  case True
  then have T: "\<forall>c \<in> set local. supportedCapability c" by (simp add: list_all_iff)
  show ?thesis
    using True negotiated_eq [OF T, of remote] capability_offsets [OF T, of remote] by (simp add: Let_def offset_of_def)
next
  case False
  then have "isl (negotiatedCapabilities local remote)"
    unfolding negotiatedCapabilities_def list_all_iff by (intro isl_err_bind local_versions_error)
  then show ?thesis using False by (simp only: if_False Let_def)
qed

section \<open>Validated configurations\<close>

lemma check_capabilities_ok:
  "check_capabilities seen cs = None \<longleftrightarrow>
     list_all supportedCapability cs \<and> distinct cs \<and> set cs \<inter> set seen = {}"
  by (induction seen cs rule: check_capabilities.induct) auto

lemma eth_countdown_range:
  "v = 68 \<or> v = 69 \<or> v = 70 \<or> v = 71 \<or> v = 72 \<Longrightarrow>
     list_all supportedCapability (eth_countdown v) \<and> distinct (eth_countdown v) \<and> eth_countdown v \<noteq> [] \<and>
     \<lparr>cap_Name = ''snap'', cap_Version = s\<rparr> \<notin> set (eth_countdown v) \<and> 0 \<le> sint v - 67"
  by (elim disjE) (simp_all add: eth_countdown.simps supportedCapability_def)

lemma validated_caps:
  assumes "validate c = None"
  shows "\<exists>caps. capabilities c = Some caps \<and> caps \<noteq> [] \<and> distinct caps \<and> list_all supportedCapability caps"
proof -
  note v = assms [unfolded validate_def]
  show ?thesis
  proof (cases "Capabilities c = []")
    case True
    let ?v = "if MaxVersion c = 0 then 70 else MaxVersion c"
    have "?v = 68 \<or> ?v = 69 \<or> ?v = 70 \<or> ?v = 71 \<or> ?v = 72"
      using v eth_version_cases [of "MaxVersion c"] by (auto simp: not_less split: if_splits)
    note r = eth_countdown_range [OF this, of "SnapVersion c"]
    have "SnapVersion c \<noteq> 0 \<Longrightarrow> supportedCapability \<lparr>cap_Name = ''snap'', cap_Version = SnapVersion c\<rparr>"
      using v by (auto simp: supportedCapability_def split: if_splits)
    then show ?thesis using True r
      by (simp add: capabilities_def ethCapabilities_def)
  next
    case False
    then show ?thesis using v by (auto simp: capabilities_def check_capabilities_ok split: if_splits)
  qed
qed

text \<open>
  C37: A configuration that passes \<open>validate\<close> never panics and yields a non-empty list of distinct, supported
  capabilities, so the negotiation that follows cannot fail on the local side.
\<close>

theorem validated_capabilities:
  "(if validate c = None
    then (case capabilities c of
            None \<Rightarrow> False
          | Some caps \<Rightarrow> caps \<noteq> [] \<and> distinct caps \<and> list_all supportedCapability caps
                         \<and> \<not> isl (negotiatedCapabilities caps remote))
    else True)"
proof (cases "validate c = None")
  case True
  then show ?thesis using validated_caps [OF True] by (auto simp: negotiated_eq list_all_iff)
next
  case False
  then show ?thesis by (simp only: if_False)
qed

end
