(* ===== verification/Eth_Status.thy ===== *)
theory Eth_Status
  imports Rlpx_Wire Eth_Caps Fork_Id
begin

text \<open>
  Package eth, status.go and request.go: the Status packets, their validation against the local chain, the fork-ID
  rejection that asks for a retry, and the request-identifier helpers (also those of package snap). RLP reflection
  is third-party: its encoders and decoders are the parameter \<open>eth_rlp\<close>.
\<close>

section \<open>Packets\<close>

record status_packet =
  sp_ProtocolVersion :: u32
  sp_NetworkID :: u64
  sp_Genesis :: hash
  sp_ForkID :: fork_id
  sp_EarliestBlock :: u64
  sp_LatestBlock :: u64
  sp_LatestBlockHash :: hash

record Status68 =
  s68_ProtocolVersion :: u32
  s68_NetworkID :: u64
  s68_TD :: int
  s68_Head :: hash
  s68_Genesis :: hash
  s68_ForkID :: fork_id

record protoHandshake =
  ph_Version :: u64
  ph_Name :: string
  ph_Caps :: "p2p_cap list"
  ph_ListenPort :: u64
  ph_ID :: bytes
  ph_Rest :: "bytes list"

record eth_rlp = rlp_stream +
  enc_status :: "status_packet \<Rightarrow> goerr + bytes"
  dec_status :: "bytes \<Rightarrow> goerr + status_packet"
  enc_status68 :: "Status68 \<Rightarrow> goerr + bytes"
  dec_status68 :: "bytes \<Rightarrow> goerr + Status68"
  enc_hello :: "protoHandshake \<Rightarrow> goerr + bytes"
  dec_hello :: "bytes \<Rightarrow> goerr + protoHandshake"
  split_list :: "bytes \<Rightarrow> goerr + (bytes \<times> bytes)"
  split_uint64 :: "bytes \<Rightarrow> goerr + (u64 \<times> bytes)"

definition no_fork :: fork_id where "no_fork = \<lparr>fid_Hash = [0, 0, 0, 0], fid_Next = 0\<rparr>"

section \<open>Status\<close>

definition encodeStatus :: "eth_rlp \<Rightarrow> u64 \<Rightarrow> chain_params \<Rightarrow> goerr + bytes" where
  "encodeStatus rl ethVersion params =
     (if 69 \<le> ethVersion
      then enc_status rl
             \<lparr>sp_ProtocolVersion = ucast ethVersion, sp_NetworkID = NetworkID params, sp_Genesis = Genesis params,
              sp_ForkID = ForkID params, sp_EarliestBlock = 0, sp_LatestBlock = HeadNumber params,
              sp_LatestBlockHash = HeadHash params\<rparr>
      else enc_status68 rl
             \<lparr>s68_ProtocolVersion = ucast ethVersion, s68_NetworkID = NetworkID params, s68_TD = 0,
              s68_Head = HeadHash params, s68_Genesis = Genesis params, s68_ForkID = ForkID params\<rparr>)"

text \<open>\<open>forkIDRejectedError\<close> is the wrapped error with its own text; \<open>errors.As\<close> looks for it along the chain.\<close>

definition forkIDRejectedError :: "goerr \<Rightarrow> goerr" where
  "forkIDRejectedError cause = Wrapf ''fork ID rejected: %w'' [] cause"

fun as_rejected :: "goerr \<Rightarrow> bool" where
  "as_rejected (Wrapf f a e) \<longleftrightarrow> f = ''fork ID rejected: %w'' \<or> as_rejected e"
| "as_rejected (Join d e) \<longleftrightarrow> as_rejected d \<or> as_rejected e"
| "as_rejected e \<longleftrightarrow> False"

definition retryForkID :: "fork_id \<Rightarrow> goerr \<Rightarrow> fork_id \<times> goerr option" where
  "retryForkID remote err = (if as_rejected err then (remote, Some err) else (no_fork, Some err))"

definition hash_arg :: "hash \<Rightarrow> arg" where "hash_arg h = VStr (''0x'' @ hex_bytes (be_bytes 32 h))"

definition validateStatusIdentity ::
    "u64 \<Rightarrow> u32 \<Rightarrow> u64 \<Rightarrow> hash \<Rightarrow> fork_id \<Rightarrow> chain_params \<Rightarrow> goerr option" where
  "validateStatusIdentity ethVersion protocolVersion networkID genesis remoteFork params =
     (if ucast protocolVersion \<noteq> ethVersion
      then Some (Errorf ''protocol version %d does not match negotiated eth/%d''
             [VNat (unat protocolVersion), VNat (unat ethVersion)])
      else if networkID \<noteq> NetworkID params
      then Some (Errorf ''network ID %d does not match %d'' [VNat (unat networkID), VNat (unat (NetworkID params))])
      else if genesis \<noteq> Genesis params
      then Some (Errorf ''genesis %s does not match %s'' [hash_arg genesis, hash_arg (Genesis params)])
      else map_option forkIDRejectedError (ValidateForkID params remoteFork))"

definition decodeAndValidateStatus ::
    "eth_rlp \<Rightarrow> u64 \<Rightarrow> bytes \<Rightarrow> chain_params option \<Rightarrow> fork_id \<times> goerr option" where
  "decodeAndValidateStatus rl ethVersion payload params =
     (case params of None \<Rightarrow> (no_fork, Some (Errorf ''chain parameters are nil'' []))
      | Some params \<Rightarrow>
        if ethVersion = 68 then
          (case dec_status68 rl payload of
             Inl e \<Rightarrow> (no_fork, Some (Wrapf ''decode eth/68 status: %w'' [] e))
           | Inr s \<Rightarrow>
               (case validateStatusIdentity ethVersion (s68_ProtocolVersion s) (s68_NetworkID s) (s68_Genesis s)
                       (s68_ForkID s) params of
                  Some e \<Rightarrow> retryForkID (s68_ForkID s) e
                | None \<Rightarrow> (s68_ForkID s, None)))
        else if ethVersion < 69 \<or> 72 < ethVersion
        then (no_fork, Some (Errorf ''unsupported ETH protocol version %d'' [VNat (unat ethVersion)]))
        else
          (case dec_status rl payload of
             Inl e \<Rightarrow> (no_fork, Some (Wrapf ''decode eth/%d status: %w'' [VNat (unat ethVersion)] e))
           | Inr s \<Rightarrow>
               (case validateStatusIdentity ethVersion (sp_ProtocolVersion s) (sp_NetworkID s) (sp_Genesis s)
                       (sp_ForkID s) params of
                  Some e \<Rightarrow> retryForkID (sp_ForkID s) e
                | None \<Rightarrow>
                    if sp_LatestBlock s < sp_EarliestBlock s
                    then (no_fork, Some (Errorf ''invalid block range: earliest %d exceeds latest %d''
                           [VNat (unat (sp_EarliestBlock s)), VNat (unat (sp_LatestBlock s))]))
                    else if sp_LatestBlockHash s = 0
                    then (no_fork, Some (Errorf ''invalid block range: zero latest block hash'' []))
                    else (sp_ForkID s, None))))"

section \<open>What Status validation accepts\<close>

lemma as_rejected_rejected [simp]: "as_rejected (forkIDRejectedError e)"
  by (simp add: forkIDRejectedError_def)

text \<open>The identity a peer claims, and when it fits the local chain.\<close>

definition identity_ok :: "u64 \<Rightarrow> u32 \<Rightarrow> u64 \<Rightarrow> hash \<Rightarrow> chain_params \<Rightarrow> bool" where
  "identity_ok v pv nid g p \<longleftrightarrow> ucast pv = v \<and> nid = NetworkID p \<and> g = Genesis p"

lemma validateStatusIdentity_mismatch:
  "\<not> identity_ok v pv nid g p \<Longrightarrow> \<exists>f a. validateStatusIdentity v pv nid g fid p = Some (Errorf f a)"
  by (auto simp: validateStatusIdentity_def identity_ok_def)

text \<open>The outcome by cause, for either packet form.\<close>

definition status_verdict :: "bool \<Rightarrow> bool \<Rightarrow> goerr option \<Rightarrow> fork_id \<Rightarrow> fork_id \<times> goerr option \<Rightarrow> bool" where
  "status_verdict identity ranged fork_check fid r \<longleftrightarrow>
     (if \<not> identity then fst r = no_fork \<and> snd r \<noteq> None \<and> \<not> as_rejected (the (snd r))
      else case fork_check of
             Some e \<Rightarrow> r = (fid, Some (forkIDRejectedError e))
           | None \<Rightarrow> if ranged then r = (fid, None)
                     else fst r = no_fork \<and> snd r \<noteq> None \<and> \<not> as_rejected (the (snd r)))"

lemma status_verdict_identity:
  "\<not> identity_ok v pv nid g p \<Longrightarrow>
     (case validateStatusIdentity v pv nid g fid p of Some e \<Rightarrow> retryForkID fid e | None \<Rightarrow> r) =
       (no_fork, validateStatusIdentity v pv nid g fid p)"
  using validateStatusIdentity_mismatch [of v pv nid g p fid] by (auto simp: retryForkID_def)

lemma status_verdict_step:
  "(\<not> ranged \<Longrightarrow> fst r = no_fork \<and> snd r \<noteq> None \<and> \<not> as_rejected (the (snd r))) \<Longrightarrow> (ranged \<Longrightarrow> r = (fid, None)) \<Longrightarrow>
   status_verdict (identity_ok v pv nid g p) ranged (ValidateForkID p fid) fid
     (case validateStatusIdentity v pv nid g fid p of Some e \<Rightarrow> retryForkID fid e | None \<Rightarrow> r)"
proof (cases "identity_ok v pv nid g p")
  case True
  assume "\<not> ranged \<Longrightarrow> fst r = no_fork \<and> snd r \<noteq> None \<and> \<not> as_rejected (the (snd r))" "ranged \<Longrightarrow> r = (fid, None)"
  then show ?thesis
    using True by (cases "ValidateForkID p fid")
      (simp_all add: validateStatusIdentity_def identity_ok_def status_verdict_def retryForkID_def)
next
  case False
  then show ?thesis
    using validateStatusIdentity_mismatch [OF False, of fid]
    by (auto simp: status_verdict_def status_verdict_identity)
qed

text \<open>
  Status validation. For each supported version: a packet that does not decode, claims another version, network
  or genesis, or (from eth/69) an empty or hashless block range is refused with the zero fork ID; one whose fork ID
  fails EIP-2124 is refused as a fork-ID rejection and its fork ID handed back for the retry; everything else is
  accepted with its fork ID. Any other version is refused.
\<close>

theorem Status_validation:
  "if v = 68 then
     (case dec_status68 rl payload of
        Inl e \<Rightarrow> decodeAndValidateStatus rl v payload (Some p) = (no_fork, Some (Wrapf ''decode eth/68 status: %w'' [] e))
      | Inr s \<Rightarrow> status_verdict (identity_ok v (s68_ProtocolVersion s) (s68_NetworkID s) (s68_Genesis s) p) True
                  (ValidateForkID p (s68_ForkID s)) (s68_ForkID s) (decodeAndValidateStatus rl v payload (Some p)))
   else if 69 \<le> v \<and> v \<le> 72 then
     (case dec_status rl payload of
        Inl e \<Rightarrow> decodeAndValidateStatus rl v payload (Some p) =
                   (no_fork, Some (Wrapf ''decode eth/%d status: %w'' [VNat (unat v)] e))
      | Inr s \<Rightarrow> status_verdict (identity_ok v (sp_ProtocolVersion s) (sp_NetworkID s) (sp_Genesis s) p)
                  (sp_EarliestBlock s \<le> sp_LatestBlock s \<and> sp_LatestBlockHash s \<noteq> 0)
                  (ValidateForkID p (sp_ForkID s)) (sp_ForkID s) (decodeAndValidateStatus rl v payload (Some p)))
   else decodeAndValidateStatus rl v payload (Some p) =
          (no_fork, Some (Errorf ''unsupported ETH protocol version %d'' [VNat (unat v)]))"
  by (auto simp: decodeAndValidateStatus_def not_less not_le intro!: status_verdict_step split: sum.split)

section \<open>Honest peers\<close>

text \<open>Parameters as \<open>fetchChainParamsUncached\<close> builds them: the fork ID is the one of the head.\<close>

definition own_fork_id :: "chain_params \<Rightarrow> bool" where
  "own_fork_id p \<longleftrightarrow> ForkID p = computeForkID (Genesis p) (HeadNumber p) (HeadTime p) (local_schedule p)"

definition same_chain :: "chain_params \<Rightarrow> chain_params \<Rightarrow> bool" where
  "same_chain p q \<longleftrightarrow> Genesis p = Genesis q \<and> NetworkID p = NetworkID q \<and>
     ForkBlocks p = ForkBlocks q \<and> ForkTimes p = ForkTimes q"

text \<open>What the exchange relies on from the RLP package: decoding undoes encoding.\<close>

definition rlp_round_trip :: "eth_rlp \<Rightarrow> bool" where
  "rlp_round_trip rl \<longleftrightarrow>
     (\<forall>s b. enc_status rl s = Inr b \<longrightarrow> dec_status rl b = Inr s) \<and>
     (\<forall>s b. enc_status68 rl s = Inr b \<longrightarrow> dec_status68 rl b = Inr s)"

lemma version_word:
  "68 \<le> v \<Longrightarrow> v \<le> 72 \<Longrightarrow> ucast (ucast v :: u32) = v" for v :: u64
  by (simp add: word_le_nat_alt word_unat_eq_iff unsigned_ucast_eq unsigned_take_bit_eq take_bit_nat_eq_self)

lemma honest_accepted:
  assumes "68 \<le> v" "v \<le> 72" "rlp_round_trip rl" "same_chain p q" "own_fork_id q" "HeadHash q \<noteq> 0"
    and "HeadNumber p \<noteq> - 1" "HeadTime p \<noteq> - 1" "distinct (local_sums p)"
    and "\<forall>f \<in> set (ForkBlocks p). f \<le> forkTimestampThreshold"
    and "encodeStatus rl v q = Inr b"
  shows "decodeAndValidateStatus rl v b (Some p) = (ForkID q, None)"
proof -
  have "local_schedule q = local_schedule p" using assms(4) by (simp add: same_chain_def )
  then have fork: "ValidateForkID p (ForkID q) = None"
    using same_chain_None [OF assms(7-10), of "HeadNumber q" "HeadTime q"] assms(4,5)
    by (simp add: own_fork_id_def same_chain_def)
  have valid: "validateStatusIdentity v (ucast v) (NetworkID q) (Genesis q) (ForkID q) p = None"
    using fork assms(4) version_word [OF assms(1,2)] by (simp add: validateStatusIdentity_def same_chain_def)
  show ?thesis
  proof (cases "v = 68")
    case True
    then show ?thesis
      using assms(3,11) valid by (auto simp: encodeStatus_def rlp_round_trip_def decodeAndValidateStatus_def)
  next
    case False
    then have "69 \<le> v" using assms(1) by (auto simp: word_le_nat_alt word_unat_eq_iff)
    then show ?thesis
      using False assms(2,3,6,11) valid
      by (auto simp: encodeStatus_def rlp_round_trip_def decodeAndValidateStatus_def)
  qed
qed

text \<open>
  Two honest nodes of one chain complete the Status exchange: whatever their heads, the Status one encodes from its
  chain parameters passes the other's validation with its fork ID, for every supported version, provided the
  sender's head hash is set, no block fork is past the timestamp threshold and the fork checksums do not collide.
\<close>

theorem honest_status_accepted:
  assumes "68 \<le> v" "v \<le> 72" "rlp_round_trip rl" "same_chain p q" "own_fork_id q" "HeadHash q \<noteq> 0"
    and "HeadNumber p \<noteq> - 1" "HeadTime p \<noteq> - 1" "distinct (local_sums p)"
    and "\<forall>f \<in> set (ForkBlocks p). f \<le> forkTimestampThreshold"
    and "encodeStatus rl v q = Inr b"
  shows "decodeAndValidateStatus rl v b (Some p) = (ForkID q, None)"
  using assms by (rule honest_accepted)

definition demo_peer :: chain_params where
  "demo_peer = demo_params\<lparr>HeadHash := 7, HeadNumber := 1,
     ForkID := computeForkID (Genesis demo_params) 1 (HeadTime demo_params) (local_schedule demo_params)\<rparr>"

definition demo_packet :: "chain_params \<Rightarrow> status_packet" where
  "demo_packet q = \<lparr>sp_ProtocolVersion = 70, sp_NetworkID = NetworkID q, sp_Genesis = Genesis q, sp_ForkID = ForkID q,
     sp_EarliestBlock = 0, sp_LatestBlock = HeadNumber q, sp_LatestBlockHash = HeadHash q\<rparr>"

text \<open>A codec that knows one packet: it encodes nothing else.\<close>

definition demo_codec :: eth_rlp where
  "demo_codec = \<lparr>st_kind = (\<lambda>b. Inl EOF), st_uint = (\<lambda>l b. Inl EOF),
     enc_status = (\<lambda>s. if s = demo_packet demo_peer then Inr [0xc1, 70] else Inl EOF),
     dec_status = (\<lambda>b. if b = [0xc1, 70] then Inr (demo_packet demo_peer) else Inl EOF),
     enc_status68 = (\<lambda>s. Inl EOF), dec_status68 = (\<lambda>b. Inl EOF),
     enc_hello = (\<lambda>h. Inl EOF), dec_hello = (\<lambda>b. Inl EOF),
     split_list = (\<lambda>b. Inl EOF), split_uint64 = (\<lambda>b. Inl EOF)\<rparr>"

lemma demo_codec_ok: "rlp_round_trip demo_codec"
  by (auto simp: rlp_round_trip_def demo_codec_def split: if_splits)

lemma demo_peer_encodes: "encodeStatus demo_codec 70 demo_peer = Inr [0xc1, 70]"
  by (simp add: encodeStatus_def demo_codec_def demo_packet_def)

lemma honest_status_accepted_witness:
  "decodeAndValidateStatus demo_codec 70 [0xc1, 70] (Some demo_params) = (ForkID demo_peer, None)"
proof (rule honest_status_accepted [where q = demo_peer])
  show "rlp_round_trip demo_codec" by (rule demo_codec_ok)
  show "same_chain demo_params demo_peer" by (simp add: same_chain_def demo_peer_def)
  show "own_fork_id demo_peer" by (simp add: own_fork_id_def demo_peer_def )
  show "HeadHash demo_peer \<noteq> 0" by (simp add: demo_peer_def)
  show "encodeStatus demo_codec 70 demo_peer = Inr [0xc1, 70]" by (rule demo_peer_encodes)
qed (use demo_ok in simp_all)

text \<open>The peer's own Status passes its own validation.\<close>

lemma demo_peer_accepts:
  "decodeAndValidateStatus demo_codec 70 [0xc1, 70] (Some demo_peer) = (ForkID demo_peer, None)"
proof -
  have sums: "local_sums demo_peer = local_sums demo_params" by (simp add: demo_peer_def local_sums_def)
  have "ValidateForkID demo_peer (ForkID demo_peer) = None"
    using same_chain_None [of demo_peer 1 "HeadTime demo_params"] demo_ok(3,4)
    by (simp add: sums) (simp add: demo_peer_def demo_params_def)
  then have "validateStatusIdentity 70 70 (NetworkID demo_peer) (Genesis demo_peer) (ForkID demo_peer) demo_peer = None"
    by (simp add: validateStatusIdentity_def)
  then show ?thesis
    by (simp add: decodeAndValidateStatus_def demo_codec_def) (simp add: demo_packet_def demo_peer_def)
qed

end
