(* ===== verification/Eth_Wait.thy ===== *)
theory Eth_Wait
  imports Eth_Status
begin

text \<open>
  Package eth: the pre-Status connection (\<open>PreStatusConn\<close> of conn.go), its sends, and every loop that waits on it:
  wait.go, \<open>waitStatusOutcome\<close> and \<open>ExchangeStatus\<close> of status.go, \<open>waitForWireRequestID\<close> of request.go; and the
  request helpers of request.go and of package snap. All the loops are instances of \<open>wait_loop\<close>.
\<close>

section \<open>Requests and responses\<close>

definition EthStatus :: u64 where "EthStatus = 0x00"
definition EthGetBlockHeaders :: u64 where "EthGetBlockHeaders = 0x03"
definition EthBlockHeaders :: u64 where "EthBlockHeaders = 0x04"
definition EthGetBlockBodies :: u64 where "EthGetBlockBodies = 0x05"
definition EthBlockBodies :: u64 where "EthBlockBodies = 0x06"
definition EthGetPooledTransactions :: u64 where "EthGetPooledTransactions = 0x09"
definition EthPooledTransactions :: u64 where "EthPooledTransactions = 0x0A"
definition EthGetReceipts :: u64 where "EthGetReceipts = 0x0F"
definition EthReceipts :: u64 where "EthReceipts = 0x10"
definition EthGetBlockAccessLists :: u64 where "EthGetBlockAccessLists = 0x12"
definition EthBlockAccessLists :: u64 where "EthBlockAccessLists = 0x13"
definition EthGetCells :: u64 where "EthGetCells = 0x14"
definition EthCells :: u64 where "EthCells = 0x15"

lemmas eth_codes =
  EthStatus_def EthGetBlockHeaders_def EthBlockHeaders_def EthGetBlockBodies_def EthBlockBodies_def
  EthGetPooledTransactions_def EthPooledTransactions_def EthGetReceipts_def EthReceipts_def
  EthGetBlockAccessLists_def EthBlockAccessLists_def EthGetCells_def EthCells_def

definition RequestForResponse :: "u64 \<Rightarrow> goerr + (u64 \<times> string)" where
  "RequestForResponse responseCode =
     (if responseCode = EthBlockHeaders then Inr (EthGetBlockHeaders, ''GetBlockHeaders'')
      else if responseCode = EthBlockBodies then Inr (EthGetBlockBodies, ''GetBlockBodies'')
      else if responseCode = EthPooledTransactions then Inr (EthGetPooledTransactions, ''GetPooledTransactions'')
      else if responseCode = EthReceipts then Inr (EthGetReceipts, ''GetReceipts'')
      else if responseCode = EthBlockAccessLists then Inr (EthGetBlockAccessLists, ''GetBlockAccessLists'')
      else if responseCode = EthCells then Inr (EthGetCells, ''GetCells'')
      else Inl (Errorf ''eth code 0x%x is not a known response code'' [VNat (unat responseCode)]))"

definition DecodeRequestID :: "eth_rlp \<Rightarrow> bytes \<Rightarrow> goerr + u64" where
  "DecodeRequestID rl payload =
     err_bind (split_list rl payload) (\<lambda>(content, _).
       err_bind (split_uint64 rl content) (\<lambda>(id, _). Inr id))"

definition solicitedResponseWait :: int where "solicitedResponseWait = 5 * 10 ^ 9"

section \<open>Waits on a framed connection\<close>

definition pong_payload :: bytes where "pong_payload = [0xC0]"

text \<open>
  Every loop below reads a message, returns on Disconnect and on the messages it waits for, answers a ping and goes
  on, and skips the rest. \<open>answer_ping\<close> is the common ping case.
\<close>

definition answer_ping :: "(goerr \<Rightarrow> 'r) \<Rightarrow> (wire \<Rightarrow> 'r \<times> wire) \<Rightarrow> wire \<Rightarrow> 'r \<times> wire" where
  "answer_ping broken continue w =
     (case wire_write PongMsg pong_payload w of (Some e, w) \<Rightarrow> (broken e, w) | (None, w) \<Rightarrow> continue w)"

lemma answer_ping_cong [fundef_cong]:
  "w = w' \<Longrightarrow> broken = broken' \<Longrightarrow> (\<And>v. w_in v = w_in w' \<Longrightarrow> continue v = continue' v) \<Longrightarrow>
     answer_ping broken continue w = answer_ping broken' continue' w'"
  by (auto simp: answer_ping_def wire_write_def split: option.split)

lemma answer_ping_loop:
  "answer_ping broken continue w =
     (case wire_write PongMsg [0xC0] w of (Some e, w) \<Rightarrow> (broken e, w) | (None, w) \<Rightarrow> continue w)"
  by (simp add: answer_ping_def pong_payload_def)

function status_loop :: "'s rlp_stream_scheme \<Rightarrow> wire \<Rightarrow> goerr option \<times> wire" where
  "status_loop st w =
     (case wire_read w of
        (Inl e, w) \<Rightarrow> (Some (Wrapf ''read status: %w'' [] e), w)
      | (Inr (code, payload), w) \<Rightarrow>
          if code = DiscMsg
          then (Some (Errorf ''peer disconnected before status: %s'' [VStr (snd (DecodeDisconnectReason st payload))]), w)
          else if code = 16 then (None, w)
          else if code = PingMsg
          then answer_ping (\<lambda>e. Some (Wrapf ''write pong: %w'' [] e)) (status_loop st) w
          else status_loop st w)"
  by pat_completeness auto
termination by (relation "measure (\<lambda>(st, w). length (w_in w))") (auto dest: wire_read_shorter [OF sym])

definition WaitStatus ::
    "'s rlp_stream_scheme \<Rightarrow> int \<Rightarrow> ('w, 'o, 'k) go_ctx option \<Rightarrow> int \<Rightarrow> wire \<Rightarrow> goerr option \<times> wire" where
  "WaitStatus st now ctx timeout =
     with_read_deadline (now + Remaining now ctx timeout)
       (\<lambda>e. Some (Wrapf ''set status deadline: %w'' [] e)) (status_loop st)"

function close_reason_loop :: "'s rlp_stream_scheme \<Rightarrow> wire \<Rightarrow> (bool \<times> string) \<times> wire" where
  "close_reason_loop st w =
     (case wire_read w of
        (Inl e, w) \<Rightarrow> ((if is_timeout e then (False, '''') else (True, '''')), w)
      | (Inr (code, payload), w) \<Rightarrow>
          if code = DiscMsg then ((True, snd (DecodeDisconnectReason st payload)), w)
          else if code = PingMsg then answer_ping (\<lambda>e. (True, '''')) (close_reason_loop st) w
          else close_reason_loop st w)"
  by pat_completeness auto
termination by (relation "measure (\<lambda>(st, w). length (w_in w))") (auto dest: wire_read_shorter [OF sym])

definition WaitCloseReason ::
    "'s rlp_stream_scheme \<Rightarrow> int \<Rightarrow> ('w, 'o, 'k) go_ctx option \<Rightarrow> int \<Rightarrow> wire \<Rightarrow> (bool \<times> string) \<times> wire" where
  "WaitCloseReason st now ctx timeout =
     with_read_deadline (now + Remaining now ctx timeout) (\<lambda>e. (False, '''')) (close_reason_loop st)"

definition WaitClose ::
    "'s rlp_stream_scheme \<Rightarrow> int \<Rightarrow> ('w, 'o, 'k) go_ctx option \<Rightarrow> int \<Rightarrow> wire \<Rightarrow> bool \<times> wire" where
  "WaitClose st now ctx timeout w = (case WaitCloseReason st now ctx timeout w of ((closed, _), w) \<Rightarrow> (closed, w))"

text \<open>\<open>waitStatusOutcome\<close> of status.go has the same body under another name.\<close>

function outcome_loop :: "'s rlp_stream_scheme \<Rightarrow> wire \<Rightarrow> (bool \<times> string) \<times> wire" where
  "outcome_loop st w =
     (case wire_read w of
        (Inl e, w) \<Rightarrow> ((if is_timeout e then (False, '''') else (True, '''')), w)
      | (Inr (code, payload), w) \<Rightarrow>
          if code = DiscMsg then ((True, snd (DecodeDisconnectReason st payload)), w)
          else if code = PingMsg then answer_ping (\<lambda>e. (True, '''')) (outcome_loop st) w
          else outcome_loop st w)"
  by pat_completeness auto
termination by (relation "measure (\<lambda>(st, w). length (w_in w))") (auto dest: wire_read_shorter [OF sym])

definition waitStatusOutcome ::
    "'s rlp_stream_scheme \<Rightarrow> int \<Rightarrow> ('w, 'o, 'k) go_ctx option \<Rightarrow> int \<Rightarrow> wire \<Rightarrow> (bool \<times> string) \<times> wire" where
  "waitStatusOutcome st now ctx timeout =
     with_read_deadline (now + Remaining now ctx timeout) (\<lambda>e. (False, '''')) (outcome_loop st)"

function request_loop :: "eth_rlp \<Rightarrow> u64 \<Rightarrow> string \<Rightarrow> int \<Rightarrow> wire \<Rightarrow> (goerr + u64 \<times> bytes) \<times> wire" where
  "request_loop rl wireCode label timeout w =
     (case wire_read w of
        (Inl e, w) \<Rightarrow> (Inl (Wrapf ''target did not send %s within %s: %w'' [VStr label, VInt timeout] e), w)
      | (Inr (code, payload), w) \<Rightarrow>
          if code = DiscMsg
          then (Inl (Errorf ''peer disconnected while waiting for %s: %s''
                  [VStr label, VStr (snd (DecodeDisconnectReason rl payload))]), w)
          else if code = PingMsg
          then answer_ping (\<lambda>e. Inl (Wrapf ''write pong while waiting for %s: %w'' [VStr label] e))
                 (request_loop rl wireCode label timeout) w
          else if code = PongMsg then request_loop rl wireCode label timeout w
          else if code = wireCode
          then (err_bind (wrap_err ''decode %s request id: %w'' [VStr label] (DecodeRequestID rl payload))
                  (\<lambda>id. Inr (id, payload)), w)
          else request_loop rl wireCode label timeout w)"
  by pat_completeness auto
termination by (relation "measure (\<lambda>(rl, c, l, t, w). length (w_in w))") (auto dest: wire_read_shorter [OF sym])

definition waitForWireRequestID ::
    "eth_rlp \<Rightarrow> int \<Rightarrow> ('w, 'o, 'k) go_ctx option \<Rightarrow> u64 \<Rightarrow> string \<Rightarrow> int \<Rightarrow> wire \<Rightarrow> (goerr + u64 \<times> bytes) \<times> wire" where
  "waitForWireRequestID rl now ctx wireCode label timeout =
     (let timeout = (if timeout \<le> 0 then solicitedResponseWait else timeout)
      in with_read_deadline (now + Remaining now ctx timeout)
           (\<lambda>e. Inl (Wrapf ''set %s deadline: %w'' [VStr label] e)) (request_loop rl wireCode label timeout))"

section \<open>The pre-Status connection\<close>

text \<open>Its socket and framing are the \<open>wire\<close>, passed beside it; \<open>obs\<close> below are the observer's calls.\<close>

record ('w, 'o, 'k) pre_status_conn =
  pc_ctx :: "('w, 'o, 'k) go_ctx option"
  pc_params :: chain_params
  pc_version :: u64
  pc_key :: 'k
  pc_ethOffset :: u64
  pc_snapOffset :: u64
  pc_peerCapabilities :: "p2p_cap list"

definition pc_observe :: "('w, 'o, 'k) pre_status_conn \<Rightarrow> string \<Rightarrow> u64 \<Rightarrow> bytes \<Rightarrow> ('o \<times> write_event) list" where
  "pc_observe c proto code payload =
     ObserveWrite (pc_ctx c) ((write_of proto)\<lparr>w_Code := code, w_Payload := payload\<rparr>)"

definition SendRaw ::
    "('w, 'o, 'k) pre_status_conn \<Rightarrow> u64 \<Rightarrow> bytes \<Rightarrow> wire \<Rightarrow> goerr option \<times> ('o \<times> write_event) list \<times> wire" where
  "SendRaw c wireCode payload w =
     (case wire_write wireCode payload w of (e, w) \<Rightarrow> (e, pc_observe c ''rlpx'' wireCode payload, w))"

definition SendETHRaw ::
    "('w, 'o, 'k) pre_status_conn \<Rightarrow> u64 \<Rightarrow> bytes \<Rightarrow> wire \<Rightarrow> goerr option \<times> ('o \<times> write_event) list \<times> wire" where
  "SendETHRaw c code payload w =
     (case wire_write (pc_ethOffset c + code) payload w of (e, w) \<Rightarrow> (e, pc_observe c ''eth'' code payload, w))"

text \<open>\<open>encoded\<close> is what the RLP encoder makes of the message.\<close>

definition SendETH ::
    "('w, 'o, 'k) pre_status_conn \<Rightarrow> u64 \<Rightarrow> goerr + bytes \<Rightarrow> wire \<Rightarrow> goerr option \<times> ('o \<times> write_event) list \<times> wire" where
  "SendETH c code encoded w =
     (case encoded of Inl e \<Rightarrow> (Some e, [], w) | Inr payload \<Rightarrow> SendETHRaw c code payload w)"

definition pre_WaitDisconnect ::
    "'s rlp_stream_scheme \<Rightarrow> int \<Rightarrow> ('w, 'o, 'k) pre_status_conn \<Rightarrow> int \<Rightarrow> wire \<Rightarrow> (bool \<times> string) \<times> wire" where
  "pre_WaitDisconnect st now c timeout = waitStatusOutcome st now (pc_ctx c) timeout"

definition pre_WaitForRequestID ::
    "eth_rlp \<Rightarrow> int \<Rightarrow> ('w, 'o, 'k) pre_status_conn \<Rightarrow> u64 \<Rightarrow> string \<Rightarrow> int \<Rightarrow> wire \<Rightarrow> (goerr + u64 \<times> bytes) \<times> wire" where
  "pre_WaitForRequestID rl now c requestCode label timeout =
     waitForWireRequestID rl now (pc_ctx c) (pc_ethOffset c + requestCode) label timeout"

section \<open>ExchangeStatus\<close>

function exchange_loop :: "eth_rlp \<Rightarrow> ('w, 'o, 'k) pre_status_conn \<Rightarrow> wire \<Rightarrow> goerr option \<times> wire" where
  "exchange_loop rl c w =
     (case wire_read w of
        (Inl e, w) \<Rightarrow> (Some (Wrapf ''read status: %w'' [] e), w)
      | (Inr (code, payload), w) \<Rightarrow>
          if code = pc_ethOffset c + EthStatus
          then (map_option (Wrapf ''validate status: %w'' [])
                  (snd (decodeAndValidateStatus rl (pc_version c) payload (Some (pc_params c)))), w)
          else if code = DiscMsg
          then (Some (Errorf (''peer disconnected during status exchange: '' @ snd (DecodeDisconnectReason rl payload)) []), w)
          else if code = PingMsg
          then answer_ping (\<lambda>e. Some (Wrapf ''write pong: %w'' [] e)) (exchange_loop rl c) w
          else exchange_loop rl c w)"
  by pat_completeness auto
termination by (relation "measure (\<lambda>(rl, c, w). length (w_in w))") (auto dest: wire_read_shorter [OF sym])

definition ExchangeStatus ::
    "eth_rlp \<Rightarrow> int \<Rightarrow> ('w, 'o, 'k) pre_status_conn \<Rightarrow> int \<Rightarrow> wire \<Rightarrow> goerr option \<times> ('o \<times> write_event) list \<times> wire" where
  "ExchangeStatus rl now c timeout w =
     (case encodeStatus rl (pc_version c) (pc_params c) of
        Inl e \<Rightarrow> (Some (Wrapf ''encode status: %w'' [] e), [], w)
      | Inr payload \<Rightarrow>
          (case SendETHRaw c EthStatus payload w of
             (Some e, obs, w) \<Rightarrow> (Some (Wrapf ''write status: %w'' [] e), obs, w)
           | (None, obs, w) \<Rightarrow>
               (case with_read_deadline (now + Remaining now (pc_ctx c) timeout)
                       (\<lambda>e. Some (Wrapf ''set status deadline: %w'' [] e)) (exchange_loop rl c) w of
                  (e, w) \<Rightarrow> (e, obs, w))))"

declare status_loop.simps [simp del] close_reason_loop.simps [simp del] outcome_loop.simps [simp del]
  request_loop.simps [simp del] exchange_loop.simps [simp del]

section \<open>The loops as waits\<close>

definition status_decides :: "'s rlp_stream_scheme \<Rightarrow> u64 \<Rightarrow> bytes \<Rightarrow> goerr option option" where
  "status_decides st code payload =
     (if code = DiscMsg
      then Some (Some (Errorf ''peer disconnected before status: %s'' [VStr (snd (DecodeDisconnectReason st payload))]))
      else if code = 16 then Some None else None)"

definition request_decides :: "eth_rlp \<Rightarrow> u64 \<Rightarrow> string \<Rightarrow> u64 \<Rightarrow> bytes \<Rightarrow> (goerr + u64 \<times> bytes) option" where
  "request_decides rl wireCode label code payload =
     (if code = DiscMsg
      then Some (Inl (Errorf ''peer disconnected while waiting for %s: %s''
             [VStr label, VStr (snd (DecodeDisconnectReason rl payload))]))
      else if code = PingMsg \<or> code = PongMsg \<or> code \<noteq> wireCode then None
      else Some (err_bind (wrap_err ''decode %s request id: %w'' [VStr label] (DecodeRequestID rl payload))
             (\<lambda>id. Inr (id, payload))))"

definition exchange_decides ::
    "eth_rlp \<Rightarrow> ('w, 'o, 'k) pre_status_conn \<Rightarrow> u64 \<Rightarrow> bytes \<Rightarrow> goerr option option" where
  "exchange_decides rl c code payload =
     (if code = pc_ethOffset c + EthStatus
      then Some (map_option (Wrapf ''validate status: %w'' [])
             (snd (decodeAndValidateStatus rl (pc_version c) payload (Some (pc_params c)))))
      else if code = DiscMsg
      then Some (Some (Errorf (''peer disconnected during status exchange: '' @ snd (DecodeDisconnectReason rl payload)) []))
      else None)"

lemmas decides_defs = close_decides_def status_decides_def request_decides_def exchange_decides_def

interpretation status_wait: wait_loop "status_loop st" "status_decides st"
  "\<lambda>e. Some (Wrapf ''read status: %w'' [] e)" "Some pong_payload" "\<lambda>e. Some (Wrapf ''write pong: %w'' [] e)" for st
  by unfold_locales (auto simp: status_loop.simps [of st] status_decides_def answer_ping_def msg_codes split: if_splits)

interpretation close_wait: wait_loop "close_reason_loop st" "close_decides st" close_lost "Some pong_payload"
  "\<lambda>e. (True, '''')" for st
  by unfold_locales
    (auto simp: close_reason_loop.simps [of st] close_decides_def close_lost_def answer_ping_def msg_codes split: if_splits)

interpretation outcome_wait: wait_loop "outcome_loop st" "close_decides st" close_lost "Some pong_payload"
  "\<lambda>e. (True, '''')" for st
  by unfold_locales
    (auto simp: outcome_loop.simps [of st] close_decides_def close_lost_def answer_ping_def msg_codes split: if_splits)

interpretation request_wait: wait_loop "request_loop rl wireCode label timeout" "request_decides rl wireCode label"
  "\<lambda>e. Inl (Wrapf ''target did not send %s within %s: %w'' [VStr label, VInt timeout] e)" "Some pong_payload"
  "\<lambda>e. Inl (Wrapf ''write pong while waiting for %s: %w'' [VStr label] e)" for rl wireCode label timeout
  by unfold_locales
    (auto simp: request_loop.simps [of rl] request_decides_def answer_ping_def msg_codes split: if_splits)

interpretation exchange_wait: wait_loop "exchange_loop rl c" "exchange_decides rl c"
  "\<lambda>e. Some (Wrapf ''read status: %w'' [] e)" "Some pong_payload" "\<lambda>e. Some (Wrapf ''write pong: %w'' [] e)" for rl c
  by unfold_locales (auto simp: exchange_loop.simps [of rl] exchange_decides_def answer_ping_def msg_codes split: if_splits)

section \<open>What the waits deliver\<close>

definition pings :: "(u64 \<times> bytes) list \<Rightarrow> nat" where
  "pings ms = length (filter (\<lambda>(c, d). c = PingMsg) ms)"

lemma answers_pings: "answers (Some p) ms = replicate (pings ms) (PongMsg, p)"
  by (simp add: answers_def pings_def map_replicate_const)

text \<open>An environment in which nothing the code does fails.\<close>

definition wire_fine :: "wire \<Rightarrow> bool" where
  "wire_fine w \<longleftrightarrow> (\<forall>k. w_res w k = None) \<and> (\<forall>k. w_dlres w k = None)"

lemma writes_ok_fine [simp]: "wire_fine w \<Longrightarrow> writes_ok w n"
  by (simp add: wire_fine_def writes_ok_def list_all_iff)

lemma wire_fine_upd [simp]:
  "wire_fine (w\<lparr>w_in := i\<rparr>) = wire_fine w" "wire_fine (w\<lparr>w_out := out\<rparr>) = wire_fine w"
  "wire_fine (w\<lparr>w_deadlines := d\<rparr>) = wire_fine w"
  by (simp_all add: wire_fine_def)

lemma with_read_deadline_fine:
  "wire_fine w \<Longrightarrow> wire_fine v \<Longrightarrow> body (w\<lparr>w_deadlines := w_deadlines w @ [SetReadDeadline (Some t)]\<rparr>) = (r, v) \<Longrightarrow>
     with_read_deadline t failed body w = (r, v\<lparr>w_deadlines := w_deadlines v @ [SetReadDeadline None]\<rparr>)"
  by (simp add: with_read_deadline_def set_deadline_def wire_fine_def)

lemma passed_append:
  "list_all (\<lambda>(c, d). dec c d = None) before \<Longrightarrow> dec c d = Some r \<Longrightarrow>
     passed dec (before @ (c, d) # rest) = before \<and> deciding dec (before @ (c, d) # rest) = (c, d) # rest"
  by (induction before) auto

text \<open>The outcome of a whole wait: set the deadline, pass over what does not decide, answer pings, clear the deadline.\<close>

definition waited :: "int \<Rightarrow> (u64 \<times> bytes) list \<Rightarrow> (u64 \<times> bytes) list \<Rightarrow> wire \<Rightarrow> wire" where
  "waited t before rest w =
     w\<lparr>w_in := rest, w_out := w_out w @ replicate (pings before) (PongMsg, pong_payload),
       w_deadlines := w_deadlines w @ [SetReadDeadline (Some t), SetReadDeadline None]\<rparr>"

context wait_loop
begin

lemma wait_decided:
  assumes "wire_fine w" "w_in w = before @ (c, d) # rest" "list_all (\<lambda>(c, d). decides c d = None) before"
    and "decides c d = Some r" "pong = Some pong_payload"
  shows "with_read_deadline t failed loop w = (r, waited t before rest w)"
proof -
  define v where "v = w\<lparr>w_deadlines := w_deadlines w @ [SetReadDeadline (Some t)]\<rparr>"
  define u where "u = v\<lparr>w_in := rest, w_out := w_out w @ replicate (pings before) (PongMsg, pong_payload)\<rparr>"
  have p: "passed decides (w_in v) = before" "deciding decides (w_in v) = (c, d) # rest"
    using passed_append [OF assms(3,4), of rest] assms(2) by (simp_all add: v_def)
  have fine: "wire_fine v" "wire_fine u" using assms(1) by (simp_all add: v_def u_def)
  then have "loop v = (wait_result decides lost v, wait_wire decides pong v)" by (simp add: waits_ok)
  moreover have "w_out v = w_out w" by (simp add: v_def)
  ultimately have "loop v = (r, u)"
    using p assms(4,5) by (simp add: wait_result_def wait_wire_def answers_pings u_def)
  from with_read_deadline_fine [where body = loop, OF assms(1) fine(2) this [unfolded v_def]]
  show ?thesis by (simp add: waited_def u_def v_def)
qed

end

text \<open>
  Waiting for a close. The two eth waits are the same function; and when no write or deadline call fails, all three
  waits for closure (the rlpx one answers no pings) report the first Disconnect with its reason, a failed read as a
  close without reason, and a timeout as still open.
\<close>

theorem close_waits_agree:
  "WaitCloseReason st now ctx timeout w = waitStatusOutcome st now ctx timeout w \<and>
   (if wire_fine w then
      (let verdict = (case dropWhile (\<lambda>(c, d). c \<noteq> DiscMsg) (w_in w) of
                        [] \<Rightarrow> (\<not> is_timeout (w_end w), '''')
                      | (c, d) # _ \<Rightarrow> (True, snd (DecodeDisconnectReason st d)))
       in fst (WaitCloseReason st now ctx timeout w) = verdict \<and>
          fst (Rlpx_Wire.waitCloseReason st now ctx timeout w) = verdict)
    else True)"
proof -
  have eq: "close_reason_loop st v = outcome_loop st v" for v
  proof (induction "length (w_in v)" arbitrary: v rule: less_induct)
    case less
    show ?case
      unfolding close_reason_loop.simps [of st v] outcome_loop.simps [of st v]
      using less by (cases "w_in v") (auto simp: answer_ping_def wire_write_def split: option.split)
  qed
  have dec: "(\<lambda>(c, d). close_decides st c d = None) = (\<lambda>(c, d). c \<noteq> DiscMsg)"
    by (auto simp: close_decides_def)
  have verdict: "wait_result (close_decides st) close_lost v =
      (case dropWhile (\<lambda>(c, d). c \<noteq> DiscMsg) (w_in v) of
         [] \<Rightarrow> (\<not> is_timeout (w_end v), '''') | (c, d) # _ \<Rightarrow> (True, snd (DecodeDisconnectReason st d)))" for v
  proof (cases "dropWhile (\<lambda>(c, d). c \<noteq> DiscMsg) (w_in v)")
    case Nil
    show ?thesis unfolding wait_result_def deciding_def dec Nil by (simp add: close_lost_def)
  next
    case (Cons m ms)
    then have "fst m = DiscMsg" by (auto simp: dropWhile_eq_Cons_conv)
    then show ?thesis
      using Cons by (cases m) (simp add: wait_result_def deciding_def dec close_decides_def)
  qed
  have "close_reason_loop st = outcome_loop st" using eq by (rule ext)
  then show ?thesis
    by (auto simp: WaitCloseReason_def waitStatusOutcome_def Rlpx_Wire.waitCloseReason_def Let_def
        with_read_deadline_def set_deadline_def wire_fine_def outcome_wait.waits_ok rlpx_close.waits_ok verdict
        writes_ok_def list_all_iff cong: list.case_cong)
qed

text \<open>
  C28: The Status exchange goes through. If nothing fails locally and the peer sends, after any messages other than a
  Disconnect or a Status, a Status that validates, then \<open>ExchangeStatus\<close> succeeds having written its own Status and one
  pong per ping, in order, consumed exactly the messages up to the peer's Status, and cleared the read deadline.
\<close>

theorem ExchangeStatus_succeeds:
  assumes "wire_fine w" "encodeStatus rl (pc_version c) (pc_params c) = Inr own"
    and "w_in w = before @ (pc_ethOffset c + EthStatus, payload) # rest"
    and "list_all (\<lambda>(code, d). code \<noteq> DiscMsg \<and> code \<noteq> pc_ethOffset c + EthStatus) before"
    and "decodeAndValidateStatus rl (pc_version c) payload (Some (pc_params c)) = (fid, None)"
  shows "ExchangeStatus rl now c timeout w =
     (None, pc_observe c ''eth'' EthStatus own,
      w\<lparr>w_in := rest,
        w_out := w_out w @ (pc_ethOffset c + EthStatus, own) # replicate (pings before) (PongMsg, pong_payload),
        w_deadlines := w_deadlines w @
          [SetReadDeadline (Some (now + Remaining now (pc_ctx c) timeout)), SetReadDeadline None]\<rparr>)"
proof -
  define v where "v = w\<lparr>w_out := w_out w @ [(pc_ethOffset c + EthStatus, own)]\<rparr>"
  have send: "SendETHRaw c EthStatus own w = (None, pc_observe c ''eth'' EthStatus own, v)"
    using assms(1) by (simp add: SendETHRaw_def wire_write_def wire_fine_def v_def)
  have skip: "list_all (\<lambda>(code, d). exchange_decides rl c code d = None) before"
    using assms(4) by (auto simp: exchange_decides_def list_all_iff)
  have dec: "exchange_decides rl c (pc_ethOffset c + EthStatus) payload = Some None"
    using assms(5) by (simp add: exchange_decides_def)
  have fine: "wire_fine v" and inv: "w_in v = before @ (pc_ethOffset c + EthStatus, payload) # rest"
    using assms(1,3) by (simp_all add: v_def)
  have "with_read_deadline t failed (exchange_loop rl c) v = (None, waited t before rest v)" for t failed
    by (rule exchange_wait.wait_decided [OF fine inv skip dec refl])
  then show ?thesis
    using assms(2) send by (simp add: ExchangeStatus_def waited_def) (simp add: v_def)
qed

definition demo_conn :: "(unit, unit, unit) pre_status_conn" where
  "demo_conn = \<lparr>pc_ctx = None, pc_params = demo_peer,
     pc_version = 70, pc_key = (), pc_ethOffset = 16, pc_snapOffset = 0, pc_peerCapabilities = []\<rparr>"

definition demo_wire :: wire where
  "demo_wire = \<lparr>w_in = [(PingMsg, []), (17, [5]), (16, [0xc1, 70])], w_end = EOF, w_res = (\<lambda>_. None), w_dlres = (\<lambda>_. None),
     w_out = [], w_deadlines = [], w_closed = 0, w_snappy = True\<rparr>"

lemma ExchangeStatus_succeeds_witness:
  "ExchangeStatus demo_codec 0 demo_conn 10 demo_wire =
     (None, [], demo_wire\<lparr>w_in := [], w_out := [(16, [0xc1, 70]), (PongMsg, pong_payload)],
        w_deadlines := [SetReadDeadline (Some 10), SetReadDeadline None]\<rparr>)"
proof -
  have peer: "pc_params demo_conn = demo_peer" by (simp add: demo_conn_def)
  have enc: "encodeStatus demo_codec (pc_version demo_conn) (pc_params demo_conn) = Inr [0xc1, 70]"
    using demo_peer_encodes by (simp add: peer) (simp add: demo_conn_def)
  have valid: "decodeAndValidateStatus demo_codec (pc_version demo_conn) [0xc1, 70] (Some (pc_params demo_conn)) =
      (ForkID demo_peer, None)"
    using demo_peer_accepts by (simp add: peer demo_conn_def)
  show ?thesis
    using ExchangeStatus_succeeds [of demo_wire demo_codec demo_conn "[0xc1, 70]" "[(PingMsg, []), (17, [5])]" "[0xc1, 70]" "[]"
        "ForkID demo_peer" 0 10, OF _ enc _ _ valid]
    by (simp add: demo_wire_def demo_conn_def wire_fine_def EthStatus_def msg_codes pings_def pc_observe_def
        ObserveWrite_def scopeFrom_def empty_scope_def Remaining_def)
qed

text \<open>
  The wait for a request answers with the first message of its code: with nothing failing locally, messages before it
  that are neither Disconnect nor of that code are passed over, their pings answered, and the result is the request
  identifier with the payload, or the decoding error; the deadline is the five-second default for a timeout of zero.
\<close>

theorem WaitForRequestID_first:
  assumes "wire_fine w" "w_in w = before @ (pc_ethOffset c + code, payload) # rest"
    and "list_all (\<lambda>(code', d). code' \<noteq> DiscMsg \<and> code' \<noteq> pc_ethOffset c + code) before"
    and "3 < pc_ethOffset c + code"
  shows "pre_WaitForRequestID rl now c code label timeout w =
     ((case DecodeRequestID rl payload of
         Inl e \<Rightarrow> Inl (Wrapf ''decode %s request id: %w'' [VStr label] e) | Inr rid \<Rightarrow> Inr (rid, payload)),
      waited (now + Remaining now (pc_ctx c) (if timeout \<le> 0 then 5 * 10 ^ 9 else timeout)) before rest w)"
proof -
  have skip: "list_all (\<lambda>(k, d). request_decides rl (pc_ethOffset c + code) label k d = None) before"
    using assms(3) by (auto simp: request_decides_def list_all_iff)
  have "pc_ethOffset c + code \<notin> {DiscMsg, PingMsg, PongMsg}" using assms(4) by (auto simp: msg_codes)
  then have dec: "request_decides rl (pc_ethOffset c + code) label (pc_ethOffset c + code) payload =
      Some (case DecodeRequestID rl payload of
         Inl e \<Rightarrow> Inl (Wrapf ''decode %s request id: %w'' [VStr label] e) | Inr rid \<Rightarrow> Inr (rid, payload))"
    by (simp add: request_decides_def split: sum.split)
  show ?thesis
    unfolding pre_WaitForRequestID_def waitForWireRequestID_def Let_def solicitedResponseWait_def
    by (rule request_wait.wait_decided [OF assms(1,2) skip dec refl])
qed

lemma WaitForRequestID_first_witness:
  "fst (pre_WaitForRequestID demo_codec 0 demo_conn 1 ''NewBlockHashes'' 0 demo_wire) =
     Inl (Wrapf ''decode %s request id: %w'' [VStr ''NewBlockHashes''] EOF)"
  using WaitForRequestID_first [of demo_wire "[(PingMsg, [])]" demo_conn 1 "[5]" "[(16, [0xc1, 70])]" demo_codec 0
      "''NewBlockHashes''" 0]
  by (simp add: demo_wire_def demo_conn_def wire_fine_def msg_codes DecodeRequestID_def demo_codec_def)

section \<open>Package snap\<close>

definition GetAccountRangeCode :: u64 where "GetAccountRangeCode = 0x00"
definition AccountRangeCode :: u64 where "AccountRangeCode = 0x01"
definition GetStorageRangesCode :: u64 where "GetStorageRangesCode = 0x02"
definition StorageRangesCode :: u64 where "StorageRangesCode = 0x03"
definition GetByteCodesCode :: u64 where "GetByteCodesCode = 0x04"
definition ByteCodesCode :: u64 where "ByteCodesCode = 0x05"
definition GetTrieNodesCode :: u64 where "GetTrieNodesCode = 0x06"
definition TrieNodesCode :: u64 where "TrieNodesCode = 0x07"
definition GetBlockAccessListsCode :: u64 where "GetBlockAccessListsCode = 0x08"
definition BlockAccessListsCode :: u64 where "BlockAccessListsCode = 0x09"

lemmas snap_codes =
  GetAccountRangeCode_def AccountRangeCode_def GetStorageRangesCode_def StorageRangesCode_def GetByteCodesCode_def
  ByteCodesCode_def GetTrieNodesCode_def TrieNodesCode_def GetBlockAccessListsCode_def BlockAccessListsCode_def

definition snap_RequestForResponse :: "u64 \<Rightarrow> goerr + (u64 \<times> string)" where
  "snap_RequestForResponse responseCode =
     (if responseCode = AccountRangeCode then Inr (GetAccountRangeCode, ''GetAccountRange'')
      else if responseCode = StorageRangesCode then Inr (GetStorageRangesCode, ''GetStorageRanges'')
      else if responseCode = ByteCodesCode then Inr (GetByteCodesCode, ''GetByteCodes'')
      else if responseCode = TrieNodesCode then Inr (GetTrieNodesCode, ''GetTrieNodes'')
      else if responseCode = BlockAccessListsCode then Inr (GetBlockAccessListsCode, ''GetBlockAccessLists'')
      else Inl (Errorf ''snap code 0x%x is not a known response code'' [VNat (unat responseCode)]))"

end
