(* ===== verification/Rlpx_Dial.thy ===== *)
theory Rlpx_Dial
  imports Eth_Wait
begin

text \<open>
  Package rlpx: dialing (\<open>dial\<close>, \<open>DialWithKey\<close> and \<open>clearDeadline\<close> of conn.go, hello.go), and the combinators the
  dials of rlpx, eth and wit are written with. Enode parsing, TCP, the cryptographic handshake and Keccak are the
  parameter \<open>dial_env\<close>. A dial returns its result and the sockets it opened, in order, as it left them.
\<close>

section \<open>Steps on one socket\<close>

type_synonym 'a io = "wire \<Rightarrow> (goerr + 'a) \<times> wire"

definition io_return :: "'a \<Rightarrow> 'a io" where "io_return x w = (Inr x, w)"

definition io_lift :: "goerr + 'a \<Rightarrow> 'a io" where "io_lift r w = (r, w)"

definition io_bind :: "'a io \<Rightarrow> ('a \<Rightarrow> 'b io) \<Rightarrow> 'b io" where
  "io_bind m f w = (case m w of (Inl e, w) \<Rightarrow> (Inl e, w) | (Inr x, w) \<Rightarrow> f x w)"

definition io_wrap :: "string \<Rightarrow> 'a io \<Rightarrow> 'a io" where
  "io_wrap f m w = (case m w of (r, w) \<Rightarrow> (wrap_err f [] r, w))"

definition io_write :: "u64 \<Rightarrow> bytes \<Rightarrow> unit io" where
  "io_write code payload w = (case wire_write code payload w of (e, w) \<Rightarrow> (to_err e, w))"

definition io_deadline :: "deadline \<Rightarrow> unit io" where
  "io_deadline d w = (case set_deadline d w of (e, w) \<Rightarrow> (to_err e, w))"

definition SetSnappy :: "bool \<Rightarrow> unit io" where "SetSnappy enabled w = (Inr (), w\<lparr>w_snappy := enabled\<rparr>)"

text \<open>The error paths of the dials close the socket before they return.\<close>

definition closing :: "'a io \<Rightarrow> 'a io" where
  "closing m w = (case m w of (Inl e, w) \<Rightarrow> (Inl e, close_wire w) | (Inr x, w) \<Rightarrow> (Inr x, w))"

named_theorems keeps_open \<open>steps that close nothing\<close>

definition quiet :: "'a io \<Rightarrow> bool" where "quiet m \<longleftrightarrow> (\<forall>w. w_closed (snd (m w)) = w_closed w)"

lemma quietI [intro]: "(\<And>w. w_closed (snd (m w)) = w_closed w) \<Longrightarrow> quiet m"
  by (simp add: quiet_def)

lemma quiet_bind [keeps_open]: "quiet m \<Longrightarrow> (\<And>x. quiet (f x)) \<Longrightarrow> quiet (io_bind m f)"
proof (rule quietI)
  fix w
  assume m: "quiet m" and f: "\<And>x. quiet (f x)"
  obtain r v where v: "m w = (r, v)" by (cases "m w")
  then have "w_closed v = w_closed w" using m by (metis quiet_def snd_conv)
  then show "w_closed (snd (io_bind m f w)) = w_closed w"
    using f v by (cases r) (simp_all add: io_bind_def quiet_def)
qed

lemma quiet_basic [keeps_open]:
  "quiet (io_return x)" "quiet (io_lift r)" "quiet (io_write code payload)" "quiet (io_deadline d)"
  "quiet (SetSnappy b)" "quiet wire_read"
  by (auto simp: io_return_def io_lift_def io_write_def wire_write_def io_deadline_def set_deadline_def SetSnappy_def
      wire_read_def split: list.split)

lemma quiet_wrap [keeps_open]: "quiet m \<Longrightarrow> quiet (io_wrap f m)"
  by (auto simp: quiet_def io_wrap_def split: prod.split) (metis snd_conv)

lemma quiet_if [keeps_open]: "quiet m \<Longrightarrow> quiet n \<Longrightarrow> quiet (if b then m else n)"
  by simp

lemma quiet_case_prod [keeps_open]: "(\<And>a b. quiet (f a b)) \<Longrightarrow> quiet (case p of (a, b) \<Rightarrow> f a b)"
  by (cases p) simp

lemma io_bind_Inr: "io_bind m f w = (Inr y, w') \<longleftrightarrow> (\<exists>x v. m w = (Inr x, v) \<and> f x v = (Inr y, w'))"
  by (auto simp: io_bind_def split: prod.split sum.split)

lemma io_deadline_Inr: "io_deadline d w = (Inr x, w') \<longleftrightarrow> w' = w\<lparr>w_deadlines := w_deadlines w @ [d]\<rparr> \<and>
     w_dlres w (length (w_deadlines w)) = None"
  by (auto simp: io_deadline_def set_deadline_def)

lemma io_wrap_Inr: "io_wrap f m w = (Inr x, w') \<longleftrightarrow> m w = (Inr x, w')"
  by (auto simp: io_wrap_def split: prod.split)

lemma closing_closed:
  "quiet m \<Longrightarrow> closing m w = (r, w') \<Longrightarrow> w_closed w' = (if isl r then Suc (w_closed w) else w_closed w)"
proof -
  assume q: "quiet m" and c: "closing m w = (r, w')"
  obtain x v where v: "m w = (x, v)" by (cases "m w")
  then have "w_closed v = w_closed w" using q by (metis quiet_def snd_conv)
  then show ?thesis using c v by (cases x) (auto simp: closing_def close_wire_def)
qed

lemma closing_Inr: "closing m w = (Inr x, w') \<longleftrightarrow> m w = (Inr x, w')"
  by (auto simp: closing_def split: prod.split sum.split)

section \<open>Sockets\<close>

text \<open>
  The socket discipline of a dial: an error leaves every socket it opened closed exactly once, a success leaves
  exactly the last one open.
\<close>

definition closed_once :: "wire list \<Rightarrow> bool" where "closed_once ws \<longleftrightarrow> list_all (\<lambda>w. w_closed w = 1) ws"

definition tidy :: "(goerr + 'r) \<times> wire list \<Rightarrow> bool" where
  "tidy out \<longleftrightarrow> (case out of
      (Inl e, ws) \<Rightarrow> closed_once ws
    | (Inr r, ws) \<Rightarrow> ws \<noteq> [] \<and> closed_once (butlast ws) \<and> w_closed (last ws) = 0)"

text \<open>Going on with the socket a dial left open; \<open>m\<close> works on it, and an error closes it.\<close>

definition on_last :: "('r \<Rightarrow> 'b io) \<Rightarrow> (goerr + 'r) \<times> wire list \<Rightarrow> (goerr + 'b) \<times> wire list" where
  "on_last m out = (case out of
      (Inl e, ws) \<Rightarrow> (Inl e, ws)
    | (Inr r, ws) \<Rightarrow> (case closing (m r) (last ws) of (x, w) \<Rightarrow> (x, butlast ws @ [w])))"

lemma tidy_on_last: "tidy out \<Longrightarrow> (\<And>r. quiet (m r)) \<Longrightarrow> tidy (on_last m out)"
proof (cases out)
  case (Pair r ws)
  assume t: "tidy out" and q: "\<And>r. quiet (m r)"
  show ?thesis
  proof (cases r)
    case (Inl e)
    then show ?thesis using t Pair by (simp add: on_last_def tidy_def)
  next
    case (Inr x)
    obtain y w where y: "closing (m x) (last ws) = (y, w)" by (cases "closing (m x) (last ws)")
    have "w_closed w = (if isl y then 1 else 0)"
      using closing_closed [OF q y] t Pair Inr by (simp add: tidy_def)
    then show ?thesis
      using t Pair Inr y by (cases y) (auto simp: on_last_def tidy_def closed_once_def)
  qed
qed

definition wrap_out :: "string \<Rightarrow> (goerr + 'r) \<times> wire list \<Rightarrow> (goerr + 'r) \<times> wire list" where
  "wrap_out f out = (case out of (r, ws) \<Rightarrow> (wrap_err f [] r, ws))"

lemma tidy_wrap_out [simp]: "tidy (wrap_out f out) = tidy out"
  by (cases out; cases "fst out") (auto simp: tidy_def wrap_out_def)

lemma tidy_fail [simp]: "tidy (Inl e, [])" by (simp add: tidy_def closed_once_def)

text \<open>The contract of a dial, and what its caller can count on.\<close>

locale socket_owner =
  fixes dial :: "'e \<Rightarrow> (goerr + 'r) \<times> wire list"
  assumes dial_tidy: "tidy (dial e)"
begin

lemma open_sockets: "length (filter (\<lambda>w. w_closed w = 0) (snd (dial e))) = (if isl (fst (dial e)) then 0 else 1)"
proof -
  have closed: "closed_once ws \<Longrightarrow> filter (\<lambda>w. w_closed w = 0) ws = []" for ws
    by (induction ws) (auto simp: closed_once_def)
  obtain r ws where d: "dial e = (r, ws)" by (cases "dial e")
  show ?thesis
  proof (cases r)
    case (Inl x)
    then show ?thesis using dial_tidy [of e] d closed [of ws] by (simp add: tidy_def)
  next
    case (Inr x)
    moreover obtain vs v where "ws = vs @ [v]"
      using dial_tidy [of e] d Inr by (cases ws rule: rev_cases) (simp_all add: tidy_def)
    ultimately show ?thesis using dial_tidy [of e] d closed [of vs] by (simp add: tidy_def)
  qed
qed

lemma closed_at_most_once: "list_all (\<lambda>w. w_closed w \<le> 1) (snd (dial e))"
proof -
  obtain r ws where d: "dial e = (r, ws)" by (cases "dial e")
  have imp: "closed_once vs \<Longrightarrow> list_all (\<lambda>w. w_closed w \<le> 1) vs" for vs
    by (auto simp: closed_once_def list_all_iff)
  show ?thesis
  proof (cases r)
    case (Inl x)
    then show ?thesis using dial_tidy [of e] d imp by (simp add: tidy_def)
  next
    case (Inr x)
    moreover obtain vs v where "ws = vs @ [v]"
      using dial_tidy [of e] d Inr by (cases ws rule: rev_cases) (simp_all add: tidy_def)
    ultimately show ?thesis using dial_tidy [of e] d imp [of vs] by (simp add: tidy_def)
  qed
qed

end

section \<open>The RLPx dial\<close>

record node =
  nd_ID :: bytes
  nd_text :: string

text \<open>
  The world outside: \<open>de_tcp k\<close> is the k-th TCP dial, \<open>de_handshake k\<close> and \<open>de_cipher k\<close> the outcome of
  \<open>initiatorHandshake\<close> and of the cipher set-up in \<open>newConn\<close> on its socket; \<open>de_send k\<close> is when, counted in reads, the
  goroutine of \<open>rawDial\<close> gets to write the Status.
\<close>

record 'k dial_env =
  de_now :: int
  de_parse :: "string \<Rightarrow> goerr + node"
  de_keccak :: "bytes \<Rightarrow> bytes"
  de_public :: "'k \<Rightarrow> bytes"
  de_copy :: "'k \<Rightarrow> goerr + 'k"
  de_fetch :: "string \<Rightarrow> goerr + chain_params"
  de_tcp :: "nat \<Rightarrow> goerr + wire"
  de_handshake :: "nat \<Rightarrow> goerr option"
  de_cipher :: "nat \<Rightarrow> goerr option"
  de_send :: "nat \<Rightarrow> nat"

definition background :: "('w, 'o, 'k) go_ctx option \<Rightarrow> ('w, 'o, 'k) go_ctx" where
  "background ctx = (case ctx of None \<Rightarrow> Background | Some c \<Rightarrow> c)"

definition bound :: "'k dial_env \<Rightarrow> ('w, 'o, 'k) go_ctx option \<Rightarrow> int \<Rightarrow> int" where
  "bound env ctx fallback = de_now env + Remaining (de_now env) ctx fallback"

definition open_wire :: "wire \<Rightarrow> wire" where
  "open_wire w = w\<lparr>w_out := [], w_deadlines := [], w_closed := 0, w_snappy := False\<rparr>"

definition clearDeadline :: "unit io" where
  "clearDeadline = io_wrap ''clear handshake deadline: %w'' (io_deadline (SetDeadline None))"

definition rlpx_dial ::
    "'k dial_env \<Rightarrow> nat \<Rightarrow> ('w, 'o, 'k) go_ctx option \<Rightarrow> string \<Rightarrow> 'k option \<Rightarrow> (goerr + unit) \<times> wire list" where
  "rlpx_dial env k ctx target key =
     (let ctx = Some (background ctx)
      in case key of None \<Rightarrow> (Inl (Errorf ''nil initiator key'' []), [])
       | Some key \<Rightarrow>
         (case de_parse env target of Inl e \<Rightarrow> (Inl (Wrapf ''parse enode: %w'' [] e), [])
          | Inr node \<Rightarrow>
            (case de_tcp env k of Inl e \<Rightarrow> (Inl (Wrapf ''dial: %w'' [] e), [])
             | Inr fd \<Rightarrow>
               on_last (\<lambda>_.
                 io_bind (io_wrap ''set handshake deadline: %w''
                            (io_deadline (SetDeadline (Some (bound env ctx (10 * 10 ^ 9)))))) (\<lambda>_.
                 io_bind (io_wrap ''rlpx handshake: %w'' (io_lift (to_err (de_handshake env k)))) (\<lambda>_.
                 io_lift (to_err (de_cipher env k)))))
                 (Inr (), [open_wire fd]))))"

definition rlpx_DialWithKey ::
    "'k dial_env \<Rightarrow> nat \<Rightarrow> ('w, 'o, 'k) go_ctx option \<Rightarrow> string \<Rightarrow> 'k option \<Rightarrow> (goerr + unit) \<times> wire list" where
  "rlpx_DialWithKey env k ctx target key = on_last (\<lambda>_. clearDeadline) (rlpx_dial env k ctx target key)"

definition DialRLPx ::
    "'k dial_env \<Rightarrow> nat \<Rightarrow> ('w, 'o, 'k) go_ctx option \<Rightarrow> string \<Rightarrow> ((goerr + unit) \<times> wire list) \<times> string list" where
  "DialRLPx env k ctx target =
     (case ParticipantELKey (de_copy env) ctx of
        Inl e \<Rightarrow> ((Inl (Wrapf ''load case participant key: %w'' [] e), []), [])
      | Inr key \<Rightarrow> (rlpx_DialWithKey env k ctx target (Some key), Step ctx (''[+] Dialing RLPx peer '' @ target)))"

text \<open>The caller's Hello, which is sent as it is; \<open>enc\<close> is the RLP encoder.\<close>

record raw_hello =
  rh_Version :: u64
  rh_Name :: string
  rh_Caps :: "p2p_cap list"
  rh_ListenPort :: u64
  rh_ID :: bytes
  rh_Rest :: "bytes list"

definition DialAndHello ::
    "'k dial_env \<Rightarrow> (raw_hello \<Rightarrow> goerr + bytes) \<Rightarrow> nat \<Rightarrow> ('w, 'o, 'k) go_ctx option \<Rightarrow> string \<Rightarrow> 'k option \<Rightarrow> raw_hello \<Rightarrow>
     (goerr + unit) \<times> wire list" where
  "DialAndHello env enc k ctx target key hello =
     on_last (\<lambda>_.
       io_bind (io_wrap ''encode hello: %w'' (io_lift (enc hello))) (\<lambda>payload.
       io_bind (io_wrap ''write hello: %w'' (io_write HelloMsg payload)) (\<lambda>_.
       clearDeadline)))
       (rlpx_dial env k ctx target key)"

lemma quiet_clearDeadline [keeps_open]: "quiet clearDeadline"
  unfolding clearDeadline_def by (intro keeps_open)

lemma tidy_open [simp]: "tidy (Inr (), [open_wire fd])"
  by (simp add: tidy_def closed_once_def open_wire_def)

lemma rlpx_dial_tidy [simp]: "tidy (rlpx_dial env k ctx target key)"
  unfolding rlpx_dial_def Let_def
  by (auto split: option.split sum.split intro!: tidy_on_last keeps_open)

lemma rlpx_DialWithKey_tidy [simp]: "tidy (rlpx_DialWithKey env k ctx target key)"
  unfolding rlpx_DialWithKey_def by (auto intro!: tidy_on_last keeps_open)

lemma DialAndHello_tidy: "tidy (DialAndHello env enc k ctx target key hello)"
  unfolding DialAndHello_def by (auto intro!: tidy_on_last keeps_open)

interpretation rlpx: socket_owner "\<lambda>k. rlpx_DialWithKey env k ctx target key" for env ctx target key
  by unfold_locales simp

interpretation rlpx_hello: socket_owner "\<lambda>k. DialAndHello env enc k ctx target key hello" for env enc ctx target key hello
  by unfold_locales (rule DialAndHello_tidy)

end
