(* ===== verification/Eth_Dial.thy ===== *)
theory Eth_Dial
  imports Rlpx_Dial
begin

text \<open>
  Package eth, conn.go, hello.go and ready.go: the Hello exchange, \<open>DialPreStatusWithKey\<close>, \<open>rawDial\<close> with its
  concurrent Status write, \<open>DialWithKey\<close> with its fork-ID retry, and \<open>DialReady\<close>. Narration is left out. A dial that
  would panic is \<open>None\<close>.
\<close>

section \<open>Hello\<close>

definition validateHelloIdentity :: "'k dial_env \<Rightarrow> node option \<Rightarrow> bytes \<Rightarrow> goerr option" where
  "validateHelloIdentity env node helloID =
     (case node of None \<Rightarrow> Some (Errorf ''target node is nil'' [])
      | Some node \<Rightarrow>
          if de_keccak env helloID \<noteq> nd_ID node
          then Some (Errorf ''devp2p hello identity does not match authenticated peer'' []) else None)"

text \<open>The Hello exchange of both dials, from encoding the own Hello to turning compression on; they differ in one text.\<close>

definition hello_exchange ::
    "'k dial_env \<Rightarrow> eth_rlp \<Rightarrow> string \<Rightarrow> 'k \<Rightarrow> p2p_cap list \<Rightarrow> node \<Rightarrow> protoHandshake io" where
  "hello_exchange env rl unexpected key caps node =
     io_bind (io_wrap ''encode hello: %w'' (io_lift (enc_hello rl
       \<lparr>ph_Version = 5, ph_Name = ''raidan-sdk'', ph_Caps = caps, ph_ListenPort = 0, ph_ID = de_public env key, ph_Rest = []\<rparr>)))
     (\<lambda>helloData.
     io_bind (io_wrap ''write hello: %w'' (io_write HelloMsg helloData)) (\<lambda>_.
     io_bind (io_wrap ''read hello: %w'' wire_read) (\<lambda>(code, payload).
     if code = DiscMsg
     then io_lift (Inl (Errorf (''disconnected during hello: '' @ snd (DecodeDisconnectReason rl payload)) []))
     else if code \<noteq> HelloMsg then io_lift (Inl (Errorf unexpected [VNat (unat code)]))
     else
       io_bind (io_wrap ''decode hello: %w'' (io_lift (dec_hello rl payload))) (\<lambda>peerHello.
       io_bind (io_lift (to_err (validateHelloIdentity env (Some node) (ph_ID peerHello)))) (\<lambda>_.
       io_bind (if 5 \<le> ph_Version peerHello then SetSnappy True else io_return ()) (\<lambda>_.
       io_return peerHello))))))"

lemma quiet_hello [keeps_open]: "quiet (hello_exchange env rl f key caps node)"
  unfolding hello_exchange_def by (intro keeps_open)

section \<open>The pre-Status dial\<close>

definition no_params :: chain_params where
  "no_params = \<lparr>Genesis = 0, HeadHash = 0, StateRoot = 0, NetworkID = 0, ForkID = no_fork, HeadNumber = 0, HeadTime = 0,
     ForkBlocks = [], ForkTimes = []\<rparr>"

definition pre_status_steps ::
    "'k dial_env \<Rightarrow> eth_rlp \<Rightarrow> ('w, 'o, 'k) go_ctx option \<Rightarrow> 'k \<Rightarrow> p2p_cap list \<Rightarrow> node \<Rightarrow> chain_params \<Rightarrow>
     ('w, 'o, 'k) pre_status_conn io" where
  "pre_status_steps env rl ctx key caps node params =
     io_bind (io_wrap ''set hello deadline: %w'' (io_deadline (SetDeadline (Some (bound env ctx (10 * 10 ^ 9)))))) (\<lambda>_.
     io_bind (hello_exchange env rl ''expected hello, got 0x%02x'' key caps node) (\<lambda>peerHello.
     io_bind (io_wrap ''compute negotiated capabilities: %w''
                (io_lift (negotiatedCapabilities caps (ph_Caps peerHello)))) (\<lambda>negotiated.
     io_bind (io_wrap ''compute ETH capability offset: %w'' (io_lift (capabilityOffset negotiated ''eth'')))
       (\<lambda>(ethOffset, ethVersion, ok).
     if \<not> ok then io_lift (Inl (Errorf ''no common eth version'' []))
     else
       io_bind (io_wrap ''compute SNAP capability offset: %w'' (io_lift (capabilityOffset negotiated ''snap'')))
         (\<lambda>(snapOffset, _).
       io_bind (io_wrap ''clear handshake deadline: %w'' (io_deadline (SetDeadline None))) (\<lambda>_.
       io_return
         \<lparr>pc_ctx = ctx, pc_params = params, pc_version = ethVersion, pc_key = key, pc_ethOffset = ethOffset,
          pc_snapOffset = snapOffset, pc_peerCapabilities = ph_Caps peerHello\<rparr>))))))"

definition pre_status_params :: "'k dial_env \<Rightarrow> string \<Rightarrow> goerr + chain_params" where
  "pre_status_params env rpcURL =
     (if rpcURL = '''' then Inr no_params else wrap_err ''fetch chain params: %w'' [] (de_fetch env rpcURL))"

definition pre_status_caps :: "config \<Rightarrow> p2p_cap list option" where
  "pre_status_caps config =
     (if MaxVersion config = 0 \<and> SnapVersion config = 0 \<and> Capabilities config = []
      then ethCapabilities 69 else capabilities config)"

definition DialPreStatusWithKey ::
    "'k dial_env \<Rightarrow> eth_rlp \<Rightarrow> nat \<Rightarrow> ('w, 'o, 'k) go_ctx option \<Rightarrow> string \<Rightarrow> string \<Rightarrow> config \<Rightarrow> 'k option \<Rightarrow>
     ((goerr + ('w, 'o, 'k) pre_status_conn) \<times> wire list) option" where
  "DialPreStatusWithKey env rl k ctx target rpcURL config key =
     (case key of None \<Rightarrow> Some (Inl (Errorf ''ETH local identity is nil'' []), [])
      | Some key \<Rightarrow>
     (let ctx = Some (background ctx) in
     (case validate config of Some e \<Rightarrow> Some (Inl (Wrapf ''eth config: %w'' [] e), [])
      | None \<Rightarrow>
     (case de_parse env target of Inl e \<Rightarrow> Some (Inl (Wrapf ''parse enode: %w'' [] e), [])
      | Inr node \<Rightarrow>
     (case pre_status_params env rpcURL of
        Inl e \<Rightarrow> Some (Inl e, [])
      | Inr params \<Rightarrow>
     (case pre_status_caps config of
        None \<Rightarrow> None
      | Some caps \<Rightarrow>
          Some (on_last (\<lambda>_. pre_status_steps env rl ctx key caps node params)
                 (wrap_out ''rlpx handshake: %w'' (rlpx_DialWithKey env k ctx target (Some key)))))))))) "

definition DialPreStatus ::
    "'k dial_env \<Rightarrow> eth_rlp \<Rightarrow> nat \<Rightarrow> ('w, 'o, 'k) go_ctx option \<Rightarrow> string \<Rightarrow> string \<Rightarrow> config \<Rightarrow>
     ((goerr + ('w, 'o, 'k) pre_status_conn) \<times> wire list) option" where
  "DialPreStatus env rl k ctx target rpcURL config =
     (case ParticipantELKey (de_copy env) ctx of
        Inl e \<Rightarrow> Some (Inl (Wrapf ''load case participant key: %w'' [] e), [])
      | Inr key \<Rightarrow> DialPreStatusWithKey env rl k ctx target rpcURL config (Some key))"

text \<open>\<open>UnsupportedCapabilityError\<close> is told apart by its text.\<close>

definition UnsupportedCapabilityError :: "u64 \<Rightarrow> u64 \<Rightarrow> goerr" where
  "UnsupportedCapabilityError negotiated required =
     Errorf ''peer negotiated eth/%d (need eth/%d)'' [VNat (unat negotiated), VNat (unat required)]"

definition ready_steps ::
    "'k dial_env \<Rightarrow> eth_rlp \<Rightarrow> u64 \<Rightarrow> ('w, 'o, 'k) pre_status_conn \<Rightarrow> ('w, 'o, 'k) pre_status_conn io" where
  "ready_steps env rl want c =
     (if pc_version c < want then io_lift (Inl (UnsupportedCapabilityError (pc_version c) want))
      else (\<lambda>w. case ExchangeStatus rl (de_now env) c (10 * 10 ^ 9) w of
              (Some e, _, w) \<Rightarrow> (Inl (Wrapf ''status exchange: %w'' [] e), w)
            | (None, _, w) \<Rightarrow> (Inr c, w)))"

definition DialReady ::
    "'k dial_env \<Rightarrow> eth_rlp \<Rightarrow> nat \<Rightarrow> ('w, 'o, 'k) go_ctx option \<Rightarrow> string \<Rightarrow> string \<Rightarrow> u64 \<Rightarrow>
     ((goerr + ('w, 'o, 'k) pre_status_conn) \<times> wire list) option" where
  "DialReady env rl k ctx target rpc want =
     (if want < 68 then Some (Inl (Errorf ''unsupported eth version %d (minimum 68)'' [VNat (unat want)]), [])
      else map_option (on_last (ready_steps env rl want))
             (DialPreStatus env rl k ctx target rpc \<lparr>MaxVersion = want, SnapVersion = 0, Capabilities = []\<rparr>))"

section \<open>The full dial\<close>

record ('w, 'o, 'k) conn =
  c_ctx :: "('w, 'o, 'k) go_ctx option"
  c_ethOffset :: u64
  c_snapOffset :: u64
  c_ethVer :: u64
  c_negotiated :: "p2p_cap list"
  c_params :: chain_params
  c_dead :: bool
  c_msgs :: "(u64 \<times> bytes) list"
  c_discReason :: string
  c_readErr :: "goerr option"

definition raw_hello_steps ::
    "'k dial_env \<Rightarrow> eth_rlp \<Rightarrow> ('w, 'o, 'k) go_ctx option \<Rightarrow> 'k \<Rightarrow> p2p_cap list \<Rightarrow> node \<Rightarrow> chain_params \<Rightarrow>
     (('w, 'o, 'k) conn \<times> bytes) io" where
  "raw_hello_steps env rl ctx key caps node cp =
     io_bind (io_wrap ''set hello deadline: %w'' (io_deadline (SetDeadline (Some (bound env ctx (10 * 10 ^ 9)))))) (\<lambda>_.
     io_bind (hello_exchange env rl ''expected hello (0x00), got 0x%02x'' key caps node) (\<lambda>peerHello.
     io_bind (io_wrap ''compute negotiated capabilities: %w''
                (io_lift (negotiatedCapabilities caps (ph_Caps peerHello)))) (\<lambda>negotiated.
     io_bind (io_wrap ''compute ETH capability offset: %w'' (io_lift (capabilityOffset negotiated ''eth'')))
       (\<lambda>(ethOffset, ethVer, ok).
     if \<not> ok then io_lift (Inl (Errorf ''no common eth version'' []))
     else
       io_bind (io_wrap ''clear hello deadline: %w'' (io_deadline (SetDeadline None))) (\<lambda>_.
       io_bind (io_wrap ''compute SNAP capability offset: %w'' (io_lift (capabilityOffset negotiated ''snap'')))
         (\<lambda>(snapOffset, _).
       io_bind (io_wrap ''encode status: %w'' (io_lift (encodeStatus rl ethVer cp))) (\<lambda>statusData.
       io_return
         (\<lparr>c_ctx = ctx, c_ethOffset = ethOffset, c_snapOffset = snapOffset, c_ethVer = ethVer, c_negotiated = negotiated,
           c_params = cp, c_dead = False, c_msgs = [], c_discReason = '''', c_readErr = None\<rparr>, statusData))))))))"

text \<open>
  The goroutine that writes the Status: \<open>Inl n\<close> before it got to run, to do so before the n-th read from now, \<open>Inr\<close> with
  what its write returned.
\<close>

definition status_write :: "u64 \<Rightarrow> bytes \<Rightarrow> wire \<Rightarrow> (nat + goerr option) \<times> wire" where
  "status_write off payload w = (case wire_write off payload w of (e, w) \<Rightarrow> (Inr e, w))"

fun schedule_write :: "u64 \<Rightarrow> bytes \<Rightarrow> nat + goerr option \<Rightarrow> wire \<Rightarrow> (nat + goerr option) \<times> wire" where
  "schedule_write off payload (Inl 0) w = status_write off payload w"
| "schedule_write off payload (Inl (Suc n)) w = (Inl n, w)"
| "schedule_write off payload (Inr r) w = (Inr r, w)"

lemma schedule_write_in: "schedule_write off payload s w = (s', w') \<Longrightarrow> w_in w' = w_in w"
  by (cases "(off, payload, s, w)" rule: schedule_write.cases) (auto simp: status_write_def wire_write_def)

function read_status ::
    "eth_rlp \<Rightarrow> ('w, 'o, 'k) conn \<Rightarrow> bytes \<Rightarrow> nat + goerr option \<Rightarrow> wire \<Rightarrow>
     (fork_id \<times> goerr option) \<times> (nat + goerr option) \<times> wire" where
  "read_status rl c statusData s w =
     (case schedule_write (c_ethOffset c) statusData s w of
        (s, w) \<Rightarrow>
     (case wire_read w of
        (Inl e, w) \<Rightarrow> ((no_fork, Some (Wrapf ''read status: %w'' [] e)), s, w)
      | (Inr (code, payload), w) \<Rightarrow>
          if code = DiscMsg
          then ((no_fork, Some (Errorf (''disconnected during status exchange: '' @
                  snd (DecodeDisconnectReason rl payload)) [])), s, w)
          else if code = c_ethOffset c
          then (case decodeAndValidateStatus rl (c_ethVer c) payload (Some (c_params c)) of
                  (fid, err) \<Rightarrow> ((fid, map_option (Wrapf ''decode status: %w'' []) err), s, w))
          else if code = PingMsg
          then (case wire_write PongMsg pong_payload w of
                  (Some e, w) \<Rightarrow> ((no_fork, Some (Wrapf ''write pong: %w'' [] e)), s, w)
                | (None, w) \<Rightarrow> read_status rl c statusData s w)
          else read_status rl c statusData s w))"
  by pat_completeness auto
termination
  by (relation "measure (\<lambda>(rl, c, d, s, w). length (w_in w))")
    (auto simp: wire_write_def dest!: schedule_write_in [OF sym] wire_read_shorter [OF sym])

declare read_status.simps [simp del]

text \<open>The Status phase; on success it waits for the goroutine, which has written by then.\<close>

definition finish_write :: "u64 \<Rightarrow> bytes \<Rightarrow> nat + goerr option \<Rightarrow> wire \<Rightarrow> goerr option \<times> wire" where
  "finish_write off payload s w =
     (case s of Inr r \<Rightarrow> (r, w) | Inl _ \<Rightarrow> wire_write off payload w)"

definition status_phase ::
    "'k dial_env \<Rightarrow> eth_rlp \<Rightarrow> nat \<Rightarrow> ('w, 'o, 'k) conn \<Rightarrow> bytes \<Rightarrow> wire \<Rightarrow> (fork_id \<times> goerr option) \<times> wire" where
  "status_phase env rl k c statusData w =
     (case set_deadline (SetDeadline (Some (bound env (c_ctx c) (10 * 10 ^ 9)))) w of
        (Some e, w) \<Rightarrow> ((no_fork, Some (Wrapf ''set status deadline: %w'' [] e)), w)
      | (None, w) \<Rightarrow>
     (case read_status rl c statusData (Inl (de_send env k)) w of
        ((fid, Some e), _, w) \<Rightarrow> ((fid, Some e), w)
      | ((fid, None), s, w) \<Rightarrow>
     (case set_deadline (SetDeadline None) w of
        (Some e, w) \<Rightarrow> ((fid, Some (Wrapf ''clear status deadline: %w'' [] e)), w)
      | (None, w) \<Rightarrow>
     (case finish_write (c_ethOffset c) statusData s w of
        (Some e, w) \<Rightarrow> ((fid, Some (Wrapf ''write status: %w'' [] e)), w)
      | (None, w) \<Rightarrow> ((fid, None), w)))))"

text \<open>The connection or the error, and the peer's fork ID either way.\<close>

definition rawDial ::
    "'k dial_env \<Rightarrow> eth_rlp \<Rightarrow> nat \<Rightarrow> ('w, 'o, 'k) go_ctx option \<Rightarrow> node \<Rightarrow> chain_params \<Rightarrow> 'k \<Rightarrow> p2p_cap list \<Rightarrow>
     fork_id \<times> (goerr + ('w, 'o, 'k) conn) \<times> wire list" where
  "rawDial env rl k ctx node cp key caps =
     (case on_last (\<lambda>_. raw_hello_steps env rl ctx key caps node cp)
             (wrap_out ''rlpx handshake: %w'' (rlpx_DialWithKey env k ctx (nd_text node) (Some key))) of
        (Inl e, ws) \<Rightarrow> (no_fork, Inl e, ws)
      | (Inr (c, statusData), ws) \<Rightarrow>
          (case status_phase env rl k c statusData (last ws) of
             ((fid, Some e), w) \<Rightarrow> (fid, Inl e, butlast ws @ [close_wire w])
           | ((fid, None), w) \<Rightarrow> (fid, Inr c, butlast ws @ [w])))"

text \<open>The dial and, after an error that came with a fork ID, the second dial with the peer's.\<close>

definition dial_retrying ::
    "'k dial_env \<Rightarrow> eth_rlp \<Rightarrow> ('w, 'o, 'k) go_ctx option \<Rightarrow> node \<Rightarrow> chain_params \<Rightarrow> 'k \<Rightarrow> p2p_cap list \<Rightarrow>
     (goerr + ('w, 'o, 'k) conn) \<times> wire list" where
  "dial_retrying env rl ctx node cp key caps =
     (case rawDial env rl 0 ctx node cp key caps of
        (_, Inr c, ws) \<Rightarrow> (Inr c, ws)
      | (peerFID, Inl dialErr, ws) \<Rightarrow>
          if peerFID = no_fork then (Inl dialErr, ws)
          else (case rawDial env rl 1 ctx node (cp\<lparr>ForkID := peerFID\<rparr>) key caps of
                  (_, r, ws') \<Rightarrow> (r, ws @ ws')))"

definition DialWithKey ::
    "'k dial_env \<Rightarrow> eth_rlp \<Rightarrow> ('w, 'o, 'k) go_ctx option \<Rightarrow> string \<Rightarrow> string \<Rightarrow> config \<Rightarrow> 'k option \<Rightarrow>
     ((goerr + ('w, 'o, 'k) conn) \<times> wire list) option" where
  "DialWithKey env rl ctx target rpc config key =
     (case key of None \<Rightarrow> Some (Inl (Errorf ''ETH local identity is nil'' []), [])
      | Some key \<Rightarrow>
     (let ctx = Some (background ctx) in
     (case validate config of Some e \<Rightarrow> Some (Inl (Wrapf ''eth config: %w'' [] e), [])
      | None \<Rightarrow>
     (case de_parse env target of Inl e \<Rightarrow> Some (Inl (Wrapf ''parse enode: %w'' [] e), [])
      | Inr node \<Rightarrow>
     (case de_fetch env rpc of Inl e \<Rightarrow> Some (Inl (Wrapf ''fetch chain params: %w'' [] e), [])
      | Inr cp \<Rightarrow>
     (case capabilities config of None \<Rightarrow> None
      | Some caps \<Rightarrow>
     Some (dial_retrying env rl ctx node cp key caps)))))))"

definition Dial ::
    "'k dial_env \<Rightarrow> eth_rlp \<Rightarrow> ('w, 'o, 'k) go_ctx option \<Rightarrow> string \<Rightarrow> string \<Rightarrow> config \<Rightarrow>
     ((goerr + ('w, 'o, 'k) conn) \<times> wire list) option" where
  "Dial env rl ctx target rpc config =
     (case ParticipantELKey (de_copy env) ctx of
        Inl e \<Rightarrow> Some (Inl (Wrapf ''load case participant key: %w'' [] e), [])
      | Inr key \<Rightarrow> DialWithKey env rl ctx target rpc config (Some key))"

section \<open>Sockets\<close>

lemma quiet_pre_status [keeps_open]: "quiet (pre_status_steps env rl ctx key caps node params)"
  unfolding pre_status_steps_def by (intro keeps_open)

lemma quiet_raw_hello [keeps_open]: "quiet (raw_hello_steps env rl ctx key caps node cp)"
  unfolding raw_hello_steps_def by (intro keeps_open)

lemma wire_ops_closed:
  "wire_write code payload w = (e, w') \<Longrightarrow> w_closed w' = w_closed w"
  "set_deadline d w = (e, w') \<Longrightarrow> w_closed w' = w_closed w"
  "wire_read w = (r, w') \<Longrightarrow> w_closed w' = w_closed w"
  "schedule_write off payload s w = (s', w') \<Longrightarrow> w_closed w' = w_closed w"
  "finish_write off payload s w = (e, w') \<Longrightarrow> w_closed w' = w_closed w"
proof -
  show r: "wire_read w = (r, w') \<Longrightarrow> w_closed w' = w_closed w"
    by (auto simp: wire_read_def split: list.splits)
  show "schedule_write off payload s w = (s', w') \<Longrightarrow> w_closed w' = w_closed w"
    by (cases "(off, payload, s, w)" rule: schedule_write.cases) (auto simp: status_write_def wire_write_def)
qed (auto simp: wire_write_def set_deadline_def finish_write_def split: sum.splits)

lemma read_status_closed: "w_closed (snd (snd (read_status rl c d s w))) = w_closed w"
proof (induction rl c d s w rule: read_status.induct)
  case (1 rl c d s w)
  obtain s' w' where s: "schedule_write (c_ethOffset c) d s w = (s', w')" by (metis surj_pair)
  show ?case
  proof (cases "w_in w'")
    case Nil
    then show ?thesis using wire_ops_closed(4) [OF s] by (simp add: read_status.simps [of rl c d s w] s)
  next
    case (Cons m ms)
    obtain code payload where m: "m = (code, payload)" by (cases m)
    note r = Cons [unfolded m]
    show ?thesis
      using 1 [OF s [symmetric] wire_read_simps(2) [OF r, symmetric] refl refl] wire_ops_closed(4) [OF s]
      by (simp add: read_status.simps [of rl c d s w] s r wire_write_def split: prod.split option.split)
  qed
qed

lemma status_phase_closed: "w_closed (snd (status_phase env rl k c d w)) = w_closed w"
  unfolding status_phase_def
  by (auto split: prod.split option.split dest!: wire_ops_closed)
    (metis read_status_closed snd_conv)+

lemma rawDial_tidy:
  assumes "rawDial env rl k ctx node cp key caps = (fid, r, ws)"
  shows "tidy (r, ws)"
proof -
  define out where "out = on_last (\<lambda>_. raw_hello_steps env rl ctx key caps node cp)
      (wrap_out ''rlpx handshake: %w'' (rlpx_DialWithKey env k ctx (nd_text node) (Some key)))"
  have t: "tidy out" unfolding out_def by (auto intro!: tidy_on_last keeps_open)
  show ?thesis
  proof (cases out)
    case (Pair x vs)
    show ?thesis
    proof (cases x)
      case (Inl e)
      then show ?thesis using assms t Pair by (auto simp: rawDial_def out_def [symmetric] tidy_def)
    next
      case (Inr cs)
      obtain c d where cs: "cs = (c, d)" by (cases cs)
      obtain f e w where p: "status_phase env rl k c d (last vs) = ((f, e), w)" by (metis surj_pair)
      have "w_closed w = 0"
        using status_phase_closed [of env rl k c d "last vs"] t Pair Inr p by (simp add: tidy_def)
      then show ?thesis
        using assms t Pair Inr cs p
        by (cases e) (auto simp: rawDial_def out_def [symmetric] tidy_def closed_once_def close_wire_def)
    qed
  qed
qed

text \<open>Composed dials: no panic, and the socket discipline.\<close>

definition tidy_dial :: "((goerr + 'r) \<times> wire list) option \<Rightarrow> bool" where
  "tidy_dial out = (case out of None \<Rightarrow> False | Some r \<Rightarrow> tidy r)"

lemma tidy_dial_simps [simp]: "\<not> tidy_dial None" "tidy_dial (Some r) = tidy r"
  by (simp_all add: tidy_dial_def)

lemma tidy_pre_status [simp]:
  "tidy (on_last (\<lambda>_. pre_status_steps env rl ctx key caps node params)
     (wrap_out f (rlpx_DialWithKey env k ctx' target key')))"
  by (auto intro!: tidy_on_last keeps_open)

lemma default_caps: "\<exists>caps. ethCapabilities 69 = Some caps"
  by (simp add: ethCapabilities_def)

lemma pre_status_caps_ok: "validate config = None \<Longrightarrow> \<exists>caps. pre_status_caps config = Some caps"
  using validated_caps [of config] default_caps by (auto simp: pre_status_caps_def)

lemma DialPreStatusWithKey_tidy: "tidy_dial (DialPreStatusWithKey env rl k ctx target url config key)"
proof (cases "validate config")
  case (Some e)
  then show ?thesis by (simp add: DialPreStatusWithKey_def split: option.split)
next
  case None
  then obtain caps where "pre_status_caps config = Some caps" using pre_status_caps_ok by blast
  then show ?thesis
    using None by (simp add: DialPreStatusWithKey_def Let_def split: option.split sum.split)
qed

lemma DialPreStatus_tidy: "tidy_dial (DialPreStatus env rl k ctx target url config)"
  by (simp add: DialPreStatus_def DialPreStatusWithKey_tidy split: sum.split)

lemma exchange_loop_closed: "w_closed (snd (exchange_loop rl c w)) = w_closed w"
proof (induction "length (w_in w)" arbitrary: w rule: less_induct)
  case less
  show ?case
    unfolding exchange_loop.simps [of rl c w]
    using less by (cases "w_in w") (auto simp: answer_ping_def wire_write_def split: option.split)
qed

lemma with_read_deadline_closed:
  assumes "\<And>w. w_closed (snd (body w)) = w_closed w"
  shows "w_closed (snd (with_read_deadline t failed body w)) = w_closed w"
proof (cases "w_dlres w (length (w_deadlines w))")
  case None
  define v where "v = w\<lparr>w_deadlines := w_deadlines w @ [SetReadDeadline (Some t)]\<rparr>"
  obtain r u where b: "body v = (r, u)" by (cases "body v")
  then have "w_closed u = w_closed w" using assms [of v] by (simp add: v_def)
  then show ?thesis using None b by (simp add: with_read_deadline_def set_deadline_def v_def)
qed (simp add: with_read_deadline_def set_deadline_def)

lemma ExchangeStatus_closed: "w_closed (snd (snd (ExchangeStatus rl now c t w))) = w_closed w"
proof (cases "encodeStatus rl (pc_version c) (pc_params c)")
  case (Inr payload)
  obtain e obs v where s: "SendETHRaw c EthStatus payload w = (e, obs, v)" by (metis surj_pair)
  have v: "w_closed v = w_closed w" using s by (auto simp: SendETHRaw_def wire_write_def)
  show ?thesis
  proof (cases e)
    case None
    obtain r u where u: "with_read_deadline (now + Remaining now (pc_ctx c) t)
        (\<lambda>e. Some (Wrapf ''set status deadline: %w'' [] e)) (exchange_loop rl c) v = (r, u)" by (metis surj_pair)
    have "w_closed u = w_closed v"
      using with_read_deadline_closed [of "exchange_loop rl c", OF exchange_loop_closed] u by (metis snd_conv)
    then show ?thesis using Inr s u v None by (simp add: ExchangeStatus_def)
  qed (use Inr s v in \<open>simp add: ExchangeStatus_def\<close>)
qed (simp add: ExchangeStatus_def)

lemma quiet_ready [keeps_open]: "quiet (ready_steps env rl want c)"
proof (cases "pc_version c < want")
  case True
  then have "ready_steps env rl want c = io_lift (Inl (UnsupportedCapabilityError (pc_version c) want))"
    by (simp add: ready_steps_def)
  then show ?thesis by (simp add: keeps_open)
next
  case False
  show ?thesis
  proof (rule quietI)
    fix w
    obtain e obs v where x: "ExchangeStatus rl (de_now env) c (10 * 10 ^ 9) w = (e, obs, v)" by (metis surj_pair)
    then have "w_closed v = w_closed w" using ExchangeStatus_closed by (metis snd_conv)
    then show "w_closed (snd (ready_steps env rl want c w)) = w_closed w"
      using False x by (cases e) (simp_all add: ready_steps_def)
  qed
qed

lemma DialReady_tidy: "tidy_dial (DialReady env rl k ctx target rpc want)"
proof -
  obtain r where "DialPreStatus env rl k ctx target rpc \<lparr>MaxVersion = want, SnapVersion = 0, Capabilities = []\<rparr> = Some r"
    "tidy r" using DialPreStatus_tidy tidy_dial_def by (metis option.case_eq_if option.collapse)
  then have "tidy (on_last (ready_steps env rl want) r)" by (auto intro!: tidy_on_last keeps_open)
  then show ?thesis
    unfolding DialReady_def using \<open>DialPreStatus _ _ _ _ _ _ _ = Some r\<close> by simp
qed

lemma tidy_append: "tidy (Inl e, ws) \<Longrightarrow> tidy (r, vs) \<Longrightarrow> tidy (r, ws @ vs)"
  by (cases r) (auto simp: tidy_def closed_once_def butlast_append)

lemma dial_retrying_tidy: "tidy (dial_retrying env rl ctx node cp key caps)"
proof -
  obtain fid r ws where d: "rawDial env rl 0 ctx node cp key caps = (fid, r, ws)" by (metis surj_pair)
  obtain fid' r' ws' where d': "rawDial env rl 1 ctx node (cp\<lparr>ForkID := fid\<rparr>) key caps = (fid', r', ws')"
    by (metis surj_pair)
  note t = rawDial_tidy [OF d] rawDial_tidy [OF d']
  show ?thesis
  proof (cases r)
    case (Inl e)
    then show ?thesis
      using d d' t(1) tidy_append [OF t(1) [unfolded Inl] t(2)] by (auto simp: dial_retrying_def tidy_def)
  qed (use d t in \<open>simp add: dial_retrying_def\<close>)
qed

lemma DialWithKey_tidy: "tidy_dial (DialWithKey env rl ctx target rpc config key)"
proof (cases "validate config")
  case (Some e)
  then show ?thesis by (simp add: DialWithKey_def split: option.split)
next
  case None
  then obtain caps where "capabilities config = Some caps" using validated_caps [OF None] by auto
  then show ?thesis
    using None by (simp add: DialWithKey_def dial_retrying_tidy Let_def split: option.split sum.split)
qed

interpretation pre_status: socket_owner "\<lambda>k. the (DialPreStatusWithKey env rl k ctx target url config key)"
  for env rl ctx target url config key
  by unfold_locales (metis DialPreStatusWithKey_tidy tidy_dial_simps option.collapse)

interpretation full_dial: socket_owner "\<lambda>config. the (DialWithKey env rl ctx target rpc config key)"
  for env rl ctx target rpc key
  by unfold_locales (metis DialWithKey_tidy tidy_dial_simps option.collapse)

interpretation ready_dial: socket_owner "\<lambda>want. the (DialReady env rl k ctx target rpc want)" for env rl k ctx target rpc
  by unfold_locales (metis DialReady_tidy tidy_dial_simps option.collapse)

text \<open>
  C6: The execution-layer dials panic on no configuration and leak no socket: whatever the network, the handshake, the
  codecs and the peer do, an error leaves no open socket and a success exactly one, the one returned, and no socket is
  closed twice, also when \<open>DialWithKey\<close> dials a second time.
\<close>

theorem dials_leak_no_socket:
  "(case DialWithKey env rl ctx target rpc config key of None \<Rightarrow> False
    | Some (r, ws) \<Rightarrow> length (filter (\<lambda>w. w_closed w = 0) ws) = (if isl r then 0 else 1) \<and>
                      list_all (\<lambda>w. w_closed w \<le> 1) ws) \<and>
   (case DialPreStatusWithKey env rl k ctx target rpc config key of None \<Rightarrow> False
    | Some (r, ws) \<Rightarrow> length (filter (\<lambda>w. w_closed w = 0) ws) = (if isl r then 0 else 1) \<and>
                      list_all (\<lambda>w. w_closed w \<le> 1) ws) \<and>
   (case DialReady env rl k ctx target rpc want of None \<Rightarrow> False
    | Some (r, ws) \<Rightarrow> length (filter (\<lambda>w. w_closed w = 0) ws) = (if isl r then 0 else 1) \<and>
                      list_all (\<lambda>w. w_closed w \<le> 1) ws)"
proof -
  have view: "case x of None \<Rightarrow> False | Some (r, ws) \<Rightarrow>
        length (filter (\<lambda>w. w_closed w = 0) ws) = (if isl r then 0 else 1) \<and> list_all (\<lambda>w. w_closed w \<le> 1) ws"
    if "tidy_dial x"
      "length (filter (\<lambda>w. w_closed w = 0) (snd (the x))) = (if isl (fst (the x)) then 0 else 1)"
      "list_all (\<lambda>w. w_closed w \<le> 1) (snd (the x))" for x :: "((goerr + 'z) \<times> wire list) option"
    using that by (cases x) (auto simp: case_prod_beta)
  show ?thesis
    by (intro conjI view DialWithKey_tidy DialPreStatusWithKey_tidy DialReady_tidy
        full_dial.open_sockets full_dial.closed_at_most_once pre_status.open_sockets pre_status.closed_at_most_once
        ready_dial.open_sockets ready_dial.closed_at_most_once)
qed

end
