(* ===== verification/Eth_Conn.thy ===== *)
theory Eth_Conn
  imports Eth_Dial
begin

text \<open>
  Package eth, conn.go: the ready connection. The background reader and the caller share the queue, the dead flag, the
  disconnect reason and the read error; the mutexes and the channel make each access one step, so the interleavings
  are the sequences of the reader's turns, the caller's receives and its sends. Also \<open>WaitForRequestID\<close> of request.go
  and of package snap.
\<close>

section \<open>Shared state\<close>

definition queue_capacity :: nat where "queue_capacity = 256"

definition errReceiveQueueFull :: goerr where "errReceiveQueueFull = Errorf ''eth receive queue full'' []"

definition setDisconnectReason :: "string \<Rightarrow> ('w, 'o, 'k) conn \<Rightarrow> ('w, 'o, 'k) conn" where
  "setDisconnectReason reason c =
     (if reason = '''' then c else if c_discReason c = '''' then c\<lparr>c_discReason := reason\<rparr> else c)"

definition setReadError :: "goerr option \<Rightarrow> ('w, 'o, 'k) conn \<Rightarrow> ('w, 'o, 'k) conn" where
  "setReadError err c =
     (case err of None \<Rightarrow> c | Some e \<Rightarrow> if c_readErr c = None then c\<lparr>c_readErr := Some e\<rparr> else c)"

definition readFailure :: "('w, 'o, 'k) conn \<Rightarrow> goerr" where
  "readFailure c = (case c_readErr c of Some e \<Rightarrow> e | None \<Rightarrow> Errorf (DisconnectDetail (c_discReason c)) [])"

definition queueMessage :: "u64 \<times> bytes \<Rightarrow> ('w, 'o, 'k) conn \<Rightarrow> bool \<times> ('w, 'o, 'k) conn" where
  "queueMessage m c =
     (if length (c_msgs c) < queue_capacity then (True, c\<lparr>c_msgs := c_msgs c @ [m]\<rparr>)
      else (False, setReadError (Some errReceiveQueueFull) c))"

text \<open>The deferred close of \<open>dead\<close> when the reader returns.\<close>

definition die :: "('w, 'o, 'k) conn \<Rightarrow> ('w, 'o, 'k) conn" where "die c = c\<lparr>c_dead := True\<rparr>"

section \<open>The reader\<close>

text \<open>One turn of the loop of \<open>readMessages\<close>; it does not run on once it has returned.\<close>

definition readMessages ::
    "'s rlp_stream_scheme \<Rightarrow> ('w, 'o, 'k) conn \<times> wire \<Rightarrow> ('w, 'o, 'k) conn \<times> wire" where
  "readMessages st cw = (case cw of (c, w) \<Rightarrow>
     if c_dead c then (c, w)
     else case wire_read w of
       (Inl e, w) \<Rightarrow> (die (setReadError (Some (Wrapf ''read message: %w'' [] e)) c), w)
     | (Inr (code, payload), w) \<Rightarrow>
         if code = DiscMsg then (die (setDisconnectReason (snd (DecodeDisconnectReason st payload)) c), w)
         else if code = PingMsg then
           (case wire_write PongMsg pong_payload w of
              (Some e, w) \<Rightarrow> (die (setReadError (Some (Wrapf ''write pong: %w'' [] e)) c), close_wire w)
            | (None, w) \<Rightarrow> (c, w))
         else if code = PongMsg then (c, w)
         else (case queueMessage (code, payload) c of
                 (True, c) \<Rightarrow> (c, w)
               | (False, c) \<Rightarrow> (die c, close_wire w)))"

section \<open>Sends\<close>

definition writeObserved ::
    "('w, 'o, 'k) conn \<Rightarrow> string \<Rightarrow> u64 \<Rightarrow> u64 \<Rightarrow> bytes \<Rightarrow> wire \<Rightarrow> goerr option \<times> ('o \<times> write_event) list \<times> wire" where
  "writeObserved c protocol code wireCode payload w =
     (case wire_write wireCode payload w of
        (e, w) \<Rightarrow> (e, ObserveWrite (c_ctx c) ((write_of protocol)\<lparr>w_Code := code, w_Payload := payload\<rparr>), w))"

definition Send ::
    "('w, 'o, 'k) conn \<Rightarrow> u64 \<Rightarrow> goerr + bytes \<Rightarrow> wire \<Rightarrow> goerr option \<times> ('o \<times> write_event) list \<times> wire" where
  "Send c code encoded w =
     (case encoded of Inl e \<Rightarrow> (Some e, [], w)
      | Inr payload \<Rightarrow> writeObserved c ''eth'' code (c_ethOffset c + code) payload w)"

definition SendRaw ::
    "('w, 'o, 'k) conn \<Rightarrow> u64 \<Rightarrow> bytes \<Rightarrow> wire \<Rightarrow> goerr option \<times> ('o \<times> write_event) list \<times> wire" where
  "SendRaw c code payload w = writeObserved c ''eth'' code (c_ethOffset c + code) payload w"

definition WriteRaw ::
    "('w, 'o, 'k) conn \<Rightarrow> u64 \<Rightarrow> bytes \<Rightarrow> wire \<Rightarrow> goerr option \<times> ('o \<times> write_event) list \<times> wire" where
  "WriteRaw c wireCode payload w = writeObserved c ''rlpx'' wireCode wireCode payload w"

definition not_negotiated :: goerr where "not_negotiated = Errorf ''snap not negotiated'' []"

definition SendSnap ::
    "('w, 'o, 'k) conn \<Rightarrow> u64 \<Rightarrow> goerr + bytes \<Rightarrow> wire \<Rightarrow> goerr option \<times> ('o \<times> write_event) list \<times> wire" where
  "SendSnap c code encoded w =
     (if c_snapOffset c = 0 then (Some not_negotiated, [], w)
      else case encoded of Inl e \<Rightarrow> (Some e, [], w)
         | Inr payload \<Rightarrow> writeObserved c ''snap'' code (c_snapOffset c + code) payload w)"

definition SendSnapRaw ::
    "('w, 'o, 'k) conn \<Rightarrow> u64 \<Rightarrow> bytes \<Rightarrow> wire \<Rightarrow> goerr option \<times> ('o \<times> write_event) list \<times> wire" where
  "SendSnapRaw c code payload w =
     (if c_snapOffset c = 0 then (Some not_negotiated, [], w)
      else writeObserved c ''snap'' code (c_snapOffset c + code) payload w)"

section \<open>Receives\<close>

text \<open>
  A select goes one of the ways that are ready: a message, death, cancellation with the context's error, the timer.
  Which way is the schedule's choice; a way that is not ready leaves the call waiting (\<open>None\<close>).
\<close>

datatype way = Message | Dead | Cancelled goerr | Timer

definition ReadMsg :: "way \<Rightarrow> ('w, 'o, 'k) conn \<Rightarrow> (goerr + u64 \<times> bytes) option \<times> ('w, 'o, 'k) conn" where
  "ReadMsg y c =
     (case y of
        Message \<Rightarrow> (case c_msgs c of [] \<Rightarrow> (None, c) | m # ms \<Rightarrow> (Some (Inr m), c\<lparr>c_msgs := ms\<rparr>))
      | Dead \<Rightarrow> (if c_dead c then Some (Inl (readFailure c)) else None, c)
      | Cancelled e \<Rightarrow> (Some (Inl e), c)
      | Timer \<Rightarrow> (Some (Inl (Errorf ''timeout'' [])), c))"

text \<open>\<open>WaitForMsg\<close> on a schedule: \<open>None\<close> is a turn of the reader, \<open>Some\<close> the way its own select goes next.\<close>

fun WaitForMsg ::
    "'s rlp_stream_scheme \<Rightarrow> u64 \<Rightarrow> way option list \<Rightarrow> ('w, 'o, 'k) conn \<times> wire \<Rightarrow>
     (goerr + bytes) option \<times> ('w, 'o, 'k) conn \<times> wire" where
  "WaitForMsg st wantCode [] cw = (None, cw)"
| "WaitForMsg st wantCode (None # sched) cw = WaitForMsg st wantCode sched (readMessages st cw)"
| "WaitForMsg st wantCode (Some Message # sched) (c, w) =
     (case c_msgs c of
        [] \<Rightarrow> WaitForMsg st wantCode sched (c, w)
      | (code, payload) # ms \<Rightarrow>
          if code = wantCode then (Some (Inr payload), c\<lparr>c_msgs := ms\<rparr>, w)
          else WaitForMsg st wantCode sched (c\<lparr>c_msgs := ms\<rparr>, w))"
| "WaitForMsg st wantCode (Some Dead # sched) (c, w) =
     (if c_dead c then (Some (Inl (readFailure c)), c, w) else WaitForMsg st wantCode sched (c, w))"
| "WaitForMsg st wantCode (Some (Cancelled e) # sched) cw = (Some (Inl (Errorf ''run cancelled'' [])), cw)"
| "WaitForMsg st wantCode (Some Timer # sched) cw = (Some (Inl (Errorf ''timeout'' [])), cw)"

definition WaitDisconnect :: "way \<Rightarrow> ('w, 'o, 'k) conn \<Rightarrow> bool option" where
  "WaitDisconnect y c =
     (case y of Message \<Rightarrow> None | Dead \<Rightarrow> if c_dead c then Some True else None | Cancelled e \<Rightarrow> Some False | Timer \<Rightarrow> Some False)"

definition Closed :: "('w, 'o, 'k) conn \<Rightarrow> bool" where "Closed c = c_dead c"

definition request_id_of ::
    "eth_rlp \<Rightarrow> string \<Rightarrow> int \<Rightarrow> goerr + bytes \<Rightarrow> goerr + u64 \<times> bytes" where
  "request_id_of rl label timeout r =
     err_bind (wrap_err ''target did not send %s within %s: %w'' [VStr label, VInt timeout] r) (\<lambda>payload.
       err_bind (wrap_err ''decode %s request id: %w'' [VStr label] (DecodeRequestID rl payload)) (\<lambda>rid.
         Inr (rid, payload)))"

definition WaitForRequestID ::
    "eth_rlp \<Rightarrow> u64 \<Rightarrow> string \<Rightarrow> int \<Rightarrow> way option list \<Rightarrow> ('w, 'o, 'k) conn \<times> wire \<Rightarrow>
     (goerr + u64 \<times> bytes) option \<times> ('w, 'o, 'k) conn \<times> wire" where
  "WaitForRequestID rl requestCode label timeout sched cw =
     (let timeout = (if timeout \<le> 0 then solicitedResponseWait else timeout)
      in case WaitForMsg rl (c_ethOffset (fst cw) + requestCode) sched cw of
           (r, cw) \<Rightarrow> (map_option (request_id_of rl label timeout) r, cw))"

definition snap_WaitForRequestID ::
    "eth_rlp \<Rightarrow> u64 \<Rightarrow> string \<Rightarrow> int \<Rightarrow> way option list \<Rightarrow> ('w, 'o, 'k) conn \<times> wire \<Rightarrow>
     (goerr + u64 \<times> bytes) option \<times> ('w, 'o, 'k) conn \<times> wire" where
  "snap_WaitForRequestID rl requestCode label timeout sched cw =
     (let timeout = (if timeout \<le> 0 then solicitedResponseWait else timeout)
      in case WaitForMsg rl (c_snapOffset (fst cw) + requestCode) sched cw of
           (r, cw) \<Rightarrow> (map_option (request_id_of rl label timeout) r, cw))"

section \<open>Interleavings\<close>

text \<open>The connection, its wire and the messages the caller has received so far, oldest first.\<close>

type_synonym ('w, 'o, 'k) system = "('w, 'o, 'k) conn \<times> wire \<times> (u64 \<times> bytes) list"

inductive conn_step :: "'s rlp_stream_scheme \<Rightarrow> ('w, 'o, 'k) system \<Rightarrow> ('w, 'o, 'k) system \<Rightarrow> bool" for st where
  reader: "readMessages st (c, w) = (c', w') \<Longrightarrow> conn_step st (c, w, got) (c', w', got)"
| receive: "ReadMsg Message c = (Some (Inr m), c') \<Longrightarrow> conn_step st (c, w, got) (c', w, got @ [m])"
| send: "wire_write code payload w = (e, w') \<Longrightarrow> conn_step st (c, w, got) (c, w', got)"

inductive_cases conn_stepE: "conn_step st s s'"
inductive_simps conn_step_simps: "conn_step st (c, w, got) s'"

inductive conn_reach :: "'s rlp_stream_scheme \<Rightarrow> ('w, 'o, 'k) system \<Rightarrow> ('w, 'o, 'k) system \<Rightarrow> bool" for st s0 where
  start: "conn_reach st s0 s0"
| step: "conn_reach st s0 s \<Longrightarrow> conn_step st s s' \<Longrightarrow> conn_reach st s0 s'"

definition fresh_conn :: "('w, 'o, 'k) conn \<Rightarrow> bool" where
  "fresh_conn c \<longleftrightarrow> \<not> c_dead c \<and> c_msgs c = [] \<and> c_discReason c = '''' \<and> c_readErr c = None"

text \<open>The messages that are for the caller.\<close>

definition is_data :: "u64 \<times> bytes \<Rightarrow> bool" where
  "is_data m \<longleftrightarrow> fst m \<notin> {DiscMsg, PingMsg, PongMsg}"

definition data_of :: "(u64 \<times> bytes) list \<Rightarrow> (u64 \<times> bytes) list" where "data_of ms = filter is_data ms"

text \<open>
  What links a reachable state to the peer's stream: \<open>seen\<close> is what the reader has consumed of it; everything for the
  caller in it was received or waits in the queue, in order, except the message that found the queue full.
\<close>

definition conn_inv :: "wire \<Rightarrow> ('w, 'o, 'k) system \<Rightarrow> (u64 \<times> bytes) list \<Rightarrow> bool" where
  "conn_inv w0 s seen \<longleftrightarrow> (case s of (c, w, got) \<Rightarrow>
     w_in w0 = seen @ w_in w \<and>
     length (c_msgs c) \<le> queue_capacity \<and>
     got @ c_msgs c = (if c_readErr c = Some errReceiveQueueFull then butlast (data_of seen) else data_of seen) \<and>
     (\<not> c_dead c \<longrightarrow> c_readErr c = None \<and> c_discReason c = '''' \<and> DiscMsg \<notin> fst ` set seen) \<and>
     (c_readErr c = Some errReceiveQueueFull \<longrightarrow> seen \<noteq> [] \<and> is_data (last seen)))"

lemmas reader_defs = die_def setReadError_def setDisconnectReason_def queueMessage_def close_wire_def wire_write_def
  errReceiveQueueFull_def

lemma data_of_snoc [simp]: "data_of (ms @ [m]) = (if is_data m then data_of ms @ [m] else data_of ms)"
  by (simp add: data_of_def)

lemma reader_inv:
  assumes "conn_inv w0 (c, w, got) seen" "readMessages st (c, w) = (c', w')"
  shows "\<exists>seen'. conn_inv w0 (c', w', got) seen'"
proof (cases "c_dead c \<or> w_in w = []")
  case True
  then have "conn_inv w0 (c', w', got) seen"
    using assms by (auto simp: readMessages_def conn_inv_def reader_defs split: if_splits)
  then show ?thesis by blast
next
  case False
  then obtain code payload ms where w: "w_in w = (code, payload) # ms" by (cases "w_in w") auto
  have "conn_inv w0 (c', w', got) (seen @ [(code, payload)])"
    using assms False w
    by (auto simp: readMessages_def conn_inv_def reader_defs is_data_def split: if_splits option.splits)
  then show ?thesis by blast
qed

lemma step_inv: "conn_step st s s' \<Longrightarrow> conn_inv w0 s seen \<Longrightarrow> \<exists>seen'. conn_inv w0 s' seen'"
proof (induction rule: conn_step.induct)
  case (reader c w c' w' got)
  then show ?case using reader_inv by blast
next
  case (receive c m c' w got)
  then have "conn_inv w0 (c', w, got @ [m]) seen"
    by (auto simp: ReadMsg_def conn_inv_def split: list.splits)
  then show ?case by blast
next
  case (send code payload w e w' c got)
  then have "conn_inv w0 (c, w', got) seen" by (auto simp: conn_inv_def wire_write_def)
  then show ?case by blast
qed

lemma reach_inv:
  assumes "conn_reach st (c0, w0, []) s" "fresh_conn c0"
  shows "\<exists>seen. conn_inv w0 s seen"
  using assms(1)
proof (induction rule: conn_reach.induct)
  case start
  have "conn_inv w0 (c0, w0, []) []" using assms(2) by (simp add: conn_inv_def fresh_conn_def data_of_def)
  then show ?case by blast
qed (use step_inv in blast)

lemma reach_in_order:
  assumes "conn_reach st (c0, w0, []) (c, w, got)" "fresh_conn c0"
  shows "\<exists>seen. w_in w0 = seen @ w_in w \<and> length (c_msgs c) \<le> 256 \<and>
     (if c_readErr c = Some errReceiveQueueFull then c_dead c \<and> got @ c_msgs c = butlast (data_of seen)
      else got @ c_msgs c = data_of seen)"
proof -
  obtain seen where i: "conn_inv w0 (c, w, got) seen" using reach_inv [OF assms] by blast
  then show ?thesis
    by (intro exI [of _ seen]) (auto simp: conn_inv_def queue_capacity_def)
qed

text \<open>
  C29: The ready connection delivers in order and loses nothing silently. In every interleaving of the reader with receives
  and sends, what the caller has received and what is queued are the peer's messages so far without the keepalive
  ones, in order and each once, at most 256 of them queued; only a message arriving to a full queue is dropped, and
  then the connection is dead with that error.
\<close>

theorem reader_in_order:
  assumes "conn_reach st (c0, w0, []) (c, w, got)" "fresh_conn c0"
  shows "\<exists>seen. w_in w0 = seen @ w_in w \<and> length (c_msgs c) \<le> 256 \<and>
     (if c_readErr c = Some errReceiveQueueFull then c_dead c \<and> got @ c_msgs c = butlast (data_of seen)
      else got @ c_msgs c = data_of seen)"
  using reach_in_order [OF assms] .

lemma reader_in_order_witness:
  "\<exists>(c :: (unit, unit, unit) conn) w. conn_reach demo_codec
      (\<lparr>c_ctx = None, c_ethOffset = 16, c_snapOffset = 0, c_ethVer = 70, c_negotiated = [], c_params = demo_peer,
        c_dead = False, c_msgs = [], c_discReason = '''', c_readErr = None\<rparr>, demo_wire\<lparr>w_in := [(17, [5])]\<rparr>, []) (c, w, []) \<and>
    c_msgs c = [(17, [5])] \<and> length (c_msgs c) \<le> 256"
proof -
  define c0 :: "(unit, unit, unit) conn" where
    "c0 = \<lparr>c_ctx = None, c_ethOffset = 16, c_snapOffset = 0, c_ethVer = 70, c_negotiated = [], c_params = demo_peer,
      c_dead = False, c_msgs = [], c_discReason = '''', c_readErr = None\<rparr>"
  define w0 where "w0 = demo_wire\<lparr>w_in := [(17, [5])]\<rparr>"
  define c where "c = c0\<lparr>c_msgs := [(17, [5])]\<rparr>"
  have "readMessages demo_codec (c0, w0) = (c, w0\<lparr>w_in := []\<rparr>)"
    by (simp add: readMessages_def c0_def w0_def c_def queueMessage_def queue_capacity_def msg_codes)
  from conn_reach.step [OF conn_reach.start conn_step.reader [OF this]]
  have r: "conn_reach demo_codec (c0, w0, []) (c, w0\<lparr>w_in := []\<rparr>, [])" .
  have "fresh_conn c0" by (simp add: fresh_conn_def c0_def)
  then have "length (c_msgs c) \<le> 256" using reader_in_order [OF r] by blast
  then show ?thesis using r by (intro exI [of _ c] exI [of _ "w0\<lparr>w_in := []\<rparr>"]) (simp add: c0_def w0_def c_def)
qed

section \<open>Waiting for a message\<close>

text \<open>What can still reach the caller: the queue and, while the reader lives, the peer's messages to come.\<close>

definition caller_stream :: "('w, 'o, 'k) conn \<Rightarrow> wire \<Rightarrow> (u64 \<times> bytes) list" where
  "caller_stream c w = c_msgs c @ (if c_dead c then [] else data_of (w_in w))"

lemma reader_stream:
  "readMessages st (c, w) = (c', w') \<Longrightarrow> \<exists>zs. caller_stream c w = caller_stream c' w' @ zs"
  by (cases "w_in w")
    (auto simp: readMessages_def caller_stream_def reader_defs is_data_def data_of_def split: if_splits option.splits)

definition first_of :: "u64 \<Rightarrow> (u64 \<times> bytes) list \<Rightarrow> bytes option" where
  "first_of wantCode ms = map_option snd (find (\<lambda>m. fst m = wantCode) ms)"

lemma first_of_simps [simp]:
  "first_of k [] = None" "first_of k (m # ms) = (if fst m = k then Some (snd m) else first_of k ms)"
  by (simp_all add: first_of_def)

lemma first_of_append: "first_of k ms = Some p \<Longrightarrow> first_of k (ms @ ns) = Some p"
  by (induction ms) (auto split: if_splits)

lemma reader_first_of:
  assumes "readMessages st (c, w) = (c', w')" "first_of k (caller_stream c' w') = Some p"
  shows "first_of k (caller_stream c w) = Some p"
  using reader_stream [OF assms(1)] assms(2) by (auto simp: first_of_append)

text \<open>
  \<open>WaitForMsg\<close> returns the first message of the wanted code: under every schedule, a payload it returns is that of the
  first message with the code among those queued and those the peer still sends; an error it returns is the
  timeout, the cancellation, or the reason the connection died.
\<close>

theorem WaitForMsg_first:
  "case WaitForMsg st wantCode sched (c, w) of
     (None, _) \<Rightarrow> True
   | (Some (Inr payload), _) \<Rightarrow> first_of wantCode (caller_stream c w) = Some payload
   | (Some (Inl e), c', w') \<Rightarrow>
       e = Errorf ''run cancelled'' [] \<or> e = Errorf ''timeout'' [] \<or> c_dead c' \<and> e = readFailure c'"
proof (induction st wantCode sched "(c, w)" arbitrary: c w rule: WaitForMsg.induct)
  case (2 st wantCode sched c w)
  obtain c' w' where r: "readMessages st (c, w) = (c', w')" by (metis surj_pair)
  note IH = 2 [OF r]
  show ?case
    using IH reader_first_of [OF r, of wantCode]
    by (auto simp: r split: option.splits sum.splits prod.splits)
next
  case (3 st wantCode sched c w)
  show ?case
  proof (cases "c_msgs c")
    case Nil
    then show ?thesis using 3(1) by simp
  next
    case (Cons m ms)
    then show ?thesis using 3(2) [of m ms "fst m" "snd m"] by (cases m) (auto simp: caller_stream_def split: option.splits sum.splits)
  qed
qed simp_all

text \<open>The schedule that alternates the reader's turns with the caller's.\<close>

fun alternate :: "nat \<Rightarrow> way option list" where
  "alternate 0 = []"
| "alternate (Suc n) = None # Some Message # alternate n"

text \<open>One turn of the reader on an empty queue: a keepalive message leaves the connection as it was, another is queued.\<close>

lemma reader_turn:
  assumes "\<not> c_dead c" "c_msgs c = []" "w_in w = (code, d) # ms" "code \<noteq> DiscMsg" "\<And>k. w_res w k = None"
  shows "\<exists>w'. readMessages st (c, w) =
           (if code \<in> {PingMsg, PongMsg} then c else c\<lparr>c_msgs := [(code, d)]\<rparr>, w') \<and>
         w_in w' = ms \<and> w_res w' = w_res w"
  using assms by (simp add: readMessages_def queueMessage_def queue_capacity_def wire_write_def msg_codes)

lemma alternate_turn:
  assumes "\<not> c_dead c" "c_msgs c = []" "w_in w = (code, d) # ms" "code \<noteq> DiscMsg" "\<And>k. w_res w k = None"
    and "code \<noteq> wantCode"
  shows "\<exists>w'. WaitForMsg st wantCode (alternate (Suc n)) (c, w) = WaitForMsg st wantCode (alternate n) (c, w') \<and>
         w_in w' = ms \<and> w_res w' = w_res w"
proof -
  have same: "c\<lparr>c_msgs := []\<rparr> = c" using assms(2) by (cases c) simp
  obtain w' where r: "readMessages st (c, w) = (if code \<in> {PingMsg, PongMsg} then c else c\<lparr>c_msgs := [(code, d)]\<rparr>, w')"
    and w': "w_in w' = ms" "w_res w' = w_res w"
    using reader_turn [OF assms(1-5)] by blast
  have "WaitForMsg st wantCode (alternate (Suc n)) (c, w) = WaitForMsg st wantCode (alternate n) (c, w')"
    using assms(2,6) by (simp add: r same del: insert_iff)
  then show ?thesis using w' by blast
qed

lemma WaitForMsg_alternate:
  assumes "\<not> c_dead c" "c_msgs c = []" "w_in w = before @ (wantCode, payload) # rest"
    and "\<forall>(code, d) \<in> set before. code \<noteq> DiscMsg \<and> code \<noteq> wantCode" "3 < wantCode"
    and "\<And>k. w_res w k = None" "length before < n"
  shows "fst (WaitForMsg st wantCode (alternate n) (c, w)) = Some (Inr payload)"
  using assms
proof (induction before arbitrary: n w)
  case Nil
  have k: "wantCode \<noteq> DiscMsg" "wantCode \<notin> {PingMsg, PongMsg}" using Nil.prems(5) by (auto simp: msg_codes)
  obtain w' where "readMessages st (c, w) = (c\<lparr>c_msgs := [(wantCode, payload)]\<rparr>, w')"
    using reader_turn [OF Nil.prems(1,2) _ k(1) Nil.prems(6), of payload rest st] Nil.prems(3) k by auto
  then show ?case using Nil.prems(7) by (cases n) simp_all
next
  case (Cons m before)
  obtain code d where m: "m = (code, d)" by (cases m)
  obtain j where n: "n = Suc j" using Cons.prems(7) by (cases n) auto
  have k: "code \<noteq> DiscMsg" "code \<noteq> wantCode" using Cons.prems(4) m by auto
  obtain w' where w': "WaitForMsg st wantCode (alternate n) (c, w) = WaitForMsg st wantCode (alternate j) (c, w')"
      "w_in w' = before @ (wantCode, payload) # rest" "w_res w' = w_res w"
    using alternate_turn [OF Cons.prems(1,2) _ k(1) Cons.prems(6) k(2)] Cons.prems(3) m n by fastforce
  then show ?case using Cons.IH [of w' j] Cons.prems n by simp
qed

text \<open>
  \<open>WaitForMsg\<close> delivers: on a live connection with an empty queue, when the peer sends the wanted message after others
  without disconnecting and no pong fails, the wait returns its payload as soon as reader and caller had as many turns
  each as there are messages up to it.
\<close>

theorem WaitForMsg_delivers:
  assumes "\<not> c_dead c" "c_msgs c = []" "w_in w = before @ (wantCode, payload) # rest"
    and "\<forall>(code, d) \<in> set before. code \<noteq> DiscMsg \<and> code \<noteq> wantCode" "3 < wantCode"
    and "\<And>k. w_res w k = None" "length before < n"
  shows "fst (WaitForMsg st wantCode (alternate n) (c, w)) = Some (Inr payload)"
  using WaitForMsg_alternate [OF assms] .

lemma WaitForMsg_delivers_witness:
  "fst (WaitForMsg demo_codec 17 (alternate 2)
     (\<lparr>c_ctx = None, c_ethOffset = 16, c_snapOffset = 0, c_ethVer = 70, c_negotiated = [], c_params = demo_peer,
        c_dead = False, c_msgs = [], c_discReason = '''', c_readErr = None\<rparr> :: (unit, unit, unit) conn,
      demo_wire\<lparr>w_in := [(PingMsg, []), (17, [5])]\<rparr>)) = Some (Inr [5])"
  by (rule WaitForMsg_delivers [where before = "[(PingMsg, [])]" and rest = "[]"])
    (simp_all add: msg_codes demo_wire_def)

section \<open>Accessors\<close>

text \<open>Copies of chain parameters and capabilities are values here; closing is the socket's.\<close>

definition capabilityList :: "p2p_cap list \<Rightarrow> string" where
  "capabilityList caps =
     concat (case map (\<lambda>c. cap_Name c @ ''/'' @ show_nat (unat (cap_Version c))) caps of
               [] \<Rightarrow> [] | p # ps \<Rightarrow> p # map (\<lambda>q. '', '' @ q) ps)"

definition conn_DisconnectReason :: "('w, 'o, 'k) conn \<Rightarrow> string" where "conn_DisconnectReason c = c_discReason c"

definition conn_DisconnectDetail :: "('w, 'o, 'k) conn \<Rightarrow> string" where
  "conn_DisconnectDetail c = DisconnectDetail (conn_DisconnectReason c)"

definition conn_ETHOffset :: "('w, 'o, 'k) conn \<Rightarrow> u64" where "conn_ETHOffset c = c_ethOffset c"
definition conn_SNAPOffset :: "('w, 'o, 'k) conn \<Rightarrow> u64" where "conn_SNAPOffset c = c_snapOffset c"
definition conn_ETHVersion :: "('w, 'o, 'k) conn \<Rightarrow> u64" where "conn_ETHVersion c = c_ethVer c"
definition conn_Params :: "('w, 'o, 'k) conn \<Rightarrow> chain_params" where "conn_Params c = c_params c"

definition pre_Params :: "('w, 'o, 'k) pre_status_conn \<Rightarrow> chain_params" where "pre_Params c = pc_params c"
definition pre_ETHVersion :: "('w, 'o, 'k) pre_status_conn \<Rightarrow> u64" where "pre_ETHVersion c = pc_version c"
definition pre_PrivateKey :: "('w, 'o, 'k) pre_status_conn \<Rightarrow> 'k" where "pre_PrivateKey c = pc_key c"
definition pre_PeerCapabilities :: "('w, 'o, 'k) pre_status_conn \<Rightarrow> p2p_cap list" where
  "pre_PeerCapabilities c = pc_peerCapabilities c"
definition pre_ETHOffset :: "('w, 'o, 'k) pre_status_conn \<Rightarrow> u64" where "pre_ETHOffset c = pc_ethOffset c"
definition pre_SNAPOffset :: "('w, 'o, 'k) pre_status_conn \<Rightarrow> u64" where "pre_SNAPOffset c = pc_snapOffset c"

end
