(* ===== verification/Eth_Session.thy ===== *)
theory Eth_Session
  imports Eth_Conn "HOL-Library.Sublist"
begin

text \<open>
  From the dial to the ready connection of package eth: what a successful \<open>DialWithKey\<close> has established with the peer, and
  which of the peer's messages the background reader starts with. The steps of a dial only consume what the peer sends
  and append to what is sent; the facts about one step are collected in \<open>moves_on\<close>.
\<close>

section \<open>Steps move on\<close>

named_theorems moves_on \<open>steps that consume input and append output\<close>

definition later :: "wire \<Rightarrow> wire \<Rightarrow> bool" where
  "later w w' \<longleftrightarrow> suffix (w_in w') (w_in w) \<and> prefix (w_out w) (w_out w')"

lemma later_refl [simp]: "later w w" by (simp add: later_def)

lemma later_trans [trans]: "later u v \<Longrightarrow> later v w \<Longrightarrow> later u w"
  by (auto simp: later_def intro: suffix_order.trans prefix_order.trans)

definition forward :: "'a io \<Rightarrow> bool" where "forward m \<longleftrightarrow> (\<forall>w. later w (snd (m w)))"

lemma forwardD: "forward m \<Longrightarrow> m w = (r, w') \<Longrightarrow> later w w'"
  by (metis forward_def snd_conv)

lemma later_ops:
  "wire_read w = (r, w') \<Longrightarrow> later w w'"
  "wire_write code payload w = (e, w') \<Longrightarrow> later w w'"
  "set_deadline d w = (e, w') \<Longrightarrow> later w w'"
  "schedule_write off payload s w = (s', w') \<Longrightarrow> later w w'"
  "finish_write off payload s w = (e, w') \<Longrightarrow> later w w'"
proof -
  show wr: "wire_write code payload w = (e, w') \<Longrightarrow> later w w'" for code payload w e w'
    by (auto simp: later_def wire_write_def)
  show "wire_read w = (r, w') \<Longrightarrow> later w w'"
    by (cases "w_in w") (auto simp: later_def suffix_def)
  show "schedule_write off payload s w = (s', w') \<Longrightarrow> later w w'"
    by (cases "(off, payload, s, w)" rule: schedule_write.cases) (auto simp: status_write_def split: prod.splits intro: wr)
  show "finish_write off payload s w = (e, w') \<Longrightarrow> later w w'"
    by (auto simp: finish_write_def split: sum.splits intro: wr)
qed (auto simp: later_def set_deadline_def)

lemma forward_basic [moves_on]:
  "forward (io_return x)" "forward (io_lift r)" "forward (io_write code payload)" "forward (io_deadline d)"
  "forward (SetSnappy b)" "forward wire_read"
  unfolding forward_def
  by (auto simp: io_return_def io_lift_def io_write_def io_deadline_def SetSnappy_def later_def wire_write_def set_deadline_def
      wire_read_def suffix_def split: list.split)

lemma forward_bind [moves_on]: "forward m \<Longrightarrow> (\<And>x. forward (f x)) \<Longrightarrow> forward (io_bind m f)"
  unfolding forward_def io_bind_def by (auto split: prod.split sum.split) (metis later_trans snd_conv)+

lemma forward_wrap [moves_on]: "forward m \<Longrightarrow> forward (io_wrap f m)"
  unfolding forward_def io_wrap_def by (auto split: prod.split) (metis snd_conv)

lemma forward_if [moves_on]: "forward m \<Longrightarrow> forward n \<Longrightarrow> forward (if b then m else n)" by simp

lemma forward_case_prod [moves_on]: "(\<And>a b. forward (f a b)) \<Longrightarrow> forward (case p of (a, b) \<Rightarrow> f a b)"
  by (cases p) simp

lemma forward_hello [moves_on]: "forward (hello_exchange env rl f key caps node)"
  unfolding hello_exchange_def by (intro moves_on)

lemma forward_raw_hello [moves_on]: "forward (raw_hello_steps env rl ctx key caps node cp)"
  unfolding raw_hello_steps_def by (intro moves_on)

section \<open>The Status phase\<close>

text \<open>The goroutine that has run has written the Status.\<close>

definition written :: "u64 \<Rightarrow> bytes \<Rightarrow> nat + goerr option \<Rightarrow> wire \<Rightarrow> bool" where
  "written off d s w \<longleftrightarrow> (case s of Inl _ \<Rightarrow> True | Inr _ \<Rightarrow> (off, d) \<in> set (w_out w))"

lemma written_later: "written off d s w \<Longrightarrow> later w w' \<Longrightarrow> written off d s w'"
  by (auto simp: written_def later_def dest: set_mono_prefix split: sum.splits)

lemma schedule_written: "schedule_write off d s w = (s', w') \<Longrightarrow> written off d s w \<Longrightarrow> written off d s' w'"
  by (cases "(off, d, s, w)" rule: schedule_write.cases) (auto simp: status_write_def wire_write_def written_def)

lemma finish_written: "finish_write off d s w = (e, w') \<Longrightarrow> written off d s w \<Longrightarrow> (off, d) \<in> set (w_out w')"
  by (auto simp: finish_write_def written_def wire_write_def split: sum.splits)

lemma read_status_succeeds:
  assumes "read_status rl c d s w = ((fid, None), s', w')" "written (c_ethOffset c) d s w"
  shows "written (c_ethOffset c) d s' w' \<and> later w w' \<and>
    (\<exists>pre payload. w_in w = pre @ (c_ethOffset c, payload) # w_in w' \<and>
      decodeAndValidateStatus rl (c_ethVer c) payload (Some (c_params c)) = (fid, None))"
  using assms
proof (induction rl c d s w rule: read_status.induct)
  case (1 rl c d s w)
  obtain s1 w1 where s: "schedule_write (c_ethOffset c) d s w = (s1, w1)" by (metis surj_pair)
  have wr: "written (c_ethOffset c) d s1 w1" using schedule_written [OF s 1(4)] .
  have in1: "w_in w1 = w_in w" using schedule_write_in [OF s] .
  have l1: "later w w1" using later_ops(4) [OF s] .
  show ?case
  proof (cases "w_in w1")
    case Nil
    then show ?thesis using 1(3) by (simp add: read_status.simps [of rl c d s w] s)
  next
    case (Cons m ms)
    obtain code payload where m: "m = (code, payload)" by (cases m)
    let ?w2 = "w1\<lparr>w_in := ms\<rparr>"
    note r = Cons [unfolded m]
    have l2: "later w ?w2" using l1 r by (auto simp: later_def suffix_def)
    have wr2: "written (c_ethOffset c) d s1 ?w2" using wr by (simp add: written_def split: sum.splits)
    note IH = 1(1,2) [OF s [symmetric] wire_read_simps(2) [OF r, symmetric] refl refl]
    consider (status) "code \<noteq> DiscMsg" "code = c_ethOffset c" | (ping) "code \<noteq> DiscMsg" "code \<noteq> c_ethOffset c" "code = PingMsg"
      | (other) "code \<noteq> DiscMsg" "code \<noteq> c_ethOffset c" "code \<noteq> PingMsg" | (disc) "code = DiscMsg" by blast
    then show ?thesis
    proof cases
      case disc
      then show ?thesis using 1(3) by (simp add: read_status.simps [of rl c d s w] s r)
    next
      case status
      then have "decodeAndValidateStatus rl (c_ethVer c) payload (Some (c_params c)) = (fid, None) \<and> s' = s1 \<and> w' = ?w2"
        using 1(3) by (auto simp: read_status.simps [of rl c d s w] s r split: prod.splits)
      then show ?thesis using l2 wr2 r in1 status(2) by (intro conjI exI [of _ "[]"] exI [of _ payload]) auto
    next
      case ping
      obtain e w3 where w3: "wire_write PongMsg pong_payload ?w2 = (e, w3)" by (metis surj_pair)
      have e: "e = None" "read_status rl c d s1 w3 = ((fid, None), s', w')"
        using 1(3) ping w3 by (auto simp: read_status.simps [of rl c d s w] s r split: option.splits)
      have l3: "later ?w2 w3" using later_ops(2) [OF w3] .
      have in3: "w_in w3 = ms" using w3 by (auto simp: wire_write_def)
      obtain pre p where "written (c_ethOffset c) d s' w'" "later w3 w'" "w_in w3 = pre @ (c_ethOffset c, p) # w_in w'"
          "decodeAndValidateStatus rl (c_ethVer c) p (Some (c_params c)) = (fid, None)"
        using IH(1) [OF ping w3 [symmetric] e(1) e(2) written_later [OF wr2 l3]] by blast
      then show ?thesis using l2 l3 in1 in3 r
        by (intro conjI exI [of _ "(code, payload) # pre"] exI [of _ p]) (auto intro: later_trans)
    next
      case other
      have e: "read_status rl c d s1 ?w2 = ((fid, None), s', w')"
        using 1(3) other by (auto simp: read_status.simps [of rl c d s w] s r)
      obtain pre p where "written (c_ethOffset c) d s' w'" "later ?w2 w'" "w_in ?w2 = pre @ (c_ethOffset c, p) # w_in w'"
          "decodeAndValidateStatus rl (c_ethVer c) p (Some (c_params c)) = (fid, None)"
        using IH(2) [OF other e wr2] by blast
      then show ?thesis using l2 in1 r
        by (intro conjI exI [of _ "(code, payload) # pre"] exI [of _ p]) (auto intro: later_trans)
    qed
  qed
qed

lemma status_phase_succeeds:
  assumes "status_phase env rl k c d w = ((fid, None), w')"
  shows "(c_ethOffset c, d) \<in> set (w_out w') \<and> last (w_deadlines w') = SetDeadline None \<and>
    (\<exists>pre payload. w_in w = pre @ (c_ethOffset c, payload) # w_in w' \<and>
      decodeAndValidateStatus rl (c_ethVer c) payload (Some (c_params c)) = (fid, None))"
proof -
  obtain w1 where 1: "set_deadline (SetDeadline (Some (bound env (c_ctx c) (10 * 10 ^ 9)))) w = (None, w1)"
    using assms by (auto simp: status_phase_def split: prod.splits option.splits)
  obtain s w2 where 2: "read_status rl c d (Inl (de_send env k)) w1 = ((fid, None), s, w2)"
    using assms 1 by (auto simp: status_phase_def split: prod.splits option.splits)
  obtain w3 where 3: "set_deadline (SetDeadline None) w2 = (None, w3)"
    using assms 1 2 by (auto simp: status_phase_def split: prod.splits option.splits)
  have 4: "finish_write (c_ethOffset c) d s w3 = (None, w')"
    using assms 1 2 3 by (auto simp: status_phase_def split: prod.splits option.splits)
  have w1: "w_in w1 = w_in w" using 1 by (auto simp: set_deadline_def)
  have w3: "w_in w3 = w_in w2" "w_deadlines w3 = w_deadlines w2 @ [SetDeadline None]" "w_out w3 = w_out w2"
    using 3 by (auto simp: set_deadline_def)
  have w': "w_in w' = w_in w3" "w_deadlines w' = w_deadlines w3"
    using 4 by (auto simp: finish_write_def wire_write_def split: sum.splits)
  have r: "written (c_ethOffset c) d s w2"
    "\<exists>pre payload. w_in w1 = pre @ (c_ethOffset c, payload) # w_in w2 \<and>
      decodeAndValidateStatus rl (c_ethVer c) payload (Some (c_params c)) = (fid, None)"
    using read_status_succeeds [OF 2] by (auto simp: written_def)
  have "written (c_ethOffset c) d s w3" using r(1) w3(3) by (simp add: written_def split: sum.splits)
  then show ?thesis using finish_written [OF 4] r(2) w1 w3 w' by simp
qed

section \<open>The dial\<close>

text \<open>What the Hello exchange agrees on, with the capabilities \<open>remote\<close> that the peer advertised.\<close>

definition agreed ::
    "eth_rlp \<Rightarrow> p2p_cap list \<Rightarrow> p2p_cap list \<Rightarrow> ('w, 'o, 'k) conn \<Rightarrow> bytes \<Rightarrow> bool" where
  "agreed rl caps remote c statusData \<longleftrightarrow>
     negotiatedCapabilities caps remote = Inr (c_negotiated c) \<and>
     capabilityOffset (c_negotiated c) ''eth'' = Inr (c_ethOffset c, c_ethVer c, True) \<and>
     encodeStatus rl (c_ethVer c) (c_params c) = Inr statusData"

lemma io_lift_Inr: "io_lift r w = (Inr x, w') \<longleftrightarrow> r = Inr x \<and> w' = w"
  by (auto simp: io_lift_def)

lemma raw_hello_succeeds:
  assumes "raw_hello_steps env rl ctx key caps node cp w = (Inr (c, d), w')"
  shows "fresh_conn c \<and> c_params c = cp \<and> (\<exists>remote. agreed rl caps remote c d)"
  using assms unfolding raw_hello_steps_def
  by (auto simp: io_bind_Inr io_wrap_Inr io_deadline_Inr io_lift_Inr io_return_def fresh_conn_def agreed_def split: if_splits)

lemma on_last_Inr_wires:
  "on_last m out = (Inr y, ws) \<Longrightarrow>
     \<exists>x vs w. out = (Inr x, vs) \<and> m x (last vs) = (Inr y, w) \<and> ws = butlast vs @ [w]"
  by (auto simp: on_last_def closing_Inr split: prod.splits sum.splits)

lemma wrap_out_Inr [simp]: "wrap_out f out = (Inr x, ws) \<longleftrightarrow> out = (Inr x, ws)"
  by (auto simp: wrap_out_def split: prod.splits)

lemma rlpx_dial_succeeds:
  assumes "rlpx_DialWithKey env k ctx target key = (Inr u, ws)"
  shows "\<exists>fd. de_tcp env k = Inr fd \<and> suffix (w_in (last ws)) (w_in fd)"
proof -
  obtain x vs w where 1: "rlpx_dial env k ctx target key = (Inr x, vs)" and 2: "clearDeadline (last vs) = (Inr u, w)"
      and ws: "ws = butlast vs @ [w]"
    using on_last_Inr_wires [OF assms [unfolded rlpx_DialWithKey_def]] by blast
  obtain fd where fd: "de_tcp env k = Inr fd" and 3: "suffix (w_in (last vs)) (w_in fd)"
    using 1 unfolding rlpx_dial_def Let_def
    by (auto split: option.splits sum.splits dest!: on_last_Inr_wires
        simp: io_bind_Inr io_wrap_Inr io_deadline_Inr io_lift_Inr open_wire_def)
  have "w_in w = w_in (last vs)" using 2 by (auto simp: clearDeadline_def io_wrap_Inr io_deadline_Inr)
  then show ?thesis using fd 3 ws by simp
qed

text \<open>What the peer and the code have established when the k-th dial succeeds.\<close>

definition established ::
    "'k dial_env \<Rightarrow> eth_rlp \<Rightarrow> nat \<Rightarrow> p2p_cap list \<Rightarrow> ('w, 'o, 'k) conn \<Rightarrow> wire \<Rightarrow> bool" where
  "established env rl k caps c w \<longleftrightarrow>
     fresh_conn c \<and> last (w_deadlines w) = SetDeadline None \<and>
     (\<exists>remote own. agreed rl caps remote c own \<and> (c_ethOffset c, own) \<in> set (w_out w)) \<and>
     (\<exists>fd before payload fid. de_tcp env k = Inr fd \<and> w_in fd = before @ (c_ethOffset c, payload) # w_in w \<and>
        decodeAndValidateStatus rl (c_ethVer c) payload (Some (c_params c)) = (fid, None))"

lemma rawDial_succeeds:
  assumes "rawDial env rl k ctx node cp key caps = (fid, Inr c, ws)"
  shows "established env rl k caps c (last ws) \<and> c_params c = cp"
proof -
  obtain d vs where 1: "on_last (\<lambda>_. raw_hello_steps env rl ctx key caps node cp)
      (wrap_out ''rlpx handshake: %w'' (rlpx_DialWithKey env k ctx (nd_text node) (Some key))) = (Inr (c, d), vs)"
    using assms by (auto simp: rawDial_def split: prod.splits sum.splits option.splits)
  obtain w where 2: "status_phase env rl k c d (last vs) = ((fid, None), w)" and ws: "ws = butlast vs @ [w]"
    using assms 1 by (auto simp: rawDial_def split: prod.splits sum.splits option.splits)
  obtain u us v where 3: "rlpx_DialWithKey env k ctx (nd_text node) (Some key) = (Inr u, us)"
      and 4: "raw_hello_steps env rl ctx key caps node cp (last us) = (Inr (c, d), v)" and vs: "vs = butlast us @ [v]"
    using on_last_Inr_wires [OF 1] by auto
  obtain fd where fd: "de_tcp env k = Inr fd" "suffix (w_in (last us)) (w_in fd)" using rlpx_dial_succeeds [OF 3] by blast
  have "suffix (w_in v) (w_in (last us))" using forwardD [OF forward_raw_hello 4] by (simp add: later_def)
  then have "suffix (w_in v) (w_in fd)" using fd(2) by (rule suffix_order.trans)
  then obtain b where b: "w_in fd = b @ w_in v" by (auto simp: suffix_def)
  obtain pre payload where p: "w_in v = pre @ (c_ethOffset c, payload) # w_in w"
      "decodeAndValidateStatus rl (c_ethVer c) payload (Some (c_params c)) = (fid, None)"
    and o: "(c_ethOffset c, d) \<in> set (w_out w)" "last (w_deadlines w) = SetDeadline None"
    using status_phase_succeeds [OF 2] vs by auto
  have "w_in fd = (b @ pre) @ (c_ethOffset c, payload) # w_in w" using b p(1) by simp
  then show ?thesis using raw_hello_succeeds [OF 4] o p(2) fd(1) ws
    unfolding established_def by auto
qed

lemma agreed_offsets:
  assumes "agreed rl caps remote c d"
  shows "c_ethOffset c = 16 \<and> common_versions caps remote ''eth'' \<noteq> {} \<and> c_ethVer c = Max (common_versions caps remote ''eth'')"
proof -
  have n: "negotiatedCapabilities caps remote = Inr (c_negotiated c)"
    and o: "capabilityOffset (c_negotiated c) ''eth'' = Inr (c_ethOffset c, c_ethVer c, True)"
    using assms by (simp_all add: agreed_def)
  then show ?thesis using wire_offsets [of caps remote] by (auto simp: Let_def split: if_splits)
qed

lemma DialWithKey_succeeds:
  assumes "DialWithKey env rl ctx target rpc config key = Some (Inr c, ws)"
  shows "\<exists>k cp caps. validate config = None \<and> de_fetch env rpc = Inr cp \<and> capabilities config = Some caps \<and>
    established env rl k caps c (last ws) \<and> (c_params c = cp \<or> (\<exists>fid. c_params c = cp\<lparr>ForkID := fid\<rparr>))"
proof -
  obtain key' node cp caps where 1: "validate config = None" "de_fetch env rpc = Inr cp" "capabilities config = Some caps"
      "dial_retrying env rl (Some (background ctx)) node cp key' caps = (Inr c, ws)"
    using assms by (auto simp: DialWithKey_def Let_def split: option.splits sum.splits)
  consider (first) fid where "rawDial env rl 0 (Some (background ctx)) node cp key' caps = (fid, Inr c, ws)"
    | (retry) f e us fid vs where "rawDial env rl 0 (Some (background ctx)) node cp key' caps = (f, Inl e, us)"
        "rawDial env rl 1 (Some (background ctx)) node (cp\<lparr>ForkID := f\<rparr>) key' caps = (fid, Inr c, vs)" "ws = us @ vs"
    using 1(4) by (auto simp: dial_retrying_def split: prod.splits sum.splits if_splits)
  then show ?thesis
  proof cases
    case first
    then show ?thesis using rawDial_succeeds [OF first] 1 by blast
  next
    case retry
    note t = rawDial_tidy [OF retry(2)]
    have "last ws = last vs" using t retry(3) by (simp add: tidy_def)
    then show ?thesis using rawDial_succeeds [OF retry(2)] 1 by auto
  qed
qed

section \<open>From the dial to the caller\<close>

text \<open>
  C8: A successful \<open>DialWithKey\<close> hands over a connection on which nothing is missing. The configuration's capabilities and
  the chain parameters are those of the call, the parameters at most with the peer's fork ID; the version is the newest
  that both sides offer and the ETH messages start at 16; the own Status was written and the peer's, which passed the
  validation against these very parameters, is the message of the peer's stream after which the connection starts.
  From there on, in every interleaving of reader, receives and sends, the caller has received or has queued every message
  of the peer, in order and each once, until the queue overflows and the connection dies of it.
\<close>

theorem dialled_connection_delivers:
  assumes "DialWithKey env rl ctx target rpc config key = Some (Inr c, ws)"
    and "conn_reach st (c, last ws, []) (c', w', got)"
  shows "\<exists>k fd cp caps remote own before status seen.
    de_fetch env rpc = Inr cp \<and> capabilities config = Some caps \<and>
    (c_params c = cp \<or> (\<exists>fid. c_params c = cp\<lparr>ForkID := fid\<rparr>)) \<and>
    c_ethOffset c = 16 \<and> c_ethVer c \<in> common_versions caps remote ''eth'' \<and>
    c_ethVer c = Max (common_versions caps remote ''eth'') \<and>
    encodeStatus rl (c_ethVer c) (c_params c) = Inr own \<and> (16, own) \<in> set (w_out (last ws)) \<and>
    snd (decodeAndValidateStatus rl (c_ethVer c) status (Some (c_params c))) = None \<and>
    de_tcp env k = Inr fd \<and> w_in fd = before @ (16, status) # seen @ w_in w' \<and>
    length (c_msgs c') \<le> 256 \<and>
    (if c_readErr c' = Some errReceiveQueueFull then c_dead c' \<and> got @ c_msgs c' = butlast (data_of seen)
     else got @ c_msgs c' = data_of seen)"
proof -
  obtain k cp caps where d: "de_fetch env rpc = Inr cp" "capabilities config = Some caps"
      "c_params c = cp \<or> (\<exists>fid. c_params c = cp\<lparr>ForkID := fid\<rparr>)" and e: "established env rl k caps c (last ws)"
    using DialWithKey_succeeds [OF assms(1)] by blast
  obtain remote own where a: "agreed rl caps remote c own" "(c_ethOffset c, own) \<in> set (w_out (last ws))"
    using e by (auto simp: established_def)
  obtain fd before status fid where t: "de_tcp env k = Inr fd" "w_in fd = before @ (c_ethOffset c, status) # w_in (last ws)"
      "decodeAndValidateStatus rl (c_ethVer c) status (Some (c_params c)) = (fid, None)"
    using e by (auto simp: established_def)
  have "fresh_conn c" using e by (simp add: established_def)
  then obtain seen where s: "w_in (last ws) = seen @ w_in w'" "length (c_msgs c') \<le> 256"
      "if c_readErr c' = Some errReceiveQueueFull then c_dead c' \<and> got @ c_msgs c' = butlast (data_of seen)
       else got @ c_msgs c' = data_of seen"
    using reach_in_order [OF assms(2)] by blast
  have o: "c_ethOffset c = 16" "c_ethVer c \<in> common_versions caps remote ''eth''"
      "c_ethVer c = Max (common_versions caps remote ''eth'')"
    using agreed_offsets [OF a(1)] Max_in [of "common_versions caps remote ''eth''"] by auto
  have "encodeStatus rl (c_ethVer c) (c_params c) = Inr own" using a(1) by (simp add: agreed_def)
  then show ?thesis using d o a(2) t s by (intro exI conjI) (auto simp only: snd_conv)
qed

text \<open>A dial that succeeds: the peer answers the Hello, sends its Status and then one more message.\<close>

definition session_codec :: eth_rlp where
  "session_codec = demo_codec\<lparr>enc_hello := (\<lambda>h. Inr [0xc0]),
     dec_hello := (\<lambda>b. Inr \<lparr>ph_Version = 5, ph_Name = [], ph_Caps = [\<lparr>cap_Name = ''eth'', cap_Version = 70\<rparr>],
       ph_ListenPort = 0, ph_ID = [], ph_Rest = []\<rparr>)\<rparr>"

definition session_wire :: wire where
  "session_wire = \<lparr>w_in = [(HelloMsg, [0xc0]), (16, [0xc1, 70]), (17, [5])], w_end = EOF, w_res = (\<lambda>_. None),
     w_dlres = (\<lambda>_. None), w_out = [], w_deadlines = [], w_closed = 0, w_snappy = False\<rparr>"

definition session_env :: "unit dial_env" where
  "session_env = \<lparr>de_now = 0, de_parse = (\<lambda>_. Inr \<lparr>nd_ID = [], nd_text = []\<rparr>), de_keccak = (\<lambda>_. []), de_public = (\<lambda>_. []),
     de_copy = Inr, de_fetch = (\<lambda>_. Inr demo_peer), de_tcp = (\<lambda>_. Inr session_wire), de_handshake = (\<lambda>_. None),
     de_cipher = (\<lambda>_. None), de_send = (\<lambda>_. 0)\<rparr>"

definition session_config :: config where
  "session_config = \<lparr>MaxVersion = 0, SnapVersion = 0, Capabilities = [\<lparr>cap_Name = ''eth'', cap_Version = 70\<rparr>]\<rparr>"

definition session_conn :: "(unit, unit, unit) conn" where
  "session_conn = \<lparr>c_ctx = Some Background, c_ethOffset = 16, c_snapOffset = 0, c_ethVer = 70,
     c_negotiated = [\<lparr>cap_Name = ''eth'', cap_Version = 70\<rparr>], c_params = demo_peer, c_dead = False, c_msgs = [],
     c_discReason = '''', c_readErr = None\<rparr>"

lemma session_codec_simps [simp]:
  "enc_hello session_codec h = Inr [0xc0]" "encodeStatus session_codec 70 demo_peer = Inr [0xc1, 70]"
  "decodeAndValidateStatus session_codec 70 [0xc1, 70] (Some demo_peer) = (ForkID demo_peer, None)"
proof -
  show "encodeStatus session_codec 70 demo_peer = Inr [0xc1, 70]"
    using demo_peer_encodes by (simp add: encodeStatus_def session_codec_def)
  show "decodeAndValidateStatus session_codec 70 [0xc1, 70] (Some demo_peer) = (ForkID demo_peer, None)"
    using demo_peer_accepts by (simp add: decodeAndValidateStatus_def session_codec_def)
qed (simp add: session_codec_def)

lemma session_negotiates:
  "negotiatedCapabilities [\<lparr>cap_Name = ''eth'', cap_Version = 70\<rparr>] [\<lparr>cap_Name = ''eth'', cap_Version = 70\<rparr>] =
     Inr [\<lparr>cap_Name = ''eth'', cap_Version = 70\<rparr>]"
  "capabilityOffset [\<lparr>cap_Name = ''eth'', cap_Version = 70\<rparr>] ''eth'' = Inr (16, 70, True)"
  "capabilityOffset [\<lparr>cap_Name = ''eth'', cap_Version = 70\<rparr>] ''snap'' = Inr (0, 0, False)"
  by code_simp+

definition session_out :: wire where
  "session_out = session_wire\<lparr>w_in := [(17, [5])], w_out := [(HelloMsg, [0xc0]), (16, [0xc1, 70])],
     w_deadlines := [SetDeadline (Some (10 * 10 ^ 9)), SetDeadline None, SetDeadline (Some (10 * 10 ^ 9)), SetDeadline None,
       SetDeadline (Some (10 * 10 ^ 9)), SetDeadline None], w_snappy := True\<rparr>"

lemma session_env_simps [simp]:
  "de_parse session_env t = Inr \<lparr>nd_ID = [], nd_text = []\<rparr>" "de_fetch session_env u = Inr demo_peer"
  "de_tcp session_env k = Inr session_wire" "de_handshake session_env k = None" "de_cipher session_env k = None"
  "de_send session_env k = 0"
  by (simp_all add: session_env_def)

lemma session_bound: "bound session_env (Some Background) t = t"
  by (simp add: bound_def session_env_def Remaining_def Background_def)

lemma session_rlpx:
  "rlpx_DialWithKey session_env 0 (Some (Background :: (unit, unit, unit) go_ctx)) [] (Some ()) =
     (Inr (), [session_wire\<lparr>w_deadlines := [SetDeadline (Some (10 * 10 ^ 9)), SetDeadline None]\<rparr>])"
  by (simp add: rlpx_DialWithKey_def rlpx_dial_def background_def session_bound session_wire_def on_last_def closing_def
      io_bind_def io_wrap_def io_deadline_def io_lift_def set_deadline_def clearDeadline_def open_wire_def wrap_err_def to_err_def)

lemma session_hello:
  "raw_hello_steps session_env session_codec (Some Background) () [\<lparr>cap_Name = ''eth'', cap_Version = 70\<rparr>]
     \<lparr>nd_ID = [], nd_text = []\<rparr> demo_peer (session_wire\<lparr>w_deadlines := [SetDeadline (Some (10 * 10 ^ 9)), SetDeadline None]\<rparr>) =
   (Inr (session_conn, [0xc1, 70]),
    session_wire\<lparr>w_in := [(16, [0xc1, 70]), (17, [5])], w_out := [(HelloMsg, [0xc0])], w_snappy := True,
      w_deadlines := [SetDeadline (Some (10 * 10 ^ 9)), SetDeadline None, SetDeadline (Some (10 * 10 ^ 9)), SetDeadline None]\<rparr>)"
proof -
  have h: "dec_hello session_codec [0xc0] = Inr \<lparr>ph_Version = 5, ph_Name = [],
      ph_Caps = [\<lparr>cap_Name = ''eth'', cap_Version = 70\<rparr>], ph_ListenPort = 0, ph_ID = [], ph_Rest = []\<rparr>"
    by (simp add: session_codec_def)
  have v: "validateHelloIdentity session_env (Some \<lparr>nd_ID = [], nd_text = []\<rparr>) [] = None"
    by (simp add: validateHelloIdentity_def session_env_def)
  show ?thesis
    by (simp add: raw_hello_steps_def hello_exchange_def session_bound h v session_negotiates session_wire_def session_conn_def
        io_bind_def io_wrap_def io_deadline_def io_lift_def io_write_def io_return_def wire_write_def set_deadline_def
        SetSnappy_def wrap_err_def msg_codes to_err_def)
qed

lemma session_status:
  "status_phase session_env session_codec 0 session_conn [0xc1, 70]
     (session_wire\<lparr>w_in := [(16, [0xc1, 70]), (17, [5])], w_out := [(HelloMsg, [0xc0])], w_snappy := True,
      w_deadlines := [SetDeadline (Some (10 * 10 ^ 9)), SetDeadline None, SetDeadline (Some (10 * 10 ^ 9)), SetDeadline None]\<rparr>) =
   ((ForkID demo_peer, None), session_out)"
  by (simp add: status_phase_def read_status.simps [of session_codec] session_conn_def session_bound
      session_wire_def session_out_def set_deadline_def status_write_def wire_write_def finish_write_def msg_codes)

lemma session_dial:
  "DialWithKey session_env session_codec None [] [] session_config (Some ()) = Some (Inr session_conn, [session_out])"
proof -
  have cfg: "validate session_config = None" "capabilities session_config = Some [\<lparr>cap_Name = ''eth'', cap_Version = 70\<rparr>]"
    by code_simp+
  have "rawDial session_env session_codec 0 (Some Background) \<lparr>nd_ID = [], nd_text = []\<rparr> demo_peer ()
      [\<lparr>cap_Name = ''eth'', cap_Version = 70\<rparr>] = (ForkID demo_peer, Inr session_conn, [session_out])"
    unfolding rawDial_def node.simps session_rlpx
    by (simp add: wrap_out_def wrap_err_def on_last_def closing_def session_hello [simplified] session_status [simplified])
  then show ?thesis
    by (simp add: DialWithKey_def cfg background_def dial_retrying_def)
qed

lemma session_receives:
  "conn_reach session_codec (session_conn, session_out, []) (session_conn, session_out\<lparr>w_in := []\<rparr>, [(17, [5])])"
proof -
  have r: "readMessages session_codec (session_conn, session_out) =
      (session_conn\<lparr>c_msgs := [(17, [5])]\<rparr>, session_out\<lparr>w_in := []\<rparr>)"
    by (simp add: readMessages_def session_conn_def session_out_def session_wire_def queueMessage_def queue_capacity_def msg_codes)
  have m: "ReadMsg Message (session_conn\<lparr>c_msgs := [(17, [5])]\<rparr>) = (Some (Inr (17, [5])), session_conn)"
    by (simp add: ReadMsg_def session_conn_def)
  show ?thesis
    using conn_reach.step [OF conn_reach.step [OF conn_reach.start conn_step.reader [OF r, of "[]"]] conn_step.receive [OF m]] by simp
qed

lemma dialled_connection_delivers_witness:
  "DialWithKey session_env session_codec None [] [] session_config (Some ()) = Some (Inr session_conn, [session_out]) \<and>
   conn_reach session_codec (session_conn, session_out, []) (session_conn, session_out\<lparr>w_in := []\<rparr>, [(17, [5])]) \<and>
   (\<exists>before status seen. w_in session_wire = before @ (16, status) # seen \<and> data_of seen = [(17, [5])])"
proof -
  have live: "c_readErr session_conn = None" "c_msgs session_conn = []" by (simp_all add: session_conn_def)
  have "conn_reach session_codec (session_conn, last [session_out], []) (session_conn, session_out\<lparr>w_in := []\<rparr>, [(17, [5])])"
    using session_receives by simp
  from dialled_connection_delivers [OF session_dial this]
  obtain fd before status seen where "de_tcp session_env 0 = Inr fd" "w_in fd = before @ (16, status) # seen @ []"
      "[(17, [5])] = data_of seen"
    by (auto simp: live)
  then show ?thesis using session_dial session_receives by (intro conjI exI [of _ before] exI [of _ status] exI [of _ seen]) simp_all
qed

section \<open>What is retried\<close>

text \<open>
  The second dial is not only for a fork-ID rejection: when the peer's Status was accepted and writing the own one fails,
  the error comes with the peer's fork ID, and the dial is repeated.
\<close>

lemma write_failure_keeps_fork_id:
  assumes "set_deadline (SetDeadline (Some (bound env (c_ctx c) (10 * 10 ^ 9)))) w = (None, w1)"
    and "read_status rl c d (Inl (de_send env k)) w1 = ((fid, None), Inr (Some e), w2)"
    and "set_deadline (SetDeadline None) w2 = (None, w3)"
  shows "status_phase env rl k c d w = ((fid, Some (Wrapf ''write status: %w'' [] e)), w3)"
  using assms by (simp add: status_phase_def finish_write_def)

lemma error_with_fork_id_is_retried:
  assumes "on_last (\<lambda>_. raw_hello_steps env rl ctx key caps node cp)
      (wrap_out ''rlpx handshake: %w'' (rlpx_DialWithKey env 0 ctx (nd_text node) (Some key))) = (Inr (c, d), ws)"
    and "status_phase env rl 0 c d (last ws) = ((fid, Some e), w)" "fid \<noteq> no_fork"
  shows "dial_retrying env rl ctx node cp key caps =
    (case rawDial env rl 1 ctx node (cp\<lparr>ForkID := fid\<rparr>) key caps of (_, r, vs) \<Rightarrow> (r, (butlast ws @ [close_wire w]) @ vs))"
proof -
  have "rawDial env rl 0 ctx node cp key caps = (fid, Inl e, butlast ws @ [close_wire w])"
    using assms(1,2) by (simp add: rawDial_def)
  then show ?thesis using assms(3) by (simp add: dial_retrying_def)
qed

end
