(* ===== verification/Honest_Dial.thy ===== *)
theory Honest_Dial
  imports Eth_Session
begin

text \<open>
  The dials of package eth against an honest peer: with a network and codecs that work, \<open>DialWithKey\<close> succeeds at the
  first attempt, and the peer, running the same validation, accepts this node as well.
\<close>

section \<open>The steps of a dial that works\<close>

lemma wrap_err_Inr [simp]: "wrap_err f a (Inr x) = Inr x" by (simp add: wrap_err_def)

lemma rlpx_dial_works:
  assumes "de_parse env target = Inr n" "de_tcp env k = Inr fd" "de_handshake env k = None" "de_cipher env k = None"
    and "wire_fine fd"
  shows "\<exists>ds. rlpx_DialWithKey env k ctx target (Some key) = (Inr (), [(open_wire fd)\<lparr>w_deadlines := ds\<rparr>])"
  using assms
  by (auto simp: rlpx_DialWithKey_def rlpx_dial_def Let_def on_last_def closing_def io_bind_def io_wrap_def io_deadline_def
      io_lift_def set_deadline_def clearDeadline_def open_wire_def wire_fine_def to_err_def)

lemma raw_hello_works:
  assumes "wire_fine w" "w_in w = (HelloMsg, hb) # ms" "dec_hello rl hb = Inr h" "de_keccak env (ph_ID h) = nd_ID node"
    and "\<And>h. \<not> isl (enc_hello rl h)"
    and "negotiatedCapabilities caps (ph_Caps h) = Inr neg" "capabilityOffset neg ''eth'' = Inr (off, v, True)"
    and "capabilityOffset neg ''snap'' = Inr (snap, sv, sok)" "encodeStatus rl v cp = Inr own"
  shows "\<exists>w'. raw_hello_steps env rl ctx key caps node cp w =
      (Inr (\<lparr>c_ctx = ctx, c_ethOffset = off, c_snapOffset = snap, c_ethVer = v, c_negotiated = neg, c_params = cp,
         c_dead = False, c_msgs = [], c_discReason = '''', c_readErr = None\<rparr>, own), w') \<and>
    w_in w' = ms \<and> wire_fine w' \<and> w_closed w' = w_closed w"
proof -
  have e: "\<exists>b. enc_hello rl x = Inr b" for x using assms(5) [of x] by (cases "enc_hello rl x") auto
  have i: "validateHelloIdentity env (Some node) (ph_ID h) = None" using assms(4) by (simp add: validateHelloIdentity_def)
  obtain b where b: "enc_hello rl \<lparr>ph_Version = 5, ph_Name = ''raidan-sdk'', ph_Caps = caps, ph_ListenPort = 0,
      ph_ID = de_public env key, ph_Rest = []\<rparr> = Inr b" using e by blast
  show ?thesis
    using assms(1-3,6-9) i b
    by (auto simp: raw_hello_steps_def hello_exchange_def io_bind_def io_wrap_def io_deadline_def io_lift_def io_write_def
        io_return_def wire_write_def set_deadline_def SetSnappy_def msg_codes to_err_def wire_fine_def)
qed

lemma write_works: "wire_fine w \<Longrightarrow> wire_write code d w = (None, w\<lparr>w_out := w_out w @ [(code, d)]\<rparr>)"
  by (simp add: wire_write_def wire_fine_def)

lemma wire_fine_updates [simp]:
  "wire_fine (w\<lparr>w_in := ms\<rparr>) = wire_fine w" "wire_fine (w\<lparr>w_out := os\<rparr>) = wire_fine w"
  "wire_fine (w\<lparr>w_deadlines := ds\<rparr>) = wire_fine w"
  by (simp_all add: wire_fine_def)

lemma schedule_works:
  assumes "wire_fine w" "s \<in> range Inl \<union> {Inr None}"
  shows "\<exists>s' w'. schedule_write off d s w = (s', w') \<and> w_in w' = w_in w \<and> wire_fine w' \<and> w_closed w' = w_closed w \<and>
    s' \<in> range Inl \<union> {Inr None}"
  using assms by (cases "(off, d, s, w)" rule: schedule_write.cases) (auto simp: status_write_def write_works)

lemma read_status_works:
  assumes "wire_fine w" "w_in w = before @ (c_ethOffset c, payload) # rest" "c_ethOffset c = 16"
    and "list_all (\<lambda>(code, _). code \<noteq> DiscMsg \<and> code \<noteq> 16) before"
    and "decodeAndValidateStatus rl (c_ethVer c) payload (Some (c_params c)) = (fid, None)"
    and "s \<in> range Inl \<union> {Inr None}"
  shows "\<exists>s' w'. read_status rl c d s w = ((fid, None), s', w') \<and> w_in w' = rest \<and> wire_fine w' \<and> w_closed w' = w_closed w \<and>
    s' \<in> range Inl \<union> {Inr None}"
  using assms
proof (induction before arbitrary: s w)
  case Nil
  obtain s1 w1 where "schedule_write (c_ethOffset c) d s w = (s1, w1)" "w_in w1 = w_in w" "wire_fine w1" "w_closed w1 = w_closed w"
      "s1 \<in> range Inl \<union> {Inr None}"
    using schedule_works [OF Nil(1,6)] by blast
  then show ?case using Nil by (auto simp: read_status.simps [of rl c d s w] msg_codes)
next
  case (Cons m before)
  obtain code p where m: "m = (code, p)" by (cases m)
  obtain s1 w1 where 1: "schedule_write (c_ethOffset c) d s w = (s1, w1)" "w_in w1 = w_in w" "wire_fine w1"
      "w_closed w1 = w_closed w" "s1 \<in> range Inl \<union> {Inr None}"
    using schedule_works [OF Cons.prems(1,6)] by blast
  let ?w = "w1\<lparr>w_in := before @ (c_ethOffset c, payload) # rest\<rparr>"
  define v where "v = (if code = PingMsg then ?w\<lparr>w_out := w_out ?w @ [(PongMsg, pong_payload)]\<rparr> else ?w)"
  have v: "wire_fine v" "w_in v = before @ (c_ethOffset c, payload) # rest" "w_closed v = w_closed w"
    using 1 by (simp_all add: v_def)
  have step: "read_status rl c d s w = read_status rl c d s1 v"
    using Cons.prems(2-4) 1 m by (simp add: read_status.simps [of rl c d s w] write_works v_def)
  have all: "list_all (\<lambda>(code, _). code \<noteq> DiscMsg \<and> code \<noteq> 16) before" using Cons.prems(4) by simp
  show ?case using Cons.IH [OF v(1,2) Cons.prems(3) all Cons.prems(5) 1(5)] step v(3) by simp
qed

lemma status_phase_works:
  assumes "wire_fine w" "w_in w = before @ (c_ethOffset c, payload) # rest" "c_ethOffset c = 16"
    and "list_all (\<lambda>(code, _). code \<noteq> DiscMsg \<and> code \<noteq> 16) before"
    and "decodeAndValidateStatus rl (c_ethVer c) payload (Some (c_params c)) = (fid, None)"
  shows "\<exists>w'. status_phase env rl k c d w = ((fid, None), w') \<and> w_in w' = rest \<and> w_closed w' = w_closed w"
proof -
  let ?d = "SetDeadline (Some (bound env (c_ctx c) (10 * 10 ^ 9)))"
  let ?w = "w\<lparr>w_deadlines := w_deadlines w @ [?d]\<rparr>"
  obtain s' w' where r: "read_status rl c d (Inl (de_send env k)) ?w = ((fid, None), s', w')" "w_in w' = rest" "wire_fine w'"
      "w_closed w' = w_closed ?w" "s' \<in> range Inl \<union> {Inr None}"
    using read_status_works [of ?w before c payload rest rl fid "Inl (de_send env k)" d] assms by force
  have d: "set_deadline x v = (None, v\<lparr>w_deadlines := w_deadlines v @ [x]\<rparr>)" if "wire_fine v" for x v
    using that by (simp add: set_deadline_def wire_fine_def)
  show ?thesis using r assms(1)
    by (cases s') (auto simp: status_phase_def d finish_write_def write_works)
qed

section \<open>Two honest nodes\<close>

text \<open>
  A node's own parameters as \<open>fetchChainParamsUncached\<close> yields them (\<open>coherent\<close> of theory \<open>Rpc_Call\<close> has the first two parts), with
  what EIP-2124 presupposes of heads, checksums and block forks.
\<close>

definition honest_node :: "chain_params \<Rightarrow> bool" where
  "honest_node p \<longleftrightarrow> own_fork_id p \<and> HeadHash p \<noteq> 0 \<and> HeadNumber p \<noteq> - 1 \<and> HeadTime p \<noteq> - 1 \<and> distinct (local_sums p) \<and>
     list_all (\<lambda>f. f \<le> forkTimestampThreshold) (ForkBlocks p)"

lemma honest_nodes_agree:
  assumes "honest_node p" "honest_node q" "same_chain p q" "rlp_round_trip rl" "68 \<le> v" "v \<le> 72" "encodeStatus rl v q = Inr b"
  shows "decodeAndValidateStatus rl v b (Some p) = (ForkID q, None)"
  using assms honest_accepted [of v rl p q b] by (simp add: honest_node_def list_all_iff)

lemma same_chain_sym: "same_chain p q \<Longrightarrow> same_chain q p"
  by (auto simp: same_chain_def)

text \<open>What the negotiation gives when both sides know a version of eth.\<close>

lemma negotiation_works:
  assumes "list_all supportedCapability caps" "common_versions caps remote ''eth'' \<noteq> {}"
  defines "v \<equiv> Max (common_versions caps remote ''eth'')"
  shows "\<exists>neg snap sv sok. negotiatedCapabilities caps remote = Inr neg \<and> capabilityOffset neg ''eth'' = Inr (16, v, True) \<and>
    capabilityOffset neg ''snap'' = Inr (snap, sv, sok) \<and> 68 \<le> v \<and> v \<le> 72"
proof -
  have T: "\<forall>c \<in> set caps. supportedCapability c" using assms(1) by (simp add: list_all_iff)
  have fin: "finite (common_versions caps remote ''eth'')"
    by (rule finite_subset [of _ "cap_Version ` set caps"]) (auto simp: common_versions_def image_iff)
  then have "v \<in> common_versions caps remote ''eth''" using assms(2) Max_in v_def by blast
  then obtain c where "c \<in> set caps" "cap_Name c = ''eth''" "cap_Version c = v" by (auto simp: common_versions_def)
  then have "68 \<le> v \<and> v \<le> 72" using T by (auto simp: supportedCapability_def)
  then show ?thesis
    using negotiated_eq [OF T, of remote] capability_offsets(1,2) [OF T, of remote] assms(2)
    by (cases "common_versions caps remote ''snap'' = {}") (auto simp: offset_of_def v_def simp del: Max_ge_iff Max_le_iff)
qed

text \<open>
  C7: A dial to an honest peer succeeds. When the network, the handshake and the codecs work, the peer proves the identity of
  its address, offers a version of eth that the configuration has, and sends its Status after any other messages, then
  \<open>DialWithKey\<close> returns a connection on its only socket, at the newest common version, with the parameters fetched and the rest of
  the peer's stream still to be read; and the Status this node wrote passes the same validation at the peer.
\<close>

theorem honest_peer_is_dialled:
  assumes "validate config = None" "capabilities config = Some caps" "de_parse env target = Inr node"
    and "de_parse env (nd_text node) = Inr n" "de_fetch env rpc = Inr p" "de_tcp env 0 = Inr fd" "wire_fine fd"
    and "de_handshake env 0 = None" "de_cipher env 0 = None" "rlp_round_trip rl" "\<And>x. \<not> isl (enc_hello rl x)"
    and "w_in fd = (HelloMsg, hello) # before @ (16, status) # rest" "dec_hello rl hello = Inr h"
    and "de_keccak env (ph_ID h) = nd_ID node" "list_all (\<lambda>(code, _). code \<noteq> DiscMsg \<and> code \<noteq> 16) before"
    and "common_versions caps (ph_Caps h) ''eth'' \<noteq> {}" "v = Max (common_versions caps (ph_Caps h) ''eth'')"
    and "honest_node p" "honest_node q" "same_chain p q" "encodeStatus rl v p = Inr own" "encodeStatus rl v q = Inr status"
  shows "\<exists>c w. DialWithKey env rl ctx target rpc config (Some key) = Some (Inr c, [w]) \<and> fresh_conn c \<and> c_params c = p \<and>
    c_ethVer c = v \<and> c_ethOffset c = 16 \<and> w_in w = rest \<and> w_closed w = 0 \<and> (16, own) \<in> set (w_out w) \<and>
    decodeAndValidateStatus rl v own (Some q) = (ForkID p, None)"
proof -
  let ?ctx = "Some (background ctx)"
  have "list_all supportedCapability caps" using validated_caps [OF assms(1)] assms(2) by auto
  then obtain neg snap sv sok where n: "negotiatedCapabilities caps (ph_Caps h) = Inr neg"
      "capabilityOffset neg ''eth'' = Inr (16, v, True)" "capabilityOffset neg ''snap'' = Inr (snap, sv, sok)" "68 \<le> v" "v \<le> 72"
    using negotiation_works [of caps "ph_Caps h"] assms(16,17) by metis
  have ours: "decodeAndValidateStatus rl v own (Some q) = (ForkID p, None)"
    using honest_nodes_agree [OF assms(19,18) same_chain_sym [OF assms(20)] assms(10) n(4,5) assms(21)] .
  have theirs: "decodeAndValidateStatus rl v status (Some p) = (ForkID q, None)"
    using honest_nodes_agree [OF assms(18-20) assms(10) n(4,5) assms(22)] .
  obtain ds where r: "rlpx_DialWithKey env 0 ?ctx (nd_text node) (Some key) = (Inr (), [(open_wire fd)\<lparr>w_deadlines := ds\<rparr>])"
    using rlpx_dial_works [OF assms(4,6,8,9,7), of ?ctx key] by blast
  let ?w = "(open_wire fd)\<lparr>w_deadlines := ds\<rparr>"
  have w: "wire_fine ?w" "w_in ?w = (HelloMsg, hello) # before @ (16, status) # rest" "w_closed ?w = 0"
    using assms(7,12) by (simp_all add: wire_fine_def open_wire_def)
  let ?c = "\<lparr>c_ctx = ?ctx, c_ethOffset = 16, c_snapOffset = snap, c_ethVer = v, c_negotiated = neg, c_params = p,
      c_dead = False, c_msgs = [], c_discReason = '''', c_readErr = None\<rparr>"
  obtain w1 where h: "raw_hello_steps env rl ?ctx key caps node p ?w = (Inr (?c, own), w1)"
      "w_in w1 = before @ (16, status) # rest" "wire_fine w1" "w_closed w1 = 0"
    using raw_hello_works [OF w(1,2) assms(13,14,11) n(1-3) assms(21), of ?ctx key] w(3) by auto
  obtain w2 where s: "status_phase env rl 0 ?c own w1 = ((ForkID q, None), w2)" "w_in w2 = rest" "w_closed w2 = 0"
    using status_phase_works [of w1 before ?c status rest rl "ForkID q" env 0 own] h(2-4) assms(15) theirs by auto
  have "on_last (\<lambda>_. raw_hello_steps env rl ?ctx key caps node p)
      (wrap_out ''rlpx handshake: %w'' (rlpx_DialWithKey env 0 ?ctx (nd_text node) (Some key))) = (Inr (?c, own), [w1])"
    using r h(1) by (simp add: on_last_def wrap_out_def closing_def)
  then have "rawDial env rl 0 ?ctx node p key caps = (ForkID q, Inr ?c, [w2])"
    using s(1) by (simp add: rawDial_def)
  then have d: "DialWithKey env rl ctx target rpc config (Some key) = Some (Inr ?c, [w2])"
    using assms(1-3,5) by (simp add: DialWithKey_def Let_def dial_retrying_def)
  have "(16, own) \<in> set (w_out w2)" using status_phase_succeeds [OF s(1)] by simp
  then show ?thesis using d s(2,3) ours by (intro exI [of _ ?c] exI [of _ w2]) (simp add: fresh_conn_def)
qed

lemma demo_peer_honest: "honest_node demo_peer"
proof -
  have "local_sums demo_peer = local_sums demo_params" by (simp add: demo_peer_def local_sums_def)
  then have "distinct (local_sums demo_peer)" using demo_ok(3) by simp
  moreover have "own_fork_id demo_peer" by (simp add: own_fork_id_def demo_peer_def)
  moreover have "HeadTime demo_peer \<noteq> - 1" "list_all (\<lambda>f. f \<le> forkTimestampThreshold) (ForkBlocks demo_peer)"
    using demo_ok(2,4) by (simp_all add: demo_peer_def list_all_iff)
  ultimately show ?thesis by (simp add: honest_node_def) (simp add: demo_peer_def)
qed

lemma honest_peer_is_dialled_witness:
  "\<exists>(c :: (unit, unit, unit) conn) w.
     DialWithKey session_env session_codec None [] [] session_config (Some ()) = Some (Inr c, [w]) \<and>
     c_ethVer c = 70 \<and> w_in w = [(17, [5])] \<and> (16, [0xc1, 70]) \<in> set (w_out w)"
proof -
  let ?h = "\<lparr>ph_Version = 5, ph_Name = [], ph_Caps = [\<lparr>cap_Name = ''eth'', cap_Version = 70\<rparr>], ph_ListenPort = 0, ph_ID = [],
      ph_Rest = []\<rparr>"
  let ?caps = "[\<lparr>cap_Name = ''eth'', cap_Version = 70\<rparr>]"
  have cfg: "validate session_config = None" "capabilities session_config = Some ?caps" by code_simp+
  have common: "common_versions ?caps ?caps ''eth'' = {70}" by (auto simp: common_versions_def)
  have codec: "rlp_round_trip session_codec" "dec_hello session_codec [0xc0] = Inr ?h"
    using demo_codec_ok by (simp_all add: rlp_round_trip_def session_codec_def)
  have peer: "de_keccak session_env (ph_ID ?h) = nd_ID \<lparr>nd_ID = [], nd_text = []\<rparr>" by (simp add: session_env_def)
  have fd: "wire_fine session_wire" "w_in session_wire = (HelloMsg, [0xc0]) # [] @ (16, [0xc1, 70]) # [(17, [5])]"
    by (simp_all add: session_wire_def wire_fine_def)
  have same: "same_chain demo_peer demo_peer" by (simp add: same_chain_def)
  obtain c w where "DialWithKey session_env session_codec (None :: (unit, unit, unit) go_ctx option) [] [] session_config (Some ()) = Some (Inr c, [w])"
      "c_ethVer c = 70" "w_in w = [(17, [5])]" "(16, [0xc1, 70]) \<in> set (w_out w)"
    using honest_peer_is_dialled [where v = 70 and own = "[0xc1, 70]" and ctx = "None :: (unit, unit, unit) go_ctx option" and key = "()"
        and target = "[]" and rpc = "[]", OF cfg session_env_simps(1,1,2,3) fd(1) session_env_simps(4,5) codec(1) _ fd(2) codec(2) peer
        _ _ _ demo_peer_honest demo_peer_honest same]
    by (auto simp: common)
  then show ?thesis by blast
qed

end
