(* ===== verification/Cipher.thy ===== *)
theory Cipher
  imports Base
begin

text \<open>
  Package crypto/cipher and crypto/aes as rlpx and discovery use them: counter mode over a block cipher, and the key sizes
  that AES takes. The block function of AES is a parameter.
\<close>

section \<open>Counter mode\<close>

text \<open>Byte \<open>i\<close> of the key stream that starts at the given counter, and \<open>XORKeyStream\<close> from position \<open>pos\<close> of it on.\<close>

definition key_byte :: "(bytes \<Rightarrow> bytes) \<Rightarrow> 128 word \<Rightarrow> nat \<Rightarrow> byte" where
  "key_byte enc ctr i = enc (be_bytes 16 (ctr + of_nat (i div 16))) ! (i mod 16)"

definition XORKeyStream :: "(bytes \<Rightarrow> bytes) \<Rightarrow> 128 word \<Rightarrow> nat \<Rightarrow> bytes \<Rightarrow> bytes" where
  "XORKeyStream enc ctr pos xs = map (\<lambda>(i, x). x XOR key_byte enc ctr (pos + i)) (enumerate 0 xs)"

lemma length_XORKeyStream [simp]: "length (XORKeyStream enc ctr pos xs) = length xs"
  by (simp add: XORKeyStream_def)

lemma nth_XORKeyStream [simp]: "i < length xs \<Longrightarrow> XORKeyStream enc ctr pos xs ! i = xs ! i XOR key_byte enc ctr (pos + i)"
  by (simp add: XORKeyStream_def nth_enumerate_eq)

lemma XORKeyStream_twice [simp]: "XORKeyStream enc ctr pos (XORKeyStream enc ctr pos xs) = xs"
  by (rule nth_equalityI) (simp_all add: xor.assoc)

lemma take_XORKeyStream: "take n (XORKeyStream enc ctr pos xs) = XORKeyStream enc ctr pos (take n xs)"
  by (rule nth_equalityI) simp_all

section \<open>AES\<close>

text \<open>\<open>aes.NewCipher\<close> refuses keys of other lengths than 16, 24 and 32; \<open>aes\<close> is the block function of a key.\<close>

definition NewCipher :: "(bytes \<Rightarrow> bytes \<Rightarrow> bytes) \<Rightarrow> bytes \<Rightarrow> goerr + (bytes \<Rightarrow> bytes)" where
  "NewCipher aes key =
     (if length key \<in> {16, 24, 32} then Inr (aes key) else Inl (Errorf ''crypto/aes: invalid key size %d'' [VNat (length key)]))"

end
