(* ===== verification/Rlpx_Frame.thy ===== *)
theory Rlpx_Frame
  imports Go_IO Cipher
begin

text \<open>
  Package rlpx, conn.go and auth.go: the frame writer with its two MACs, \<open>Write\<close> and \<open>WriteRawFrame\<close>, and the
  initiator's handshake. AES, Keccak, elliptic curves, ECIES, RLP and snappy are parameters. \<open>Rlpx_Peer\<close> holds the other end.
\<close>

section \<open>Ciphers\<close>

text \<open>AES with the two session keys, each on one block (the key stream counts from zero), and Keccak-256 of everything hashed so far.\<close>

record frame_crypto =
  fc_enc :: "bytes \<Rightarrow> bytes"
  fc_mac :: "bytes \<Rightarrow> bytes"
  fc_keccak :: "bytes \<Rightarrow> bytes"

definition crypto_ok :: "frame_crypto \<Rightarrow> bool" where
  "crypto_ok cr \<longleftrightarrow> (\<forall>b. length (fc_enc cr b) = 16 \<and> length (fc_mac cr b) = 16 \<and> length (fc_keccak cr b) = 32)"

section \<open>The frame writer\<close>

text \<open>The state that each frame advances: the position in the key stream, the bytes that went into the MAC hash.\<close>

record frame_writer =
  fw_pos :: nat
  fw_hash :: bytes

definition maxFrameSize :: nat where "maxFrameSize = 0xffffff"

definition putUint24 :: "u32 \<Rightarrow> bytes" where
  "putUint24 value = [ucast (drop_bit 16 value), ucast (drop_bit 8 value), ucast value]"

definition compute :: "frame_crypto \<Rightarrow> bytes \<Rightarrow> bytes \<Rightarrow> bytes \<Rightarrow> bytes \<times> bytes" where
  "compute cr h digest seed =
     (let block = map2 (XOR) (fc_mac cr (take 16 digest)) seed;
          h = h @ block
      in (take 16 (fc_keccak cr h), h))"

definition mac_header :: "frame_crypto \<Rightarrow> bytes \<Rightarrow> bytes \<Rightarrow> bytes \<times> bytes" where
  "mac_header cr h header = compute cr h (fc_keccak cr h) header"

definition mac_frame :: "frame_crypto \<Rightarrow> bytes \<Rightarrow> bytes \<Rightarrow> bytes \<times> bytes" where
  "mac_frame cr h frame =
     (let h = h @ frame; seed = fc_keccak cr h
      in compute cr h seed (take 16 seed))"

definition padded :: "bytes \<Rightarrow> bytes" where
  "padded plaintext =
     (let padding = length plaintext mod 16
      in if 0 < padding then plaintext @ replicate (16 - padding) 0 else plaintext)"

text \<open>The bytes of a frame and the state after it; \<open>headerData\<close> has at most 13 bytes.\<close>

definition seal_frame :: "frame_crypto \<Rightarrow> frame_writer \<Rightarrow> bytes \<Rightarrow> bytes \<Rightarrow> bytes \<times> frame_writer" where
  "seal_frame cr w headerData plaintext =
     (let header = putUint24 (of_nat (length plaintext)) @ headerData @ replicate (13 - length headerData) 0;
          header = XORKeyStream (fc_enc cr) 0 (fw_pos w) header;
          frame = XORKeyStream (fc_enc cr) 0 (fw_pos w + 16) (padded plaintext);
          (hmac, h) = mac_header cr (fw_hash w) header;
          (fmac, h) = mac_frame cr h frame
      in (header @ hmac @ frame @ fmac, \<lparr>fw_pos = fw_pos w + 16 + length frame, fw_hash = h\<rparr>))"

definition frame_write ::
    "frame_crypto \<Rightarrow> wbeh \<Rightarrow> nat \<Rightarrow> bytes \<Rightarrow> bytes \<Rightarrow> frame_writer \<Rightarrow> (goerr option \<times> bytes \<times> nat) option \<times> frame_writer" where
  "frame_write cr dst k headerData plaintext w =
     (if 13 < length headerData
      then (Some (Some (Errorf ''header-data too large: %d bytes'' [VNat (length headerData)]), [], k), w)
      else if maxFrameSize < length plaintext
      then (Some (Some (Errorf ''frame payload too large: %d bytes'' [VNat (length plaintext)]), [], k), w)
      else case seal_frame cr w headerData plaintext of (out, w) \<Rightarrow> (writeAll dst k out, w))"

text \<open>\<open>WriteRawFrame\<close> and \<open>Write\<close> of a connection; \<open>None\<close> as the connection is Go's nil.\<close>

definition WriteRawFrame ::
    "frame_crypto \<Rightarrow> wbeh \<Rightarrow> nat \<Rightarrow> bytes \<Rightarrow> bytes \<Rightarrow> frame_writer option \<Rightarrow>
     (goerr option \<times> bytes \<times> nat) option \<times> frame_writer option" where
  "WriteRawFrame cr dst k headerData plaintext c =
     (case c of None \<Rightarrow> (Some (Some (Errorf ''rlpx connection is nil'' []), [], k), None)
      | Some w \<Rightarrow> (case frame_write cr dst k headerData plaintext w of (r, w) \<Rightarrow> (r, Some w)))"

text \<open>RLP of an unsigned integer and snappy's block format.\<close>

record payload_codec =
  pc_uint :: "u64 \<Rightarrow> bytes"
  pc_snappy :: "bytes \<Rightarrow> bytes"

definition frame_header :: bytes where "frame_header = [0xc2, 0x80, 0x80]"

definition message_plain :: "payload_codec \<Rightarrow> bool \<Rightarrow> u64 \<Rightarrow> bytes \<Rightarrow> bytes" where
  "message_plain pc snappy code payload = pc_uint pc code @ (if snappy then pc_snappy pc payload else payload)"

definition Write ::
    "frame_crypto \<Rightarrow> payload_codec \<Rightarrow> bool \<Rightarrow> wbeh \<Rightarrow> nat \<Rightarrow> u64 \<Rightarrow> bytes \<Rightarrow> frame_writer option \<Rightarrow>
     ((goerr + u32) \<times> bytes \<times> nat) option \<times> frame_writer option" where
  "Write cr pc snappy dst k code payload c =
     (case c of None \<Rightarrow> (Some (Inl (Errorf ''rlpx connection is nil'' []), [], k), None)
      | Some w \<Rightarrow>
        if maxFrameSize < length payload
        then (Some (Inl (Errorf ''frame payload too large: %d bytes'' [VNat (length payload)]), [], k), Some w)
        else case frame_write cr dst k frame_header (message_plain pc snappy code payload) w of
          (None, w) \<Rightarrow> (None, Some w)
        | (Some (Some e, out, k), w) \<Rightarrow> (Some (Inl e, out, k), Some w)
        | (Some (None, out, k), w) \<Rightarrow>
            (Some (Inr (of_nat (length (if snappy then pc_snappy pc payload else payload))), out, k), Some w))"

section \<open>The handshake\<close>

record auth_msg =
  Signature :: bytes
  InitiatorPubkey :: bytes
  am_Nonce :: bytes
  am_Version :: nat

record auth_response =
  RandomPubkey :: bytes
  ar_Nonce :: bytes

record secrets =
  s_AES :: bytes
  s_MAC :: bytes
  s_EgressMAC :: bytes
  s_IngressMAC :: bytes

text \<open>
  Keys of type \<open>'k\<close>, public keys of type \<open>'p\<close>. \<open>hc_shared\<close> is ECDH, \<open>hc_marshal\<close> the 65-byte uncompressed form; the
  random source is what it hands out: the ephemeral key, the nonce and the padding, or its error.
\<close>

record ('k, 'p) handshake_crypto =
  hc_generate :: "goerr + 'k"
  hc_nonce :: "goerr + bytes"
  hc_padding :: "goerr + bytes"
  hc_public :: "'k \<Rightarrow> 'p"
  hc_shared :: "'k \<Rightarrow> 'p \<Rightarrow> goerr + bytes"
  hc_sign :: "bytes \<Rightarrow> 'k \<Rightarrow> goerr + bytes"
  hc_marshal :: "'p \<Rightarrow> bytes"
  hc_unmarshal :: "bytes \<Rightarrow> goerr + 'p"
  hc_encrypt :: "'p \<Rightarrow> bytes \<Rightarrow> bytes \<Rightarrow> goerr + bytes"
  hc_decrypt :: "'k \<Rightarrow> bytes \<Rightarrow> bytes \<Rightarrow> goerr + bytes"
  hc_encode :: "auth_msg \<Rightarrow> goerr + bytes"
  hc_decode :: "bytes \<Rightarrow> goerr + auth_response"
  hc_keccak :: "bytes \<Rightarrow> bytes"

definition xorBytesAuth :: "bytes \<Rightarrow> bytes \<Rightarrow> bytes option" where
  "xorBytesAuth a b = (if length a \<noteq> length b then None else Some (map2 (XOR) a b))"

text \<open>\<open>copy\<close> into a zeroed array.\<close>

definition copy_into :: "nat \<Rightarrow> bytes \<Rightarrow> bytes" where
  "copy_into n xs = take n xs @ replicate (n - length xs) 0"

definition rlpxAuthEciesOverhead :: nat where "rlpxAuthEciesOverhead = 65 + 16 + 32"

definition sealHandshakeMessage :: "('k, 'p) handshake_crypto \<Rightarrow> auth_msg \<Rightarrow> 'p \<Rightarrow> goerr + bytes" where
  "sealHandshakeMessage hc message remote =
     err_bind (hc_encode hc message) (\<lambda>plain.
     err_bind (hc_padding hc) (\<lambda>padding.
       let plain = plain @ padding; sz = length plain + rlpxAuthEciesOverhead
       in if 0xffff < sz then Inl (Errorf ''handshake packet too large'' [])
          else let pre = be_bytes 2 (of_nat sz :: u16)
               in err_bind (hc_encrypt hc remote plain pre) (\<lambda>encrypted. Inr (pre @ encrypted))))"

definition readHandshakeMessage ::
    "('k, 'p) handshake_crypto \<Rightarrow> 'k \<Rightarrow> reader \<Rightarrow> (goerr + bytes \<times> auth_response) \<times> reader" where
  "readHandshakeMessage hc local src =
     (case read_full 2 src of
        (Inl e, src) \<Rightarrow> (Inl e, src)
      | (Inr pre, src) \<Rightarrow>
         let sz = unat (be_val pre :: u16)
         in if 2048 < sz then (Inl (Errorf ''handshake packet too large: %d'' [VNat sz]), src)
            else (case read_full sz src of
              (Inl e, src) \<Rightarrow> (Inl e, src)
            | (Inr packet, src) \<Rightarrow>
                (err_bind (hc_decrypt hc local packet pre) (\<lambda>plain.
                 err_bind (hc_decode hc plain) (\<lambda>output. Inr (pre @ packet, output))), src)))"

text \<open>The first half of \<open>initiatorHandshake\<close>: the ephemeral key, the nonce and the packet. \<open>None\<close> is a panic.\<close>

definition initiator_auth :: "('k, 'p) handshake_crypto \<Rightarrow> 'k \<Rightarrow> 'p \<Rightarrow> (goerr + 'k \<times> bytes \<times> bytes) option" where
  "initiator_auth hc local remote =
     (case hc_generate hc of Inl e \<Rightarrow> Some (Inl e) | Inr eph \<Rightarrow>
      case hc_nonce hc of Inl e \<Rightarrow> Some (Inl e) | Inr initNonce \<Rightarrow>
      case hc_shared hc local remote of Inl e \<Rightarrow> Some (Inl e) | Inr staticSecret \<Rightarrow>
      case xorBytesAuth staticSecret initNonce of None \<Rightarrow> None | Some digest \<Rightarrow>
        Some (err_bind (hc_sign hc digest eph) (\<lambda>signature.
          let message = \<lparr>Signature = copy_into 65 signature,
                         InitiatorPubkey = copy_into 64 (drop 1 (hc_marshal hc (hc_public hc local))),
                         am_Nonce = copy_into 32 initNonce, am_Version = 4\<rparr>
          in err_bind (sealHandshakeMessage hc message remote) (\<lambda>authPacket. Inr (eph, initNonce, authPacket)))))"

definition session_keys :: "('k, 'p) handshake_crypto \<Rightarrow> bytes \<Rightarrow> bytes \<Rightarrow> bytes \<Rightarrow> bytes \<times> bytes" where
  "session_keys hc ecdheSecret respNonce initNonce =
     (let shared = hc_keccak hc (ecdheSecret @ hc_keccak hc (respNonce @ initNonce));
          aesSecret = hc_keccak hc (ecdheSecret @ shared);
          macSecret = hc_keccak hc (ecdheSecret @ aesSecret)
      in (aesSecret, macSecret))"

text \<open>The second half: what the response yields.\<close>

definition initiator_secrets ::
    "('k, 'p) handshake_crypto \<Rightarrow> 'k \<Rightarrow> bytes \<Rightarrow> bytes \<Rightarrow> bytes \<Rightarrow> auth_response \<Rightarrow> (goerr + secrets) option" where
  "initiator_secrets hc eph initNonce authPacket responsePacket response =
     (case hc_unmarshal hc (4 # RandomPubkey response) of
        Inl e \<Rightarrow> Some (Inl (Wrapf ''decode responder ephemeral key: %w'' [] e))
      | Inr remoteEph \<Rightarrow>
        (case hc_shared hc eph remoteEph of Inl e \<Rightarrow> Some (Inl e) | Inr ecdheSecret \<Rightarrow>
          case session_keys hc ecdheSecret (ar_Nonce response) initNonce of (aesSecret, macSecret) \<Rightarrow>
          (case xorBytesAuth macSecret (ar_Nonce response) of None \<Rightarrow> None | Some egress \<Rightarrow>
           case xorBytesAuth macSecret initNonce of None \<Rightarrow> None | Some ingress \<Rightarrow>
             Some (Inr \<lparr>s_AES = aesSecret, s_MAC = macSecret, s_EgressMAC = egress @ authPacket,
                        s_IngressMAC = ingress @ responsePacket\<rparr>))))"

text \<open>The result, the bytes written and what is left to read.\<close>

definition initiatorHandshake ::
    "('k, 'p) handshake_crypto \<Rightarrow> wbeh \<Rightarrow> reader \<Rightarrow> 'k option \<Rightarrow> 'p option \<Rightarrow> (goerr + secrets) option \<times> bytes \<times> reader" where
  "initiatorHandshake hc dst src local remote =
     (case (local, remote) of
        (Some local, Some remote) \<Rightarrow>
         (case initiator_auth hc local remote of
            None \<Rightarrow> (None, [], src)
          | Some (Inl e) \<Rightarrow> (Some (Inl e), [], src)
          | Some (Inr (eph, initNonce, authPacket)) \<Rightarrow>
             (case writeAll dst 0 authPacket of
                None \<Rightarrow> (None, [], src)
              | Some (Some e, out, _) \<Rightarrow> (Some (Inl e), out, src)
              | Some (None, out, _) \<Rightarrow>
                 (case readHandshakeMessage hc local src of
                    (Inl e, src) \<Rightarrow> (Some (Inl e), out, src)
                  | (Inr (responsePacket, response), src) \<Rightarrow>
                      (initiator_secrets hc eph initNonce authPacket responsePacket response, out, src))))
      | _ \<Rightarrow> (Some (Inl (Errorf ''RLPx identity keys are required'' [])), [], src))"

definition newConn ::
    "(bytes \<Rightarrow> bytes \<Rightarrow> bytes) \<Rightarrow> (bytes \<Rightarrow> bytes) \<Rightarrow> secrets \<Rightarrow> goerr + frame_crypto \<times> frame_writer" where
  "newConn aes keccak s =
     err_bind (wrap_err ''create frame cipher: %w'' [] (NewCipher aes (s_AES s))) (\<lambda>block.
     err_bind (wrap_err ''create frame MAC cipher: %w'' [] (NewCipher aes (s_MAC s))) (\<lambda>macBlock.
       Inr (\<lparr>fc_enc = block, fc_mac = macBlock, fc_keccak = keccak\<rparr>, \<lparr>fw_pos = 0, fw_hash = s_EgressMAC s\<rparr>)))"

section \<open>What a success says\<close>

lemma length_putUint24 [simp]: "length (putUint24 v) = 3" by (simp add: putUint24_def)

lemma frame_write_ok:
  assumes "counts_ok dst" "frame_write cr dst k h p w = (Some (None, out, k'), w')"
  shows "length h \<le> 13 \<and> length p \<le> maxFrameSize \<and> seal_frame cr w h p = (out, w')"
  using assms
  by (auto simp: frame_write_def writeAll_counts split: if_splits prod.splits dest: writeFull_complete)

text \<open>A socket that takes at least one byte a call takes every frame within the limits.\<close>

lemma seal_chunked:
  assumes "0 < n" "length h \<le> 13" "length p \<le> maxFrameSize"
  shows "\<exists>out k' w'. frame_write cr (chunked_writer n) k h p w = (Some (None, out, k'), w')"
proof -
  obtain out w' where s: "seal_frame cr w h p = (out, w')" by (metis surj_pair)
  obtain k' where "writeAll (chunked_writer n) k out = Some (None, out, k')"
    using writeFull_chunked [OF assms(1)] by (metis writeAll_counts chunked_counts)
  then show ?thesis using assms s by (simp add: frame_write_def)
qed

lemma xor_auth_Some [simp]: "length a = length b \<Longrightarrow> xorBytesAuth a b = Some (map2 (XOR) a b)"
  by (simp add: xorBytesAuth_def)

lemma length_copy_into [simp]: "length (copy_into n xs) = n" by (simp add: copy_into_def)

lemma copy_into_exact [simp]: "length xs = n \<Longrightarrow> copy_into n xs = xs" by (simp add: copy_into_def)

end
