(* ===== verification/Rlpx_Peer.thy ===== *)
theory Rlpx_Peer
  imports Rlpx_Frame
begin

text \<open>
  The other end of a connection of rlpx/conn.go, by the RLPx specification: how the recipient of a handshake reads the
  auth packet, derives the secrets and opens frames. Nothing of it is taken from \<open>Rlpx_Frame\<close>, which models the code;
  the two share the parameters only (Keccak, AES, the curve, ECIES, RLP and snappy). The lemmas show that they meet.
\<close>

section \<open>The recipient of a handshake\<close>

text \<open>
  What the recipient needs beyond the parameters of the code: it decodes an auth message, ignoring what follows its list,
  to signature, static key and nonce, and recovers a public key from a digest and a signature on it.
\<close>

record 'p auth_reader =
  au_decode :: "bytes \<Rightarrow> (bytes \<times> bytes \<times> bytes) option"
  au_recover :: "bytes \<Rightarrow> bytes \<Rightarrow> 'p option"

definition xor_all :: "bytes \<Rightarrow> bytes \<Rightarrow> bytes" where
  "xor_all xs ys = map (\<lambda>i. xs ! i XOR ys ! i) [0..<min (length xs) (length ys)]"

text \<open>
  \<open>auth = auth-size || ecies.encrypt(recipient, auth-body || auth-padding, auth-size)\<close>, with a signature by the ephemeral
  key on \<open>static-shared-secret ^ initiator-nonce\<close>. It yields static key, ephemeral key and nonce of the initiator.
\<close>

definition read_auth :: "('k, 'p) handshake_crypto \<Rightarrow> 'p auth_reader \<Rightarrow> 'k \<Rightarrow> bytes \<Rightarrow> ('p \<times> 'p \<times> bytes) option" where
  "read_auth hc au static packet =
     (case packet of
        hi # lo # body \<Rightarrow>
          if length body \<noteq> unat hi * 256 + unat lo then None
          else (case hc_decrypt hc static body [hi, lo] of Inl _ \<Rightarrow> None | Inr plain \<Rightarrow>
                case au_decode au plain of None \<Rightarrow> None | Some (signature, key, nonce) \<Rightarrow>
                case hc_unmarshal hc (4 # key) of Inl _ \<Rightarrow> None | Inr initiator \<Rightarrow>
                case hc_shared hc static initiator of Inl _ \<Rightarrow> None | Inr secret \<Rightarrow>
                  map_option (\<lambda>eph. (initiator, eph, nonce)) (au_recover au (xor_all secret nonce) signature))
      | _ \<Rightarrow> None)"

record peer_secrets =
  ps_aes :: bytes
  ps_mac :: bytes
  ps_egress :: bytes
  ps_ingress :: bytes

text \<open>The secrets of the recipient; a MAC state is the bytes that went into its hash.\<close>

definition recipient_secrets ::
    "(bytes \<Rightarrow> bytes) \<Rightarrow> bytes \<Rightarrow> bytes \<Rightarrow> bytes \<Rightarrow> bytes \<Rightarrow> bytes \<Rightarrow> peer_secrets" where
  "recipient_secrets keccak ephemeral initNonce respNonce auth ack =
     (let shared = keccak (ephemeral @ keccak (respNonce @ initNonce));
          aes = keccak (ephemeral @ shared);
          mac = keccak (ephemeral @ aes)
      in \<lparr>ps_aes = aes, ps_mac = mac, ps_egress = xor_all mac initNonce @ ack, ps_ingress = xor_all mac respNonce @ auth\<rparr>)"

text \<open>An acknowledgement that carries the given ephemeral key and nonce to the initiator.\<close>

definition acknowledges :: "('k, 'p) handshake_crypto \<Rightarrow> 'k \<Rightarrow> 'p \<Rightarrow> bytes \<Rightarrow> bytes \<Rightarrow> bool" where
  "acknowledges hc initiator eph nonce ack \<longleftrightarrow>
     (case ack of
        hi # lo # body \<Rightarrow>
          length body = unat hi * 256 + unat lo \<and> length body \<le> 2048 \<and> length nonce = 32 \<and>
          (case hc_decrypt hc initiator body [hi, lo] of Inl _ \<Rightarrow> False
           | Inr plain \<Rightarrow> hc_decode hc plain = Inr \<lparr>RandomPubkey = drop 1 (hc_marshal hc eph), ar_Nonce = nonce\<rparr>)
      | _ \<Rightarrow> False)"

section \<open>The reader of frames\<close>

text \<open>Counter mode from zero: byte \<open>i\<close> of the key stream lies in block \<open>i div 16\<close>.\<close>

definition stream_byte :: "(bytes \<Rightarrow> bytes) \<Rightarrow> nat \<Rightarrow> byte" where
  "stream_byte enc i = enc (be_bytes 16 (of_nat (i div 16) :: 128 word)) ! (i mod 16)"

definition decipher :: "(bytes \<Rightarrow> bytes) \<Rightarrow> nat \<Rightarrow> bytes \<Rightarrow> bytes" where
  "decipher enc pos xs = map (\<lambda>i. xs ! i XOR stream_byte enc (pos + i)) [0..<length xs]"

text \<open>
  \<open>header-mac-seed = aes(mac-secret, digest[:16]) ^ header-ciphertext\<close>, \<open>frame-mac-seed = aes(mac-secret, digest[:16]) ^
  digest[:16]\<close> after the frame went in, and after each seed went in the MAC is \<open>digest[:16]\<close>. The two MACs and the state.
\<close>

definition frame_macs :: "(bytes \<Rightarrow> bytes) \<Rightarrow> (bytes \<Rightarrow> bytes) \<Rightarrow> bytes \<Rightarrow> bytes \<Rightarrow> bytes \<Rightarrow> bytes \<times> bytes \<times> bytes" where
  "frame_macs keccak aesmac st header frame =
     (let digest = (\<lambda>st. take 16 (keccak st));
          st1 = st @ xor_all (aesmac (digest st)) header;
          st2 = st1 @ frame;
          st3 = st2 @ xor_all (aesmac (digest st2)) (digest st2)
      in (digest st1, digest st3, st3))"

text \<open>
  One frame from the front of a stream, from position \<open>pos\<close> of the key stream and the MAC state \<open>st\<close>: the header data
  and the frame data, what is left of the stream, the position and the state after it.
\<close>

definition open_frame ::
    "(bytes \<Rightarrow> bytes) \<Rightarrow> (bytes \<Rightarrow> bytes) \<Rightarrow> (bytes \<Rightarrow> bytes) \<Rightarrow> nat \<Rightarrow> bytes \<Rightarrow> bytes \<Rightarrow>
     ((bytes \<times> bytes) \<times> bytes \<times> nat \<times> bytes) option" where
  "open_frame keccak enc aesmac pos st buf =
     (let ciphered = take 16 buf; header = decipher enc pos ciphered;
          size = unat (header ! 0) * 65536 + unat (header ! 1) * 256 + unat (header ! 2);
          full = (size + 15) div 16 * 16; frame = take full (drop 32 buf);
          (hmac, fmac, st) = frame_macs keccak aesmac st ciphered frame
      in if length buf < 48 + full \<or> take 16 (drop 16 buf) \<noteq> hmac \<or> take 16 (drop (32 + full) buf) \<noteq> fmac then None
         else Some ((drop 3 header, take size (decipher enc (pos + 16) frame)), drop (48 + full) buf, pos + 16 + full, st))"

fun open_frames ::
    "(bytes \<Rightarrow> bytes) \<Rightarrow> (bytes \<Rightarrow> bytes) \<Rightarrow> (bytes \<Rightarrow> bytes) \<Rightarrow> nat \<Rightarrow> bytes \<Rightarrow> nat \<Rightarrow> bytes \<Rightarrow> ((bytes \<times> bytes) list \<times> bytes) option" where
  "open_frames keccak enc aesmac pos st 0 buf = Some ([], buf)"
| "open_frames keccak enc aesmac pos st (Suc n) buf =
     (case open_frame keccak enc aesmac pos st buf of None \<Rightarrow> None
      | Some (f, buf, pos, st) \<Rightarrow> map_option (\<lambda>(fs, rest). (f # fs, rest)) (open_frames keccak enc aesmac pos st n buf))"

text \<open>What a recipient with the given secrets reads from a stream of \<open>n\<close> frames, from its start.\<close>

definition recipient_reads ::
    "(bytes \<Rightarrow> bytes) \<Rightarrow> (bytes \<Rightarrow> bytes \<Rightarrow> bytes) \<Rightarrow> peer_secrets \<Rightarrow> nat \<Rightarrow> bytes \<Rightarrow> ((bytes \<times> bytes) list \<times> bytes) option" where
  "recipient_reads keccak aes ps n buf = open_frames keccak (aes (ps_aes ps)) (aes (ps_mac ps)) 0 (ps_ingress ps) n buf"

section \<open>The code's pieces are the specification's\<close>

lemma length_xor_all [simp]: "length (xor_all xs ys) = min (length xs) (length ys)" by (simp add: xor_all_def)

lemma map2_xor_all: "map2 (XOR) xs ys = xor_all xs ys"
  by (rule nth_equalityI) (simp_all add: xor_all_def)

lemma xorBytesAuth_all: "length xs = length ys \<Longrightarrow> xorBytesAuth xs ys = Some (xor_all xs ys)"
  by (simp add: map2_xor_all)

lemma length_decipher [simp]: "length (decipher enc pos xs) = length xs" by (simp add: decipher_def)

lemma XORKeyStream_decipher: "XORKeyStream enc 0 pos xs = decipher enc pos xs"
  by (rule nth_equalityI) (simp_all add: decipher_def stream_byte_def key_byte_def)

lemma decipher_twice [simp]: "decipher enc pos (decipher enc pos xs) = xs"
  by (simp flip: XORKeyStream_decipher)

lemma frame_macs_of_code:
  "mac_header cr st header = (hm, h) \<Longrightarrow> mac_frame cr h frame = (fm, h') \<Longrightarrow>
    frame_macs (fc_keccak cr) (fc_mac cr) st header frame = (hm, fm, h')"
  by (auto simp: mac_header_def mac_frame_def compute_def frame_macs_def map2_xor_all Let_def)

lemma mac_lengths:
  assumes "\<And>b. length (fc_keccak cr b) = 32"
  shows "mac_header cr h d = (m, h') \<Longrightarrow> length m = 16" "mac_frame cr h d = (m, h') \<Longrightarrow> length m = 16"
  using assms by (auto simp: mac_header_def mac_frame_def compute_def Let_def)

lemma full_length: "(n + 15) div 16 * 16 = (if n mod 16 = 0 then n else n + (16 - n mod 16))" for n :: nat
proof -
  obtain q r where n: "n = q * 16 + r" "r < 16" by (metis div_mult_mod_eq mod_less_divisor zero_less_numeral)
  moreover have "(q * 16 + r + 15) div 16 = Suc q" if "r \<noteq> 0" using that n(2) by (intro div_nat_eqI) simp_all
  ultimately show ?thesis by (cases "r = 0") simp_all
qed

lemma length_padded [simp]: "length (padded xs) = (length xs + 15) div 16 * 16"
  unfolding full_length by (simp add: padded_def Let_def)

lemma take_padded [simp]: "take (length xs) (padded xs) = xs"
  by (simp add: padded_def Let_def)

lemma uint24_put:
  assumes "n \<le> maxFrameSize"
  shows "unat (putUint24 (of_nat n) ! 0) * 65536 + unat (putUint24 (of_nat n) ! 1) * 256 + unat (putUint24 (of_nat n) ! 2) = n"
proof -
  have n: "n < 2 ^ 24" using assms by (simp add: maxFrameSize_def)
  have "unat (ucast (drop_bit 16 (of_nat n :: u32)) :: byte) = n div 65536"
    "unat (ucast (drop_bit 8 (of_nat n :: u32)) :: byte) = n div 256 mod 256"
    "unat (ucast (of_nat n :: u32) :: byte) = n mod 256"
    using n by (simp_all add: unsigned_ucast_eq unsigned_drop_bit_eq take_bit_eq_mod unsigned_of_nat) (simp_all add: drop_bit_eq_div)
  moreover have "n div 65536 = n div 256 div 256" using div_mult2_eq [of n 256 256] by simp
  then have "n div 65536 * 65536 + n div 256 mod 256 * 256 + n mod 256 = n"
    using div_mult_mod_eq [of n 256] div_mult_mod_eq [of "n div 256" 256] by linarith
  ultimately show ?thesis by (simp add: putUint24_def)
qed

definition header_data :: "bytes \<Rightarrow> bytes" where
  "header_data hdr = hdr @ replicate (13 - length hdr) 0"

lemma open_seal:
  assumes kec: "\<And>b. length (fc_keccak cr b) = 32" and hdr: "length hdr \<le> 13" and n: "length p \<le> maxFrameSize"
    and s: "seal_frame cr w hdr p = (out, w')"
  shows "open_frame (fc_keccak cr) (fc_enc cr) (fc_mac cr) (fw_pos w) (fw_hash w) (out @ rest) =
    Some ((header_data hdr, p), rest, fw_pos w', fw_hash w')"
proof -
  define header where "header = putUint24 (of_nat (length p)) @ header_data hdr"
  define sealed where "sealed = decipher (fc_enc cr) (fw_pos w) header"
  define frame where "frame = decipher (fc_enc cr) (fw_pos w + 16) (padded p)"
  obtain hm h where hm: "mac_header cr (fw_hash w) sealed = (hm, h)" by (metis surj_pair)
  obtain fm h' where fm: "mac_frame cr h frame = (fm, h')" by (metis surj_pair)
  have len: "length header = 16" "length sealed = 16" using hdr by (simp_all add: sealed_def header_def header_data_def)
  have lmacs: "length hm = 16" "length fm = 16" using mac_lengths [OF kec] hm fm by auto
  have flen: "length frame = (length p + 15) div 16 * 16" by (simp add: frame_def)
  have out: "out = sealed @ hm @ frame @ fm" "w' = \<lparr>fw_pos = fw_pos w + 16 + length frame, fw_hash = h'\<rparr>"
    using s hm fm
    by (simp_all add: seal_frame_def sealed_def frame_def header_def header_data_def Let_def XORKeyStream_decipher)
  have undone: "decipher (fc_enc cr) (fw_pos w) sealed = header" "decipher (fc_enc cr) (fw_pos w + 16) frame = padded p"
    by (simp_all add: sealed_def frame_def)
  have size: "unat (header ! 0) * 65536 + unat (header ! 1) * 256 + unat (header ! 2) = length p"
    using uint24_put [OF n] by (simp add: header_def nth_append)
  have drop3: "drop 3 header = header_data hdr" by (simp add: header_def)
  show ?thesis
    using len lmacs flen by (simp add: open_frame_def out undone size [simplified] drop3 frame_macs_of_code [OF hm fm] Let_def)
qed

section \<open>Frames on a connection\<close>

text \<open>Calls of \<open>WriteRawFrame\<close> and \<open>Write\<close>, made one after the other until one fails, and the frame each stands for.\<close>

datatype frame_call = Raw bytes bytes | Msg bool u64 bytes

fun call_frame :: "payload_codec \<Rightarrow> frame_call \<Rightarrow> bytes \<times> bytes" where
  "call_frame pc (Raw headerData plaintext) = (headerData, plaintext)"
| "call_frame pc (Msg snappy code payload) =
     ([0xc2, 0x80, 0x80], pc_uint pc code @ (if snappy then pc_snappy pc payload else payload))"

fun do_call ::
    "frame_crypto \<Rightarrow> payload_codec \<Rightarrow> wbeh \<Rightarrow> nat \<Rightarrow> frame_call \<Rightarrow> frame_writer option \<Rightarrow>
     (goerr option \<times> bytes \<times> nat) option \<times> frame_writer option" where
  "do_call cr pc dst k (Raw headerData plaintext) c = WriteRawFrame cr dst k headerData plaintext c"
| "do_call cr pc dst k (Msg snappy code payload) c =
     (case Write cr pc snappy dst k code payload c of
        (r, c) \<Rightarrow> (map_option (\<lambda>(r, out, k). (case r of Inl e \<Rightarrow> Some e | Inr _ \<Rightarrow> None, out, k)) r, c))"

fun do_calls ::
    "frame_crypto \<Rightarrow> payload_codec \<Rightarrow> wbeh \<Rightarrow> nat \<Rightarrow> frame_call list \<Rightarrow> frame_writer option \<Rightarrow>
     (goerr option \<times> bytes \<times> nat) option \<times> frame_writer option" where
  "do_calls cr pc dst k [] c = (Some (None, [], k), c)"
| "do_calls cr pc dst k (x # xs) c =
     (case do_call cr pc dst k x c of
        (Some (None, out, k), c) \<Rightarrow>
          (case do_calls cr pc dst k xs c of (r, c) \<Rightarrow> (map_option (\<lambda>(e, more, k). (e, out @ more, k)) r, c))
      | failed \<Rightarrow> failed)"

lemma do_call_ok:
  assumes "counts_ok dst" "do_call cr pc dst k x (Some w) = (Some (None, out, k'), c)"
  shows "\<exists>w'. c = Some w' \<and> length (fst (call_frame pc x)) \<le> 13 \<and> length (snd (call_frame pc x)) \<le> maxFrameSize \<and>
    seal_frame cr w (fst (call_frame pc x)) (snd (call_frame pc x)) = (out, w')"
proof (cases x)
  case (Raw h p)
  then show ?thesis
    using assms frame_write_ok [OF assms(1)] by (auto simp: WriteRawFrame_def split: prod.splits)
next
  case (Msg s code d)
  obtain w' where "c = Some w'" "frame_write cr dst k frame_header (message_plain pc s code d) w = (Some (None, out, k'), w')"
    using assms(2) Msg by (auto simp: Write_def split: if_splits prod.splits option.splits)
  then show ?thesis using frame_write_ok [OF assms(1), of cr k frame_header "message_plain pc s code d" w out k' w']
    unfolding Msg by (auto simp: frame_header_def message_plain_def)
qed

lemma do_calls_open:
  assumes kec: "\<And>b. length (fc_keccak cr b) = 32" and dst: "counts_ok dst"
  shows "do_calls cr pc dst k xs (Some w) = (Some (None, out, k'), c) \<Longrightarrow>
    open_frames (fc_keccak cr) (fc_enc cr) (fc_mac cr) (fw_pos w) (fw_hash w) (length xs) (out @ rest) =
      Some (map (\<lambda>x. (header_data (fst (call_frame pc x)), snd (call_frame pc x))) xs, rest)"
proof (induction xs arbitrary: k w out)
  case Nil
  then show ?case by simp
next
  case (Cons x xs)
  obtain r c1 where 1: "do_call cr pc dst k x (Some w) = (r, c1)" by (metis surj_pair)
  obtain out1 k1 where r: "r = Some (None, out1, k1)"
    using Cons.prems 1 by (auto split: option.splits)
  obtain w1 where w1: "c1 = Some w1" "length (fst (call_frame pc x)) \<le> 13" "length (snd (call_frame pc x)) \<le> maxFrameSize"
      "seal_frame cr w (fst (call_frame pc x)) (snd (call_frame pc x)) = (out1, w1)"
    using do_call_ok [OF dst] 1 r by blast
  obtain out2 where 2: "do_calls cr pc dst k1 xs (Some w1) = (Some (None, out2, k'), c)" "out = out1 @ out2"
    using Cons.prems 1 r w1(1) by (auto split: prod.splits)
  show ?case
    using open_seal [OF kec w1(2-4)] Cons.IH [OF 2(1)] by (simp add: 2(2))
qed

section \<open>The handshake\<close>

text \<open>
  What the cryptography promises: fixed lengths, a key that survives its encoding and a commuting ECDH; for the recipient,
  ECIES (ciphertexts 113 bytes longer, opened with the key they were made for), RLP and recovery from a signature.
\<close>

definition handshake_ok :: "('k, 'p) handshake_crypto \<Rightarrow> bool" where
  "handshake_ok hc \<longleftrightarrow>
     (\<forall>b. length (hc_keccak hc b) = 32) \<and> (\<forall>n. hc_nonce hc = Inr n \<longrightarrow> length n = 32) \<and>
     (\<forall>a p s. hc_shared hc a p = Inr s \<longrightarrow> length s = 32) \<and>
     (\<forall>a b. hc_shared hc a (hc_public hc b) = hc_shared hc b (hc_public hc a)) \<and>
     (\<forall>p. hc_unmarshal hc (hc_marshal hc p) = Inr p \<and> take 1 (hc_marshal hc p) = [4] \<and> length (hc_marshal hc p) = 65)"

definition recipient_ok :: "('k, 'p) handshake_crypto \<Rightarrow> 'p auth_reader \<Rightarrow> 'k \<Rightarrow> bool" where
  "recipient_ok hc au static \<longleftrightarrow>
     (\<forall>plain pre c. hc_encrypt hc (hc_public hc static) plain pre = Inr c \<longrightarrow>
        length c = length plain + 113 \<and> hc_decrypt hc static c pre = Inr plain) \<and>
     (\<forall>m plain padding. length (Signature m) = 65 \<longrightarrow> length (InitiatorPubkey m) = 64 \<longrightarrow> length (am_Nonce m) = 32 \<longrightarrow>
        hc_encode hc m = Inr plain \<longrightarrow>
        au_decode au (plain @ padding) = Some (Signature m, InitiatorPubkey m, am_Nonce m)) \<and>
     (\<forall>digest k sig. length digest = 32 \<longrightarrow> hc_sign hc digest k = Inr sig \<longrightarrow>
        length sig = 65 \<and> au_recover au digest sig = Some (hc_public hc k))"

lemma recipient_okD:
  assumes "recipient_ok hc au static"
  shows "hc_encrypt hc (hc_public hc static) plain pre = Inr c \<Longrightarrow> length c = length plain + 113 \<and> hc_decrypt hc static c pre = Inr plain"
    "length (Signature m) = 65 \<Longrightarrow> length (InitiatorPubkey m) = 64 \<Longrightarrow> length (am_Nonce m) = 32 \<Longrightarrow>
     hc_encode hc m = Inr plain \<Longrightarrow> au_decode au (plain @ padding) = Some (Signature m, InitiatorPubkey m, am_Nonce m)"
    "length digest = 32 \<Longrightarrow> hc_sign hc digest k = Inr sig \<Longrightarrow> length sig = 65 \<and> au_recover au digest sig = Some (hc_public hc k)"
  using assms by (auto simp: recipient_ok_def)

lemma unmarshal_point: "handshake_ok hc \<Longrightarrow> hc_unmarshal hc (4 # drop 1 (hc_marshal hc p)) = Inr p"
proof -
  assume "handshake_ok hc"
  then have "hc_unmarshal hc (hc_marshal hc p) = Inr p" "take 1 (hc_marshal hc p) = [4]" by (auto simp: handshake_ok_def)
  moreover have "hc_marshal hc p = take 1 (hc_marshal hc p) @ drop 1 (hc_marshal hc p)" by simp
  ultimately show ?thesis by simp
qed

lemma two_bytes: "be_bytes 2 (w :: u16) = [ucast (drop_bit 8 w), ucast w]"
  by (simp add: be_bytes_def numeral_2_eq_2)

lemma unat_two_bytes:
  "n \<le> 0xffff \<Longrightarrow> unat (ucast (drop_bit 8 (of_nat n :: u16)) :: byte) * 256 + unat (ucast (of_nat n :: u16) :: byte) = n"
  by (simp add: unsigned_ucast_eq unsigned_drop_bit_eq take_bit_eq_mod unsigned_of_nat) (simp add: drop_bit_eq_div)

lemma unat_prefix: "unat (be_val [hi, lo :: byte] :: u16) = unat hi * 256 + unat lo"
proof -
  have b: "unat hi < 256" "unat lo < 256" using unsigned_less [of hi] unsigned_less [of lo] by simp_all
  have "(ucast lo :: u16) AND push_bit 8 (ucast hi) = 0"
    by (rule bit_eqI) (auto simp: bit_simps dest: bit_imp_le_length)
  then have "(be_val [hi, lo] :: u16) = ucast lo + push_bit 8 (ucast hi)"
    by (simp add: be_val_def disjunctive_add_eq_or)
  then have "(be_val [hi, lo] :: u16) = of_nat (unat hi * 256 + unat lo)"
    by (simp add: push_bit_eq_mult)
  then show ?thesis using b by (simp only: unat_of_nat) simp
qed

lemma sealHandshakeMessage_Inr:
  assumes "sealHandshakeMessage hc m remote = Inr packet"
  obtains plain padding c where "hc_encode hc m = Inr plain" "length (plain @ padding) + 113 \<le> 0xffff"
    "hc_encrypt hc remote (plain @ padding) (be_bytes 2 (of_nat (length (plain @ padding) + 113) :: u16)) = Inr c"
    "packet = be_bytes 2 (of_nat (length (plain @ padding) + 113) :: u16) @ c"
proof -
  obtain plain padding where 1: "hc_encode hc m = Inr plain" "hc_padding hc = Inr padding"
    using assms by (auto simp: sealHandshakeMessage_def err_bind_Inr_iff)
  moreover have "rlpxAuthEciesOverhead = 113" by (simp add: rlpxAuthEciesOverhead_def)
  ultimately have "length (plain @ padding) + 113 \<le> 0xffff" and
    "\<exists>c. hc_encrypt hc remote (plain @ padding) (be_bytes 2 (of_nat (length (plain @ padding) + 113) :: u16)) = Inr c \<and>
      packet = be_bytes 2 (of_nat (length (plain @ padding) + 113) :: u16) @ c"
    using assms by (auto simp: sealHandshakeMessage_def err_bind_Inr_iff Let_def split: if_splits)
  then show ?thesis using that 1(1) by blast
qed

text \<open>The packet of \<open>initiator_auth\<close> is read back: the static and ephemeral key of the initiator and its nonce.\<close>

lemma auth_is_read:
  assumes ok: "handshake_ok hc" "recipient_ok hc au static"
    and a: "initiator_auth hc local (hc_public hc static) = Some (Inr (eph, n, packet))"
  shows "read_auth hc au static packet = Some (hc_public hc local, hc_public hc eph, n) \<and> length n = 32 \<and> hc_generate hc = Inr eph"
proof -
  obtain secret sig where 1: "hc_generate hc = Inr eph" "hc_nonce hc = Inr n" "hc_shared hc local (hc_public hc static) = Inr secret"
      "hc_sign hc (xor_all secret n) eph = Inr sig"
      "sealHandshakeMessage hc \<lparr>Signature = copy_into 65 sig, InitiatorPubkey = copy_into 64 (drop 1 (hc_marshal hc (hc_public hc local))),
         am_Nonce = copy_into 32 n, am_Version = 4\<rparr> (hc_public hc static) = Inr packet"
    using a by (auto simp: initiator_auth_def xorBytesAuth_def map2_xor_all err_bind_Inr_iff Let_def split: sum.splits if_splits)
  have len: "length n = 32" "length secret = 32" "length (drop 1 (hc_marshal hc (hc_public hc local))) = 64"
    using ok(1) 1(2,3) by (auto simp: handshake_ok_def)
  then have sig: "length sig = 65" "au_recover au (xor_all secret n) sig = Some (hc_public hc eph)"
    using recipient_okD(3) [OF ok(2) _ 1(4)] by simp_all
  obtain plain padding c where e: "hc_encode hc \<lparr>Signature = sig, InitiatorPubkey = drop 1 (hc_marshal hc (hc_public hc local)), am_Nonce = n, am_Version = 4\<rparr> = Inr plain"
      "length (plain @ padding) + 113 \<le> 0xffff"
      "hc_encrypt hc (hc_public hc static) (plain @ padding) (be_bytes 2 (of_nat (length (plain @ padding) + 113) :: u16)) = Inr c"
      "packet = be_bytes 2 (of_nat (length (plain @ padding) + 113) :: u16) @ c"
    using sealHandshakeMessage_Inr [OF 1(5)] len sig(1) by auto
  have 2: "au_decode au (plain @ padding) = Some (sig, drop 1 (hc_marshal hc (hc_public hc local)), n)"
      "length c = length (plain @ padding) + 113"
      "hc_decrypt hc static c (be_bytes 2 (of_nat (length (plain @ padding) + 113) :: u16)) = Inr (plain @ padding)"
    using recipient_okD(1) [OF ok(2) e(3)] recipient_okD(2) [OF ok(2) _ _ _ e(1)] sig(1) len by simp_all
  have "hc_shared hc static (hc_public hc local) = Inr secret" using 1(3) ok(1) unfolding handshake_ok_def by metis
  then show ?thesis
    using 1(1) 2 e(4) len sig unat_two_bytes [OF e(2)] unmarshal_point [OF ok(1)]
    by (simp add: read_auth_def two_bytes)
qed

lemma ack_is_read:
  assumes "acknowledges hc local eph nonce ack" "rbuf src = ack @ rest"
  shows "readHandshakeMessage hc local src =
    (Inr (ack, \<lparr>RandomPubkey = drop 1 (hc_marshal hc eph), ar_Nonce = nonce\<rparr>), src\<lparr>rbuf := rest\<rparr>) \<and> length nonce = 32"
proof -
  obtain hi lo body plain where a: "ack = hi # lo # body" "length body = unat hi * 256 + unat lo" "length body \<le> 2048"
      "length nonce = 32" "hc_decrypt hc local body [hi, lo] = Inr plain"
      "hc_decode hc plain = Inr \<lparr>RandomPubkey = drop 1 (hc_marshal hc eph), ar_Nonce = nonce\<rparr>"
    using assms(1) by (auto simp: acknowledges_def split: list.splits sum.splits)
  then show ?thesis using assms(2) unat_prefix [of hi lo] by (simp add: readHandshakeMessage_def)
qed

lemma initiatorHandshake_Inr:
  assumes dst: "counts_ok dst"
    and r: "initiatorHandshake hc dst src (Some local) (Some remote) = (Some (Inr s), out, src')"
  shows "\<exists>eph n ack response. initiator_auth hc local remote = Some (Inr (eph, n, out)) \<and>
    readHandshakeMessage hc local src = (Inr (ack, response), src') \<and>
    initiator_secrets hc eph n out ack response = Some (Inr s)"
proof -
  obtain eph n p where p: "initiator_auth hc local remote = Some (Inr (eph, n, p))"
    using r by (auto simp: initiatorHandshake_def split: option.splits sum.splits)
  obtain e o1 k where w: "writeFull dst 0 p = (e, o1, k)" by (metis prod_cases3)
  have e: "e = None" using r p w by (cases e) (auto simp: initiatorHandshake_def writeAll_counts [OF dst])
  then have "o1 = p" using w by (auto dest: writeFull_complete)
  then show ?thesis
    using r p w e by (auto simp: initiatorHandshake_def writeAll_counts [OF dst] split: prod.splits sum.splits)
qed

text \<open>The secrets of the code are those of the recipient, the two MACs the other way round.\<close>

lemma secrets_mirrored:
  assumes ok: "handshake_ok hc" and n: "length n = 32" "length nonce = 32"
    and s: "initiator_secrets hc eph n auth ack \<lparr>RandomPubkey = drop 1 (hc_marshal hc (hc_public hc respEph)), ar_Nonce = nonce\<rparr> =
      Some (Inr s)"
  shows "\<exists>secret. hc_shared hc respEph (hc_public hc eph) = Inr secret \<and>
    recipient_secrets (hc_keccak hc) secret n nonce auth ack =
      \<lparr>ps_aes = s_AES s, ps_mac = s_MAC s, ps_egress = s_IngressMAC s, ps_ingress = s_EgressMAC s\<rparr> \<and>
    length (s_AES s) = 32 \<and> length (s_MAC s) = 32"
proof -
  have len: "length (hc_keccak hc b) = 32" for b using ok by (simp add: handshake_ok_def)
  obtain secret where e: "hc_shared hc eph (hc_public hc respEph) = Inr secret"
    using s unmarshal_point [OF ok] by (auto simp: initiator_secrets_def split: sum.splits)
  then have "hc_shared hc respEph (hc_public hc eph) = Inr secret" using ok unfolding handshake_ok_def by metis
  then show ?thesis
    using s e n len unmarshal_point [OF ok]
    by (auto simp: initiator_secrets_def recipient_secrets_def session_keys_def map2_xor_all Let_def)
qed

text \<open>
  C11: The handshake and the frame writer interoperate with the RLPx specification. When the initiator's handshake succeeds
  and the peer has answered with an acknowledgement of its ephemeral key and nonce, then that acknowledgement and nothing
  more was read, the peer reads static key, ephemeral key and nonce of the initiator from the auth packet as it was
  written, the connection is created, and with the secrets that the specification derives from them the peer opens
  exactly the frames of whatever calls of \<open>Write\<close> and \<open>WriteRawFrame\<close> succeed, in any order and over any socket that
  counts its bytes right, and stops where their bytes end; its own MAC is the one the initiator starts to check with.
\<close>

theorem session_frames_open:
  assumes "handshake_ok hc" "recipient_ok hc au static" "counts_ok dst" "\<And>key b. length (aes key b) = 16"
    and "initiatorHandshake hc dst src (Some local) (Some (hc_public hc static)) = (Some (Inr s), auth, src')"
    and "acknowledges hc local (hc_public hc respEph) nonce ack" "rbuf src = ack @ rest"
  shows "rbuf src' = rest \<and>
    (\<exists>initEph initNonce secret ps cr w. read_auth hc au static auth = Some (hc_public hc local, initEph, initNonce) \<and>
       hc_shared hc respEph initEph = Inr secret \<and>
       ps = recipient_secrets (hc_keccak hc) secret initNonce nonce auth ack \<and>
       newConn aes (hc_keccak hc) s = Inr (cr, w) \<and> s_IngressMAC s = ps_egress ps \<and>
       (\<forall>sock k xs out k' c more. counts_ok sock \<longrightarrow> do_calls cr pc sock k xs (Some w) = (Some (None, out, k'), c) \<longrightarrow>
          recipient_reads (hc_keccak hc) aes ps (length xs) (out @ more) =
          Some (map (\<lambda>x. (header_data (fst (call_frame pc x)), snd (call_frame pc x))) xs, more)))"
proof -
  obtain eph n where a: "initiator_auth hc local (hc_public hc static) = Some (Inr (eph, n, auth))"
      "rbuf src' = rest" "length nonce = 32"
      "initiator_secrets hc eph n auth ack \<lparr>RandomPubkey = drop 1 (hc_marshal hc (hc_public hc respEph)), ar_Nonce = nonce\<rparr> =
        Some (Inr s)"
    using initiatorHandshake_Inr [OF assms(3,5)] ack_is_read [OF assms(6,7)] by auto
  have r: "read_auth hc au static auth = Some (hc_public hc local, hc_public hc eph, n)" "length n = 32"
    using auth_is_read [OF assms(1,2) a(1)] by auto
  obtain secret where t: "hc_shared hc respEph (hc_public hc eph) = Inr secret"
      "recipient_secrets (hc_keccak hc) secret n nonce auth ack =
        \<lparr>ps_aes = s_AES s, ps_mac = s_MAC s, ps_egress = s_IngressMAC s, ps_ingress = s_EgressMAC s\<rparr>"
      "length (s_AES s) = 32" "length (s_MAC s) = 32"
    using secrets_mirrored [OF assms(1) r(2) a(3,4)] by blast
  define cr where "cr = \<lparr>fc_enc = aes (s_AES s), fc_mac = aes (s_MAC s), fc_keccak = hc_keccak hc\<rparr>"
  define w where "w = \<lparr>fw_pos = 0, fw_hash = s_EgressMAC s\<rparr>"
  have new: "newConn aes (hc_keccak hc) s = Inr (cr, w)"
    using t(3,4) by (simp add: newConn_def NewCipher_def cr_def w_def)
  have kec: "length (fc_keccak cr b) = 32" for b using assms(1) by (simp add: cr_def handshake_ok_def)
  have "recipient_reads (hc_keccak hc) aes (recipient_secrets (hc_keccak hc) secret n nonce auth ack) (length xs) (out @ more) =
      Some (map (\<lambda>x. (header_data (fst (call_frame pc x)), snd (call_frame pc x))) xs, more)"
    if "counts_ok sock" "do_calls cr pc sock k xs (Some w) = (Some (None, out, k'), c)" for sock k xs out k' c more
    using do_calls_open [OF kec that] by (simp add: recipient_reads_def t(2) cr_def w_def)
  then show ?thesis using a(2) r(1) t(1,2) new by auto
qed

text \<open>A toy instance of the cryptography, with bytes as keys and exclusive or as ECDH, and an acknowledgement.\<close>

definition demo_hc :: "(byte, byte) handshake_crypto" where
  "demo_hc = \<lparr>hc_generate = Inr 7, hc_nonce = Inr (replicate 32 1), hc_padding = Inr (replicate 100 0),
     hc_public = (\<lambda>k. k), hc_shared = (\<lambda>a b. Inr (replicate 32 (a XOR b))), hc_sign = (\<lambda>d k. Inr (replicate 65 k)),
     hc_marshal = (\<lambda>p. 4 # p # replicate 63 0), hc_unmarshal = (\<lambda>b. Inr (b ! 1)),
     hc_encrypt = (\<lambda>p plain pre. Inr (plain @ replicate 113 p)),
     hc_decrypt = (\<lambda>k packet pre. Inr (take (length packet - 113) packet)),
     hc_encode = (\<lambda>m. Inr (Signature m @ InitiatorPubkey m @ am_Nonce m)),
     hc_decode = (\<lambda>b. Inr \<lparr>RandomPubkey = copy_into 64 b, ar_Nonce = copy_into 32 (drop 64 b)\<rparr>),
     hc_keccak = (\<lambda>b. replicate 32 (foldr (XOR) b 0))\<rparr>"

definition demo_au :: "byte auth_reader" where
  "demo_au = \<lparr>au_decode = (\<lambda>b. Some (take 65 b, take 64 (drop 65 b), take 32 (drop 129 b))), au_recover = (\<lambda>d sig. Some (hd sig))\<rparr>"

definition demo_ack :: bytes where "demo_ack = 0 # 209 # (9 # replicate 63 0) @ replicate 32 2 @ replicate 113 3"

lemma demo_recipient_ok: "handshake_ok demo_hc" "recipient_ok demo_hc demo_au 5"
  by (simp_all add: handshake_ok_def recipient_ok_def demo_hc_def demo_au_def xor.commute)

lemma demo_acknowledges: "acknowledges demo_hc 3 (hc_public demo_hc 9) (replicate 32 2) demo_ack"
  by (simp add: acknowledges_def demo_ack_def demo_hc_def copy_into_def)

lemma demo_handshake:
  "\<exists>s auth src'. initiatorHandshake demo_hc (chunked_writer 7) \<lparr>rbuf = demo_ack, rend = EOF\<rparr> (Some 3) (Some (hc_public demo_hc 5)) =
     (Some (Inr s), auth, src')"
proof -
  obtain p where p: "initiator_auth demo_hc 3 (hc_public demo_hc 5) = Some (Inr (7, replicate 32 1, p))"
    by (simp add: initiator_auth_def demo_hc_def sealHandshakeMessage_def rlpxAuthEciesOverhead_def Let_def)
  obtain k where k: "writeFull (chunked_writer 7) 0 p = (None, p, k)" using writeFull_chunked [of 7] by auto
  have "\<exists>s. initiator_secrets demo_hc 7 (replicate 32 1) p demo_ack
      \<lparr>RandomPubkey = drop 1 (hc_marshal demo_hc (hc_public demo_hc 9)), ar_Nonce = replicate 32 2\<rparr> = Some (Inr s)"
    by (simp add: initiator_secrets_def demo_hc_def session_keys_def Let_def)
  then show ?thesis
    using ack_is_read [OF demo_acknowledges, of "\<lparr>rbuf = demo_ack, rend = EOF\<rparr>" "[]"]
    by (simp add: initiatorHandshake_def p writeAll_counts k)
qed

lemma session_frames_open_witness:
  "\<exists>s auth src' initEph initNonce. initiatorHandshake demo_hc (chunked_writer 7) \<lparr>rbuf = demo_ack, rend = EOF\<rparr> (Some 3)
       (Some (hc_public demo_hc 5)) = (Some (Inr s), auth, src') \<and> rbuf src' = [] \<and>
     read_auth demo_hc demo_au 5 auth = Some (hc_public demo_hc 3, initEph, initNonce)"
proof -
  obtain s auth src' where s: "initiatorHandshake demo_hc (chunked_writer 7) \<lparr>rbuf = demo_ack, rend = EOF\<rparr> (Some 3)
      (Some (hc_public demo_hc 5)) = (Some (Inr s), auth, src')" using demo_handshake by blast
  show ?thesis
    using session_frames_open [where aes = "\<lambda>key b. replicate 16 0" and rest = "[]" and pc = "\<lparr>pc_uint = \<lambda>n. [ucast n], pc_snappy = \<lambda>b. b\<rparr>",
        OF demo_recipient_ok chunked_counts _ s demo_acknowledges] s
    by auto
qed

end
