(* ===== verification/Wit.thy ===== *)
theory Wit
  imports Eth_Dial
begin

text \<open>
  Package wit, conn.go: the WIT/1 dial on top of \<open>DialPreStatusWithKey\<close>, its sends and \<open>ReadRaw\<close>, an instance of
  \<open>wait_loop\<close> that answers a ping with an empty payload.
\<close>

section \<open>Dialing\<close>

definition ErrUnsupported :: goerr where "ErrUnsupported = Sentinel ''peer does not advertise wit/1''"

definition wit_caps :: "p2p_cap list" where
  "wit_caps = [\<lparr>cap_Name = ''eth'', cap_Version = 69\<rparr>, \<lparr>cap_Name = ''eth'', cap_Version = 68\<rparr>, \<lparr>cap_Name = ''wit'', cap_Version = 1\<rparr>]"

definition hasCapability :: "p2p_cap list \<Rightarrow> string \<Rightarrow> u64 \<Rightarrow> bool" where
  "hasCapability caps name version \<longleftrightarrow> list_ex (\<lambda>c. cap_Name c = name \<and> cap_Version c = version) caps"

record ('w, 'o, 'k) wit_conn =
  wc_ctx :: "('w, 'o, 'k) go_ctx option"
  wc_preStatus :: "('w, 'o, 'k) pre_status_conn"
  wc_offset :: u64

definition wit_steps ::
    "'k dial_env \<Rightarrow> eth_rlp \<Rightarrow> ('w, 'o, 'k) go_ctx option \<Rightarrow> ('w, 'o, 'k) pre_status_conn \<Rightarrow> ('w, 'o, 'k) wit_conn io" where
  "wit_steps env rl ctx c =
     (if \<not> hasCapability (pc_peerCapabilities c) ''wit'' 1 then io_lift (Inl ErrUnsupported)
      else
        io_bind (\<lambda>w. case ExchangeStatus rl (de_now env) c (10 * 10 ^ 9) w of (e, _, w) \<Rightarrow> (to_err e, w)) (\<lambda>_.
        io_bind (io_lift (ProtocolLength (pc_version c))) (\<lambda>ethLength.
        io_return \<lparr>wc_ctx = ctx, wc_preStatus = c, wc_offset = pc_ethOffset c + ethLength\<rparr>)))"

definition wit_DialWithKey ::
    "'k dial_env \<Rightarrow> eth_rlp \<Rightarrow> nat \<Rightarrow> ('w, 'o, 'k) go_ctx option \<Rightarrow> string \<Rightarrow> string \<Rightarrow> 'k option \<Rightarrow>
     ((goerr + ('w, 'o, 'k) wit_conn) \<times> wire list) option" where
  "wit_DialWithKey env rl k ctx target rpc key =
     (case key of None \<Rightarrow> Some (Inl (Errorf ''WIT local identity is nil'' []), [])
      | Some key \<Rightarrow>
        let ctx = Some (background ctx)
        in map_option (on_last (wit_steps env rl ctx))
             (DialPreStatusWithKey env rl k ctx target rpc \<lparr>MaxVersion = 0, SnapVersion = 0, Capabilities = wit_caps\<rparr> (Some key)))"

definition wit_Dial ::
    "'k dial_env \<Rightarrow> eth_rlp \<Rightarrow> nat \<Rightarrow> ('w, 'o, 'k) go_ctx option \<Rightarrow> string \<Rightarrow> string \<Rightarrow>
     ((goerr + ('w, 'o, 'k) wit_conn) \<times> wire list) option" where
  "wit_Dial env rl k ctx target rpc =
     (case ParticipantELKey (de_copy env) ctx of
        Inl e \<Rightarrow> Some (Inl (Wrapf ''load case participant key: %w'' [] e), [])
      | Inr key \<Rightarrow> wit_DialWithKey env rl k ctx target rpc (Some key))"

section \<open>Messages\<close>

definition wit_SendRaw ::
    "('w, 'o, 'k) wit_conn \<Rightarrow> u64 \<Rightarrow> bytes \<Rightarrow> wire \<Rightarrow> goerr option \<times> ('o \<times> write_event) list \<times> wire" where
  "wit_SendRaw c code payload w =
     (let obs = ObserveWrite (wc_ctx c) ((write_of ''wit'')\<lparr>w_Code := code, w_Payload := payload\<rparr>)
      in case wire_write (wc_offset c + code) payload w of (e, w) \<Rightarrow> (e, obs, w))"

function read_raw_loop :: "'s rlp_stream_scheme \<Rightarrow> u64 \<Rightarrow> wire \<Rightarrow> (goerr + u64 \<times> bytes) \<times> wire" where
  "read_raw_loop st offset w =
     (case wire_read w of
        (Inl e, w) \<Rightarrow> (Inl e, w)
      | (Inr (code, payload), w) \<Rightarrow>
          if code = DiscMsg
          then (Inl (Errorf (''peer disconnected: '' @ snd (DecodeDisconnectReason st payload)) []), w)
          else if code = PingMsg
          then (case wire_write PongMsg [] w of
                  (Some e, w) \<Rightarrow> (Inl (Wrapf ''write WIT session pong: %w'' [] e), w)
                | (None, w) \<Rightarrow> read_raw_loop st offset w)
          else if code < offset \<or> offset + 4 \<le> code then read_raw_loop st offset w
          else (Inr (code - offset, payload), w))"
  by pat_completeness auto
termination
  by (relation "measure (\<lambda>(st, off, w). length (w_in w))") (auto simp: wire_write_def dest!: wire_read_shorter [OF sym])

declare read_raw_loop.simps [simp del]

definition ReadRaw ::
    "'s rlp_stream_scheme \<Rightarrow> int \<Rightarrow> ('w, 'o, 'k) wit_conn option \<Rightarrow> int \<Rightarrow> wire \<Rightarrow> (goerr + u64 \<times> bytes) \<times> wire" where
  "ReadRaw st now c timeout w =
     (case c of None \<Rightarrow> (Inl (Errorf ''nil WIT connection'' []), w)
      | Some c \<Rightarrow>
        let timeout = (if timeout \<le> 0 then 10 * 10 ^ 9 else timeout)
        in with_read_deadline (now + Remaining now (wc_ctx c) timeout)
             (\<lambda>e. Inl (Wrapf ''set WIT read deadline: %w'' [] e)) (read_raw_loop st (wc_offset c)) w)"

definition wit_WaitDisconnect ::
    "'s rlp_stream_scheme \<Rightarrow> int \<Rightarrow> ('w, 'o, 'k) wit_conn \<Rightarrow> int \<Rightarrow> wire \<Rightarrow> (bool \<times> string) \<times> wire" where
  "wit_WaitDisconnect st now c timeout = pre_WaitDisconnect st now (wc_preStatus c) timeout"

definition wit_decides :: "'s rlp_stream_scheme \<Rightarrow> u64 \<Rightarrow> u64 \<Rightarrow> bytes \<Rightarrow> (goerr + u64 \<times> bytes) option" where
  "wit_decides st offset code payload =
     (if code = DiscMsg
      then Some (Inl (Errorf (''peer disconnected: '' @ snd (DecodeDisconnectReason st payload)) []))
      else if code = PingMsg \<or> code < offset \<or> offset + 4 \<le> code then None
      else Some (Inr (code - offset, payload)))"

interpretation wit_read: wait_loop "read_raw_loop st offset" "wit_decides st offset" Inl "Some []"
  "\<lambda>e. Inl (Wrapf ''write WIT session pong: %w'' [] e)" for st offset
  by unfold_locales
    (auto simp: read_raw_loop.simps [of st] wit_decides_def msg_codes split: if_splits)

lemma quiet_exchange [keeps_open]:
  "quiet (\<lambda>w. case ExchangeStatus rl now c t w of (e, _, w) \<Rightarrow> (to_err e, w))"
  by (rule quietI) (metis (no_types, lifting) ExchangeStatus_closed case_prod_beta snd_conv)

lemma quiet_wit [keeps_open]: "quiet (wit_steps env rl ctx c)"
  unfolding wit_steps_def by (intro keeps_open)

lemma wit_DialWithKey_tidy: "tidy_dial (wit_DialWithKey env rl k ctx target rpc key)"
proof (cases key)
  case (Some ky)
  define d where "d = DialPreStatusWithKey env rl k (Some (background ctx)) target rpc
    \<lparr>MaxVersion = 0, SnapVersion = 0, Capabilities = wit_caps\<rparr> (Some ky)"
  have "tidy_dial d" unfolding d_def by (rule DialPreStatusWithKey_tidy)
  then obtain r where r: "d = Some r" "tidy r" by (cases d) (auto simp: tidy_dial_def)
  have "tidy (on_last (wit_steps env rl (Some (background ctx))) r)" by (rule tidy_on_last [OF r(2)]) (rule quiet_wit)
  then show ?thesis using Some r(1) by (simp add: wit_DialWithKey_def Let_def tidy_dial_def flip: d_def)
qed (simp add: wit_DialWithKey_def tidy_dial_def)

interpretation wit_dial: socket_owner "\<lambda>k. the (wit_DialWithKey env rl k ctx target rpc key)" for env rl ctx target rpc key
  by unfold_locales (metis wit_DialWithKey_tidy tidy_dial_simps option.collapse)

section \<open>What the dial negotiates\<close>

lemma pre_status_steps_Inr:
  assumes "pre_status_steps env rl ctx key caps node params w = (Inr c, w')"
  shows "\<exists>neg. negotiatedCapabilities caps (pc_peerCapabilities c) = Inr neg \<and>
    capabilityOffset neg ''eth'' = Inr (pc_ethOffset c, pc_version c, True)"
  using assms
  by (auto simp: pre_status_steps_def io_bind_Inr io_wrap_Inr io_lift_def io_return_def split: prod.splits if_splits)

lemma on_last_Inr: "on_last m out = (Inr x, ws) \<Longrightarrow> \<exists>r vs w. out = (Inr r, vs) \<and> m r (last vs) = (Inr x, w)"
  by (auto simp: on_last_def closing_def split: prod.splits sum.splits)

lemma DialPreStatusWithKey_negotiated:
  assumes "DialPreStatusWithKey env rl k ctx target url config key = Some (Inr c, ws)"
  shows "\<exists>caps neg. pre_status_caps config = Some caps \<and> negotiatedCapabilities caps (pc_peerCapabilities c) = Inr neg \<and>
    capabilityOffset neg ''eth'' = Inr (pc_ethOffset c, pc_version c, True)"
  using assms
  by (auto simp: DialPreStatusWithKey_def Let_def split: option.splits sum.splits dest!: on_last_Inr pre_status_steps_Inr)

lemma wit_caps_supported: "\<forall>c \<in> set wit_caps. supportedCapability c"
  by (simp add: wit_caps_def supportedCapability_def)

text \<open>
  The WIT dial computes the right message offset: when it succeeds, the peer advertised wit/1, and the offset it adds
  to WIT codes is the one that capability negotiation assigns, right behind ETH, which is at 16; so by \<open>wire_offsets\<close>
  the two ends number WIT messages alike.
\<close>

theorem wit_dial_offset:
  "case wit_DialWithKey env rl k ctx target rpc key of
     Some (Inr c, _) \<Rightarrow>
       (let peer = pc_peerCapabilities (wc_preStatus c)
        in \<lparr>cap_Name = ''wit'', cap_Version = 1\<rparr> \<in> set peer \<and> pc_ethOffset (wc_preStatus c) = 16 \<and>
           capabilityOffset (newest_common wit_caps peer) ''wit'' = Inr (wc_offset c, 1, True))
   | _ \<Rightarrow> True"
proof (cases "wit_DialWithKey env rl k ctx target rpc key")
  case None
  then show ?thesis by simp
next
  case (Some r)
  show ?thesis
  proof (cases r)
    case (Pair x ws)
    show ?thesis
    proof (cases x)
      case (Inr c)
      define config where "config = \<lparr>MaxVersion = 0, SnapVersion = 0, Capabilities = wit_caps\<rparr>"
      obtain ky pre vs w w2 where d: "DialPreStatusWithKey env rl k (Some (background ctx)) target rpc config (Some ky) = Some (Inr pre, vs)"
          and st: "wit_steps env rl (Some (background ctx)) pre w = (Inr c, w2)"
        using Some Pair Inr by (auto simp: wit_DialWithKey_def config_def Let_def split: option.splits dest!: on_last_Inr)
      have caps: "pre_status_caps config = Some wit_caps"
        by (simp add: pre_status_caps_def capabilities_def config_def wit_caps_def)
      let ?peer = "pc_peerCapabilities pre"
      have off: "capabilityOffset (newest_common wit_caps ?peer) ''eth'' = Inr (pc_ethOffset pre, pc_version pre, True)"
        using DialPreStatusWithKey_negotiated [OF d] caps negotiated_eq [OF wit_caps_supported] by auto
      obtain len where len: "ProtocolLength (pc_version pre) = Inr len" and has: "hasCapability ?peer ''wit'' 1"
        and c: "wc_preStatus c = pre" "wc_offset c = pc_ethOffset pre + len"
        using st by (auto simp: wit_steps_def io_bind_Inr io_lift_def io_return_def split: if_splits)
      have wit: "\<lparr>cap_Name = ''wit'', cap_Version = 1\<rparr> \<in> set ?peer"
      proof -
        obtain p where p: "p \<in> set ?peer" "cap_Name p = ''wit''" "cap_Version p = 1"
          using has by (auto simp: hasCapability_def list_ex_iff)
        then have "p = \<lparr>cap_Name = ''wit'', cap_Version = 1\<rparr>" by simp
        then show ?thesis using p(1) by metis
      qed
      have w1: "common_versions wit_caps ?peer ''wit'' = {1}"
        using wit by (force simp: common_versions_def wit_caps_def)
      have sn: "common_versions wit_caps ?peer ''snap'' = {}" by (auto simp: common_versions_def wit_caps_def)
      note o = capability_offsets [OF wit_caps_supported, of ?peer]
      have e: "common_versions wit_caps ?peer ''eth'' \<noteq> {}" "pc_ethOffset pre = 16"
          "pc_version pre = Max (common_versions wit_caps ?peer ''eth'')"
        using off o(1) by (auto simp: offset_of_def split: if_splits)
      have "space wit_caps ?peer ''eth'' = len"
        using e len space_length [OF wit_caps_supported e(1)] by (simp add: capabilityProtocolLength_def)
      moreover have "space wit_caps ?peer ''snap'' = 0" using sn by (simp add: space_def)
      ultimately show ?thesis
        using Some Pair Inr wit e(2) o(3) w1 c by (simp add: offset_of_def Let_def)
    qed (use Some Pair in simp)
  qed
qed

end
