(* ===== verification/Rpc_Call.thy ===== *)
theory Rpc_Call
  imports Chain_Cache Eth_Status Go_IO
begin

text \<open>
  Package rpc: the bounded JSON-RPC call (call.go) and the fetches of chainparams.go that go through it. HTTP and the JSON
  decoder are the parameter \<open>rpc_env\<close>; the endpoint has a state \<open>'w\<close> that every request may change. A raw JSON value is
  its text.
\<close>

section \<open>Calls\<close>

definition rpcCallTimeout :: int where "rpcCallTimeout = 10 * 10 ^ 9"

definition maxRPCResponseBytes :: nat where "maxRPCResponseBytes = 4 * 2 ^ 20"

datatype rpc_param = PStr string | PBool bool

text \<open>A decoded response; a field that is absent is \<open>None\<close>, a result of \<open>null\<close> is the text null.\<close>

record rpc_response =
  rr_JSONRPC :: string
  rr_ID :: string
  rr_Result :: "string option"
  rr_Error :: "(int \<times> string) option"

record raw_block =
  rb_Hash :: hash
  rb_Number :: string
  rb_Timestamp :: string
  rb_StateRoot :: hash

text \<open>
  \<open>re_do\<close> sends a body under a timeout and gives the status code, the status text and the body of the response.
  \<open>re_decode\<close> is the first value of the body and what decoding once more says. \<open>re_nodeInfo\<close> is the chain config of
  \<open>admin_nodeInfo\<close>, \<open>None\<close> where it is missing.
\<close>

record 'w rpc_env =
  re_marshal :: "string \<Rightarrow> rpc_param list \<Rightarrow> goerr + bytes"
  re_request :: "string \<Rightarrow> goerr option"
  re_do :: "int \<Rightarrow> string \<Rightarrow> bytes \<Rightarrow> 'w \<Rightarrow> (goerr + int \<times> string \<times> reader) \<times> 'w"
  re_decode :: "bytes \<Rightarrow> (goerr + rpc_response) \<times> goerr option"
  re_block :: "string \<Rightarrow> goerr + raw_block"
  re_nodeInfo :: "string \<Rightarrow> goerr + (string \<times> string) list option"
  re_unquote :: "string \<Rightarrow> goerr + string"

definition rpc_http_error :: "string \<Rightarrow> bytes \<Rightarrow> goerr" where
  "rpc_http_error status data =
     (let message = trim_space (go_string data);
          message = (if 512 < length message then take 512 message else message)
      in Errorf ''rpc HTTP %s: %s'' [VStr status, VStr message])"

definition rpc_answer :: "'w rpc_env \<Rightarrow> bytes \<Rightarrow> goerr + string" where
  "rpc_answer env data =
     (case re_decode env data of
        (Inl e, _) \<Rightarrow> Inl (Wrapf ''json: %w'' [] e)
      | (Inr result, again) \<Rightarrow>
          if \<not> (case again of Some e \<Rightarrow> errors_is e EOF | None \<Rightarrow> False)
          then Inl (Errorf ''rpc response must contain exactly one JSON object'' [])
          else if rr_JSONRPC result \<noteq> ''2.0'' \<or> rr_ID result \<noteq> ''1''
          then Inl (Errorf ''rpc response does not match the request'' [])
          else (case (rr_Error result, rr_Result result) of
                  (None, Some r) \<Rightarrow> Inr r
                | (Some (code, message), None) \<Rightarrow> Inl (Errorf ''rpc %d: %s'' [VInt code, VStr message])
                | _ \<Rightarrow> Inl (Errorf ''rpc response must contain exactly one of result or error'' [])))"

definition rpc_body :: "'w rpc_env \<Rightarrow> int \<Rightarrow> string \<Rightarrow> reader \<Rightarrow> goerr + string" where
  "rpc_body env code status body =
     err_bind (read_limited (maxRPCResponseBytes + 1) body) (\<lambda>data.
       if maxRPCResponseBytes < length data then Inl (Errorf ''rpc response exceeds %d bytes'' [VNat maxRPCResponseBytes])
       else if code < 200 \<or> 300 \<le> code then Inl (rpc_http_error status data)
       else rpc_answer env data)"

definition Call ::
    "'w rpc_env \<Rightarrow> int \<Rightarrow> ('x, 'o, 'k) go_ctx option \<Rightarrow> string \<Rightarrow> string \<Rightarrow> rpc_param list \<Rightarrow> 'w \<Rightarrow> (goerr + string) \<times> 'w" where
  "Call env now ctx url method params w =
     (case re_marshal env method params of
        Inl e \<Rightarrow> (Inl (Wrapf ''encode rpc request: %w'' [] e), w)
      | Inr body \<Rightarrow>
     (case re_request env url of
        Some e \<Rightarrow> (Inl e, w)
      | None \<Rightarrow>
     (case re_do env (Remaining now (Some (case ctx of None \<Rightarrow> Background | Some c \<Rightarrow> c)) rpcCallTimeout) url body w of
        (Inl e, w) \<Rightarrow> (Inl e, w)
      | (Inr (code, status, body), w) \<Rightarrow> (rpc_body env code status body, w))))"

section \<open>Chain parameters\<close>

record block_info =
  bi_Hash :: hash
  bi_Number :: u64
  bi_Timestamp :: u64
  bi_StateRoot :: hash

definition block_of :: "'w rpc_env \<Rightarrow> string \<Rightarrow> string \<Rightarrow> goerr + block_info" where
  "block_of env tag raw =
     (if trim_space raw = ''null'' then Inl (Errorf ''block %s is unavailable'' [VStr tag])
      else err_bind (re_block env raw) (\<lambda>block.
        if rb_Hash block = 0 then Inl (Errorf ''block %s has no hash'' [VStr tag])
        else if rb_StateRoot block = 0 then Inl (Errorf ''block %s has no state root'' [VStr tag])
        else
          err_bind (wrap_err ''parse block number %s: %w'' [VStr (rb_Number block)]
                      (parseUint (re_unquote env) (rb_Number block))) (\<lambda>number.
          err_bind (wrap_err ''parse block timestamp %s: %w'' [VStr (rb_Timestamp block)]
                      (parseUint (re_unquote env) (rb_Timestamp block))) (\<lambda>timestamp.
          Inr \<lparr>bi_Hash = rb_Hash block, bi_Number = number, bi_Timestamp = timestamp, bi_StateRoot = rb_StateRoot block\<rparr>))))"

definition fetchBlockInfo ::
    "'w rpc_env \<Rightarrow> int \<Rightarrow> ('x, 'o, 'k) go_ctx option \<Rightarrow> string \<Rightarrow> string \<Rightarrow> 'w \<Rightarrow> (goerr + block_info) \<times> 'w" where
  "fetchBlockInfo env now ctx rpc tag w =
     (case Call env now ctx rpc ''eth_getBlockByNumber'' [PStr tag, PBool False] w of
        (r, w) \<Rightarrow> (err_bind r (block_of env tag), w))"

definition fetchRPCUint ::
    "'w rpc_env \<Rightarrow> int \<Rightarrow> ('x, 'o, 'k) go_ctx option \<Rightarrow> string \<Rightarrow> string \<Rightarrow> 'w \<Rightarrow> (goerr + u64) \<times> 'w" where
  "fetchRPCUint env now ctx rpc method w =
     (case Call env now ctx rpc method [] w of
        (r, w) \<Rightarrow> (err_bind r (\<lambda>raw. wrap_err ''parse %s result %s: %w'' [VStr method, VStr raw] (parseUint (re_unquote env) raw)), w))"

definition fetchNetworkID ::
    "'w rpc_env \<Rightarrow> int \<Rightarrow> ('x, 'o, 'k) go_ctx option \<Rightarrow> string \<Rightarrow> 'w \<Rightarrow> (goerr + u64) \<times> 'w" where
  "fetchNetworkID env now ctx rpc w =
     (case fetchRPCUint env now ctx rpc ''net_version'' w of
        (Inr networkID, w) \<Rightarrow> (Inr networkID, w)
      | (Inl netErr, w) \<Rightarrow>
          (case fetchRPCUint env now ctx rpc ''eth_chainId'' w of
             (Inr chainID, w) \<Rightarrow> (Inr chainID, w)
           | (Inl chainErr, w) \<Rightarrow>
               (Inl (Join (Wrapf ''net_version: %w'' [] netErr) (Wrapf ''eth_chainId: %w'' [] chainErr)), w)))"

definition fetchForkSchedule ::
    "'w rpc_env \<Rightarrow> int \<Rightarrow> ('x, 'o, 'k) go_ctx option \<Rightarrow> string \<Rightarrow> u64 \<Rightarrow> 'w \<Rightarrow> (goerr + fork_schedule) \<times> 'w" where
  "fetchForkSchedule env now ctx rpc genesisTime w =
     (case Call env now ctx rpc ''admin_nodeInfo'' [] w of
        (r, w) \<Rightarrow> (err_bind r (\<lambda>raw. err_bind (re_nodeInfo env raw) (\<lambda>config.
            case config of
              None \<Rightarrow> Inl (Errorf ''admin_nodeInfo omitted protocols.eth.config'' [])
            | Some config \<Rightarrow> parseForkSchedule (re_unquote env) config genesisTime)), w))"

definition chain_params_of :: "block_info \<Rightarrow> block_info \<Rightarrow> u64 \<Rightarrow> fork_schedule \<Rightarrow> chain_params" where
  "chain_params_of genesis head networkID schedule =
     \<lparr>Genesis = bi_Hash genesis, HeadHash = bi_Hash head, StateRoot = bi_StateRoot head, NetworkID = networkID,
      ForkID = computeForkID (bi_Hash genesis) (bi_Number head) (bi_Timestamp head) schedule,
      HeadNumber = bi_Number head, HeadTime = bi_Timestamp head, ForkBlocks = blocks schedule, ForkTimes = times schedule\<rparr>"

text \<open>A step of a fetch: the error ends it, with its context.\<close>

definition then_fetch ::
    "string \<Rightarrow> (goerr + 'a) \<times> 'w \<Rightarrow> ('a \<Rightarrow> 'w \<Rightarrow> (goerr + 'b) \<times> 'w) \<Rightarrow> (goerr + 'b) \<times> 'w" where
  "then_fetch f r k = (case r of (Inl e, w) \<Rightarrow> (Inl (Wrapf f [] e), w) | (Inr x, w) \<Rightarrow> k x w)"

definition fetchChainParamsUncached ::
    "'w rpc_env \<Rightarrow> int \<Rightarrow> ('x, 'o, 'k) go_ctx option \<Rightarrow> string \<Rightarrow> 'w \<Rightarrow> (goerr + chain_params) \<times> 'w" where
  "fetchChainParamsUncached env now ctx rpc w =
     then_fetch ''fetch genesis: %w'' (fetchBlockInfo env now ctx rpc ''0x0'' w) (\<lambda>genesis w.
     then_fetch ''fetch head: %w'' (fetchBlockInfo env now ctx rpc ''latest'' w) (\<lambda>head w.
     then_fetch ''fetch network ID: %w'' (fetchNetworkID env now ctx rpc w) (\<lambda>networkID w.
     then_fetch ''fetch fork schedule: %w'' (fetchForkSchedule env now ctx rpc (bi_Timestamp genesis) w) (\<lambda>schedule w.
       (Inr (chain_params_of genesis head networkID schedule), w)))))"

section \<open>What a call accepts\<close>

lemma rpc_answer_Inr:
  "rpc_answer env data = Inr r \<longleftrightarrow>
     (\<exists>result e. re_decode env data = (Inr result, Some e) \<and> errors_is e EOF \<and> rr_JSONRPC result = ''2.0'' \<and>
        rr_ID result = ''1'' \<and> rr_Error result = None \<and> rr_Result result = Some r)"
  by (cases "re_decode env data") (auto simp: rpc_answer_def split: sum.splits option.splits)

lemma rpc_body_Inr:
  "rpc_body env code status reply = Inr r \<longleftrightarrow>
     200 \<le> code \<and> code \<le> 299 \<and> length (rbuf reply) \<le> maxRPCResponseBytes \<and> rend reply = EOF \<and>
     rpc_answer env (rbuf reply) = Inr r"
  by (auto simp: rpc_body_def read_limited_def)

text \<open>
  C31: \<open>Call\<close> returns a result exactly when the request could be encoded and sent, the response has a 2xx status and at
  most 4 MiB, and its body is one JSON object and nothing else, of version 2.0, with the request's identifier and a
  result but no error; and then it returns that result. No other response, however it is malformed, is taken for one.
\<close>

theorem Call_accepts:
  "fst (Call env now ctx url method params w) = Inr r \<longleftrightarrow>
     (\<exists>body code status reply data e. re_marshal env method params = Inr body \<and> re_request env url = None \<and>
        fst (re_do env (Remaining now (Some (case ctx of None \<Rightarrow> Background | Some c \<Rightarrow> c)) (10 * 10 ^ 9)) url body w) =
          Inr (code, status, reply) \<and>
        200 \<le> code \<and> code \<le> 299 \<and> length (rbuf reply) \<le> 4 * 1024 * 1024 \<and> rend reply = EOF \<and>
        re_decode env (rbuf reply) = (Inr data, Some e) \<and> errors_is e EOF \<and>
        rr_JSONRPC data = ''2.0'' \<and> rr_ID data = ''1'' \<and> rr_Error data = None \<and> rr_Result data = Some r)"
  (is "?l = ?r")
proof (cases "re_marshal env method params")
  case (Inr body)
  show ?thesis
  proof (cases "re_request env url")
    case None
    obtain x w' where d: "re_do env (Remaining now (Some (case ctx of None \<Rightarrow> Background | Some c \<Rightarrow> c)) 10000000000) url body w =
        (x, w')" by (metis surj_pair)
    show ?thesis
    proof (cases x)
      case x: (Inr y)
      then obtain code status reply where "x = Inr (code, status, reply)" by (metis surj_pair)
      then show ?thesis
        using Inr None d by (simp add: Call_def rpc_body_Inr rpc_answer_Inr maxRPCResponseBytes_def rpcCallTimeout_def)
    qed (use Inr None d in \<open>simp add: Call_def rpcCallTimeout_def\<close>)
  qed (simp add: Call_def Inr)
qed (simp add: Call_def)

section \<open>What a fetch yields\<close>

lemma then_fetch_Inr: "fst (then_fetch f r k) = Inr y \<Longrightarrow> \<exists>x w. r = (Inr x, w) \<and> fst (k x w) = Inr y"
  by (auto simp: then_fetch_def split: prod.splits sum.splits)

lemma block_of_Inr: "block_of env tag raw = Inr b \<Longrightarrow> bi_Hash b \<noteq> 0 \<and> bi_StateRoot b \<noteq> 0"
  by (auto simp: block_of_def err_bind_Inr_iff split: if_splits)

lemma fetchBlockInfo_Inr:
  "fetchBlockInfo env now ctx rpc tag w = (Inr b, w') \<Longrightarrow> bi_Hash b \<noteq> 0 \<and> bi_StateRoot b \<noteq> 0"
  by (auto simp: fetchBlockInfo_def err_bind_Inr_iff split: prod.splits dest: block_of_Inr)

lemma fetchForkSchedule_Inr:
  "fetchForkSchedule env now ctx rpc g w = (Inr s, w') \<Longrightarrow> \<exists>config. parseForkSchedule (re_unquote env) config g = Inr s"
  by (auto simp: fetchForkSchedule_def err_bind_Inr_iff split: prod.splits option.splits)

text \<open>What the Status exchange asks of a node's own parameters, and more: no hash is zero.\<close>

definition coherent :: "chain_params \<Rightarrow> bool" where
  "coherent p \<longleftrightarrow> own_fork_id p \<and> Genesis p \<noteq> 0 \<and> HeadHash p \<noteq> 0 \<and> StateRoot p \<noteq> 0 \<and>
     sorted_wrt (<) (ForkBlocks p) \<and> 0 \<notin> set (ForkBlocks p) \<and> sorted_wrt (<) (ForkTimes p)"

lemma fetched_coherent:
  assumes "fst (fetchChainParamsUncached env now ctx rpc w) = Inr p"
  shows "coherent p"
proof -
  obtain genesis head networkID s w1 w2 w3 w4 where g: "fetchBlockInfo env now ctx rpc ''0x0'' w = (Inr genesis, w1)"
      and h: "fetchBlockInfo env now ctx rpc ''latest'' w1 = (Inr head, w2)"
      and s: "fetchForkSchedule env now ctx rpc (bi_Timestamp genesis) w3 = (Inr s, w4)"
      and p: "p = chain_params_of genesis head networkID s"
    using assms unfolding fetchChainParamsUncached_def by (auto dest!: then_fetch_Inr)
  obtain config where "parseForkSchedule (re_unquote env) config (bi_Timestamp genesis) = Inr s"
    using fetchForkSchedule_Inr [OF s] by blast
  then have "sorted_wrt (<) (blocks s) \<and> 0 \<notin> set (blocks s) \<and> sorted_wrt (<) (times s)"
    using parsed_schedule_canonical [where unquote = "re_unquote env" and config = config and genesisTime = "bi_Timestamp genesis"] by simp
  then show ?thesis
    using fetchBlockInfo_Inr [OF g] fetchBlockInfo_Inr [OF h] p
    by (cases s) (simp add: coherent_def chain_params_of_def own_fork_id_def)
qed

text \<open>
  Fetched chain parameters are coherent: the fork identifier is the EIP-2124 one of the fetched head under the fetched
  schedule, no hash in them is zero, and the schedule is in the canonical form that validation assumes, whatever the
  endpoint answered. So they meet what the Status exchange asks of a node's own parameters.
\<close>

theorem fetched_params_coherent:
  "case fst (fetchChainParamsUncached env now ctx rpc w) of
     Inl e \<Rightarrow> True
   | Inr p \<Rightarrow> own_fork_id p \<and> Genesis p \<noteq> 0 \<and> HeadHash p \<noteq> 0 \<and> StateRoot p \<noteq> 0 \<and>
       sorted_wrt (<) (ForkBlocks p) \<and> 0 \<notin> set (ForkBlocks p) \<and> sorted_wrt (<) (ForkTimes p)"
  by (auto simp: coherent_def dest: fetched_coherent split: sum.split)

text \<open>The network identifier comes from \<open>net_version\<close>, or from \<open>eth_chainId\<close> after that failed.\<close>

lemma fetchNetworkID_order:
  "fst (fetchNetworkID env now ctx rpc w) =
     (case fetchRPCUint env now ctx rpc ''net_version'' w of
        (Inr v, _) \<Rightarrow> Inr v
      | (Inl e, w) \<Rightarrow> (case fst (fetchRPCUint env now ctx rpc ''eth_chainId'' w) of
            Inr v \<Rightarrow> Inr v
          | Inl e' \<Rightarrow> Inl (Join (Wrapf ''net_version: %w'' [] e) (Wrapf ''eth_chainId: %w'' [] e'))))"
  by (auto simp: fetchNetworkID_def split: prod.splits sum.splits)

end
