(* ===== verification/Params_Service.thy ===== *)
theory Params_Service
  imports Rpc_Call
begin

text \<open>
  Package rpc, chainparams.go: \<open>FetchChainParams\<close> as concurrent callers run it. The lock of the cache and the lock of the
  \<open>singleflight\<close> group make each access one step: a caller looks into the cache, then joins the flight of its URL or starts
  it, then waits for the flight or for the end of its context; a flight looks into the cache again, asks the endpoint,
  stores, and is delivered to everyone who waits for it. \<open>join\<close> and \<open>deliver\<close> say what is documented of \<open>DoChan\<close>: one
  flight per key, whose result everyone who joined it gets. Clock readings are what the steps bring along.
\<close>

section \<open>State\<close>

text \<open>
  A caller carries its URL; with a result comes the clock reading at which it was taken from the cache, or at which it got
  its expiry. \<open>sv_log\<close> records what endpoints answered: URL, parameters, and the reading the expiry was computed from.
\<close>

datatype caller =
    Missed string
  | Waiting string
  | Delivered string int "goerr + chain_params"
  | Returned string int "goerr + chain_params"

datatype flight = Started | Unserved | Storing chain_params

record service =
  sv_cache :: cache
  sv_flights :: "string \<rightharpoonup> flight"
  sv_callers :: "nat \<rightharpoonup> caller"
  sv_log :: "(string \<times> chain_params \<times> int) list"

definition chainParamsFetchTimeout :: int where "chainParamsFetchTimeout = 45 * 10 ^ 9"

text \<open>The shared fetch runs under a context of its own. The endpoint as the fetch meets it is \<open>w\<close>.\<close>

definition shared_fetch :: "'w rpc_env \<Rightarrow> int \<Rightarrow> string \<Rightarrow> 'w \<Rightarrow> (goerr + chain_params) \<times> 'w" where
  "shared_fetch env now url w =
     fetchChainParamsUncached env now
       (Some (WithTimeout now (None :: (unit, unit, unit) go_ctx option) chainParamsFetchTimeout)) url w"

section \<open>Operations\<close>

text \<open>The end of a flight: the group forgets it and its result goes to everyone who waits for it.\<close>

definition deliver_to :: "string \<Rightarrow> int \<Rightarrow> goerr + chain_params \<Rightarrow> caller \<Rightarrow> caller" where
  "deliver_to url at r c = (case c of Waiting u \<Rightarrow> if u = url then Delivered url at r else c | _ \<Rightarrow> c)"

definition deliver :: "string \<Rightarrow> int \<Rightarrow> goerr + chain_params \<Rightarrow> service \<Rightarrow> service" where
  "deliver url at r s =
     s\<lparr>sv_flights := (sv_flights s)(url := None), sv_callers := map_option (deliver_to url at r) \<circ> sv_callers s\<rparr>"

definition call :: "int \<Rightarrow> nat \<Rightarrow> string \<Rightarrow> service \<Rightarrow> service" where
  "call now i url s =
     (case loadChainParams now url (sv_cache s) of
        (Some p, c) \<Rightarrow> s\<lparr>sv_cache := c, sv_callers := (sv_callers s)(i \<mapsto> Returned url now (Inr p))\<rparr>
      | (None, c) \<Rightarrow> s\<lparr>sv_cache := c, sv_callers := (sv_callers s)(i \<mapsto> Missed url)\<rparr>)"

definition join :: "nat \<Rightarrow> string \<Rightarrow> service \<Rightarrow> service" where
  "join i url s =
     s\<lparr>sv_flights := (case sv_flights s url of None \<Rightarrow> (sv_flights s)(url \<mapsto> Started) | Some _ \<Rightarrow> sv_flights s),
       sv_callers := (sv_callers s)(i \<mapsto> Waiting url)\<rparr>"

definition recheck :: "int \<Rightarrow> string \<Rightarrow> service \<Rightarrow> service" where
  "recheck now url s =
     (case loadChainParams now url (sv_cache s) of
        (Some p, c) \<Rightarrow> deliver url now (Inr p) (s\<lparr>sv_cache := c\<rparr>)
      | (None, c) \<Rightarrow> s\<lparr>sv_cache := c, sv_flights := (sv_flights s)(url \<mapsto> Unserved)\<rparr>)"

definition ask :: "'w rpc_env \<Rightarrow> int \<Rightarrow> 'w \<Rightarrow> string \<Rightarrow> service \<Rightarrow> service" where
  "ask env now w url s =
     (case fst (shared_fetch env now url w) of
        Inl e \<Rightarrow> deliver url now (Inl e) s
      | Inr p \<Rightarrow> s\<lparr>sv_flights := (sv_flights s)(url \<mapsto> Storing p)\<rparr>)"

definition store_params :: "int \<Rightarrow> int \<Rightarrow> string \<Rightarrow> chain_params \<Rightarrow> service \<Rightarrow> service" where
  "store_params fetched stored url p s =
     deliver url fetched (Inr p)
       (s\<lparr>sv_cache := Store stored url \<lparr>ce_cp = cloneChainParams p, ce_exp = fetched + chainParamsTTL\<rparr> (sv_cache s),
         sv_log := (url, p, fetched) # sv_log s\<rparr>)"

text \<open>The two ways the caller's select can go.\<close>

definition take_result :: "nat \<Rightarrow> string \<Rightarrow> int \<Rightarrow> goerr + chain_params \<Rightarrow> service \<Rightarrow> service" where
  "take_result i url at r s =
     s\<lparr>sv_callers := (sv_callers s)(i \<mapsto> Returned url at (case r of Inl e \<Rightarrow> Inl e | Inr p \<Rightarrow> Inr (cloneChainParams p)))\<rparr>"

definition give_up :: "int \<Rightarrow> nat \<Rightarrow> string \<Rightarrow> goerr \<Rightarrow> service \<Rightarrow> service" where
  "give_up now i url e s = s\<lparr>sv_callers := (sv_callers s)(i \<mapsto> Returned url now (Inl e))\<rparr>"

section \<open>Interleavings\<close>

inductive service_step :: "'w rpc_env \<Rightarrow> service \<Rightarrow> service \<Rightarrow> bool" for env s where
  call: "sv_callers s i = None \<Longrightarrow> service_step env s (call now i url s)"
| join: "sv_callers s i = Some (Missed url) \<Longrightarrow> service_step env s (join i url s)"
| recheck: "sv_flights s url = Some Started \<Longrightarrow> service_step env s (recheck now url s)"
| ask: "sv_flights s url = Some Unserved \<Longrightarrow> service_step env s (ask env now w url s)"
| store: "sv_flights s url = Some (Storing p) \<Longrightarrow> service_step env s (store_params fetched stored url p s)"
| take_result: "sv_callers s i = Some (Delivered url at r) \<Longrightarrow> service_step env s (take_result i url at r s)"
| give_up_waiting: "sv_callers s i = Some (Waiting url) \<Longrightarrow> service_step env s (give_up now i url e s)"
| give_up_delivered: "sv_callers s i = Some (Delivered url at r) \<Longrightarrow> service_step env s (give_up now i url e s)"
| clear: "service_step env s (s\<lparr>sv_cache := Clear (sv_cache s)\<rparr>)"
| len: "service_step env s (s\<lparr>sv_cache := snd (Len now (sv_cache s))\<rparr>)"

inductive_cases service_stepE: "service_step env s s'"

inductive service_steps :: "'w rpc_env \<Rightarrow> service \<Rightarrow> service \<Rightarrow> bool" for env s0 where
  none: "service_steps env s0 s0"
| more: "service_steps env s0 s \<Longrightarrow> service_step env s s' \<Longrightarrow> service_steps env s0 s'"

definition idle_service :: "service \<Rightarrow> bool" where
  "idle_service s \<longleftrightarrow>
     newChainParamsCache maxChainParamsCacheEntries = Some (sv_cache s) \<and> sv_flights s = Map.empty \<and>
     sv_callers s = Map.empty \<and> sv_log s = []"

section \<open>What callers get\<close>

text \<open>Parameters that an endpoint really answered, at a reading less than the lifetime before \<open>at\<close>.\<close>

definition answered :: "service \<Rightarrow> string \<Rightarrow> int \<Rightarrow> goerr + chain_params \<Rightarrow> bool" where
  "answered s url at r \<longleftrightarrow>
     (case r of Inl _ \<Rightarrow> True | Inr p \<Rightarrow> \<exists>t. (url, p, t) \<in> set (sv_log s) \<and> at < t + chainParamsTTL)"

definition genuine :: "'w rpc_env \<Rightarrow> string \<Rightarrow> chain_params \<Rightarrow> bool" where
  "genuine env url p \<longleftrightarrow> (\<exists>now w. fst (shared_fetch env now url w) = Inr p)"

lemma genuine_coherent: "genuine env url p \<Longrightarrow> coherent p"
  unfolding genuine_def shared_fetch_def by (blast dest: fetched_coherent)

definition caller_ok :: "service \<Rightarrow> caller \<Rightarrow> bool" where
  "caller_ok s c \<longleftrightarrow> (case c of
     Missed _ \<Rightarrow> True
   | Waiting url \<Rightarrow> sv_flights s url \<noteq> None
   | Delivered url at r \<Rightarrow> answered s url at r
   | Returned url at r \<Rightarrow> answered s url at r)"

definition service_inv :: "'w rpc_env \<Rightarrow> service \<Rightarrow> bool" where
  "service_inv env s \<longleftrightarrow>
     cache_ok (sv_cache s) \<and> cap (sv_cache s) = maxChainParamsCacheEntries \<and>
     (\<forall>(url, e) \<in> set (entries (sv_cache s)). (url, ce_cp e, ce_exp e - chainParamsTTL) \<in> set (sv_log s)) \<and>
     (\<forall>url p. sv_flights s url = Some (Storing p) \<longrightarrow> genuine env url p) \<and>
     (\<forall>(url, p, t) \<in> set (sv_log s). genuine env url p) \<and>
     (\<forall>c \<in> ran (sv_callers s). caller_ok s c)"

text \<open>What the operations of the cache leave of its entries.\<close>

lemma set_update: "set (AList.update k v al) \<subseteq> insert (k, v) (set al)"
  by (induction al) auto

lemma cache_entries:
  "set (entries (snd (Load now url c))) \<subseteq> set (entries c)"
  "set (entries (snd (Len now c))) \<subseteq> set (entries c)"
  "set (entries (Clear c)) \<subseteq> set (entries c)"
  "set (entries (Store now url e c)) \<subseteq> insert (url, e) (set (entries c))"
  by (auto simp: Load_def Len_def Clear_def Store_def Let_def pruneExpiredLocked_def evictOldestLocked_def AList.delete_eq
      dest!: set_mp [OF set_update] split: if_splits)

lemma loaded:
  assumes "cache_ok c" "loadChainParams now url c = (Some p, c')"
  shows "\<exists>e. (url, e) \<in> set (entries c) \<and> ce_cp e = p \<and> now < ce_exp e"
proof -
  have d: "distinct (map fst (entries c))" using assms(1) by (simp add: cache_ok_def)
  show ?thesis
    using assms(2) by (auto simp: loadChainParams_eq Load_value [OF d] dest: map_of_SomeD split: option.splits if_splits)
qed

lemma ran_upd: "ran (f(i \<mapsto> x)) \<subseteq> insert x (ran f)"
  by (auto simp: ran_def)

lemma caller_ok_mono:
  assumes "caller_ok s c" "set (sv_log s) \<subseteq> set (sv_log s')"
    and "\<And>url. c = Waiting url \<Longrightarrow> sv_flights s url \<noteq> None \<Longrightarrow> sv_flights s' url \<noteq> None"
  shows "caller_ok s' c"
  using assms by (auto simp: caller_ok_def answered_def split: caller.splits sum.splits)

named_theorems keeps_inv \<open>updates of the service that keep its invariant\<close>

lemma inv_cache [keeps_inv]:
  assumes "service_inv env s" "cache_ok c" "cap c = cap (sv_cache s)" "set (entries c) \<subseteq> set (entries (sv_cache s))"
  shows "service_inv env (s\<lparr>sv_cache := c\<rparr>)"
  using assms by (auto simp: service_inv_def intro: caller_ok_mono)

lemma inv_caller [keeps_inv]:
  assumes "service_inv env s" "caller_ok s x"
  shows "service_inv env (s\<lparr>sv_callers := (sv_callers s)(i \<mapsto> x)\<rparr>)"
proof -
  let ?s = "s\<lparr>sv_callers := (sv_callers s)(i \<mapsto> x)\<rparr>"
  have "caller_ok ?s c" if "c \<in> ran (sv_callers ?s)" for c
  proof (rule caller_ok_mono)
    show "caller_ok s c" using that assms ran_upd [of "sv_callers s" i x] by (auto simp: service_inv_def)
  qed simp_all
  then show ?thesis using assms(1) by (simp add: service_inv_def)
qed

lemma inv_flight [keeps_inv]:
  assumes "service_inv env s" "case f of Storing p \<Rightarrow> genuine env url p | _ \<Rightarrow> True"
  shows "service_inv env (s\<lparr>sv_flights := (sv_flights s)(url \<mapsto> f)\<rparr>)"
  using assms by (auto simp: service_inv_def intro: caller_ok_mono)

lemma inv_log [keeps_inv]:
  assumes "service_inv env s" "genuine env url p"
  shows "service_inv env (s\<lparr>sv_log := (url, p, t) # sv_log s\<rparr>)"
  using assms by (auto simp: service_inv_def intro: caller_ok_mono)

lemma inv_deliver [keeps_inv]:
  assumes "service_inv env s" "answered s url at r"
  shows "service_inv env (deliver url at r s)"
proof -
  have "caller_ok (deliver url at r s) (deliver_to url at r c)" if "c \<in> ran (sv_callers s)" for c
  proof -
    have "caller_ok s c" using assms(1) that by (auto simp: service_inv_def)
    then show ?thesis
      using assms(2) by (auto simp: caller_ok_def answered_def deliver_def deliver_to_def split: caller.splits sum.splits)
  qed
  then have "\<forall>c \<in> ran (sv_callers (deliver url at r s)). caller_ok (deliver url at r s) c"
    by (auto simp: deliver_def ran_def)
  then show ?thesis using assms(1) by (auto simp: service_inv_def deliver_def)
qed

lemma lookup_inv:
  assumes "service_inv env s" "loadChainParams now url (sv_cache s) = (r, c)"
  shows "service_inv env (s\<lparr>sv_cache := c\<rparr>)" and "r = Some p \<Longrightarrow> answered (s\<lparr>sv_cache := c\<rparr>) url now (Inr p)"
proof -
  have ok: "cache_ok (sv_cache s)" using assms(1) by (simp add: service_inv_def)
  have "c = snd (Load now url (sv_cache s))" using assms(2) by (auto simp: loadChainParams_eq)
  then show "service_inv env (s\<lparr>sv_cache := c\<rparr>)"
    using assms(1) ok by (intro inv_cache) (simp_all add: Load_ok cache_entries)
  assume "r = Some p"
  then obtain e where "(url, e) \<in> set (entries (sv_cache s))" "ce_cp e = p" "now < ce_exp e"
    using loaded [OF ok] assms(2) by blast
  then show "answered (s\<lparr>sv_cache := c\<rparr>) url now (Inr p)"
    using assms(1) by (force simp: answered_def service_inv_def intro!: exI [of _ "ce_exp e - chainParamsTTL"])
qed

lemma call_inv: "service_inv env s \<Longrightarrow> service_inv env (call now i url s)"
proof (cases "loadChainParams now url (sv_cache s)")
  case (Pair r c)
  assume inv: "service_inv env s"
  note l = lookup_inv [OF inv Pair]
  have "caller_ok (s\<lparr>sv_cache := c\<rparr>) (case r of None \<Rightarrow> Missed url | Some p \<Rightarrow> Returned url now (Inr p))"
    using l(2) by (simp add: caller_ok_def split: option.split)
  from inv_caller [OF l(1) this, of i] show ?thesis by (cases r) (simp_all add: call_def Pair)
qed

lemma recheck_inv: "service_inv env s \<Longrightarrow> service_inv env (recheck now url s)"
proof (cases "loadChainParams now url (sv_cache s)")
  case (Pair r c)
  assume inv: "service_inv env s"
  note l = lookup_inv [OF inv Pair]
  show ?thesis
    using inv_flight [OF l(1), where f = Unserved] inv_deliver [OF l] by (cases r) (simp_all add: recheck_def Pair)
qed

lemma ask_inv: "service_inv env s \<Longrightarrow> service_inv env (ask env now w url s)"
proof (cases "fst (shared_fetch env now url w)")
  case (Inl e)
  assume "service_inv env s"
  from inv_deliver [OF this, of url now "Inl e"] show ?thesis by (simp add: ask_def Inl answered_def)
next
  case (Inr p)
  then have "genuine env url p" by (auto simp: genuine_def)
  moreover assume "service_inv env s"
  ultimately show ?thesis using inv_flight [of env s, where f = "Storing p" and url = url] by (simp add: ask_def Inr)
qed

lemma store_inv:
  assumes "service_inv env s" "sv_flights s url = Some (Storing p)"
  shows "service_inv env (store_params fetched stored url p s)"
proof -
  let ?e = "\<lparr>ce_cp = p, ce_exp = fetched + chainParamsTTL\<rparr>"
  let ?s = "s\<lparr>sv_log := (url, p, fetched) # sv_log s\<rparr>"
  have g: "genuine env url p" using assms by (simp add: service_inv_def)
  have inv: "service_inv env ?s" using inv_log [OF assms(1) g] .
  have ok: "cache_ok (sv_cache s)" using assms(1) by (simp add: service_inv_def)
  define s' where "s' = s\<lparr>sv_cache := Store stored url ?e (sv_cache s), sv_log := (url, p, fetched) # sv_log s\<rparr>"
  have "service_inv env s'"
    using inv Store_ok [OF ok, of stored url ?e] cache_entries(4) [of stored url ?e "sv_cache s"]
    by (auto simp: s'_def service_inv_def intro: caller_ok_mono)
  moreover have "answered s' url fetched (Inr p)"
    by (auto simp: s'_def answered_def chainParamsTTL_def)
  ultimately show ?thesis using inv_deliver [of env s'] by (simp add: store_params_def s'_def)
qed

lemma join_inv:
  assumes "service_inv env s"
  shows "service_inv env (join i url s)"
proof -
  define s' where "s' = s\<lparr>sv_flights := (case sv_flights s url of None \<Rightarrow> (sv_flights s)(url \<mapsto> Started) | Some _ \<Rightarrow> sv_flights s)\<rparr>"
  have "service_inv env s'"
    using assms inv_flight [of env s, where f = Started and url = url] by (cases "sv_flights s url") (simp_all add: s'_def)
  moreover have "caller_ok s' (Waiting url)" by (simp add: s'_def caller_ok_def split: option.split)
  ultimately have "service_inv env (s'\<lparr>sv_callers := (sv_callers s')(i \<mapsto> Waiting url)\<rparr>)" by (rule inv_caller)
  then show ?thesis by (simp add: join_def s'_def)
qed

lemma caller_of: "service_inv env s \<Longrightarrow> sv_callers s i = Some c \<Longrightarrow> caller_ok s c"
  by (auto simp: service_inv_def ran_def)

lemma service_step_inv: "service_step env s s' \<Longrightarrow> service_inv env s \<Longrightarrow> service_inv env s'"
proof (induction rule: service_step.induct)
  case (take_result i url at r)
  then have "caller_ok s (Returned url at (case r of Inl e \<Rightarrow> Inl e | Inr p \<Rightarrow> Inr (cloneChainParams p)))"
    using caller_of [of env s i] by (auto simp: caller_ok_def split: sum.split)
  then show ?case using inv_caller take_result(2) unfolding take_result_def by blast
next
  case (clear)
  have "cache_ok (sv_cache s)" using clear by (simp add: service_inv_def)
  then show ?case using clear by (intro inv_cache) (simp_all add: Clear_ok cache_entries)
next
  case (len now)
  have "cache_ok (sv_cache s)" using len by (simp add: service_inv_def)
  then show ?case using len by (intro inv_cache) (simp_all add: Len_ok cache_entries)
qed (simp_all add: call_inv join_inv recheck_inv ask_inv store_inv give_up_def inv_caller caller_ok_def answered_def)

lemma service_steps_inv: "service_steps env s0 s \<Longrightarrow> service_inv env s0 \<Longrightarrow> service_inv env s"
  by (induction rule: service_steps.induct) (auto intro: service_step_inv)

lemma idle_inv: "idle_service s \<Longrightarrow> service_inv env s"
proof -
  assume idle: "idle_service s"
  then have "sv_cache s = \<lparr>entries = [], cap = 256\<rparr>"
    by (simp add: idle_service_def newChainParamsCache_def maxChainParamsCacheEntries_def)
  then show ?thesis
    using idle by (simp add: idle_service_def service_inv_def cache_ok_def maxChainParamsCacheEntries_def)
qed

text \<open>
  C9: Whatever callers, flights, evictions and cancellations interleave, what a call of \<open>FetchChainParams\<close> returns for a URL
  is an error, or parameters that the endpoint of that very URL answered, coherent ones, less than 30 seconds before
  they were taken from the cache; and the cache never holds more than 256 URLs, each once.
\<close>

theorem fetched_for_the_right_url:
  assumes "idle_service s0" "service_steps env s0 s" "sv_callers s i = Some (Returned url at (Inr p))"
  shows "(\<exists>now w t. fst (shared_fetch env now url w) = Inr p \<and> (url, p, t) \<in> set (sv_log s) \<and> at < t + 30 * 10 ^ 9) \<and>
    coherent p \<and> length (entries (sv_cache s)) \<le> 256 \<and> distinct (map fst (entries (sv_cache s)))"
proof -
  have inv: "service_inv env s" using service_steps_inv [OF assms(2) idle_inv [OF assms(1)]] .
  obtain t where t: "(url, p, t) \<in> set (sv_log s)" "at < t + chainParamsTTL"
    using caller_of [OF inv assms(3)] by (auto simp: caller_ok_def answered_def)
  then have "genuine env url p" using inv by (auto simp: service_inv_def)
  then show ?thesis
    using t inv genuine_coherent [of env url p]
    by (auto simp: genuine_def service_inv_def cache_ok_def maxChainParamsCacheEntries_def chainParamsTTL_def)
qed

section \<open>Waiting ends\<close>

lemma steps_trans: "service_steps env b c \<Longrightarrow> service_steps env a b \<Longrightarrow> service_steps env a c"
  by (induction rule: service_steps.induct) (auto intro: service_steps.more)

lemma one_step: "service_step env a b \<Longrightarrow> service_steps env a b"
  using service_steps.more [OF service_steps.none] .

text \<open>What the waiters of a URL see when its flight ends.\<close>

definition all_answered :: "string \<Rightarrow> service \<Rightarrow> service \<Rightarrow> bool" where
  "all_answered url s s' \<longleftrightarrow> sv_flights s' url = None \<and>
     (\<exists>at r. \<forall>i. sv_callers s' i = (if sv_callers s i = Some (Waiting url) then Some (Delivered url at r) else sv_callers s i))"

lemma deliver_answers:
  assumes "sv_callers s' = sv_callers s"
  shows "all_answered url s (deliver url at r s')"
proof -
  have "map_option (deliver_to url at r) (sv_callers s i) =
      (if sv_callers s i = Some (Waiting url) then Some (Delivered url at r) else sv_callers s i)" for i
    by (cases "sv_callers s i") (auto simp: deliver_to_def split: caller.split)
  then show ?thesis using assms unfolding all_answered_def deliver_def by auto
qed

lemma storing_ends:
  "sv_flights s url = Some (Storing p) \<Longrightarrow> \<exists>s'. service_steps env s s' \<and> all_answered url s s'"
  by (intro exI [of _ "store_params 0 0 url p s"] conjI one_step service_step.store)
    (simp_all add: store_params_def deliver_answers)

lemma unserved_ends:
  assumes "sv_flights s url = Some Unserved"
  shows "\<exists>s'. service_steps env s s' \<and> all_answered url s s'"
proof (cases "fst (shared_fetch env 0 url undefined)")
  case (Inl e)
  then show ?thesis
    using one_step [OF service_step.ask [OF assms, of env 0 undefined]] deliver_answers [of s s url 0 "Inl e"]
    by (auto simp: ask_def)
next
  case (Inr p)
  let ?s = "s\<lparr>sv_flights := (sv_flights s)(url \<mapsto> Storing p)\<rparr>"
  have "service_steps env s ?s"
    using one_step [OF service_step.ask [OF assms, of env 0 undefined]] Inr by (simp add: ask_def)
  moreover obtain s' where "service_steps env ?s s'" "all_answered url ?s s'" using storing_ends [of ?s url p env] by auto
  ultimately show ?thesis by (auto simp: all_answered_def intro: steps_trans)
qed

lemma flight_ends:
  assumes "sv_flights s url = Some f"
  shows "\<exists>s'. service_steps env s s' \<and> all_answered url s s'"
proof (cases f)
  case Started
  obtain r c where l: "loadChainParams 0 url (sv_cache s) = (r, c)" by (metis surj_pair)
  have one: "service_steps env s (recheck 0 url s)"
    using assms Started by (intro one_step service_step.recheck) simp
  show ?thesis
  proof (cases r)
    case None
    let ?s = "s\<lparr>sv_cache := c, sv_flights := (sv_flights s)(url \<mapsto> Unserved)\<rparr>"
    obtain s' where "service_steps env ?s s'" "all_answered url ?s s'" using unserved_ends [of ?s url env] by auto
    moreover have "service_steps env s ?s" using one l None by (simp add: recheck_def)
    ultimately show ?thesis by (auto simp: all_answered_def intro: steps_trans)
  next
    case (Some p)
    then show ?thesis using one l deliver_answers [of "s\<lparr>sv_cache := c\<rparr>" s] by (auto simp: recheck_def)
  qed
qed (use assms unserved_ends storing_ends in auto)

text \<open>
  C10: No caller of \<open>FetchChainParams\<close> is stranded: in every state in which one waits for a URL, a flight of that URL is under
  way, and it can end, with a result that goes to everyone who waits for the URL at that moment, and to no one else.
\<close>

theorem waiters_share_an_answer:
  assumes "idle_service s0" "service_steps env s0 s" "sv_callers s i = Some (Waiting url)"
  shows "sv_flights s url \<noteq> None \<and> (\<exists>s'. service_steps env s s' \<and> all_answered url s s')"
proof -
  have inv: "service_inv env s" using service_steps_inv [OF assms(2) idle_inv [OF assms(1)]] .
  then show ?thesis using caller_of [OF inv assms(3)] flight_ends [of s url] by (auto simp: caller_ok_def)
qed

section \<open>One caller alone\<close>

text \<open>\<open>all_answered\<close> with the answer spelt out, for the flight of one caller.\<close>

lemma delivered:
  "sv_callers s i = Some (Waiting url) \<Longrightarrow> sv_callers (deliver url at r s) i = Some (Delivered url at r)"
  by (simp add: deliver_def deliver_to_def)

lemma deliver_cache [simp]: "sv_cache (deliver url at r s) = sv_cache s"
  by (simp add: deliver_def)

lemma flight_is_fetch_flight:
  assumes "sv_flights s url = Some Started" "sv_callers s i = Some (Waiting url)"
    and "fetch_flight (shared_fetch env now url) t url (w, sv_cache s) = (r, w', c')"
  shows "\<exists>s' at. service_steps env s s' \<and> sv_cache s' = c' \<and> sv_callers s' i = Some (Delivered url at r)"
proof -
  obtain q c where l: "loadChainParams (t_again t) url (sv_cache s) = (q, c)" by (metis surj_pair)
  have 1: "service_steps env s (recheck (t_again t) url s)" using assms(1) by (intro one_step service_step.recheck)
  show ?thesis
  proof (cases q)
    case (Some p)
    then have "r = Inr p" "c' = c" using assms(3) l by (simp_all add: fetch_flight_def)
    then show ?thesis using 1 l Some delivered [of "s\<lparr>sv_cache := c\<rparr>" i url] assms(2)
      by (intro exI [of _ "recheck (t_again t) url s"] exI [of _ "t_again t"]) (simp add: recheck_def)
  next
    case None
    let ?u = "s\<lparr>sv_cache := c, sv_flights := (sv_flights s)(url \<mapsto> Unserved)\<rparr>"
    have u: "service_steps env s ?u" using 1 l None by (simp add: recheck_def)
    have 2: "service_step env ?u (ask env now w url ?u)" by (intro service_step.ask) simp
    obtain x v where x: "shared_fetch env now url w = (x, v)" by (metis surj_pair)
    show ?thesis
    proof (cases x)
      case (Inl e)
      then have "r = Inl e" "c' = c" using assms(3) l None x by (simp_all add: fetch_flight_def)
      then show ?thesis using service_steps.more [OF u 2] x Inl delivered [of ?u i url] assms(2)
        by (intro exI [of _ "ask env now w url ?u"] exI [of _ now]) (simp add: ask_def)
    next
      case (Inr p)
      let ?v = "?u\<lparr>sv_flights := (sv_flights ?u)(url \<mapsto> Storing p)\<rparr>"
      have v: "service_steps env s ?v" using service_steps.more [OF u 2] x Inr by (simp add: ask_def)
      have 3: "service_step env ?v (store_params (t_exp t) (t_store t) url p ?v)" by (intro service_step.store) simp
      have "r = Inr p" "c' = Store (t_store t) url \<lparr>ce_cp = p, ce_exp = t_exp t + chainParamsTTL\<rparr> c"
        using assms(3) l None x Inr by (simp_all add: fetch_flight_def)
      then show ?thesis using service_steps.more [OF v 3] assms(2)
        by (intro exI [of _ "store_params (t_exp t) (t_store t) url p ?v"] exI [of _ "t_exp t"])
          (simp add: store_params_def delivered)
    qed
  qed
qed

text \<open>
  \<open>FetchChainParams\<close> as one function, without a flight under way and with a patient caller, is a run of the service.
\<close>

lemma alone_is_FetchChainParams:
  assumes "sv_callers s i = None" "sv_flights s url = None"
    and "FetchChainParams (shared_fetch env now url) t None None url (w, sv_cache s) = (r, w', c')"
  shows "\<exists>s' at. service_steps env s s' \<and> sv_cache s' = c' \<and> sv_callers s' i = Some (Returned url at r)"
proof -
  obtain q c where l: "loadChainParams (t_load t) url (sv_cache s) = (q, c)" by (metis surj_pair)
  have 1: "service_steps env s (call (t_load t) i url s)" using assms(1) by (intro one_step service_step.call)
  show ?thesis
  proof (cases q)
    case (Some p)
    then show ?thesis using 1 l assms(3)
      by (intro exI [of _ "call (t_load t) i url s"] exI [of _ "t_load t"]) (auto simp: call_def FetchChainParams_def)
  next
    case None
    let ?m = "call (t_load t) i url s"
    have m: "?m = s\<lparr>sv_cache := c, sv_callers := (sv_callers s)(i \<mapsto> Missed url)\<rparr>" using l None by (simp add: call_def)
    have 2: "service_steps env s (join i url ?m)" using m by (intro service_steps.more [OF 1] service_step.join) simp
    have "fetch_flight (shared_fetch env now url) t url (w, c) = (r, w', c')"
      using assms(3) l None by (auto simp: FetchChainParams_def split: prod.splits sum.splits)
    then obtain u at where u: "service_steps env (join i url ?m) u" "sv_cache u = c'" "sv_callers u i = Some (Delivered url at r)"
      using flight_is_fetch_flight [of "join i url ?m" url i env now t w r w' c'] assms(2) m by (auto simp: join_def)
    have "service_steps env s (take_result i url at r u)"
      using service_steps.more [OF steps_trans [OF u(1) 2] service_step.take_result [OF u(3)]] .
    moreover have "(case r of Inl e \<Rightarrow> Inl e | Inr p \<Rightarrow> Inr (cloneChainParams p)) = r" by (cases r) simp_all
    ultimately show ?thesis using u(2) by (intro exI [of _ "take_result i url at r u"] exI [of _ at]) (simp add: take_result_def)
  qed
qed

section \<open>An endpoint that answers\<close>

definition live_rpc :: "unit rpc_env" where
  "live_rpc = \<lparr>re_marshal = (\<lambda>_ _. Inr []), re_request = (\<lambda>_. None),
     re_do = (\<lambda>_ _ _ w. (Inr (200, '''', \<lparr>rbuf = [], rend = EOF\<rparr>), w)),
     re_decode = (\<lambda>_. (Inr \<lparr>rr_JSONRPC = ''2.0'', rr_ID = ''1'', rr_Result = Some ''1'', rr_Error = None\<rparr>, Some EOF)),
     re_block = (\<lambda>_. Inr \<lparr>rb_Hash = 1, rb_Number = ''1'', rb_Timestamp = ''1'', rb_StateRoot = 1\<rparr>),
     re_nodeInfo = (\<lambda>_. Inr (Some [])), re_unquote = Inr\<rparr>"

definition live_params :: chain_params where
  "live_params = chain_params_of \<lparr>bi_Hash = 1, bi_Number = 1, bi_Timestamp = 1, bi_StateRoot = 1\<rparr>
     \<lparr>bi_Hash = 1, bi_Number = 1, bi_Timestamp = 1, bi_StateRoot = 1\<rparr> 1 \<lparr>blocks = [], times = []\<rparr>"

lemma live_call: "Call live_rpc now ctx url method ps w = (Inr ''1'', w)"
  by (simp add: Call_def live_rpc_def rpc_body_def read_limited_def maxRPCResponseBytes_def rpc_answer_def)

lemma live_parse: "parseUint (re_unquote live_rpc) ''1'' = Inr 1" "trim_space ''1'' \<noteq> ''null''"
proof -
  have trim: "trim_space ''1'' = ''1''" by code_simp
  then show "trim_space ''1'' \<noteq> ''null''" by simp
  have one: "char_of (49 :: nat) = CHR ''1''" by code_simp
  have p: "ParseUint 10 ''1'' = Inr 1" using ParseUint_show [of 1] by (simp add: show_nat.simps one)
  have "has_prefix [CHR 0x22] ''1'' = False" "has_prefix ''0x'' ''1'' = False" "has_prefix ''0X'' ''1'' = False" by code_simp+
  then show "parseUint (re_unquote live_rpc) ''1'' = Inr 1" by (simp add: parseUint_def trim p)
qed

lemma live_fetch: "shared_fetch live_rpc now url w = (Inr live_params, w)"
proof -
  have block: "block_of live_rpc tag ''1'' = Inr \<lparr>bi_Hash = 1, bi_Number = 1, bi_Timestamp = 1, bi_StateRoot = 1\<rparr>" for tag
    using live_parse by (simp add: block_of_def wrap_err_def) (simp add: live_rpc_def wrap_err_def)
  show ?thesis
    by (simp add: shared_fetch_def fetchChainParamsUncached_def then_fetch_def fetchBlockInfo_def live_call block
        fetchNetworkID_def fetchRPCUint_def live_parse wrap_err_def fetchForkSchedule_def)
      (simp add: live_rpc_def parseForkSchedule_def live_params_def)
qed

definition idle0 :: service where
  "idle0 = \<lparr>sv_cache = \<lparr>entries = [], cap = 256\<rparr>, sv_flights = Map.empty, sv_callers = Map.empty, sv_log = []\<rparr>"

lemma idle0_idle: "idle_service idle0"
  by (simp add: idle_service_def idle0_def newChainParamsCache_def maxChainParamsCacheEntries_def)

lemma fetched_for_the_right_url_witness:
  "\<exists>s at. service_steps live_rpc idle0 s \<and> sv_callers s 0 = Some (Returned ''u'' at (Inr live_params)) \<and>
     (\<exists>t. (''u'', live_params, t) \<in> set (sv_log s) \<and> at < t + 30 * 10 ^ 9) \<and> coherent live_params"
proof -
  obtain w c where f: "FetchChainParams (shared_fetch live_rpc 0 ''u'') \<lparr>t_load = 0, t_again = 1, t_exp = 2, t_store = 3\<rparr> None None ''u''
      ((), sv_cache idle0) = (Inr live_params, w, c)"
    by (simp add: FetchChainParams_def fetch_flight_def loadChainParams_eq Load_def pruneExpiredLocked_def idle0_def live_fetch)
  obtain s at where s: "service_steps live_rpc idle0 s" "sv_callers s 0 = Some (Returned ''u'' at (Inr live_params))"
    using alone_is_FetchChainParams [OF _ _ f, of 0] by (auto simp: idle0_def)
  then show ?thesis using fetched_for_the_right_url [OF idle0_idle s] by auto
qed

text \<open>Two callers that missed the cache and wait for the same flight.\<close>

definition two_waiting :: service where
  "two_waiting = join 2 ''u'' (join 0 ''u'' (call 0 2 ''u'' (call 0 0 ''u'' idle0)))"

lemma two_waiting_simps:
  "sv_callers (call 0 0 ''u'' idle0) = [0 \<mapsto> Missed ''u'']"
  "sv_callers (call 0 2 ''u'' (call 0 0 ''u'' idle0)) = [0 \<mapsto> Missed ''u'', 2 \<mapsto> Missed ''u'']"
  "sv_callers (join 0 ''u'' (call 0 2 ''u'' (call 0 0 ''u'' idle0))) = [0 \<mapsto> Waiting ''u'', 2 \<mapsto> Missed ''u'']"
  "sv_callers two_waiting = [0 \<mapsto> Waiting ''u'', 2 \<mapsto> Waiting ''u'']"
  by (auto simp: two_waiting_def join_def call_def idle0_def loadChainParams_eq Load_def pruneExpiredLocked_def fun_eq_iff)

lemma two_waiting_reached: "service_steps env idle0 two_waiting"
proof -
  have a: "service_steps env idle0 (call 0 0 ''u'' idle0)"
    by (intro one_step service_step.call) (simp add: idle0_def)
  have b: "service_steps env idle0 (call 0 2 ''u'' (call 0 0 ''u'' idle0))"
    by (intro service_steps.more [OF a] service_step.call) (simp add: two_waiting_simps)
  have c: "service_steps env idle0 (join 0 ''u'' (call 0 2 ''u'' (call 0 0 ''u'' idle0)))"
    by (intro service_steps.more [OF b] service_step.join) (simp add: two_waiting_simps)
  show ?thesis unfolding two_waiting_def
    by (intro service_steps.more [OF c] service_step.join) (simp add: two_waiting_simps)
qed

lemma waiters_share_an_answer_witness:
  "sv_flights two_waiting ''u'' \<noteq> None \<and>
   (\<exists>s at r. service_steps live_rpc two_waiting s \<and> sv_callers s 0 = Some (Delivered ''u'' at r) \<and>
      sv_callers s 2 = Some (Delivered ''u'' at r))"
proof -
  have w: "sv_callers two_waiting 0 = Some (Waiting ''u'')" "sv_callers two_waiting 2 = Some (Waiting ''u'')"
    by (simp_all add: two_waiting_simps)
  obtain s where s: "service_steps live_rpc two_waiting s" "all_answered ''u'' two_waiting s"
    using waiters_share_an_answer [OF idle0_idle two_waiting_reached w(1), of live_rpc] by auto
  have "sv_flights two_waiting ''u'' \<noteq> None"
    using waiters_share_an_answer [OF idle0_idle two_waiting_reached w(1), of live_rpc] by blast
  moreover obtain at r where "sv_callers s 0 = Some (Delivered ''u'' at r)" "sv_callers s 2 = Some (Delivered ''u'' at r)"
    using s(2) w unfolding all_answered_def by auto
  ultimately show ?thesis using s(1) by blast
qed

end
