(* ===== verification/Fork_Rules.thy ===== *)
theory Fork_Rules
  imports Fork_Id
begin

text \<open>
  The validation rules of EIP-2124, with the timestamp forks of EIP-6122, written from their text and without the
  definitions of \<open>Fork_Id\<close>, and that \<open>ValidateForkID\<close> of rpc/chainparams.go implements them.
\<close>

section \<open>The rules\<close>

text \<open>The local forks in order, those by block number (\<open>True\<close>) before those by timestamp, and those the local head has passed.\<close>

definition eip_forks :: "chain_params \<Rightarrow> (bool \<times> u64) list" where
  "eip_forks p = map (Pair True) (ForkBlocks p) @ map (Pair False) (ForkTimes p)"

definition eip_past :: "chain_params \<Rightarrow> (bool \<times> u64) list" where
  "eip_past p = takeWhile (\<lambda>(by_number, f). f \<le> (if by_number then HeadNumber p else HeadTime p)) (eip_forks p)"

definition eip_future :: "chain_params \<Rightarrow> (bool \<times> u64) list" where
  "eip_future p = dropWhile (\<lambda>(by_number, f). f \<le> (if by_number then HeadNumber p else HeadTime p)) (eip_forks p)"

text \<open>\<open>FORK_HASH\<close>: the CRC-32 of the genesis hash and the fork numbers that were passed, as 64-bit integers.\<close>

definition eip_hash :: "chain_params \<Rightarrow> (bool \<times> u64) list \<Rightarrow> bytes" where
  "eip_hash p forks = be_bytes 4 (crc_update 0 (be_bytes 32 (Genesis p) @ concat (map (\<lambda>(_, f). be_bytes 8 f) forks)))"

text \<open>
  A remotely announced fork that the local head has passed. It is a timestamp once the local chain has passed its block
  forks and has forks by timestamp; before that it is a block number, or a timestamp if it is later than the launch of
  Ethereum on 30 July 2015.
\<close>

definition by_timestamp :: "chain_params \<Rightarrow> bool" where
  "by_timestamp p \<longleftrightarrow> ForkTimes p \<noteq> [] \<and> (\<forall>f \<in> set (ForkBlocks p). f \<le> HeadNumber p)"

definition passed_locally :: "chain_params \<Rightarrow> u64 \<Rightarrow> bool" where
  "passed_locally p fork \<longleftrightarrow>
     (if by_timestamp p then fork \<le> HeadTime p else fork \<le> HeadNumber p \<or> 1438269973 < fork \<and> fork \<le> HeadTime p)"

text \<open>The rules under which a remote \<open>(FORK_HASH, FORK_NEXT)\<close> is compatible; whatever none of them covers is rejected.\<close>

inductive compatible :: "chain_params \<Rightarrow> fork_id \<Rightarrow> bool" for p :: chain_params and remote :: fork_id where
  same_no_next: "fid_Hash remote = eip_hash p (eip_past p) \<Longrightarrow> fid_Next remote = 0 \<Longrightarrow> compatible p remote"
| same_not_passed: "fid_Hash remote = eip_hash p (eip_past p) \<Longrightarrow> \<not> passed_locally p (fid_Next remote) \<Longrightarrow> compatible p remote"
| subset: "eip_past p = passed @ (kind, fork) # others \<Longrightarrow> fid_Hash remote = eip_hash p passed \<Longrightarrow> fid_Next remote = fork \<Longrightarrow>
    compatible p remote"
| superset: "eip_future p = known @ others \<Longrightarrow> known \<noteq> [] \<Longrightarrow> fid_Hash remote = eip_hash p (eip_past p @ known) \<Longrightarrow>
    compatible p remote"

inductive_simps compatible_iff: "compatible p remote"

text \<open>No two of the hashes of the local chain collide.\<close>

definition no_collision :: "chain_params \<Rightarrow> bool" where
  "no_collision p \<longleftrightarrow> distinct (map (\<lambda>k. eip_hash p (take k (eip_forks p))) [0..<length (eip_forks p) + 1])"

section \<open>The code's terms\<close>

lemma snd_eip_forks: "map snd (eip_forks p) = all_forks (local_schedule p)"
  by (simp add: eip_forks_def all_forks_def comp_def)

lemma length_eip_forks: "length (eip_forks p) = length (all_forks (local_schedule p))"
  by (metis length_map snd_eip_forks)

lemma crc_update_append: "crc_update (crc_update c xs) ys = crc_update c (xs @ ys)"
  by (simp add: crc_update_def)

lemma end_sum_concat: "end_sum (crc_update 0 g) (map snd fs) = crc_update 0 (g @ concat (map (\<lambda>(_, f). be_bytes 8 f) fs))"
  by (induction fs arbitrary: g) (auto simp: checksumUpdate_def crc_update_append)

lemma fork_sums_nth: "k \<le> length fs \<Longrightarrow> fork_sums h fs ! k = checksumToBytes (end_sum h (take k fs))"
proof (induction h fs arbitrary: k rule: fork_sums.induct)
  case (2 h f fs)
  then show ?case by (cases k) simp_all
qed simp

lemma local_sums_nth:
  assumes "k \<le> length (eip_forks p)"
  shows "local_sums p ! k = eip_hash p (take k (eip_forks p))"
proof -
  have "local_sums p = fork_sums (crc_update 0 (be_bytes 32 (Genesis p))) (map snd (eip_forks p))"
    by (simp add: local_sums_def genesis_sum_def snd_eip_forks)
  then show ?thesis
    using assms fork_sums_nth [of k "map snd (eip_forks p)"]
    by (simp add: take_map end_sum_concat eip_hash_def checksumToBytes_def)
qed

lemma length_local_sums: "length (local_sums p) = length (eip_forks p) + 1"
  by (simp add: local_sums_def length_eip_forks)

lemma local_sums_eip: "local_sums p = map (\<lambda>k. eip_hash p (take k (eip_forks p))) [0..<length (eip_forks p) + 1]"
  by (rule nth_equalityI) (simp_all add: local_sums_nth length_local_sums del: upt_Suc)

lemma stage_takeWhile: "stage (\<lambda>_. h) 0 fs = length (takeWhile (\<lambda>f. f \<le> h) fs)"
proof (induction fs)
  case (Cons f fs)
  then show ?case using stage_shift [of "\<lambda>_. h" 0 1 fs] by simp
qed simp

lemma length_takeWhile_all: "length xs \<le> length (takeWhile P xs) \<longleftrightarrow> (\<forall>x \<in> set xs. P x)"
  by (induction xs) auto

lemma past_stage: "length (eip_past p) = local_stage p"
proof -
  let ?n = "HeadNumber p" and ?t = "HeadTime p" and ?bs = "ForkBlocks p" and ?ts = "ForkTimes p"
  let ?h = "heads_of (length ?bs) ?n ?t"
  have b: "stage ?h 0 ?bs = length (takeWhile (\<lambda>f. f \<le> ?n) ?bs)"
    unfolding stage_takeWhile [symmetric] by (rule stage_cong) (simp add: heads_of_def)
  have t: "stage ?h (length ?bs) ?ts = length (takeWhile (\<lambda>f. f \<le> ?t) ?ts) + length ?bs"
    using stage_shift [of ?h 0 "length ?bs" ?ts] stage_cong [of 0 ?ts "\<lambda>k. ?h (k + length ?bs)" "\<lambda>_. ?t"]
    by (simp add: heads_of_def stage_takeWhile)
  show ?thesis
  proof (cases "\<forall>f \<in> set ?bs. f \<le> ?n")
    case True
    then have tw: "takeWhile (\<lambda>f. f \<le> ?n) ?bs = ?bs" by simp
    show ?thesis using True b t
      by (simp add: tw local_stage_def all_forks_def stage_append eip_past_def eip_forks_def takeWhile_append takeWhile_map comp_def)
  next
    case False
    then have "length (takeWhile (\<lambda>f. f \<le> ?n) ?bs) < length ?bs" by (metis length_takeWhile_all not_le)
    then show ?thesis using False b
      by (simp add: local_stage_def all_forks_def stage_append eip_past_def eip_forks_def takeWhile_append takeWhile_map comp_def)
  qed
qed

lemma past_take: "eip_past p = take (local_stage p) (eip_forks p)" "eip_future p = drop (local_stage p) (eip_forks p)"
proof -
  show "eip_past p = take (local_stage p) (eip_forks p)"
    unfolding past_stage [symmetric] unfolding eip_past_def by (rule takeWhile_eq_take)
  show "eip_future p = drop (local_stage p) (eip_forks p)"
    unfolding past_stage [symmetric] unfolding eip_past_def eip_future_def by (rule dropWhile_eq_drop)
qed

lemma stage_le_forks: "local_stage p \<le> length (eip_forks p)"
  using local_stage_le [of p] by (simp add: length_eip_forks)

lemma era: "length (ForkBlocks p) + (if ForkTimes p = [] then 1 else 0) \<le> local_stage p \<longleftrightarrow> by_timestamp p"
proof (cases "ForkTimes p = []")
  case True
  then show ?thesis using local_stage_le [of p] by (simp add: by_timestamp_def all_forks_def)
next
  case False
  have "length (ForkBlocks p) \<le> local_stage p \<longleftrightarrow> length (ForkBlocks p) \<le> length (takeWhile (\<lambda>f. f \<le> HeadNumber p) (ForkBlocks p))"
    unfolding past_stage [symmetric] eip_past_def eip_forks_def
    by (auto simp: takeWhile_append takeWhile_map comp_def length_takeWhile_all)
  then show ?thesis using False by (simp add: by_timestamp_def length_takeWhile_all)
qed

lemma stale_passed: "stale_next p (local_head p) remote \<longleftrightarrow> fid_Next remote \<noteq> 0 \<and> passed_locally p (fid_Next remote)"
  using era [of p]
  by (auto simp: stale_next_def local_head_def heads_of_def passed_locally_def forkTimestampThreshold_def word_gt_0)

lemma snd_nth_forks: "j < length (eip_forks p) \<Longrightarrow> snd (eip_forks p ! j) = all_forks (local_schedule p) ! j"
  by (metis nth_map snd_eip_forks)

text \<open>The rules over the stage \<open>j\<close> of the chain whose hash the remote announces, in the code's terms.\<close>

definition accepted_at :: "chain_params \<Rightarrow> fork_id \<Rightarrow> nat \<Rightarrow> bool" where
  "accepted_at p remote j \<longleftrightarrow>
     j \<le> length (eip_forks p) \<and> eip_hash p (take j (eip_forks p)) = fid_Hash remote \<and>
     (j = local_stage p \<and> \<not> stale_next p (local_head p) remote \<or>
      j < local_stage p \<and> snd (eip_forks p ! j) = fid_Next remote \<or> local_stage p < j)"

lemma ValidateForkID_accepted_at:
  assumes "HeadNumber p \<noteq> - 1" "HeadTime p \<noteq> - 1" "no_collision p"
  shows "ValidateForkID p remote = None \<longleftrightarrow> (\<exists>j. accepted_at p remote j)"
proof -
  have "distinct (local_sums p)" using assms(3) by (simp only: local_sums_eip no_collision_def)
  note iff = ValidateForkID_iff [OF assms(1,2) this, of remote]
  have "local_sums p ! j = eip_hash p (take j (eip_forks p))" if "j \<le> length (eip_forks p)" for j
    using local_sums_nth [OF that] .
  moreover have "all_forks (local_schedule p) ! j = snd (eip_forks p ! j)" if "j < local_stage p" for j
    using that stage_le_forks [of p] snd_nth_forks by simp
  ultimately show ?thesis
    unfolding iff accepted_at_def length_local_sums Suc_eq_plus1 [symmetric] less_Suc_eq_le
    by (intro ex_cong1) (auto simp: linorder_neq_iff)
qed

lemma accepted_at_compatible:
  assumes "accepted_at p remote j"
  shows "compatible p remote"
proof -
  let ?m = "local_stage p" and ?fs = "eip_forks p"
  note m = stage_le_forks [of p]
  have j: "j \<le> length ?fs" "fid_Hash remote = eip_hash p (take j ?fs)" using assms by (simp_all add: accepted_at_def)
  consider "j = ?m" "\<not> stale_next p (local_head p) remote" | "j < ?m" "snd (?fs ! j) = fid_Next remote" | "?m < j"
    using assms by (auto simp: accepted_at_def)
  then show ?thesis
  proof cases
    case 1
    then show ?thesis using j(2) same_no_next same_not_passed by (auto simp: past_take stale_passed)
  next
    case 2
    then have "eip_past p = take j ?fs @ ?fs ! j # drop (Suc j) (eip_past p)"
      using id_take_nth_drop [of j "eip_past p"] m by (simp add: past_take)
    then show ?thesis using subset j(2) 2(2) by (metis prod.collapse)
  next
    case 3
    have "eip_past p @ take (j - ?m) (drop ?m ?fs) = take j ?fs" using 3 take_add [of ?m "j - ?m" ?fs] by (simp add: past_take)
    moreover have "eip_future p = take (j - ?m) (drop ?m ?fs) @ drop (j - ?m) (drop ?m ?fs)"
      by (simp only: past_take append_take_drop_id)
    moreover have "take (j - ?m) (drop ?m ?fs) \<noteq> []" using 3 j(1) by simp
    ultimately show ?thesis using superset j(2) by metis
  qed
qed

lemma compatible_accepted_at:
  assumes "compatible p remote"
  shows "\<exists>j. accepted_at p remote j"
  using assms
proof cases
  case same_no_next
  then show ?thesis using stage_le_forks [of p] by (intro exI [of _ "local_stage p"]) (simp add: accepted_at_def past_take stale_passed)
next
  case same_not_passed
  then show ?thesis using stage_le_forks [of p] by (intro exI [of _ "local_stage p"]) (simp add: accepted_at_def past_take stale_passed)
next
  case (subset passed kind fork others)
  let ?m = "local_stage p" and ?fs = "eip_forks p" and ?j = "length passed"
  have "take ?m ?fs = passed @ (kind, fork) # others" using subset(1) by (simp add: past_take)
  moreover from this have "?j < ?m"
    using stage_le_forks [of p] by (metis add_Suc_right length_Cons length_append length_take less_add_Suc1 min.absorb2)
  ultimately have "take ?j ?fs = passed" "?fs ! ?j = (kind, fork)"
    by (metis append_eq_conv_conj min.absorb1 less_imp_le take_take, metis nth_append_length nth_take)
  then show ?thesis
    using subset(2,3) \<open>?j < ?m\<close> stage_le_forks [of p] by (intro exI [of _ ?j]) (simp add: accepted_at_def)
next
  case (superset known others)
  let ?j = "local_stage p + length known"
  have "take ?j (eip_forks p) = eip_past p @ known" using superset(1) by (simp add: past_take take_add)
  moreover have "?j \<le> length (eip_forks p)"
    using arg_cong [OF superset(1), of length] stage_le_forks [of p] by (simp add: past_take)
  ultimately show ?thesis using superset(2,3) by (intro exI [of _ ?j]) (simp add: accepted_at_def)
qed

text \<open>
  C27: \<open>ValidateForkID\<close> implements the rules of EIP-2124 and EIP-6122: a remote fork identifier is accepted exactly if one
  of the rules makes it compatible. The rules are stated without the code's definitions; the schedule ends below the
  largest 64-bit number and no two fork hashes of the local chain collide.
\<close>

theorem ValidateForkID_eip2124:
  assumes "HeadNumber p \<noteq> - 1" "HeadTime p \<noteq> - 1" "no_collision p"
  shows "ValidateForkID p remote = None \<longleftrightarrow> compatible p remote"
  using ValidateForkID_accepted_at [OF assms] accepted_at_compatible compatible_accepted_at by metis

section \<open>A concrete chain\<close>

lemma demo_hashes:
  "eip_past demo_params = [(True, 4)]" "eip_future demo_params = [(False, 1700000000)]"
  "eip_hash demo_params [] = checksumToBytes 0x190a55ad" "eip_hash demo_params [(True, 4)] = checksumToBytes 0xee81f9a8"
  "eip_hash demo_params [(True, 4), (False, 1700000000)] = checksumToBytes 0xc0c1a5bd"
proof -
  show "eip_past demo_params = [(True, 4)]" "eip_future demo_params = [(False, 1700000000)]"
    by (simp_all add: eip_past_def eip_future_def eip_forks_def demo_params_def)
  have "eip_forks demo_params = [(True, 4), (False, 1700000000)]" by (simp add: eip_forks_def demo_params_def)
  then show "eip_hash demo_params [] = checksumToBytes 0x190a55ad" "eip_hash demo_params [(True, 4)] = checksumToBytes 0xee81f9a8"
    "eip_hash demo_params [(True, 4), (False, 1700000000)] = checksumToBytes 0xc0c1a5bd"
    using local_sums_nth [of 0 demo_params] local_sums_nth [of 1 demo_params] local_sums_nth [of 2 demo_params]
    by (simp_all add: demo_sums numeral_2_eq_2)
qed

lemma demo_no_collision: "no_collision demo_params"
  using demo_ok(3) by (simp only: local_sums_eip no_collision_def)

lemma ValidateForkID_eip2124_witness:
  "ValidateForkID demo_params \<lparr>fid_Hash = checksumToBytes 0xee81f9a8, fid_Next = 1700000000\<rparr> = None \<and>
   ValidateForkID demo_params \<lparr>fid_Hash = checksumToBytes 0x190a55ad, fid_Next = 4\<rparr> = None \<and>
   ValidateForkID demo_params \<lparr>fid_Hash = checksumToBytes 0xee81f9a8, fid_Next = 2\<rparr> \<noteq> None"
proof -
  have p: "passed_locally demo_params n \<longleftrightarrow> n \<le> 3" for n
    by (simp add: passed_locally_def by_timestamp_def demo_params_def)
  have "compatible demo_params \<lparr>fid_Hash = checksumToBytes 0xee81f9a8, fid_Next = 1700000000\<rparr>"
    by (rule same_not_passed) (simp_all add: demo_hashes p)
  moreover have "compatible demo_params \<lparr>fid_Hash = checksumToBytes 0x190a55ad, fid_Next = 4\<rparr>"
    by (rule subset [of _ "[]" True 4 "[]"]) (simp_all add: demo_hashes)
  moreover have "\<not> compatible demo_params \<lparr>fid_Hash = checksumToBytes 0xee81f9a8, fid_Next = 2\<rparr>"
    by (auto simp: compatible_iff demo_hashes p checksumToBytes_inj Cons_eq_append_conv)
  ultimately show ?thesis using ValidateForkID_eip2124 [OF demo_ok(1,2) demo_no_collision] by metis
qed

end
