(* ===== verification/Enr.thy ===== *)
theory Enr
  imports Go_Strings Udp "HOL-Library.List_Lexorder" "HOL-Library.Char_ord" "HOL-Library.AList"
begin

text \<open>
  Package discovery: node records (enr.go, enr_signing.go) and the integer encodings of secp256k1.go. RLP, signatures and
  Keccak are parameters. A Go map of values is the list of its entries in the order of iteration.
\<close>

section \<open>Integers\<close>

definition Uint16Bytes :: "u16 \<Rightarrow> bytes" where "Uint16Bytes value = be_bytes 2 value"

text \<open>\<open>big.Int.Bytes\<close>: the minimal big-endian form, empty for zero.\<close>

fun nat_bytes :: "nat \<Rightarrow> bytes" where
  "nat_bytes n = (if n = 0 then [] else nat_bytes (n div 256) @ [of_nat (n mod 256)])"

declare nat_bytes.simps [simp del]

definition Uint256Bytes :: "int \<Rightarrow> bytes option" where
  "Uint256Bytes v =
     (if v < 0 then None
      else let b = nat_bytes (nat v)
           in Some (if 32 < length b then drop (length b - 32) b else replicate (32 - length b) 0 @ b))"

definition be_nat :: "bytes \<Rightarrow> nat" where "be_nat b = foldl (\<lambda>n x. n * 256 + unat x) 0 b"

lemma be_nat_simps [simp]: "be_nat [] = 0" "be_nat (b @ [x]) = be_nat b * 256 + unat x"
  by (simp_all add: be_nat_def)

lemma be_nat_append: "be_nat (a @ b) = be_nat a * 256 ^ length b + be_nat b"
  by (induction b rule: rev_induct) (simp_all add: algebra_simps flip: append_assoc)

lemma be_nat_bound: "be_nat b < 256 ^ length b"
proof (induction b rule: rev_induct)
  case (snoc x b)
  have "unat x < 256" using unsigned_less [of x] by simp
  then show ?case using snoc by simp
qed simp

lemma be_nat_zeros [simp]: "be_nat (replicate k 0) = 0"
  by (induction k) (simp_all add: replicate_append_same flip: replicate_append_same)

lemma be_nat_nat_bytes [simp]: "be_nat (nat_bytes n) = n"
proof (induction n rule: nat_bytes.induct)
  case (1 n)
  have "unat (of_nat (n mod 256) :: byte) = n mod 256" by (simp add: unsigned_of_nat take_bit_eq_mod)
  then show ?case using 1 by (subst nat_bytes.simps) simp
qed

text \<open>The encoding is 32 bytes with the value modulo two to the 256, and panics only for negative values.\<close>

lemma Uint256Bytes_value:
  assumes "0 \<le> v"
  shows "\<exists>b. Uint256Bytes v = Some b \<and> length b = 32 \<and> be_nat b = nat v mod 2 ^ 256"
proof -
  define n where "n = nat_bytes (nat v)"
  have n: "be_nat n = nat v" by (simp add: n_def)
  define r where "r = (if 32 < length n then drop (length n - 32) n else replicate (32 - length n) 0 @ n)"
  have u: "Uint256Bytes v = Some r" using assms by (simp add: Uint256Bytes_def r_def n_def Let_def)
  have len: "length r = 32" by (simp add: r_def)
  have "nat v mod 256 ^ 32 = be_nat r"
  proof (cases "32 < length n")
    case True
    have "nat v = be_nat (take (length n - 32) n) * 256 ^ 32 + be_nat r"
      using be_nat_append [of "take (length n - 32) n" r] True n by (simp add: r_def)
    then show ?thesis using be_nat_bound [of r] len by simp
  next
    case False
    then have "be_nat r = nat v" using n by (simp add: r_def be_nat_append)
    then show ?thesis using be_nat_bound [of r] len by simp
  qed
  then show ?thesis using u len by simp
qed

section \<open>Records\<close>

text \<open>The values that the SDK itself hands to the RLP encoder, and those of a caller.\<close>

datatype 'v enr_value = EString string | EBytes bytes | EUint16 u16 | EOther 'v

record ('k, 'v) enr_env =
  er_encode :: "'v enr_value \<Rightarrow> goerr + bytes"
  er_uint :: "u64 \<Rightarrow> bytes"
  er_list :: "bytes list \<Rightarrow> goerr + bytes"
  er_sign :: "bytes \<Rightarrow> 'k \<Rightarrow> goerr + bytes"
  er_keccak :: "bytes \<Rightarrow> bytes"
  er_public :: "'k \<Rightarrow> bytes"


definition BuildENRKeyValue :: "('k, 'v) enr_env \<Rightarrow> string \<Rightarrow> bytes \<Rightarrow> bytes list" where
  "BuildENRKeyValue env key v =
     [case er_encode env (EBytes (string_bytes key)) of Inl _ \<Rightarrow> [] | Inr kb \<Rightarrow> kb, v]"

definition BuildENRWithSignature :: "('k, 'v) enr_env \<Rightarrow> u64 \<Rightarrow> bytes list \<Rightarrow> bytes \<Rightarrow> goerr + bytes" where
  "BuildENRWithSignature env sequence pairs signature =
     (if length signature \<noteq> 64 then Inl (Errorf ''ENR signature must be 64 bytes, got %d'' [VNat (length signature)])
      else
        let sequenceRLP = er_uint env sequence
        in err_bind (er_encode env (EBytes signature)) (\<lambda>signatureRLP.
             er_list env ([signatureRLP, sequenceRLP] @ pairs)))"

definition SignENRContent :: "('k, 'v) enr_env \<Rightarrow> u64 \<Rightarrow> bytes list \<Rightarrow> 'k option \<Rightarrow> goerr + bytes" where
  "SignENRContent env sequence pairs key =
     (case key of None \<Rightarrow> Inl (Errorf ''sign ENR: nil key'' [])
      | Some key \<Rightarrow>
        let sequenceRLP = er_uint env sequence
        in err_bind (er_list env (sequenceRLP # pairs)) (\<lambda>encoded.
           err_bind (er_sign env (er_keccak env encoded) key) (\<lambda>signature. Inr (take 64 signature))))"

definition BuildSignedENR :: "('k, 'v) enr_env \<Rightarrow> u64 \<Rightarrow> bytes list \<Rightarrow> 'k option \<Rightarrow> goerr + bytes" where
  "BuildSignedENR env sequence pairs key =
     err_bind (SignENRContent env sequence pairs key) (\<lambda>signature. BuildENRWithSignature env sequence pairs signature)"

definition nil_signing_key :: goerr where "nil_signing_key = Errorf ''build ENR: nil signing key'' []"

text \<open>The loop over the caller's values: a reserved name ends it, a name is set in the map of entries.\<close>

fun add_values :: "(string \<times> 'v enr_value) list \<Rightarrow> (string \<times> 'v enr_value) list \<Rightarrow> goerr + (string \<times> 'v enr_value) list" where
  "add_values entries [] = Inr entries"
| "add_values entries ((name, v) # vals) =
     (if name = ''id'' \<or> name = ''secp256k1'' then Inl (Errorf ''build ENR: reserved key %q'' [VStr name])
      else add_values (AList.update name v entries) vals)"

fun encode_pairs ::
    "('k, 'v) enr_env \<Rightarrow> (string \<rightharpoonup> 'v enr_value) \<Rightarrow> string list \<Rightarrow> goerr + bytes list" where
  "encode_pairs env entries [] = Inr []"
| "encode_pairs env entries (name # names) =
     err_bind (wrap_err ''encode ENR %s: %w'' [VStr name] (er_encode env (the (entries name)))) (\<lambda>encoded.
     err_bind (encode_pairs env entries names) (\<lambda>pairs. Inr (BuildENRKeyValue env name encoded @ pairs)))"

definition BuildV4ENRWithValues ::
    "('k, 'v) enr_env \<Rightarrow> u64 \<Rightarrow> 'k option \<Rightarrow> (string \<times> 'v enr_value) list \<Rightarrow> goerr + bytes" where
  "BuildV4ENRWithValues env sequence key vals =
     (case key of None \<Rightarrow> Inl nil_signing_key
      | Some k \<Rightarrow>
        err_bind (add_values [(''secp256k1'', EBytes (er_public env k)), (''id'', EString ''v4'')] vals) (\<lambda>entries.
          let keys = sort (map fst entries)
          in err_bind (encode_pairs env (map_of entries) keys) (\<lambda>pairs. BuildSignedENR env sequence pairs key)))"

definition BuildV4ENR :: "('k, 'v) enr_env \<Rightarrow> u64 \<Rightarrow> 'k option \<Rightarrow> goerr + bytes" where
  "BuildV4ENR env sequence key =
     (case key of None \<Rightarrow> Inl nil_signing_key
      | Some k \<Rightarrow>
        err_bind (wrap_err ''encode ENR identity: %w'' [] (er_encode env (EString ''v4''))) (\<lambda>identity.
        err_bind (wrap_err ''encode ENR public key: %w'' [] (er_encode env (EBytes (er_public env k)))) (\<lambda>publicKeyRLP.
          let pairs = BuildENRKeyValue env ''id'' identity @ BuildENRKeyValue env ''secp256k1'' publicKeyRLP
          in BuildSignedENR env sequence pairs key)))"

definition BuildV4ENRWithEndpoint ::
    "('k, 'v) enr_env \<Rightarrow> u64 \<Rightarrow> 'k option \<Rightarrow> bytes \<Rightarrow> u16 \<Rightarrow> u16 \<Rightarrow> goerr + bytes" where
  "BuildV4ENRWithEndpoint env sequence key ip udp tcp =
     (case key of None \<Rightarrow> Inl nil_signing_key
      | Some k \<Rightarrow>
        (case To4 ip of None \<Rightarrow> Inl (Errorf ''build ENR: endpoint is not IPv4'' [])
         | Some ipv4 \<Rightarrow>
           if udp = 0 then Inl (Errorf ''build ENR: UDP port is zero'' [])
           else
             err_bind (wrap_err ''encode ENR identity: %w'' [] (er_encode env (EString ''v4''))) (\<lambda>identity.
             err_bind (wrap_err ''encode ENR IPv4 address: %w'' [] (er_encode env (EBytes ipv4))) (\<lambda>ipValue.
             err_bind (wrap_err ''encode ENR public key: %w'' [] (er_encode env (EBytes (er_public env k)))) (\<lambda>publicKey.
             err_bind (wrap_err ''encode ENR UDP port: %w'' [] (er_encode env (EUint16 udp))) (\<lambda>udpValue.
               let pairs = BuildENRKeyValue env ''id'' identity @ BuildENRKeyValue env ''ip'' ipValue @
                           BuildENRKeyValue env ''secp256k1'' publicKey
               in err_bind (if tcp \<noteq> 0
                            then err_bind (wrap_err ''encode ENR TCP port: %w'' [] (er_encode env (EUint16 tcp)))
                                   (\<lambda>tcpValue. Inr (pairs @ BuildENRKeyValue env ''tcp'' tcpValue))
                            else Inr pairs) (\<lambda>pairs.
                    BuildSignedENR env sequence (pairs @ BuildENRKeyValue env ''udp'' udpValue) key)))))))"

section \<open>Canonical records\<close>

lemma add_values_Inr:
  "add_values entries vals = Inr m \<Longrightarrow> distinct (map fst entries) \<Longrightarrow>
     distinct (map fst m) \<and> map_of m = map_of entries ++ map_of (rev vals) \<and>
     (\<forall>(name, v) \<in> set vals. name \<notin> {''id'', ''secp256k1''})"
proof (induction entries vals rule: add_values.induct)
  case (2 entries name v vals)
  then have "distinct (map fst m) \<and> map_of m = map_of (AList.update name v entries) ++ map_of (rev vals)"
    by (auto simp: distinct_update split: if_splits)
  moreover have "map_of (AList.update name v entries) ++ map_of (rev vals)
      = map_of entries ++ map_of (rev ((name, v) # vals))"
    by (simp add: update_conv')
  ultimately show ?case using 2 by (auto simp: distinct_update split: if_splits)
qed simp

text \<open>A record that carries the given entries in the order of their names, signed over exactly them.\<close>

definition canonical_record ::
    "('k, 'v) enr_env \<Rightarrow> u64 \<Rightarrow> 'k \<Rightarrow> (string \<rightharpoonup> 'v enr_value) \<Rightarrow> goerr + bytes" where
  "canonical_record env sequence key entries =
     err_bind (encode_pairs env entries (sorted_list_of_set (dom entries))) (\<lambda>pairs.
     err_bind (er_list env (er_uint env sequence # pairs)) (\<lambda>content.
     err_bind (er_sign env (er_keccak env content) key) (\<lambda>signature.
     err_bind (er_encode env (EBytes (take 64 signature))) (\<lambda>sig.
       er_list env (sig # er_uint env sequence # pairs)))))"

definition sign_ok :: "('k, 'v) enr_env \<Rightarrow> bool" where
  "sign_ok env \<longleftrightarrow> (\<forall>d k s. er_sign env d k = Inr s \<longrightarrow> length s = 65)"

lemma BuildSignedENR_eq:
  "sign_ok env \<Longrightarrow> BuildSignedENR env sequence pairs (Some key) =
     err_bind (er_list env (er_uint env sequence # pairs)) (\<lambda>content.
     err_bind (er_sign env (er_keccak env content) key) (\<lambda>signature.
     err_bind (er_encode env (EBytes (take 64 signature))) (\<lambda>sig.
       er_list env (sig # er_uint env sequence # pairs))))"
  by (cases "er_list env (er_uint env sequence # pairs)")
    (auto simp: BuildSignedENR_def SignENRContent_def BuildENRWithSignature_def sign_ok_def Let_def err_bind_def split: sum.split)

definition v4_entries :: "('k, 'v) enr_env \<Rightarrow> 'k \<Rightarrow> string \<rightharpoonup> 'v enr_value" where
  "v4_entries env key = [''id'' \<mapsto> EString ''v4'', ''secp256k1'' \<mapsto> EBytes (er_public env key)]"

lemma sorted_dom: "sorted ks \<Longrightarrow> distinct ks \<Longrightarrow> dom m = set ks \<Longrightarrow> sorted_list_of_set (dom m) = ks"
  by (simp add: sorted_list_of_set.idem_if_sorted_distinct)

lemma enr_names:
  "sorted [''id'', ''secp256k1'']" "distinct [''id'', ''secp256k1'']"
  "sorted [''id'', ''ip'', ''secp256k1'', ''udp'']" "distinct [''id'', ''ip'', ''secp256k1'', ''udp'']"
  "sorted [''id'', ''ip'', ''secp256k1'', ''tcp'', ''udp'']" "distinct [''id'', ''ip'', ''secp256k1'', ''tcp'', ''udp'']"
  by (simp_all add: less_eq_list_code less_list_code less_char_def)

lemma add_values_ok:
  "\<forall>(name, v) \<in> set vals. name \<notin> {''id'', ''secp256k1''} \<Longrightarrow> \<exists>m. add_values entries vals = Inr m"
  by (induction entries vals rule: add_values.induct) auto

lemma WithValues_canonical:
  assumes "sign_ok env" "distinct (map fst vals)" "\<forall>(name, v) \<in> set vals. name \<notin> {''id'', ''secp256k1''}"
  shows "BuildV4ENRWithValues env sequence (Some key) vals = canonical_record env sequence key (v4_entries env key ++ map_of vals)"
proof -
  let ?base = "[(''secp256k1'', EBytes (er_public env key)), (''id'', EString ''v4'')]"
  obtain m where m: "add_values ?base vals = Inr m" using add_values_ok [OF assms(3)] by blast
  have d: "distinct (map fst m)" "map_of m = map_of ?base ++ map_of (rev vals)"
    using add_values_Inr [OF m] by simp_all
  have "map_of (rev vals) = map_of vals" using assms(2) by (metis map_of_inject_set set_rev distinct_rev rev_map)
  moreover have "map_of ?base = v4_entries env key" by (auto simp: v4_entries_def)
  ultimately have e: "map_of m = v4_entries env key ++ map_of vals" using d(2) by simp
  have "sort (map fst m) = sorted_list_of_set (dom (map_of m))"
    using d(1) by (simp add: dom_map_of_conv_image_fst sorted_list_of_set_sort_remdups distinct_remdups_id flip: set_map)
  then show ?thesis
    using m e by (simp add: BuildV4ENRWithValues_def canonical_record_def Let_def BuildSignedENR_eq [OF assms(1)])
qed

lemma BuildV4ENR_canonical:
  assumes "sign_ok env"
  shows "BuildV4ENR env sequence (Some key) = Inr rec \<longleftrightarrow> canonical_record env sequence key (v4_entries env key) = Inr rec"
proof -
  have "sorted_list_of_set (dom (v4_entries env key)) = [''id'', ''secp256k1'']"
    by (rule sorted_dom [OF enr_names(1,2)]) (auto simp: v4_entries_def)
  then show ?thesis
    by (auto simp: BuildV4ENR_def canonical_record_def err_bind_Inr_iff BuildSignedENR_eq [OF assms] v4_entries_def Let_def)
qed

lemma WithEndpoint_canonical:
  assumes "sign_ok env"
  shows "BuildV4ENRWithEndpoint env sequence (Some key) ip udp tcp = Inr rec \<longleftrightarrow>
    (\<exists>ipv4. To4 ip = Some ipv4 \<and> udp \<noteq> 0 \<and>
       canonical_record env sequence key
         (v4_entries env key ++ [''ip'' \<mapsto> EBytes ipv4, ''udp'' \<mapsto> EUint16 udp] ++
          (if tcp = 0 then Map.empty else [''tcp'' \<mapsto> EUint16 tcp])) = Inr rec)"
proof -
  let ?e = "\<lambda>ipv4. v4_entries env key ++ [''ip'' \<mapsto> EBytes ipv4, ''udp'' \<mapsto> EUint16 udp] ++
          (if tcp = 0 then Map.empty else [''tcp'' \<mapsto> EUint16 tcp])"
  have "sorted_list_of_set (dom (?e ipv4)) =
      (if tcp = 0 then [''id'', ''ip'', ''secp256k1'', ''udp''] else [''id'', ''ip'', ''secp256k1'', ''tcp'', ''udp''])" for ipv4
    using sorted_dom [OF enr_names(3,4)] sorted_dom [OF enr_names(5,6)] by (auto simp: v4_entries_def)
  then show ?thesis
    by (auto simp: BuildV4ENRWithEndpoint_def canonical_record_def err_bind_Inr_iff BuildSignedENR_eq [OF assms] v4_entries_def
        Let_def split: option.split if_splits)
qed

text \<open>
  C34: The three record builders agree: each yields the canonical record of its entries, with the names in ascending order,
  each once, and a signature over exactly the sequence and the pairs the record carries, whatever order Go iterates
  over the caller's map in; \<open>BuildV4ENRWithEndpoint\<close> leaves a zero TCP port out.
\<close>

theorem enr_builders_canonical:
  assumes "sign_ok env" "distinct (map fst vals)" "\<forall>(name, v) \<in> set vals. name \<notin> {''id'', ''secp256k1''}"
  shows "BuildV4ENRWithValues env sequence (Some key) vals =
      canonical_record env sequence key (v4_entries env key ++ map_of vals) \<and>
    (BuildV4ENR env sequence (Some key) = Inr rec \<longleftrightarrow> canonical_record env sequence key (v4_entries env key) = Inr rec) \<and>
    (BuildV4ENRWithEndpoint env sequence (Some key) ip udp tcp = Inr rec \<longleftrightarrow>
       (\<exists>ipv4. To4 ip = Some ipv4 \<and> udp \<noteq> 0 \<and>
          canonical_record env sequence key
            (v4_entries env key ++ [''ip'' \<mapsto> EBytes ipv4, ''udp'' \<mapsto> EUint16 udp] ++
             (if tcp = 0 then Map.empty else [''tcp'' \<mapsto> EUint16 tcp])) = Inr rec))"
  using WithValues_canonical [OF assms] BuildV4ENR_canonical [OF assms(1)] WithEndpoint_canonical [OF assms(1)] by simp

definition demo_enr :: "(byte, unit) enr_env" where
  "demo_enr = \<lparr>er_encode = (\<lambda>v. Inr [1]), er_uint = (\<lambda>n. [ucast n]), er_list = (\<lambda>bs. Inr (concat bs)),
     er_sign = (\<lambda>d k. Inr (replicate 65 k)), er_keccak = (\<lambda>b. [0]), er_public = (\<lambda>k. [k])\<rparr>"

lemma enr_builders_canonical_witness:
  "BuildV4ENRWithValues demo_enr 7 (Some 3) [(''udp'', EUint16 9), (''ip'', EBytes [1, 2, 3, 4])] =
     BuildV4ENRWithValues demo_enr 7 (Some 3) [(''ip'', EBytes [1, 2, 3, 4]), (''udp'', EUint16 9)]"
proof -
  have ok: "sign_ok demo_enr" by (simp add: sign_ok_def demo_enr_def)
  have c: "BuildV4ENRWithValues demo_enr 7 (Some 3) vals = canonical_record demo_enr 7 3 (v4_entries demo_enr 3 ++ map_of vals)"
    if "distinct (map fst vals)" "\<forall>(name, v) \<in> set vals. name \<notin> {''id'', ''secp256k1''}" for vals
    using enr_builders_canonical [OF ok that] by blast
  have "map_of [(''udp'', EUint16 9), (''ip'', EBytes [1, 2, 3, 4])] =
      map_of [(''ip'', EBytes [1, 2, 3, 4]), (''udp'', EUint16 9 :: unit enr_value)]" by (auto simp: fun_eq_iff)
  then show ?thesis
    using c [of "[(''udp'', EUint16 9), (''ip'', EBytes [1, 2, 3, 4])]"]
      c [of "[(''ip'', EBytes [1, 2, 3, 4]), (''udp'', EUint16 9)]"] by simp
qed

end
