(* ===== verification/Discv5.thy ===== *)
theory Discv5
  imports Enr Cipher
begin

text \<open>
  Package discovery, discv5: masked packets (discv5_packet.go), WHOAREYOU (discv5_whoareyou.go), the handshake
  (discv5_handshake.go) and sessions (discv5_session.go). Private keys of type \<open>'k\<close>, public keys of type \<open>'p\<close>; AES, GCM,
  SHA-256, HKDF and the curve are parameters. Random bytes are handed to each operation.
\<close>

section \<open>Constants and parameters\<close>

definition Discv5Version :: u16 where "Discv5Version = 0x0001"
definition Discv5FlagOrdinary :: byte where "Discv5FlagOrdinary = 0x00"
definition Discv5FlagWhoAreYou :: byte where "Discv5FlagWhoAreYou = 0x01"
definition Discv5FlagHandshake :: byte where "Discv5FlagHandshake = 0x02"
definition Discv5MsgPing :: byte where "Discv5MsgPing = 0x01"
definition Discv5AESKeySize :: nat where "Discv5AESKeySize = 16"
definition discv5StaticHeaderSize :: nat where "discv5StaticHeaderSize = 23"
definition discv5GCMNonceSize :: nat where "discv5GCMNonceSize = 12"
definition discv5HandshakeAuthHeaderSize :: nat where "discv5HandshakeAuthHeaderSize = 34"
definition discv5MinPacketSize :: nat where "discv5MinPacketSize = 63"
definition discv5DefaultProtoID :: bytes where "discv5DefaultProtoID = string_bytes ''discv5''"

lemmas v5_consts =
  discv5StaticHeaderSize_def discv5MinPacketSize_def discv5GCMNonceSize_def discv5HandshakeAuthHeaderSize_def

text \<open>\<open>v5_hkdf\<close> gives the bytes that HKDF hands out first, of the asked number.\<close>

record ('k, 'p, 'v) discv5_env =
  v5_aes :: "bytes \<Rightarrow> bytes \<Rightarrow> bytes"
  v5_seal :: "(bytes \<Rightarrow> bytes) \<Rightarrow> bytes \<Rightarrow> bytes \<Rightarrow> bytes \<Rightarrow> bytes"
  v5_open :: "(bytes \<Rightarrow> bytes) \<Rightarrow> bytes \<Rightarrow> bytes \<Rightarrow> bytes \<Rightarrow> goerr + bytes"
  v5_sha256 :: "bytes \<Rightarrow> bytes"
  v5_hkdf :: "bytes \<Rightarrow> bytes \<Rightarrow> bytes \<Rightarrow> nat \<Rightarrow> bytes"
  v5_sign :: "bytes \<Rightarrow> 'k \<Rightarrow> goerr + bytes"
  v5_generate :: "goerr + 'k"
  v5_public :: "'k \<Rightarrow> 'p"
  v5_compress :: "'p \<Rightarrow> bytes"
  v5_parse :: "bytes \<Rightarrow> goerr + 'p"
  v5_mult :: "'k \<Rightarrow> 'p \<Rightarrow> 'p option"
  v5_enr :: "('k, 'v) enr_env"

type_synonym nonce = bytes

text \<open>What \<open>crypto/rand\<close> yields for a packet: the nonce, the filler message and the masking IV.\<close>

record randoms =
  rd_nonce :: "goerr + bytes"
  rd_msg :: "goerr + bytes"
  rd_iv :: "goerr + bytes"

record ('w, 'o, 'k, 'p) discv5_conn =
  v_ctx :: "('w, 'o, 'k) go_ctx option"
  v_peerAddr :: udp_addr
  v_peerNodeID :: bytes
  v_peerStatic :: "'p option"
  v_ourPriv :: "'k option"
  v_ourNodeID :: bytes

record discv5_session =
  initiatorKey :: bytes
  recipientKey :: bytes
  sourceID :: bytes

record ordinary_packet =
  op_MessageType :: byte
  op_Body :: bytes
  op_SourceID :: bytes

record who_are_you =
  ChallengeData :: bytes
  IDNonce :: bytes
  RecordSeq :: u64
  wy_Nonce :: nonce

section \<open>Packets\<close>

text \<open>AES-128 in counter mode under the first half of the destination's identifier, from the masking IV on.\<close>

definition applyMaskCTR :: "('k, 'p, 'v) discv5_env \<Rightarrow> bytes \<Rightarrow> bytes \<Rightarrow> bytes \<Rightarrow> bytes" where
  "applyMaskCTR env destID iv src = XORKeyStream (v5_aes env (take 16 destID)) (be_val iv) 0 src"

definition MaskDiscv5Header :: "('k, 'p, 'v) discv5_env \<Rightarrow> bytes \<Rightarrow> bytes \<Rightarrow> bytes \<Rightarrow> bytes" where
  "MaskDiscv5Header env destinationID iv header = applyMaskCTR env destinationID iv header"

definition static_header :: "byte \<Rightarrow> nonce \<Rightarrow> u16 \<Rightarrow> bytes" where
  "static_header flag nonce authsize =
     discv5DefaultProtoID @ be_bytes 2 Discv5Version @ [flag] @ nonce @ be_bytes 2 authsize"

definition SendRandomOrdinary ::
    "('k, 'p, 'v) discv5_env \<Rightarrow> ('w, 'o, 'k, 'p) discv5_conn \<Rightarrow> randoms \<Rightarrow> udp \<Rightarrow> (goerr + nonce) \<times> udp" where
  "SendRandomOrdinary env s rd u =
     (case err_bind (rd_nonce rd) (\<lambda>nonce. err_bind (rd_msg rd) (\<lambda>msg. err_bind (rd_iv rd) (\<lambda>iv.
             let authdata = v_ourNodeID s;
                 plain = static_header Discv5FlagOrdinary nonce (of_nat (length authdata)) @ authdata;
                 masked = applyMaskCTR env (v_peerNodeID s) iv plain
             in Inr (nonce, iv @ masked @ msg)))) of
        Inl e \<Rightarrow> (Inl e, u)
      | Inr (nonce, pkt) \<Rightarrow>
          (case write_to pkt (v_peerAddr s) u of
             (Some e, u) \<Rightarrow> (Inl e, u)
           | (None, u) \<Rightarrow> (Inr nonce, u)))"

definition checkedUint16Length :: "string \<Rightarrow> nat \<Rightarrow> goerr + u16" where
  "checkedUint16Length label len =
     (if 65535 < len then Inl (Errorf ''%s length %d exceeds %d'' [VStr label, VNat len, VNat 65535]) else Inr (of_nat len))"

definition checkedByteLength :: "string \<Rightarrow> nat \<Rightarrow> goerr + byte" where
  "checkedByteLength label len =
     (if 255 < len then Inl (Errorf ''%s length %d exceeds %d'' [VStr label, VNat len, VNat 255]) else Inr (of_nat len))"

definition v5_SendRaw ::
    "('w, 'o, 'k, 'p) discv5_conn \<Rightarrow> bytes \<Rightarrow> udp \<Rightarrow> goerr option \<times> ('o \<times> write_event) list \<times> udp" where
  "v5_SendRaw s pkt u =
     (let obs = ObserveWrite (v_ctx s) ((write_of ''discv5'')\<lparr>w_Payload := pkt, w_Raw := True\<rparr>)
      in case write_to pkt (v_peerAddr s) u of (e, u) \<Rightarrow> (e, obs, u))"

section \<open>WHOAREYOU\<close>

definition decodeWhoAreYou :: "('k, 'p, 'v) discv5_env \<Rightarrow> ('w, 'o, 'k, 'p) discv5_conn \<Rightarrow> bytes \<Rightarrow> goerr + who_are_you" where
  "decodeWhoAreYou env s packet =
     (if length packet \<noteq> discv5MinPacketSize
      then Inl (Errorf ''WHOAREYOU packet is %d bytes, want %d'' [VNat (length packet), VNat discv5MinPacketSize])
      else
        let iv = take 16 packet;
            unmasked = applyMaskCTR env (v_ourNodeID s) iv (drop 16 packet);
            staticHdr = take discv5StaticHeaderSize unmasked;
            authdata = drop discv5StaticHeaderSize unmasked;
            version = (be_val (take 2 (drop 6 staticHdr)) :: u16);
            authSize = (be_val (take 2 (drop 21 staticHdr)) :: u16)
        in if take 6 staticHdr \<noteq> discv5DefaultProtoID then Inl (Errorf ''unexpected protocol-id in reply'' [])
           else if version \<noteq> Discv5Version then Inl (Errorf ''unexpected discv5 version 0x%04x'' [VNat (unat version)])
           else if staticHdr ! 8 \<noteq> Discv5FlagWhoAreYou
           then Inl (Errorf ''expected WHOAREYOU flag (0x01), got 0x%02x'' [VNat (unat (staticHdr ! 8))])
           else if unat authSize \<noteq> length authdata
           then Inl (Errorf ''authdata size mismatch: hdr=%d, got=%d'' [VNat (unat authSize), VNat (length authdata)])
           else Inr \<lparr>ChallengeData = iv @ unmasked, IDNonce = take 16 authdata, RecordSeq = be_val (take 8 (drop 16 authdata)),
                     wy_Nonce = take 12 (drop 9 staticHdr)\<rparr>)"

text \<open>The loop of \<open>readWhoAreYou\<close>; every turn that goes on used up a datagram.\<close>

function read_whoareyou ::
    "('k, 'p, 'v) discv5_env \<Rightarrow> ('w, 'o, 'k, 'p) discv5_conn \<Rightarrow> int \<Rightarrow> nonce option \<Rightarrow> udp \<Rightarrow> (goerr + who_are_you) \<times> udp" where
  "read_whoareyou env s deadline expectedNonce u =
     (let remaining = deadline - u_now u
      in if remaining \<le> 0 then (Inl (Errorf ''timeout'' []), u)
         else case readUDPWithContext (v_ctx s) 1280 remaining u of
             (Inl e, u) \<Rightarrow> (Inl e, u)
           | (Inr (packet, from), u) \<Rightarrow>
               if \<not> SameUDPAddr (Some from) (Some (v_peerAddr s)) then read_whoareyou env s deadline expectedNonce u
               else (case decodeWhoAreYou env s packet of
                       Inl e \<Rightarrow> (Inl e, u)
                     | Inr challenge \<Rightarrow>
                         if expectedNonce \<noteq> None \<and> expectedNonce \<noteq> Some (wy_Nonce challenge)
                         then read_whoareyou env s deadline expectedNonce u
                         else (Inr challenge, u)))"
  by pat_completeness auto
termination
  by (relation "measure (\<lambda>(env, s, d, n, u). length (u_events u))") (auto dest: readUDP_Inr [OF sym])

declare read_whoareyou.simps [simp del]

definition readWhoAreYou ::
    "('k, 'p, 'v) discv5_env \<Rightarrow> ('w, 'o, 'k, 'p) discv5_conn \<Rightarrow> int \<Rightarrow> nonce option \<Rightarrow> udp \<Rightarrow> (goerr + who_are_you) \<times> udp" where
  "readWhoAreYou env s timeout expectedNonce u =
     read_whoareyou env s (u_now u + Remaining (u_now u) (v_ctx s) timeout) expectedNonce u"

section \<open>Handshake\<close>

definition IDSignatureHash :: "('k, 'p, 'v) discv5_env \<Rightarrow> bytes \<Rightarrow> bytes \<Rightarrow> bytes \<Rightarrow> bytes" where
  "IDSignatureHash env challenge ephPub peerID =
     v5_sha256 env (string_bytes ''discovery v5 identity proof'' @ challenge @ ephPub @ peerID)"

definition SignIDSignature :: "('k, 'p, 'v) discv5_env \<Rightarrow> bytes \<Rightarrow> bytes \<Rightarrow> bytes \<Rightarrow> 'k option \<Rightarrow> goerr + bytes" where
  "SignIDSignature env challenge ephPub peerID priv =
     (case priv of None \<Rightarrow> Inl (Errorf ''sign discv5 identity: nil private key'' [])
      | Some priv \<Rightarrow> err_bind (v5_sign env (IDSignatureHash env challenge ephPub peerID) priv) (\<lambda>full. Inr (take 64 full)))"

definition ecdhSecret :: "('k, 'p, 'v) discv5_env \<Rightarrow> 'k \<Rightarrow> 'p \<Rightarrow> goerr + bytes" where
  "ecdhSecret env priv peer =
     err_bind (wrap_err ''parse peer public key: %w'' [] (v5_parse env (v5_compress env peer))) (\<lambda>peerKey.
       case v5_mult env priv peerKey of
         None \<Rightarrow> Inl (Errorf ''ecdh produced point at infinity'' [])
       | Some shared \<Rightarrow> Inr (v5_compress env shared))"

definition DeriveDiscv5SessionKeys ::
    "('k, 'p, 'v) discv5_env \<Rightarrow> 'k option \<Rightarrow> 'p option \<Rightarrow> bytes \<Rightarrow> bytes \<Rightarrow> bytes \<Rightarrow> goerr + bytes \<times> bytes" where
  "DeriveDiscv5SessionKeys env ephemeral remoteStatic challenge source recipient =
     (case (ephemeral, remoteStatic) of
        (Some ephemeral, Some remoteStatic) \<Rightarrow>
          err_bind (ecdhSecret env ephemeral remoteStatic) (\<lambda>shared.
            let info = string_bytes ''discovery v5 key agreement'' @ source @ recipient;
                stream = v5_hkdf env shared challenge info (2 * Discv5AESKeySize)
            in Inr (take Discv5AESKeySize stream, drop Discv5AESKeySize stream))
      | _ \<Rightarrow> Inl (Errorf ''discv5 session key derivation requires both local and remote keys'' []))"

definition bad_nonce :: "nonce \<Rightarrow> goerr" where
  "bad_nonce nonce = Errorf ''discv5 nonce is %d bytes, want %d'' [VNat (length nonce), VNat discv5GCMNonceSize]"

definition gcmSeal :: "('k, 'p, 'v) discv5_env \<Rightarrow> bytes \<Rightarrow> nonce \<Rightarrow> bytes \<Rightarrow> bytes \<Rightarrow> goerr + bytes" where
  "gcmSeal env key nonce plaintext aad =
     (if length nonce \<noteq> discv5GCMNonceSize then Inl (bad_nonce nonce)
      else err_bind (NewCipher (v5_aes env) key) (\<lambda>block. Inr (v5_seal env block nonce plaintext aad)))"

definition gcmOpen :: "('k, 'p, 'v) discv5_env \<Rightarrow> bytes \<Rightarrow> nonce \<Rightarrow> bytes \<Rightarrow> bytes \<Rightarrow> goerr + bytes" where
  "gcmOpen env key nonce ciphertext aad =
     (if length nonce \<noteq> discv5GCMNonceSize then Inl (bad_nonce nonce)
      else err_bind (NewCipher (v5_aes env) key) (\<lambda>block. v5_open env block nonce ciphertext aad))"

definition SealDiscv5Message :: "('k, 'p, 'v) discv5_env \<Rightarrow> bytes \<Rightarrow> nonce \<Rightarrow> bytes \<Rightarrow> bytes \<Rightarrow> goerr + bytes" where
  "SealDiscv5Message env key nonce plaintext associatedData = gcmSeal env key nonce plaintext associatedData"

text \<open>The packet of the given header and key, the common end of the handshake and of ordinary sends.\<close>

definition seal_packet ::
    "('k, 'p, 'v) discv5_env \<Rightarrow> bytes \<Rightarrow> bytes \<Rightarrow> nonce \<Rightarrow> bytes \<Rightarrow> bytes \<Rightarrow> bytes \<Rightarrow> goerr + bytes" where
  "seal_packet env dest key nonce iv headerPlain plain =
     (let headerMasked = MaskDiscv5Header env dest iv headerPlain; aad = iv @ headerPlain
      in err_bind (wrap_err ''gcm: %w'' [] (SealDiscv5Message env key nonce plain aad)) (\<lambda>ct. Inr (iv @ headerMasked @ ct)))"

definition handshake_authdata :: "bytes \<Rightarrow> bytes \<Rightarrow> byte \<Rightarrow> bytes \<Rightarrow> bytes \<Rightarrow> bytes" where
  "handshake_authdata srcID sig pubkeySize ephPub record' = srcID @ [of_nat (length sig), pubkeySize] @ sig @ ephPub @ record'"

definition sendHandshakeMessage ::
    "('k, 'p, 'v) discv5_env \<Rightarrow> ('w, 'o, 'k, 'p) discv5_conn \<Rightarrow> randoms \<Rightarrow> who_are_you option \<Rightarrow> bytes option \<Rightarrow> udp \<Rightarrow>
     (goerr + nonce \<times> discv5_session) \<times> udp" where
  "sendHandshakeMessage env s rd w record' u =
     (case (case w of None \<Rightarrow> Inl (Errorf ''nil WHOAREYOU challenge'' []) | Some w \<Rightarrow>
        err_bind (wrap_err ''eph keygen: %w'' [] (v5_generate env)) (\<lambda>ephPriv.
        let ephPubCompressed = v5_compress env (v5_public env ephPriv); srcID = v_ourNodeID s in
        err_bind (checkedByteLength ''ephemeral public key'' (length ephPubCompressed)) (\<lambda>pubkeySize.
        err_bind (wrap_err ''sign: %w'' [] (SignIDSignature env (ChallengeData w) ephPubCompressed (v_peerNodeID s) (v_ourPriv s))) (\<lambda>sig.
        err_bind (wrap_err ''derive session keys: %w'' []
                    (DeriveDiscv5SessionKeys env (Some ephPriv) (v_peerStatic s) (ChallengeData w) srcID (v_peerNodeID s))) (\<lambda>(initKey, recvKey).
        err_bind (case record' of Some r \<Rightarrow> Inr r
                  | None \<Rightarrow> wrap_err ''build record: %w'' [] (BuildV4ENR (v5_enr env) 1 (v_ourPriv s))) (\<lambda>record'.
        err_bind (checkedUint16Length ''discv5 handshake authdata''
                    (discv5HandshakeAuthHeaderSize + length sig + length ephPubCompressed + length record')) (\<lambda>authSize.
        err_bind (rd_nonce rd) (\<lambda>nonce.
        err_bind (rd_iv rd) (\<lambda>iv.
        let authdata = handshake_authdata srcID sig pubkeySize ephPubCompressed record';
            headerPlain = static_header Discv5FlagHandshake nonce authSize @ authdata;
            plain = [Discv5MsgPing, 0xC2, 0x01, 0x80] in
        err_bind (seal_packet env (v_peerNodeID s) initKey nonce iv headerPlain plain) (\<lambda>pkt.
          Inr (pkt, nonce, \<lparr>initiatorKey = initKey, recipientKey = recvKey, sourceID = srcID\<rparr>))))))))))) of
        Inl e \<Rightarrow> (Inl e, u)
      | Inr (pkt, nonce, sess) \<Rightarrow>
          (case write_to pkt (v_peerAddr s) u of
             (Some e, u) \<Rightarrow> (Inl e, u)
           | (None, u) \<Rightarrow> (Inr (nonce, sess), u)))"

section \<open>Sessions\<close>

definition completeHandshake ::
    "('k, 'p, 'v) discv5_env \<Rightarrow> ('w, 'o, 'k, 'p) discv5_conn \<Rightarrow> randoms \<Rightarrow> who_are_you option \<Rightarrow> bytes option \<Rightarrow> udp \<Rightarrow>
     (goerr + discv5_session) \<times> udp" where
  "completeHandshake env s rd w record' u =
     (case sendHandshakeMessage env s rd w record' u of (r, u) \<Rightarrow> (err_bind r (\<lambda>(_, established). Inr established), u))"

text \<open>The random bytes of the first packet and of the handshake packet.\<close>

definition EstablishSessionWithENR ::
    "('k, 'p, 'v) discv5_env \<Rightarrow> ('w, 'o, 'k, 'p) discv5_conn \<Rightarrow> randoms \<Rightarrow> randoms \<Rightarrow> bytes option \<Rightarrow> udp \<Rightarrow>
     (goerr + discv5_session) \<times> udp" where
  "EstablishSessionWithENR env s rd1 rd2 record' u =
     (case SendRandomOrdinary env s rd1 u of
        (Inl e, u) \<Rightarrow> (Inl (Wrapf ''send ordinary: %w'' [] e), u)
      | (Inr nonce, u) \<Rightarrow>
          (case readWhoAreYou env s (2 * 10 ^ 9) (Some nonce) u of
             (Inl e, u) \<Rightarrow> (Inl (Wrapf ''read WHOAREYOU: %w'' [] e), u)
           | (Inr w, u) \<Rightarrow> completeHandshake env s rd2 (Some w) record' u))"

definition EstablishSession ::
    "('k, 'p, 'v) discv5_env \<Rightarrow> ('w, 'o, 'k, 'p) discv5_conn \<Rightarrow> randoms \<Rightarrow> randoms \<Rightarrow> udp \<Rightarrow> (goerr + discv5_session) \<times> udp" where
  "EstablishSession env s rd1 rd2 u = EstablishSessionWithENR env s rd1 rd2 None u"

definition nil_session :: goerr where "nil_session = Errorf ''nil session'' []"

definition sendOrdinaryPlainWithKey ::
    "('k, 'p, 'v) discv5_env \<Rightarrow> ('w, 'o, 'k, 'p) discv5_conn \<Rightarrow> randoms \<Rightarrow> discv5_session option \<Rightarrow> bytes \<Rightarrow> bytes \<Rightarrow> udp \<Rightarrow>
     goerr option \<times> udp" where
  "sendOrdinaryPlainWithKey env s rd sess key plain u =
     (case sess of None \<Rightarrow> (Some nil_session, u)
      | Some sess \<Rightarrow>
        (case err_bind (rd_nonce rd) (\<lambda>nonce. err_bind (rd_iv rd) (\<lambda>iv.
                let authdata = sourceID sess;
                    headerPlain = static_header Discv5FlagOrdinary nonce (of_nat (length authdata)) @ authdata
                in seal_packet env (v_peerNodeID s) key nonce iv headerPlain plain)) of
           Inl e \<Rightarrow> (Some e, u)
         | Inr packet \<Rightarrow> write_to packet (v_peerAddr s) u))"

definition SendOrdinary ::
    "('k, 'p, 'v) discv5_env \<Rightarrow> ('w, 'o, 'k, 'p) discv5_conn \<Rightarrow> randoms \<Rightarrow> discv5_session option \<Rightarrow> byte \<Rightarrow> bytes \<Rightarrow> udp \<Rightarrow>
     goerr option \<times> ('o \<times> write_event) list \<times> udp" where
  "SendOrdinary env s rd sess msgType body u =
     (case sess of None \<Rightarrow> (Some nil_session, [], u)
      | Some ss \<Rightarrow>
        let obs = ObserveWrite (v_ctx s) ((write_of ''discv5'')\<lparr>w_Code := ucast msgType, w_Payload := body\<rparr>)
        in case sendOrdinaryPlainWithKey env s rd sess (initiatorKey ss) (msgType # body) u of (e, u) \<Rightarrow> (e, obs, u))"

definition SendOrdinaryPlain ::
    "('k, 'p, 'v) discv5_env \<Rightarrow> ('w, 'o, 'k, 'p) discv5_conn \<Rightarrow> randoms \<Rightarrow> discv5_session option \<Rightarrow> bytes \<Rightarrow> udp \<Rightarrow>
     goerr option \<times> ('o \<times> write_event) list \<times> udp" where
  "SendOrdinaryPlain env s rd sess plain u =
     (case sess of None \<Rightarrow> (Some nil_session, [], u)
      | Some ss \<Rightarrow>
        let obs = ObserveWrite (v_ctx s) ((write_of ''discv5'')\<lparr>w_Payload := plain, w_Raw := True\<rparr>)
        in case sendOrdinaryPlainWithKey env s rd sess (initiatorKey ss) plain u of (e, u) \<Rightarrow> (e, obs, u))"

definition decodeOrdinary ::
    "('k, 'p, 'v) discv5_env \<Rightarrow> ('w, 'o, 'k, 'p) discv5_conn \<Rightarrow> discv5_session \<Rightarrow> bytes \<Rightarrow> goerr + ordinary_packet" where
  "decodeOrdinary env s sess packet =
     (if length packet < discv5MinPacketSize then Inl (Errorf ''packet too short: %d'' [VNat (length packet)])
      else
        let iv = take 16 packet;
            staticHeader = applyMaskCTR env (v_ourNodeID s) iv (take discv5StaticHeaderSize (drop 16 packet));
            version = (be_val (take 2 (drop 6 staticHeader)) :: u16);
            authSize = (be_val (take 2 (drop 21 staticHeader)) :: u16);
            headerSize = discv5StaticHeaderSize + unat authSize;
            headerPlain = applyMaskCTR env (v_ourNodeID s) iv (take headerSize (drop 16 packet));
            authdata = drop discv5StaticHeaderSize headerPlain
        in if take 6 staticHeader \<noteq> discv5DefaultProtoID then Inl (Errorf ''unexpected protocol-id in reply'' [])
           else if version \<noteq> Discv5Version then Inl (Errorf ''unexpected discv5 version 0x%04x'' [VNat (unat version)])
           else if staticHeader ! 8 \<noteq> Discv5FlagOrdinary
           then Inl (Errorf ''expected ordinary flag (0x00), got 0x%02x'' [VNat (unat (staticHeader ! 8))])
           else if length packet < 16 + headerSize + 16
           then Inl (Errorf ''ordinary packet too short for authdata=%d'' [VNat (unat authSize)])
           else if length authdata \<noteq> 32 then Inl (Errorf ''ordinary authdata size=%d, want 32'' [VNat (length authdata)])
           else if authdata \<noteq> v_peerNodeID s then Inl (Errorf ''ordinary packet has unexpected source node ID'' [])
           else
             err_bind (wrap_err ''decrypt ordinary: %w'' []
                (gcmOpen env (recipientKey sess) (take 12 (drop 9 headerPlain)) (drop (16 + headerSize) packet) (iv @ headerPlain)))
               (\<lambda>plain. case plain of [] \<Rightarrow> Inl (Errorf ''ordinary plaintext has no msg type'' [])
                  | ty # body \<Rightarrow> Inr \<lparr>op_MessageType = ty, op_Body = body, op_SourceID = authdata\<rparr>))"

function read_ordinary ::
    "('k, 'p, 'v) discv5_env \<Rightarrow> ('w, 'o, 'k, 'p) discv5_conn \<Rightarrow> discv5_session \<Rightarrow> int \<Rightarrow> goerr option \<Rightarrow> udp \<Rightarrow>
     (goerr + ordinary_packet) \<times> udp" where
  "read_ordinary env s sess deadline lastErr u =
     (let remain = deadline - u_now u
      in if remain \<le> 0 then (Inl (case lastErr of Some e \<Rightarrow> e | None \<Rightarrow> Errorf ''timeout'' []), u)
         else case readUDPWithContext (v_ctx s) 1280 remain u of
             (Inl e, u) \<Rightarrow> (Inl e, u)
           | (Inr (data, from), u) \<Rightarrow>
               if \<not> SameUDPAddr (Some from) (Some (v_peerAddr s)) then read_ordinary env s sess deadline lastErr u
               else (case decodeOrdinary env s sess data of
                       Inr packet \<Rightarrow> (Inr packet, u)
                     | Inl e \<Rightarrow> read_ordinary env s sess deadline (Some e) u))"
  by pat_completeness auto
termination
  by (relation "measure (\<lambda>(env, s, ss, d, n, u). length (u_events u))") (auto dest: readUDP_Inr [OF sym])

declare read_ordinary.simps [simp del]

definition ReadOrdinary ::
    "('k, 'p, 'v) discv5_env \<Rightarrow> ('w, 'o, 'k, 'p) discv5_conn \<Rightarrow> discv5_session option \<Rightarrow> int \<Rightarrow> udp \<Rightarrow> (goerr + ordinary_packet) \<times> udp" where
  "ReadOrdinary env s sess timeout u =
     (case sess of None \<Rightarrow> (Inl nil_session, u)
      | Some sess \<Rightarrow> read_ordinary env s sess (u_now u + Remaining (u_now u) (v_ctx s) timeout) None u)"

lemma read_ordinary_events: "read_ordinary env s sess deadline lastErr u = (Inr x, v) \<Longrightarrow> length (u_events v) < length (u_events u)"
proof (induction env s sess deadline lastErr u rule: read_ordinary.induct)
  case (1 env s sess deadline lastErr u)
  obtain r u' where r: "readUDPWithContext (v_ctx s) 1280 (deadline - u_now u) u = (r, u')" by (metis surj_pair)
  have "r = Inr y \<Longrightarrow> length (u_events u') < length (u_events u)" for y using r readUDP_Inr by simp
  then show ?case
    using "1.prems" "1.IH" [OF refl _ r [symmetric]] r
    by (subst (asm) read_ordinary.simps) (force simp: Let_def split: if_splits sum.splits prod.splits)
qed

function read_message ::
    "('k, 'p, 'v) discv5_env \<Rightarrow> ('w, 'o, 'k, 'p) discv5_conn \<Rightarrow> discv5_session option \<Rightarrow> byte \<Rightarrow> int \<Rightarrow> udp \<Rightarrow>
     (goerr + ordinary_packet) \<times> udp" where
  "read_message env s sess msgType deadline u =
     (let remain = deadline - u_now u
      in if remain \<le> 0 then (Inl (Errorf ''timeout'' []), u)
         else case ReadOrdinary env s sess remain u of
             (Inl e, u) \<Rightarrow> (Inl e, u)
           | (Inr packet, u) \<Rightarrow> if op_MessageType packet = msgType then (Inr packet, u) else read_message env s sess msgType deadline u)"
  by pat_completeness auto
termination
  by (relation "measure (\<lambda>(env, s, ss, m, d, u). length (u_events u))")
    (auto simp: ReadOrdinary_def split: option.splits dest!: read_ordinary_events [OF sym])

declare read_message.simps [simp del]

definition ReadOrdinaryMessage ::
    "('k, 'p, 'v) discv5_env \<Rightarrow> ('w, 'o, 'k, 'p) discv5_conn \<Rightarrow> discv5_session option \<Rightarrow> byte \<Rightarrow> int \<Rightarrow> udp \<Rightarrow>
     (goerr + ordinary_packet) \<times> udp" where
  "ReadOrdinaryMessage env s sess msgType timeout u =
     read_message env s sess msgType (u_now u + Remaining (u_now u) (v_ctx s) timeout) u"

end
