(* ===== verification/Discv5_Wire.thy ===== *)
theory Discv5_Wire
  imports Discv5
begin

text \<open>
  What the packets of theory \<open>Discv5\<close> mean to a peer: ordinary messages are read back by the other side, and WHOAREYOU
  packets are recognised exactly, as the specification has them.
\<close>

section \<open>Headers\<close>

lemma length_protocol [simp]: "length discv5DefaultProtoID = 6"
  by (simp add: discv5DefaultProtoID_def string_bytes_def)

lemma length_static_header [simp]: "length (static_header flag nonce n) = 11 + length nonce"
  by (simp add: static_header_def)

lemma static_header_fields:
  assumes "length nonce = 12"
  shows "take 6 (static_header flag nonce n @ r) = discv5DefaultProtoID"
    "take 2 (drop 6 (static_header flag nonce n @ r)) = be_bytes 2 Discv5Version"
    "(static_header flag nonce n @ r) ! 8 = flag"
    "take 12 (drop 9 (static_header flag nonce n @ r)) = nonce"
    "take 2 (drop 21 (static_header flag nonce n @ r)) = be_bytes 2 n"
  using assms by (simp_all add: static_header_def nth_append)

lemma length_applyMaskCTR [simp]: "length (applyMaskCTR env dest iv xs) = length xs"
  by (simp add: applyMaskCTR_def)

lemma unmask [simp]:
  "applyMaskCTR env dest iv (applyMaskCTR env dest iv xs) = xs"
  "applyMaskCTR env dest iv (take n (applyMaskCTR env dest iv xs)) = take n xs"
  by (simp_all add: applyMaskCTR_def flip: take_XORKeyStream)

section \<open>Ordinary messages\<close>

text \<open>The authenticated encryption opens what it sealed, and adds a tag of 16 bytes.\<close>

definition aead_laws :: "('k, 'p, 'v) discv5_env \<Rightarrow> bool" where
  "aead_laws env \<longleftrightarrow>
     (\<forall>block nonce plain aad. v5_open env block nonce (v5_seal env block nonce plain aad) aad = Inr plain \<and>
        length (v5_seal env block nonce plain aad) = length plain + 16)"

lemma seal_packet_Inr:
  assumes "seal_packet env dest key nonce iv header plain = Inr pkt"
  shows "length nonce = 12 \<and> (\<exists>block. NewCipher (v5_aes env) key = Inr block \<and>
    pkt = iv @ applyMaskCTR env dest iv header @ v5_seal env block nonce plain (iv @ header))"
  using assms
  by (auto simp: seal_packet_def SealDiscv5Message_def gcmSeal_def MaskDiscv5Header_def err_bind_Inr_iff
      discv5GCMNonceSize_def split: if_splits)

lemma gcmOpen_seal:
  assumes "aead_laws env" "length nonce = 12" "NewCipher (v5_aes env) key = Inr block"
  shows "gcmOpen env key nonce (v5_seal env block nonce plain aad) aad = Inr plain"
  using assms by (simp add: gcmOpen_def aead_laws_def discv5GCMNonceSize_def)

lemma decodeOrdinary_sealed:
  assumes "aead_laws env" "length iv = 16" "length src = 32"
    and seal: "seal_packet env (v_ourNodeID r) (recipientKey sess) nonce iv
      (static_header Discv5FlagOrdinary nonce (of_nat (length src)) @ src) (ty # body) = Inr pkt"
  shows "decodeOrdinary env r sess pkt =
    (if src = v_peerNodeID r then Inr \<lparr>op_MessageType = ty, op_Body = body, op_SourceID = src\<rparr>
     else Inl (Errorf ''ordinary packet has unexpected source node ID'' []))"
proof -
  let ?h = "static_header Discv5FlagOrdinary nonce (32 :: u16)"
  obtain block where n: "length nonce = 12" and c: "NewCipher (v5_aes env) (recipientKey sess) = Inr block"
    and p: "pkt = iv @ applyMaskCTR env (v_ourNodeID r) iv (?h @ src) @ v5_seal env block nonce (ty # body) (iv @ ?h @ src)"
    using seal_packet_Inr [OF seal] assms(3) by auto
  let ?ct = "v5_seal env block nonce (ty # body) (iv @ ?h @ src)"
  have ct: "length ?ct = length body + 17" using assms(1) by (simp add: aead_laws_def)
  have f: "take 6 ?h = discv5DefaultProtoID" "take 2 (drop 6 ?h) = be_bytes 2 Discv5Version" "?h ! 8 = Discv5FlagOrdinary"
    "take 12 (drop 9 ?h) = nonce" "take 2 (drop 21 ?h) = be_bytes 2 (32 :: u16)"
    using static_header_fields [OF n, where r = "[]"] by simp_all
  have s: "applyMaskCTR env (v_ourNodeID r) iv (take 23 (drop 16 pkt)) = ?h"
    "applyMaskCTR env (v_ourNodeID r) iv (take 55 (drop 16 pkt)) = ?h @ src" "drop 71 pkt = ?ct" "take 16 pkt = iv"
    "length pkt = 16 + 55 + length ?ct"
    using assms(2,3) n by (simp_all add: p)
  have f4: "take 12 (drop 9 (?h @ src)) = nonce" using static_header_fields(4) [OF n] .
  show ?thesis
    using s ct f f4 assms(3) n gcmOpen_seal [OF assms(1) n c]
    by (simp add: decodeOrdinary_def v5_consts Let_def)
qed

section \<open>Reading through the noise\<close>

text \<open>A wait until \<open>deadline\<close> that the context does not cut short, and that is still on at time \<open>until\<close>.\<close>

definition hears :: "('w, 'o, 'k) go_ctx option \<Rightarrow> int \<Rightarrow> int \<Rightarrow> udp \<Rightarrow> bool" where
  "hears ctx deadline until u \<longleftrightarrow> max (u_now u) until < deadline \<and> (\<forall>k. u_dlres u k = None) \<and>
     (case u_done u of None \<Rightarrow> True | Some (t, _) \<Rightarrow> max (u_now u) until < t) \<and>
     (case ctx of None \<Rightarrow> True | Some c \<Rightarrow> (case cdeadline c of None \<Rightarrow> True | Some d \<Rightarrow> deadline \<le> d))"

lemma hears_arrives: "hears ctx deadline until u \<Longrightarrow> t \<le> until \<Longrightarrow> arrives ctx (deadline - u_now u) t u"
  by (auto simp: hears_def arrives_def Remaining_def Background_def Let_def split: option.splits)

lemma hears_read:
  assumes "hears ctx deadline until u" "t \<le> until" "u_events u = (t, Inr (data, from)) # es"
  shows "\<exists>v. readUDPWithContext ctx sz (deadline - u_now u) u = (Inr (take sz data, from), v) \<and>
    u_events v = es \<and> hears ctx deadline until v"
  using assms read_arrives [OF hears_arrives [OF assms(1,2)] assms(3)] by (auto simp: hears_def split: option.splits)

text \<open>Datagrams from elsewhere, and those of the peer that do not decode.\<close>

definition noise :: "('k, 'p, 'v) discv5_env \<Rightarrow> ('w, 'o, 'k, 'p) discv5_conn \<Rightarrow> discv5_session \<Rightarrow>
    int \<times> (goerr + bytes \<times> udp_addr) \<Rightarrow> bool" where
  "noise env r sess ev \<longleftrightarrow>
     (case ev of (_, Inl _) \<Rightarrow> False
      | (_, Inr (data, from)) \<Rightarrow> \<not> SameUDPAddr (Some from) (Some (v_peerAddr r)) \<or>
          (\<exists>e. decodeOrdinary env r sess (take 1280 data) = Inl e))"

lemma read_ordinary_finds:
  assumes "hears (v_ctx r) deadline until u" "u_events u = es @ (t, Inr (pkt, src0)) # rest"
    and "\<forall>ev \<in> set es. noise env r sess ev \<and> fst ev \<le> until" "t \<le> until"
    and "SameUDPAddr (Some src0) (Some (v_peerAddr r))" "decodeOrdinary env r sess (take 1280 pkt) = Inr m"
  shows "fst (read_ordinary env r sess deadline lastErr u) = Inr m"
  using assms(1-3)
proof (induction es arbitrary: u lastErr)
  case Nil
  from hears_read [OF Nil(1) assms(4), of pkt src0 rest 1280] Nil(2)
  obtain v where "readUDPWithContext (v_ctx r) 1280 (deadline - u_now u) u = (Inr (take 1280 pkt, src0), v)" by auto
  then show ?case using Nil(1) assms(5,6) by (simp add: read_ordinary.simps [of env r sess deadline lastErr u] hears_def)
next
  case (Cons ev es)
  obtain t' data src where ev: "ev = (t', Inr (data, src))" using Cons.prems(3) by (auto simp: noise_def split: sum.splits prod.splits)
  have t': "t' \<le> until" and n: "noise env r sess ev" using Cons.prems(3) ev by auto
  from hears_read [OF Cons.prems(1) t', of data src _ 1280] Cons.prems(2) ev
  obtain v where v: "readUDPWithContext (v_ctx r) 1280 (deadline - u_now u) u = (Inr (take 1280 data, src), v)"
    "u_events v = es @ (t, Inr (pkt, src0)) # rest" "hears (v_ctx r) deadline until v" by auto
  have "fst (read_ordinary env r sess deadline e v) = Inr m" for e using Cons.IH [OF v(3,2)] Cons.prems(3) by simp
  then show ?case
    using v(1) n Cons.prems(1) ev
    by (auto simp: read_ordinary.simps [of env r sess deadline lastErr u] hears_def noise_def)
qed

lemma SendOrdinary_sent:
  assumes "SendOrdinary env s rd (Some sess) ty body u = (None, obs, v)"
  shows "\<exists>nonce iv pkt. rd_iv rd = Inr iv \<and> u_sent v = u_sent u @ [(pkt, v_peerAddr s)] \<and>
    seal_packet env (v_peerNodeID s) (initiatorKey sess) nonce iv
      (static_header Discv5FlagOrdinary nonce (of_nat (length (sourceID sess))) @ sourceID sess) (ty # body) = Inr pkt"
  using assms
  by (auto simp: SendOrdinary_def sendOrdinaryPlainWithKey_def write_to_def err_bind_Inr_iff Let_def
      split: sum.splits prod.splits)

definition random_ok :: "randoms \<Rightarrow> bool" where
  "random_ok rd \<longleftrightarrow> (\<forall>iv. rd_iv rd = Inr iv \<longrightarrow> length iv = 16)"

text \<open>The two ends of a session: each knows the other by its identifier, and one's sending key is the other's receiving key.\<close>

definition facing ::
    "('w, 'o, 'k, 'p) discv5_conn \<Rightarrow> discv5_session \<Rightarrow> ('w, 'o, 'k, 'p) discv5_conn \<Rightarrow> discv5_session \<Rightarrow> bool" where
  "facing s sess r sess' \<longleftrightarrow> v_peerNodeID s = v_ourNodeID r \<and> v_peerNodeID r = sourceID sess \<and>
     length (sourceID sess) = 32 \<and> recipientKey sess' = initiatorKey sess"

text \<open>
  C21: A message that \<open>SendOrdinary\<close> sent reaches the caller of \<open>ReadOrdinary\<close> at the other end of the session, with its type,
  body and source, when its datagram arrives before the deadline: datagrams of strangers, and undecodable ones of the peer,
  that arrive before it do not stop the wait. The packet must fit the receive buffer of 1280 bytes.
\<close>

theorem ordinary_message_arrives:
  assumes "aead_laws env" "random_ok rd" "facing s sess r sess'"
    and "SendOrdinary env s rd (Some sess) ty body u = (None, obs, v)" "length body \<le> 1192"
    and "u_events w = es @ (t, Inr (fst (last (u_sent v)), src)) # rest" "SameUDPAddr (Some src) (Some (v_peerAddr r))"
    and "\<forall>ev \<in> set es. noise env r sess' ev \<and> fst ev \<le> t"
    and "hears (v_ctx r) (u_now w + Remaining (u_now w) (v_ctx r) timeout) t w"
  shows "fst (ReadOrdinary env r (Some sess') timeout w) =
    Inr \<lparr>op_MessageType = ty, op_Body = body, op_SourceID = sourceID sess\<rparr>"
proof -
  obtain nonce iv pkt where p: "rd_iv rd = Inr iv" "u_sent v = u_sent u @ [(pkt, v_peerAddr s)]"
    and seal: "seal_packet env (v_ourNodeID r) (recipientKey sess') nonce iv
      (static_header Discv5FlagOrdinary nonce (of_nat (length (sourceID sess))) @ sourceID sess) (ty # body) = Inr pkt"
    using SendOrdinary_sent [OF assms(4)] assms(3) by (auto simp: facing_def)
  have iv: "length iv = 16" and src: "length (sourceID sess) = 32" using assms(2,3) p(1) by (simp_all add: random_ok_def facing_def)
  have d: "decodeOrdinary env r sess' pkt = Inr \<lparr>op_MessageType = ty, op_Body = body, op_SourceID = sourceID sess\<rparr>"
    using decodeOrdinary_sealed [OF assms(1) iv src seal] assms(3) by (simp add: facing_def)
  have "length pkt \<le> 1280"
    using seal_packet_Inr [OF seal] iv src assms(1,5) by (auto simp: aead_laws_def)
  then show ?thesis
    using read_ordinary_finds [OF assms(9) _ assms(8) order_refl assms(7), of pkt] assms(6) p(2) d
    by (simp add: ReadOrdinary_def)
qed

text \<open>A toy cipher: a tag of zeros behind the plaintext.\<close>

definition demo_v5 :: "(byte, byte, unit) discv5_env" where
  "demo_v5 = \<lparr>v5_aes = (\<lambda>k b. b), v5_seal = (\<lambda>blk n p a. p @ replicate 16 0),
     v5_open = (\<lambda>blk n c a. Inr (take (length c - 16) c)), v5_sha256 = (\<lambda>b. b), v5_hkdf = (\<lambda>s c i n. replicate n 0),
     v5_sign = (\<lambda>d k. Inr (replicate 65 k)), v5_generate = Inr 7, v5_public = (\<lambda>k. k), v5_compress = (\<lambda>p. replicate 33 p),
     v5_parse = (\<lambda>b. Inr (b ! 0)), v5_mult = (\<lambda>k p. Some (k * p)), v5_enr = demo_enr\<rparr>"

definition demo_v5_conn :: "bytes \<Rightarrow> bytes \<Rightarrow> (unit, unit, byte, byte) discv5_conn" where
  "demo_v5_conn us them = \<lparr>v_ctx = None, v_peerAddr = \<lparr>ua_IP = [127, 0, 0, 1], ua_Port = 30303, ua_Zone = ''''\<rparr>,
     v_peerNodeID = them, v_peerStatic = Some 5, v_ourPriv = Some 3, v_ourNodeID = us\<rparr>"

definition demo_rd :: randoms where
  "demo_rd = \<lparr>rd_nonce = Inr (replicate 12 9), rd_msg = Inr (replicate 44 1), rd_iv = Inr (replicate 16 2)\<rparr>"

definition demo_sess :: "bytes \<Rightarrow> discv5_session" where
  "demo_sess us = \<lparr>initiatorKey = replicate 16 4, recipientKey = replicate 16 4, sourceID = us\<rparr>"

definition demo_u :: "(int \<times> (goerr + bytes \<times> udp_addr)) list \<Rightarrow> udp" where
  "demo_u es = \<lparr>u_now = 0, u_events = es, u_done = None, u_local = \<lparr>ua_IP = [], ua_Port = 0, ua_Zone = ''''\<rparr>,
     u_sendres = (\<lambda>_. None), u_sent = [], u_dlres = (\<lambda>_. None), u_deadlines = 0\<rparr>"

lemma demo_v5_laws: "aead_laws demo_v5" "random_ok demo_rd" by (simp_all add: aead_laws_def random_ok_def demo_v5_def demo_rd_def)

lemma demo_sent:
  "\<exists>v. SendOrdinary demo_v5 (demo_v5_conn (replicate 32 1) (replicate 32 2)) demo_rd (Some (demo_sess (replicate 32 1))) 1 [5] (demo_u []) =
     (None, [], v)"
  by (simp add: SendOrdinary_def sendOrdinaryPlainWithKey_def seal_packet_def SealDiscv5Message_def gcmSeal_def NewCipher_def
      discv5GCMNonceSize_def demo_v5_def demo_rd_def demo_sess_def demo_v5_conn_def demo_u_def write_to_def Let_def
      ObserveWrite_def scopeFrom_def empty_scope_def)

lemma ordinary_message_arrives_witness:
  "\<exists>v. SendOrdinary demo_v5 (demo_v5_conn (replicate 32 1) (replicate 32 2)) demo_rd (Some (demo_sess (replicate 32 1))) 1 [5] (demo_u []) =
     (None, [], v) \<and>
   fst (ReadOrdinary demo_v5 (demo_v5_conn (replicate 32 2) (replicate 32 1)) (Some (demo_sess (replicate 32 2))) 10
     (demo_u [(3, Inr ([1], \<lparr>ua_IP = [127, 0, 0, 1], ua_Port = 1, ua_Zone = ''''\<rparr>)),
              (5, Inr (fst (last (u_sent v)), \<lparr>ua_IP = [127, 0, 0, 1], ua_Port = 30303, ua_Zone = ''''\<rparr>))])) =
     Inr \<lparr>op_MessageType = 1, op_Body = [5], op_SourceID = replicate 32 1\<rparr>"
proof -
  let ?s = "demo_v5_conn (replicate 32 1) (replicate 32 2)" and ?r = "demo_v5_conn (replicate 32 2) (replicate 32 1)"
  let ?a = "\<lparr>ua_IP = [127, 0, 0, 1], ua_Port = 1, ua_Zone = ''''\<rparr>"
  let ?b = "\<lparr>ua_IP = [127, 0, 0, 1], ua_Port = 30303, ua_Zone = ''''\<rparr>"
  obtain v where v: "SendOrdinary demo_v5 ?s demo_rd (Some (demo_sess (replicate 32 1))) 1 [5] (demo_u []) = (None, [], v)"
    using demo_sent by blast
  have n: "noise demo_v5 ?r (demo_sess (replicate 32 2)) (3, Inr ([1], ?a))"
    by (simp add: noise_def SameUDPAddr_def demo_v5_conn_def)
  have f: "facing ?s (demo_sess (replicate 32 1)) ?r (demo_sess (replicate 32 2))"
    by (simp add: facing_def demo_v5_conn_def demo_sess_def)
  have h: "hears (v_ctx ?r) (u_now (demo_u es) + Remaining (u_now (demo_u es)) (v_ctx ?r) 10) 5 (demo_u es)" for es
    by (simp add: hears_def demo_u_def demo_v5_conn_def Remaining_def)
  have "fst (ReadOrdinary demo_v5 ?r (Some (demo_sess (replicate 32 2))) 10
     (demo_u [(3, Inr ([1], ?a)), (5, Inr (fst (last (u_sent v)), ?b))])) =
     Inr \<lparr>op_MessageType = 1, op_Body = [5], op_SourceID = sourceID (demo_sess (replicate 32 1))\<rparr>"
    by (rule ordinary_message_arrives [OF demo_v5_laws f v, where es = "[(3, Inr ([1], ?a))]" and t = 5 and src = ?b and rest = "[]"])
      (use n h in \<open>simp_all add: demo_u_def demo_v5_conn_def\<close>)
  then show ?thesis using v by (simp add: demo_sess_def)
qed

section \<open>WHOAREYOU\<close>

text \<open>
  The packet by the protocol's specification: \<open>masking-iv || aesctr(dest-id[:16], masking-iv, header)\<close> with the header
  \<open>"discv5" || 0x0001 || flag || nonce || authdata-size || authdata\<close>. No definition of the code is used.
\<close>

definition spec_mask :: "(bytes \<Rightarrow> bytes \<Rightarrow> bytes) \<Rightarrow> bytes \<Rightarrow> bytes \<Rightarrow> bytes \<Rightarrow> bytes" where
  "spec_mask aes dest iv xs =
     map (\<lambda>i. xs ! i XOR aes (take 16 dest) (be_bytes 16 (be_val iv + of_nat (i div 16) :: 128 word)) ! (i mod 16)) [0..<length xs]"

definition spec_header :: "byte \<Rightarrow> bytes \<Rightarrow> bytes \<Rightarrow> bytes" where
  "spec_header flag nonce authdata =
     [0x64, 0x69, 0x73, 0x63, 0x76, 0x35, 0, 1, flag] @ nonce @
     [of_nat (length authdata div 256), of_nat (length authdata mod 256)] @ authdata"

definition whoareyou_header :: "nonce \<Rightarrow> bytes \<Rightarrow> u64 \<Rightarrow> bytes" where
  "whoareyou_header nonce idNonce seq = spec_header 1 nonce (idNonce @ be_bytes 8 seq)"

definition whoareyou_packet :: "('k, 'p, 'v) discv5_env \<Rightarrow> bytes \<Rightarrow> bytes \<Rightarrow> nonce \<Rightarrow> bytes \<Rightarrow> u64 \<Rightarrow> bytes" where
  "whoareyou_packet env dest iv nonce idNonce seq = iv @ spec_mask (v5_aes env) dest iv (whoareyou_header nonce idNonce seq)"

lemma applyMaskCTR_spec: "applyMaskCTR env dest iv xs = spec_mask (v5_aes env) dest iv xs"
  by (rule nth_equalityI) (simp_all add: applyMaskCTR_def spec_mask_def key_byte_def)

lemma two_bytes_of: "n < 65536 \<Longrightarrow> be_bytes 2 (of_nat n :: u16) = [of_nat (n div 256), of_nat (n mod 256)]"
proof -
  assume n: "n < 65536"
  have "unat (ucast (drop_bit 8 (of_nat n :: u16)) :: byte) = n div 256" "unat (ucast (of_nat n :: u16) :: byte) = n mod 256"
    using n by (simp_all add: unsigned_ucast_eq unsigned_drop_bit_eq take_bit_eq_mod unsigned_of_nat) (simp_all add: drop_bit_eq_div)
  then have "ucast (drop_bit 8 (of_nat n :: u16)) = (of_nat (n div 256) :: byte)" "ucast (of_nat n :: u16) = (of_nat (n mod 256) :: byte)"
    by (metis of_nat_unat ucast_id)+
  then show ?thesis by (simp add: be_bytes_def numeral_2_eq_2)
qed

lemma version_bytes: "be_bytes 2 Discv5Version = [0, 1]"
  using two_bytes_of [of 1] by (simp add: Discv5Version_def)

lemma static_header_spec:
  "length authdata < 65536 \<Longrightarrow> static_header flag nonce (of_nat (length authdata)) @ authdata = spec_header flag nonce authdata"
  by (simp add: static_header_def spec_header_def two_bytes_of version_bytes discv5DefaultProtoID_def string_bytes_def)

lemma whoareyou_header_static:
  "length idNonce = 16 \<Longrightarrow> whoareyou_header nonce idNonce seq = static_header Discv5FlagWhoAreYou nonce 24 @ idNonce @ be_bytes 8 seq"
  using static_header_spec [of "idNonce @ be_bytes 8 seq" 1 nonce] by (simp add: whoareyou_header_def Discv5FlagWhoAreYou_def)

lemma whoareyou_packet_masked:
  "whoareyou_packet env dest iv nonce idNonce seq = iv @ applyMaskCTR env dest iv (whoareyou_header nonce idNonce seq)"
  by (simp add: whoareyou_packet_def applyMaskCTR_spec)

lemma decode_whoareyou_packet:
  assumes "length iv = 16" "length nonce = 12" "length idNonce = 16"
  shows "decodeWhoAreYou env s (whoareyou_packet env (v_ourNodeID s) iv nonce idNonce seq) =
    Inr \<lparr>ChallengeData = iv @ whoareyou_header nonce idNonce seq, IDNonce = idNonce, RecordSeq = seq, wy_Nonce = nonce\<rparr>"
  using assms static_header_fields [OF assms(2), where r = "[]"]
  by (simp add: decodeWhoAreYou_def whoareyou_packet_masked whoareyou_header_static v5_consts Let_def)

lemma header_parts:
  assumes "length u = 47" "take 6 u = discv5DefaultProtoID" "be_val (take 2 (drop 6 u)) = Discv5Version"
    "u ! 8 = flag" "be_val (take 2 (drop 21 u)) = (n :: u16)"
  shows "u = static_header flag (take 12 (drop 9 u)) n @ take 16 (drop 23 u) @ be_bytes 8 (be_val (take 8 (drop 39 u)) :: u64)"
proof -
  have split: "u = take 6 u @ take 2 (drop 6 u) @ [u ! 8] @ take 12 (drop 9 u) @ take 2 (drop 21 u) @ take 16 (drop 23 u) @ drop 39 u"
    using assms(1) id_take_nth_drop [of 8 u] append_take_drop_id [of 6 u] append_take_drop_id [of 2 "drop 6 u"]
      append_take_drop_id [of 12 "drop 9 u"] append_take_drop_id [of 2 "drop 21 u"] append_take_drop_id [of 16 "drop 23 u"]
      Cons_nth_drop_Suc [of 8 u]
    by (simp del: append_take_drop_id)
  have v: "take 2 (drop 6 u) = be_bytes 2 Discv5Version"
    using be_bytes_be_val [where 'a = 16 and bs = "take 2 (drop 6 u)" and n = 2] assms(1,3) by simp
  have n: "take 2 (drop 21 u) = be_bytes 2 n"
    using be_bytes_be_val [where 'a = 16 and bs = "take 2 (drop 21 u)" and n = 2] assms(1,5) by simp
  have s: "drop 39 u = be_bytes 8 (be_val (take 8 (drop 39 u)) :: u64)"
    using be_bytes_be_val [where 'a = 64 and bs = "drop 39 u" and n = 8] assms(1) by simp
  show ?thesis unfolding static_header_def using split v n s assms(2,4) by (metis append.assoc)
qed

lemma decodeWhoAreYou_Inr:
  assumes "decodeWhoAreYou env s packet = Inr w" "u = applyMaskCTR env (v_ourNodeID s) (take 16 packet) (drop 16 packet)"
  shows "length packet = 63 \<and> take 6 u = discv5DefaultProtoID \<and> be_val (take 2 (drop 6 u)) = Discv5Version \<and>
    u ! 8 = Discv5FlagWhoAreYou \<and> unat (be_val (take 2 (drop 21 u)) :: u16) = length u - 23 \<and>
    w = \<lparr>ChallengeData = take 16 packet @ u, IDNonce = take 16 (drop 23 u), RecordSeq = be_val (take 8 (drop 39 u)),
       wy_Nonce = take 12 (drop 9 u)\<rparr>"
proof -
  have "length packet = 63" using assms(1) by (simp add: decodeWhoAreYou_def v5_consts split: if_splits)
  moreover have "take 6 (take 23 u) = discv5DefaultProtoID" "be_val (take 2 (drop 6 (take 23 u))) = Discv5Version"
    "take 23 u ! 8 = Discv5FlagWhoAreYou" "unat (be_val (take 2 (drop 21 (take 23 u))) :: u16) = length (drop 23 u)"
    "w = \<lparr>ChallengeData = take 16 packet @ u, IDNonce = take 16 (drop 23 u), RecordSeq = be_val (take 8 (drop 16 (drop 23 u))),
       wy_Nonce = take 12 (drop 9 (take 23 u))\<rparr>"
    using assms(1) unfolding decodeWhoAreYou_def v5_consts Let_def assms(2) [symmetric]
    by (simp_all only: if_distrib sum.simps split: if_split_asm) 
  ultimately show ?thesis by (simp add: drop_take)
qed

lemma whoareyou_accepted:
  assumes L: "decodeWhoAreYou env s packet = Inr w"
  shows "\<exists>iv nonce idNonce seq. length iv = 16 \<and> length nonce = 12 \<and> length idNonce = 16 \<and>
    packet = whoareyou_packet env (v_ourNodeID s) iv nonce idNonce seq \<and>
    w = \<lparr>ChallengeData = iv @ whoareyou_header nonce idNonce seq, IDNonce = idNonce, RecordSeq = seq, wy_Nonce = nonce\<rparr>"
proof -
  define u where "u = applyMaskCTR env (v_ourNodeID s) (take 16 packet) (drop 16 packet)"
  define nonce idNonce where "nonce = take 12 (drop 9 u)" and "idNonce = take 16 (drop 23 u)"
  define seq where "seq = (be_val (take 8 (drop 39 u)) :: u64)"
  note d = decodeWhoAreYou_Inr [OF L u_def]
  have len: "length packet = 63" using d by blast
  then have lu: "length u = 47" by (simp add: u_def)
  have "be_val (take 2 (drop 21 u)) = (24 :: u16)"
    using d lu by (intro word_unat_eq_iff [THEN iffD2]) simp
  then have u: "u = whoareyou_header nonce idNonce seq"
    using header_parts [OF lu, of Discv5FlagWhoAreYou 24] d lu
    by (simp add: whoareyou_header_static nonce_def idNonce_def seq_def)
  have "packet = take 16 packet @ applyMaskCTR env (v_ourNodeID s) (take 16 packet) u" by (simp add: u_def)
  then have "packet = whoareyou_packet env (v_ourNodeID s) (take 16 packet) nonce idNonce seq" by (simp add: whoareyou_packet_masked u)
  moreover have "w = \<lparr>ChallengeData = take 16 packet @ whoareyou_header nonce idNonce seq, IDNonce = idNonce, RecordSeq = seq,
      wy_Nonce = nonce\<rparr>"
    unfolding u [symmetric] using d by (simp add: nonce_def idNonce_def seq_def)
  moreover have "length nonce = 12" "length idNonce = 16" "length (take 16 packet) = 16"
    using len lu by (simp_all add: nonce_def idNonce_def)
  ultimately show ?thesis by blast
qed

text \<open>
  \<open>decodeWhoAreYou\<close> accepts exactly the packets that the discv5 specification calls WHOAREYOU packets for this node, and
  reads their nonce, identity nonce and record sequence number; the challenge data are the masking IV and the plain header.
\<close>

theorem decodeWhoAreYou_exact:
  "decodeWhoAreYou env s packet = Inr w \<longleftrightarrow>
     (\<exists>iv nonce idNonce seq. length iv = 16 \<and> length nonce = 12 \<and> length idNonce = 16 \<and>
        packet = whoareyou_packet env (v_ourNodeID s) iv nonce idNonce seq \<and>
        w = \<lparr>ChallengeData = iv @ whoareyou_header nonce idNonce seq, IDNonce = idNonce, RecordSeq = seq, wy_Nonce = nonce\<rparr>)"
  using whoareyou_accepted decode_whoareyou_packet by blast

end
