(* ===== verification/Discv4.thy ===== *)
theory Discv4
  imports Udp
begin

text \<open>
  Package discovery, discv4: packets (discv4_packet.go), the connection (discv4_conn.go) and the peer harness
  (discv4_peer_harness.go). Keys of type \<open>'k\<close>; Keccak, signatures, RLP and enode parsing are parameters. The clock and
  the socket are the \<open>udp\<close> passed beside a connection.
\<close>

section \<open>Packets\<close>

definition discv4MaxPacketSize :: nat where "discv4MaxPacketSize = 1280"
definition discv4HeaderSize :: nat where "discv4HeaderSize = 32 + 65"

definition Discv4PingType :: byte where "Discv4PingType = 0x01"
definition Discv4PongType :: byte where "Discv4PongType = 0x02"
definition Discv4FindNodeType :: byte where "Discv4FindNodeType = 0x03"
definition Discv4NeighborsType :: byte where "Discv4NeighborsType = 0x04"
definition Discv4ENRRequestType :: byte where "Discv4ENRRequestType = 0x05"
definition Discv4ENRResponseType :: byte where "Discv4ENRResponseType = 0x06"

record discv4_packet =
  Type :: byte
  Body :: bytes
  Hash :: bytes
  From :: udp_addr

record endpoint =
  ep_IP :: bytes
  ep_UDP :: u16
  ep_TCP :: u16

record ping =
  ping_Version :: u64
  ping_From :: endpoint
  ping_To :: endpoint
  ping_Expiration :: u64
  ping_ENRSeq :: u64
  ping_Rest :: "bytes list"

record pong =
  pong_To :: endpoint
  pong_ReplyToken :: bytes
  pong_Expiration :: u64
  pong_ENRSeq :: u64
  pong_Rest :: "bytes list"

text \<open>The bodies of the other packets, which cases encode and send with \<open>SendPacket\<close>.\<close>

record find_node =
  fn_Target :: bytes
  fn_Expiration :: u64
  fn_Rest :: "bytes list"

record node_entry =
  ne_IP :: bytes
  ne_UDP :: u16
  ne_TCP :: u16
  ne_ID :: bytes

record neighbors =
  nb_Nodes :: "node_entry list"
  nb_Expiration :: u64
  nb_Rest :: "bytes list"

record enr_request =
  eq_Expiration :: u64
  eq_Rest :: "bytes list"

record enr_response =
  es_RequestHash :: bytes
  es_ENR :: bytes
  es_Rest :: "bytes list"

text \<open>\<open>rand_read n\<close> is what \<open>rand.Read\<close> leaves in a buffer of \<open>n\<close> zero bytes, and its error.\<close>

definition RandomFindNodeTarget :: "(nat \<Rightarrow> bytes \<times> goerr option) \<Rightarrow> bytes \<times> goerr option" where
  "RandomFindNodeTarget rand_read = rand_read 64"

record discv4_node =
  n_IP :: bytes
  n_UDP :: int
  n_TCP :: int

record 'k discv4_env =
  d4_keccak :: "bytes \<Rightarrow> bytes"
  d4_sign :: "bytes \<Rightarrow> 'k \<Rightarrow> goerr + bytes"
  d4_parse :: "string \<Rightarrow> goerr + discv4_node"
  d4_enc_ping :: "ping \<Rightarrow> goerr + bytes"
  d4_dec_ping :: "bytes \<Rightarrow> goerr + ping"
  d4_enc_pong :: "pong \<Rightarrow> goerr + bytes"
  d4_copy :: "'k \<Rightarrow> goerr + 'k"
  d4_udp :: udp_env

definition EndpointOf :: "udp_addr option \<Rightarrow> endpoint" where
  "EndpointOf addr =
     (case addr of None \<Rightarrow> \<lparr>ep_IP = [], ep_UDP = 0, ep_TCP = 0\<rparr>
      | Some a \<Rightarrow>
        let ip = (case To4 (ua_IP a) of None \<Rightarrow> ua_IP a | Some ip \<Rightarrow> ip); port = of_int (ua_Port a)
        in \<lparr>ep_IP = ip, ep_UDP = port, ep_TCP = port\<rparr>)"

definition PeerEndpoint :: "'k discv4_env \<Rightarrow> string \<Rightarrow> goerr + endpoint" where
  "PeerEndpoint env target =
     err_bind (d4_parse env target) (\<lambda>node.
       let ip = (case To4 (n_IP node) of None \<Rightarrow> n_IP node | Some ip \<Rightarrow> ip)
       in Inr \<lparr>ep_IP = ip, ep_UDP = of_int (n_UDP node), ep_TCP = of_int (n_TCP node)\<rparr>)"

definition signDiscv4Payload :: "'k discv4_env \<Rightarrow> 'k option \<Rightarrow> byte \<Rightarrow> bytes \<Rightarrow> goerr + bytes" where
  "signDiscv4Payload env key packetType encoded =
     (case key of None \<Rightarrow> Inl (Errorf ''sign: nil private key'' [])
      | Some key \<Rightarrow>
        if discv4MaxPacketSize - discv4HeaderSize < 1 + length encoded
        then Inl (Errorf ''packet too large: %d'' [VNat (length encoded)])
        else
          let body = packetType # encoded
          in err_bind (wrap_err ''sign: %w'' [] (d4_sign env (d4_keccak env body) key)) (\<lambda>signature.
               let hashInput = signature @ body
               in Inr (d4_keccak env hashInput @ hashInput)))"

text \<open>\<open>encoded\<close> is what the RLP encoder makes of the value.\<close>

definition BuildSignedDiscv4Packet :: "'k discv4_env \<Rightarrow> 'k option \<Rightarrow> byte \<Rightarrow> goerr + bytes \<Rightarrow> goerr + bytes" where
  "BuildSignedDiscv4Packet env key packetType encoded =
     err_bind (wrap_err ''encode: %w'' [] encoded) (signDiscv4Payload env key packetType)"

section \<open>The connection\<close>

record ('w, 'o, 'k) discv4_conn =
  d_ctx :: "('w, 'o, 'k) go_ctx option"
  d_key :: 'k
  d_peer :: udp_addr

definition DialDiscv4WithKey ::
    "'k discv4_env \<Rightarrow> ('w, 'o, 'k) go_ctx option \<Rightarrow> string \<Rightarrow> 'k option \<Rightarrow> goerr + ('w, 'o, 'k) discv4_conn \<times> udp" where
  "DialDiscv4WithKey env ctx target key =
     (case key of None \<Rightarrow> Inl (Errorf ''discv4 local key is nil'' [])
      | Some key \<Rightarrow>
        let ctx = Some (case ctx of None \<Rightarrow> Background | Some c \<Rightarrow> c)
        in err_bind (wrap_err ''parse enode: %w'' [] (d4_parse env target)) (\<lambda>node.
           if n_IP node = [] \<or> IsUnspecified (n_IP node) then Inl (Errorf ''parse enode: missing peer IP address'' [])
           else if n_UDP node < 1 \<or> 65535 < n_UDP node
           then Inl (Errorf ''parse enode: invalid UDP port %d'' [VInt (n_UDP node)])
           else
             let peer = \<lparr>ua_IP = n_IP node, ua_Port = n_UDP node, ua_Zone = ''''\<rparr>
             in err_bind (listenUDPToPeer (d4_udp env) (Some peer)) (\<lambda>fd.
                  Inr (\<lparr>d_ctx = ctx, d_key = key, d_peer = peer\<rparr>, fd))))"

definition DialDiscv4 ::
    "'k discv4_env \<Rightarrow> ('w, 'o, 'k) go_ctx option \<Rightarrow> string \<Rightarrow> goerr + ('w, 'o, 'k) discv4_conn \<times> udp" where
  "DialDiscv4 env ctx target =
     err_bind (wrap_err ''load case participant key: %w'' [] (ParticipantELKey (d4_copy env) ctx)) (\<lambda>key.
       DialDiscv4WithKey env ctx target (Some key))"

definition d4_SendRaw ::
    "('w, 'o, 'k) discv4_conn \<Rightarrow> bytes \<Rightarrow> udp \<Rightarrow> goerr option \<times> ('o \<times> write_event) list \<times> udp" where
  "d4_SendRaw c data u =
     (let obs = ObserveWrite (d_ctx c) ((write_of ''raw'')\<lparr>w_Payload := data, w_Raw := True\<rparr>)
      in case write_to data (d_peer c) u of (e, u) \<Rightarrow> (e, obs, u))"

definition d4_ReadRaw :: "('w, 'o, 'k) discv4_conn \<Rightarrow> int \<Rightarrow> udp \<Rightarrow> (goerr + bytes \<times> udp_addr) \<times> udp" where
  "d4_ReadRaw c timeout u = readUDPWithContext (d_ctx c) discv4MaxPacketSize timeout u"

definition sendDiscv4Packet ::
    "'k discv4_env \<Rightarrow> ('w, 'o, 'k) discv4_conn \<Rightarrow> byte \<Rightarrow> goerr + bytes \<Rightarrow> udp \<Rightarrow>
     (goerr + bytes) \<times> ('o \<times> write_event) list \<times> udp" where
  "sendDiscv4Packet env c ptype encoded u =
     (case err_bind (wrap_err ''encode: %w'' [] encoded) (\<lambda>encoded.
             err_bind (signDiscv4Payload env (Some (d_key c)) ptype encoded) (\<lambda>packet. Inr (encoded, packet))) of
        Inl e \<Rightarrow> (Inl e, [], u)
      | Inr (encoded, packet) \<Rightarrow>
        let obs = ObserveWrite (d_ctx c) ((write_of ''discv4'')\<lparr>w_Code := ucast ptype, w_Payload := encoded\<rparr>)
        in case write_to packet (d_peer c) u of
             (Some e, u) \<Rightarrow> (Inl e, obs, u)
           | (None, u) \<Rightarrow> (Inr (take 32 packet), obs, u))"

definition SendDiscv4 ::
    "'k discv4_env \<Rightarrow> ('w, 'o, 'k) discv4_conn \<Rightarrow> byte \<Rightarrow> goerr + bytes \<Rightarrow> udp \<Rightarrow>
     goerr option \<times> ('o \<times> write_event) list \<times> udp" where
  "SendDiscv4 env c ptype encoded u =
     (case sendDiscv4Packet env c ptype encoded u of (r, obs, u) \<Rightarrow> (case r of Inl e \<Rightarrow> Some e | Inr _ \<Rightarrow> None, obs, u))"

definition open_packet :: "bytes \<Rightarrow> udp_addr \<Rightarrow> goerr + discv4_packet" where
  "open_packet packet from =
     (if length packet < discv4HeaderSize + 1 then Inl (Errorf ''packet too short'' [])
      else Inr \<lparr>Type = packet ! discv4HeaderSize, Body = drop (discv4HeaderSize + 1) packet, Hash = take 32 packet,
                From = from\<rparr>)"

definition ReadDiscv4Packet :: "('w, 'o, 'k) discv4_conn \<Rightarrow> int \<Rightarrow> udp \<Rightarrow> (goerr + discv4_packet) \<times> udp" where
  "ReadDiscv4Packet c timeout u =
     (case d4_ReadRaw c timeout u of (r, u) \<Rightarrow> (err_bind r (\<lambda>(packet, from). open_packet packet from), u))"

definition ReadDiscv4 :: "('w, 'o, 'k) discv4_conn \<Rightarrow> int \<Rightarrow> udp \<Rightarrow> (goerr + byte \<times> bytes \<times> udp_addr) \<times> udp" where
  "ReadDiscv4 c timeout u =
     (case ReadDiscv4Packet c timeout u of (r, u) \<Rightarrow> (err_bind r (\<lambda>p. Inr (Type p, Body p, From p)), u))"

text \<open>The loop of \<open>ExpectAnyDiscv4Reply\<close>; \<open>None\<close> would be a loop that never ends.\<close>

partial_function (option) expect_loop ::
    "('w, 'o, 'k) discv4_conn \<Rightarrow> int \<Rightarrow> udp \<Rightarrow> (bool \<times> udp) option" where
  "expect_loop c deadline u =
     (if deadline \<le> u_now u then Some (False, u)
      else
        let remaining = max (deadline - u_now u) (100 * 10 ^ 6)
        in case ReadDiscv4 c remaining u of
             (Inr (_, _, from), u) \<Rightarrow> Some (SameUDPAddr (Some from) (Some (d_peer c)), u)
           | (Inl e, u) \<Rightarrow> if is_timeout e then expect_loop c deadline u else Some (False, u))"

definition ExpectAnyDiscv4Reply :: "('w, 'o, 'k) discv4_conn \<Rightarrow> int \<Rightarrow> udp \<Rightarrow> (bool \<times> udp) option" where
  "ExpectAnyDiscv4Reply c timeout u = expect_loop c (u_now u + Remaining (u_now u) (d_ctx c) timeout) u"

section \<open>The peer harness\<close>

text \<open>Next to the result, whether the connection was closed.\<close>

definition newDiscv4PeerHarness ::
    "'k discv4_env \<Rightarrow> string \<Rightarrow> ('w, 'o, 'k) discv4_conn \<Rightarrow> (goerr + ('w, 'o, 'k) discv4_conn \<times> endpoint) \<times> bool" where
  "newDiscv4PeerHarness env target c =
     (case PeerEndpoint env target of Inl e \<Rightarrow> (Inl e, True) | Inr peer \<Rightarrow> (Inr (c, peer), False))"

text \<open>The harness with its socket, and how many sockets were opened and closed.\<close>

definition NewDiscv4PeerHarness ::
    "'k discv4_env \<Rightarrow> ('w, 'o, 'k) go_ctx option \<Rightarrow> string \<Rightarrow>
     (goerr + (('w, 'o, 'k) discv4_conn \<times> endpoint) \<times> udp) \<times> nat \<times> nat" where
  "NewDiscv4PeerHarness env ctx target =
     (case DialDiscv4 env ctx target of
        Inl e \<Rightarrow> (Inl e, 0, 0)
      | Inr (c, u) \<Rightarrow>
          (case newDiscv4PeerHarness env target c of
             (r, closed) \<Rightarrow> (err_bind r (\<lambda>h. Inr (h, u)), 1, if closed then 1 else 0)))"

lemma harness_leaks_no_socket:
  "case NewDiscv4PeerHarness env ctx target of (r, opened, closed) \<Rightarrow> opened = closed + (if isl r then 0 else 1)"
  by (auto simp: NewDiscv4PeerHarness_def newDiscv4PeerHarness_def split: sum.splits prod.splits)

definition harness_SendPacket ::
    "'k discv4_env \<Rightarrow> ('w, 'o, 'k) discv4_conn \<times> endpoint \<Rightarrow> byte \<Rightarrow> goerr + bytes \<Rightarrow> udp \<Rightarrow>
     (goerr + bytes) \<times> ('o \<times> write_event) list \<times> udp" where
  "harness_SendPacket env h = sendDiscv4Packet env (fst h)"

definition d4_PeerAddr :: "('w, 'o, 'k) discv4_conn \<Rightarrow> udp_addr" where "d4_PeerAddr c = d_peer c"
definition d4_PrivateKey :: "('w, 'o, 'k) discv4_conn \<Rightarrow> 'k" where "d4_PrivateKey c = d_key c"
definition d4_LocalAddr :: "udp \<Rightarrow> udp_addr" where "d4_LocalAddr u = u_local u"

definition expiration :: "udp \<Rightarrow> u64" where "expiration u = of_int ((u_now u + 30 * 10 ^ 9) div 10 ^ 9)"

definition SendPing ::
    "'k discv4_env \<Rightarrow> ('w, 'o, 'k) discv4_conn \<times> endpoint \<Rightarrow> udp \<Rightarrow> (goerr + bytes) \<times> ('o \<times> write_event) list \<times> udp" where
  "SendPing env h u =
     (let ping = \<lparr>ping_Version = 4, ping_From = EndpointOf (Some (u_local u)), ping_To = snd h, ping_Expiration = expiration u,
                 ping_ENRSeq = 0, ping_Rest = []\<rparr>
      in sendDiscv4Packet env (fst h) Discv4PingType (d4_enc_ping env ping) u)"

definition pong_for :: "udp \<Rightarrow> discv4_packet \<Rightarrow> ping \<Rightarrow> pong" where
  "pong_for u pkt ping =
     (let to = EndpointOf (Some (From pkt));
          to = (if ep_TCP (ping_From ping) \<noteq> 0 then to\<lparr>ep_TCP := ep_TCP (ping_From ping)\<rparr> else to)
      in \<lparr>pong_To = to, pong_ReplyToken = Hash pkt, pong_Expiration = expiration u, pong_ENRSeq = 0,
          pong_Rest = []\<rparr>)"

definition ReplyToPing ::
    "'k discv4_env \<Rightarrow> ('w, 'o, 'k) discv4_conn \<times> endpoint \<Rightarrow> discv4_packet \<Rightarrow> udp \<Rightarrow>
     goerr option \<times> ('o \<times> write_event) list \<times> udp" where
  "ReplyToPing env h pkt u =
     (case d4_dec_ping env (Body pkt) of
        Inl e \<Rightarrow> (Some e, [], u)
      | Inr ping \<Rightarrow>
          (case sendDiscv4Packet env (fst h) Discv4PongType (d4_enc_pong env (pong_for u pkt ping)) u of
             (r, obs, u) \<Rightarrow> (case r of Inl e \<Rightarrow> Some e | Inr _ \<Rightarrow> None, obs, u)))"

section \<open>Packets across the wire\<close>

definition d4_lengths :: "'k discv4_env \<Rightarrow> bool" where
  "d4_lengths env \<longleftrightarrow> (\<forall>b. length (d4_keccak env b) = 32) \<and> (\<forall>d k s. d4_sign env d k = Inr s \<longrightarrow> length s = 65)"

lemma signed_packet:
  assumes "d4_lengths env" "signDiscv4Payload env (Some key) ptype encoded = Inr packet"
  shows "length packet = 98 + length encoded" "length packet \<le> discv4MaxPacketSize"
    "open_packet packet from = Inr \<lparr>Type = ptype, Body = encoded, Hash = take 32 packet, From = from\<rparr>"
    "take 32 packet = d4_keccak env (drop 32 packet)"
proof -
  obtain sig where "d4_sign env (d4_keccak env (ptype # encoded)) key = Inr sig"
    and p: "packet = d4_keccak env (sig @ ptype # encoded) @ sig @ ptype # encoded" and small: "length encoded \<le> 1182"
    using assms(2)
    by (auto simp: signDiscv4Payload_def err_bind_Inr_iff discv4MaxPacketSize_def discv4HeaderSize_def Let_def
        split: if_splits)
  then have sig: "length sig = 65" and hash: "length (d4_keccak env b) = 32" for b
    using assms(1) by (auto simp: d4_lengths_def)
  show "length packet = 98 + length encoded" by (simp add: p sig hash)
  then show "length packet \<le> discv4MaxPacketSize" using small by (simp add: discv4MaxPacketSize_def)
  show "open_packet packet from = Inr \<lparr>Type = ptype, Body = encoded, Hash = take 32 packet, From = from\<rparr>"
    by (simp add: open_packet_def discv4HeaderSize_def p sig hash nth_append)
  show "take 32 packet = d4_keccak env (drop 32 packet)" by (simp add: p hash)
qed

lemma sendDiscv4Packet_Inr:
  assumes "sendDiscv4Packet env c ptype encoded u = (Inr h, obs, u')"
  shows "\<exists>b packet. encoded = Inr b \<and> signDiscv4Payload env (Some (d_key c)) ptype b = Inr packet \<and> h = take 32 packet \<and>
    u_sent u' = u_sent u @ [(packet, d_peer c)]"
  using assms
  by (auto simp: sendDiscv4Packet_def write_to_def err_bind_Inr_iff Let_def split: sum.splits prod.splits option.splits)

text \<open>What one connection sends, another reads when it arrives in time.\<close>

lemma packet_read:
  assumes "d4_lengths env" "sendDiscv4Packet env c ptype encoded u = (Inr h, obs, u')"
    and "u_events v = (t, Inr (fst (last (u_sent u')), from)) # es" "arrives (d_ctx c') timeout t v"
  shows "\<exists>b. encoded = Inr b \<and> fst (ReadDiscv4Packet c' timeout v) =
    Inr \<lparr>Type = ptype, Body = b, Hash = h, From = from\<rparr>"
proof -
  obtain b packet where p: "encoded = Inr b" "signDiscv4Payload env (Some (d_key c)) ptype b = Inr packet" "h = take 32 packet"
      "u_sent u' = u_sent u @ [(packet, d_peer c)]"
    using sendDiscv4Packet_Inr [OF assms(2)] by blast
  note s = signed_packet [OF assms(1) p(2)]
  have "u_events v = (t, Inr (packet, from)) # es" using assms(3) p(4) by simp
  from read_arrives [OF assms(4) this, of discv4MaxPacketSize] show ?thesis
    using s(2,3) p(1,3) by (simp add: ReadDiscv4Packet_def d4_ReadRaw_def)
qed

text \<open>The endpoint that an address stands for: IPv4 in four bytes, the port twice.\<close>

definition endpoint_at :: "udp_addr \<Rightarrow> u16 \<Rightarrow> endpoint" where
  "endpoint_at a tcp =
     \<lparr>ep_IP = (if To4 (ua_IP a) = None then ua_IP a else the (To4 (ua_IP a))), ep_UDP = of_int (ua_Port a), ep_TCP = tcp\<rparr>"

lemma EndpointOf_at: "EndpointOf (Some a) = endpoint_at a (of_int (ua_Port a))"
  by (auto simp: EndpointOf_def endpoint_at_def Let_def split: option.splits)

lemma pong_for_sender:
  "pong_for u pkt p = \<lparr>pong_To = endpoint_at (From pkt) (if ep_TCP (ping_From p) = 0 then of_int (ua_Port (From pkt)) else ep_TCP (ping_From p)),
     pong_ReplyToken = Hash pkt, pong_Expiration = of_int ((u_now u + 30 * 10 ^ 9) div 10 ^ 9), pong_ENRSeq = 0, pong_Rest = []\<rparr>"
  by (simp add: pong_for_def EndpointOf_at expiration_def Let_def) (simp add: endpoint_at_def)

text \<open>
  C22: The endpoint proof. The packet that \<open>SendPing\<close> wrote to its peer is read there, when it arrives in time, as a Ping
  with the hash that \<open>SendPing\<close> returned, the Keccak hash of all that follows it, and with version 4, the sender's local
  endpoint and the peer's in its body. The answer of \<open>ReplyToPing\<close> to it is read back as a Pong whose body is exactly:
  the sender's endpoint, its IP address, its UDP port and the TCP port the ping advertised, if any; that hash as reply
  token; an expiration 30 seconds after the clock of the one who answers; and nothing else.
\<close>

theorem ping_is_answered:
  assumes "d4_lengths env" "SendPing env h u = (Inr token, obs, u1)"
    and "u_events v = (t, Inr (fst (last (u_sent u1)), from)) # es" "arrives (d_ctx (fst h')) timeout t v"
    and "ReadDiscv4Packet (fst h') timeout v = (Inr pkt, v1)" "d4_dec_ping env (Body pkt) = Inr p"
    and "ReplyToPing env h' pkt v1 = (None, obs', v2)"
    and "u_events u2 = (t', Inr (fst (last (u_sent v2)), from')) # es'" "arrives (d_ctx (fst h)) timeout' t' u2"
  shows "Hash pkt = token \<and> Type pkt = 0x01 \<and> token = d4_keccak env (drop 32 (fst (last (u_sent u1)))) \<and>
    snd (last (u_sent u1)) = d_peer (fst h) \<and> snd (last (u_sent v2)) = d_peer (fst h') \<and>
    d4_enc_ping env \<lparr>ping_Version = 4, ping_From = endpoint_at (u_local u) (of_int (ua_Port (u_local u))), ping_To = snd h,
      ping_Expiration = of_int ((u_now u + 30 * 10 ^ 9) div 10 ^ 9), ping_ENRSeq = 0, ping_Rest = []\<rparr> = Inr (Body pkt) \<and>
    (\<exists>body. d4_enc_pong env \<lparr>pong_To = endpoint_at from (if ep_TCP (ping_From p) = 0 then of_int (ua_Port from) else ep_TCP (ping_From p)),
        pong_ReplyToken = token, pong_Expiration = of_int ((u_now v1 + 30 * 10 ^ 9) div 10 ^ 9), pong_ENRSeq = 0, pong_Rest = []\<rparr> = Inr body \<and>
       fst (ReadDiscv4Packet (fst h) timeout' u2) = Inr \<lparr>Type = 0x02, Body = body, Hash = take 32 (fst (last (u_sent v2))), From = from'\<rparr>)"
proof -
  let ?ping = "\<lparr>ping_Version = 4, ping_From = endpoint_at (u_local u) (of_int (ua_Port (u_local u))), ping_To = snd h,
      ping_Expiration = of_int ((u_now u + 30 * 10 ^ 9) div 10 ^ 9), ping_ENRSeq = 0, ping_Rest = []\<rparr>"
  have ping: "sendDiscv4Packet env (fst h) Discv4PingType (d4_enc_ping env ?ping) u = (Inr token, obs, u1)"
    using assms(2) by (simp add: SendPing_def EndpointOf_at expiration_def)
  have pkt: "Hash pkt = token" "Type pkt = 0x01" "From pkt = from" "d4_enc_ping env ?ping = Inr (Body pkt)"
    using packet_read [OF assms(1) ping assms(3,4)] assms(5) by (auto simp: Discv4PingType_def)
  have sent: "token = d4_keccak env (drop 32 (fst (last (u_sent u1))))" "snd (last (u_sent u1)) = d_peer (fst h)"
    using sendDiscv4Packet_Inr [OF ping] signed_packet(4) [OF assms(1)] by auto
  obtain r where pong: "sendDiscv4Packet env (fst h') Discv4PongType (d4_enc_pong env (pong_for v1 pkt p)) v1 = (Inr r, obs', v2)"
    using assms(6,7) by (auto simp: ReplyToPing_def split: prod.splits sum.splits)
  obtain body where body: "d4_enc_pong env (pong_for v1 pkt p) = Inr body" and rd: "fst (ReadDiscv4Packet (fst h) timeout' u2) =
      Inr \<lparr>Type = 0x02, Body = body, Hash = r, From = from'\<rparr>"
    using packet_read [OF assms(1) pong assms(8,9)] by (auto simp: Discv4PongType_def)
  have "r = take 32 (fst (last (u_sent v2)))" "snd (last (u_sent v2)) = d_peer (fst h')" using sendDiscv4Packet_Inr [OF pong] by auto
  then show ?thesis using pkt sent body rd unfolding pong_for_sender by auto
qed

definition demo_d4 :: "byte discv4_env" where
  "demo_d4 = \<lparr>d4_keccak = (\<lambda>b. replicate 32 (foldr (XOR) b 0)), d4_sign = (\<lambda>d k. Inr (replicate 65 k)), d4_parse = (\<lambda>s. Inl EOF),
     d4_enc_ping = (\<lambda>p. Inr [1, 2]),
     d4_dec_ping = (\<lambda>b. Inr \<lparr>ping_Version = 4, ping_From = EndpointOf None, ping_To = EndpointOf None, ping_Expiration = 0,
                          ping_ENRSeq = 0, ping_Rest = []\<rparr>),
     d4_enc_pong = (\<lambda>p. Inr [3]), d4_copy = (\<lambda>k. Inr k),
     d4_udp = \<lparr>ue_route = (\<lambda>n p. Inl EOF), ue_listen = (\<lambda>n ip. Inl EOF)\<rparr>\<rparr>"

definition demo_addr :: udp_addr where "demo_addr = \<lparr>ua_IP = [127, 0, 0, 1], ua_Port = 30303, ua_Zone = ''''\<rparr>"

definition demo_udp :: "(int \<times> (goerr + bytes \<times> udp_addr)) list \<Rightarrow> udp" where
  "demo_udp events = \<lparr>u_now = 0, u_events = events, u_done = None, u_local = demo_addr, u_sendres = (\<lambda>_. None), u_sent = [],
     u_dlres = (\<lambda>_. None), u_deadlines = 0\<rparr>"

definition demo_d4_conn :: "(unit, unit, byte) discv4_conn" where
  "demo_d4_conn = \<lparr>d_ctx = None, d_key = 7, d_peer = demo_addr\<rparr>"

lemma demo_d4_lengths: "d4_lengths demo_d4" by (simp add: d4_lengths_def demo_d4_def)

lemma demo_send:
  assumes "length b \<le> 1182" "u_sendres u = (\<lambda>_. None)"
  shows "\<exists>packet. sendDiscv4Packet demo_d4 demo_d4_conn ty (Inr b) u =
     (Inr (take 32 packet), [], u\<lparr>u_sent := u_sent u @ [(packet, demo_addr)]\<rparr>)"
proof -
  obtain packet where "signDiscv4Payload demo_d4 (Some (d_key demo_d4_conn)) ty b = Inr packet"
    using assms(1) by (simp add: signDiscv4Payload_def discv4MaxPacketSize_def discv4HeaderSize_def demo_d4_def Let_def)
  then show ?thesis
    using assms(2) by (intro exI [of _ packet])
      (simp add: sendDiscv4Packet_def write_to_def ObserveWrite_def scopeFrom_def empty_scope_def demo_d4_conn_def)
qed

lemma demo_arrives: "arrives (d_ctx demo_d4_conn) 10 5 (demo_udp es)"
  by (simp add: arrives_def demo_udp_def demo_d4_conn_def Remaining_def Background_def)

lemma ping_is_answered_witness:
  "\<exists>token u1 pkt v1 v2. SendPing demo_d4 (demo_d4_conn, EndpointOf None) (demo_udp []) = (Inr token, [], u1) \<and>
     ReadDiscv4Packet demo_d4_conn 10 (demo_udp [(5, Inr (fst (last (u_sent u1)), demo_addr))]) = (Inr pkt, v1) \<and>
     ReplyToPing demo_d4 (demo_d4_conn, EndpointOf None) pkt v1 = (None, [], v2) \<and> Hash pkt = token"
proof -
  obtain p where p: "sendDiscv4Packet demo_d4 demo_d4_conn Discv4PingType (Inr [1, 2]) (demo_udp []) =
      (Inr (take 32 p), [], (demo_udp [])\<lparr>u_sent := [(p, demo_addr)]\<rparr>)"
    using demo_send [of "[1, 2]" "demo_udp []"] by (auto simp: demo_udp_def)
  have s: "SendPing demo_d4 (demo_d4_conn, EndpointOf None) (demo_udp []) = (Inr (take 32 p), [], (demo_udp [])\<lparr>u_sent := [(p, demo_addr)]\<rparr>)"
    using p by (simp add: SendPing_def demo_d4_def)
  let ?v = "demo_udp [(5, Inr (p, demo_addr))]"
  have ev: "u_events ?v = (5, Inr (fst (last (u_sent ((demo_udp [])\<lparr>u_sent := [(p, demo_addr)]\<rparr>))), demo_addr)) # []"
    by (simp add: demo_udp_def)
  obtain pkt v1 where r: "ReadDiscv4Packet demo_d4_conn 10 ?v = (Inr pkt, v1)"
    using packet_read [OF demo_d4_lengths p ev demo_arrives] by (metis fst_conv surj_pair)
  have d: "\<exists>ping. d4_dec_ping demo_d4 (Body pkt) = Inr ping" by (simp add: demo_d4_def)
  have "u_sendres v1 = (\<lambda>_. None)"
    using r read_arrives [OF demo_arrives, of "[(5, Inr (p, demo_addr))]" p demo_addr "[]" discv4MaxPacketSize]
    by (auto simp: ReadDiscv4Packet_def d4_ReadRaw_def demo_udp_def)
  then obtain q where q: "sendDiscv4Packet demo_d4 demo_d4_conn Discv4PongType (Inr [3]) v1 =
      (Inr (take 32 q), [], v1\<lparr>u_sent := u_sent v1 @ [(q, demo_addr)]\<rparr>)" using demo_send [of "[3]"] by auto
  have a: "ReplyToPing demo_d4 (demo_d4_conn, EndpointOf None) pkt v1 = (None, [], v1\<lparr>u_sent := u_sent v1 @ [(q, demo_addr)]\<rparr>)"
    using q by (simp add: ReplyToPing_def demo_d4_def)
  have "Hash pkt = take 32 p"
    using ping_is_answered [OF demo_d4_lengths s, where v = ?v and h' = "(demo_d4_conn, EndpointOf None)" and pkt = pkt and
        timeout = 10 and ?u2.0 = "demo_udp [(5, Inr (q, demo_addr))]" and t = 5 and t' = 5 and timeout' = 10 and from' = demo_addr]
      ev demo_arrives r a d by (fastforce simp: demo_udp_def)
  then show ?thesis using s r a by auto
qed

section \<open>Waiting for any reply\<close>

text \<open>A context that ends with a timeout error does so at its deadline or later, as those of package context do.\<close>

definition ctx_consistent :: "('w, 'o, 'k) go_ctx option \<Rightarrow> udp \<Rightarrow> bool" where
  "ctx_consistent ctx u \<longleftrightarrow>
     (case u_done u of None \<Rightarrow> True
      | Some (t, e) \<Rightarrow> is_timeout e \<longrightarrow> (\<exists>c d. ctx = Some c \<and> cdeadline c = Some d \<and> d \<le> t))"

text \<open>A read that times out used up an event or let time pass; it never changes when the context is done.\<close>

lemma read_timeout_progress:
  assumes "readUDPWithContext ctx sz timeout u = (Inl e, v)" "is_timeout e" "ctx_err u = None"
    and "0 < Remaining (u_now u) (Some (case ctx of None \<Rightarrow> Background | Some c \<Rightarrow> c)) timeout"
  shows "length (u_events v) < length (u_events u) \<or> length (u_events v) = length (u_events u) \<and> u_now u < u_now v \<or>
    (\<exists>k e'. u_dlres u k = Some e')"
  using assms
  by (auto simp: readUDPWithContext_def set_read_deadline_def read_from_def ctx_err_def Let_def
      split: option.splits prod.splits if_splits list.splits)

lemma read_keeps:
  assumes "readUDPWithContext ctx sz timeout u = (r, v)"
  shows "u_done v = u_done u" "u_dlres v = u_dlres u" "u_now u \<le> u_now v"
  using assms
  by (auto simp: readUDPWithContext_def set_read_deadline_def read_from_def Let_def
      split: option.splits prod.splits if_splits list.splits)

lemma ReadDiscv4_Inl:
  "ReadDiscv4 c timeout u = (Inl e, v) \<Longrightarrow> is_timeout e \<Longrightarrow> readUDPWithContext (d_ctx c) discv4MaxPacketSize timeout u = (Inl e, v)"
  by (auto simp: ReadDiscv4_def ReadDiscv4Packet_def d4_ReadRaw_def open_packet_def err_bind_Inl_iff split: prod.splits if_splits)

text \<open>What a turn of the loop that times out leaves: the same contexts, and less to wait for.\<close>

definition waits_within :: "('w, 'o, 'k) discv4_conn \<Rightarrow> int \<Rightarrow> udp \<Rightarrow> bool" where
  "waits_within c deadline u \<longleftrightarrow> ctx_consistent (d_ctx c) u \<and> (\<forall>k. u_dlres u k = None) \<and>
     (case d_ctx c of None \<Rightarrow> True | Some x \<Rightarrow> (case cdeadline x of None \<Rightarrow> True | Some d \<Rightarrow> deadline \<le> d))"

lemma expect_turn:
  assumes ok: "waits_within c deadline u" and before: "u_now u < deadline"
    and turn: "ReadDiscv4 c (max (deadline - u_now u) (100 * 10 ^ 6)) u = (Inl e, v)" "is_timeout e"
  shows "waits_within c deadline v \<and>
    (v, u) \<in> measures [\<lambda>u. length (u_events u), \<lambda>u. nat (deadline - u_now u)]"
proof -
  let ?r = "max (deadline - u_now u) (100 * 10 ^ 6)"
  note raw = ReadDiscv4_Inl [OF turn]
  have left: "0 < Remaining (u_now u) (Some (case d_ctx c of None \<Rightarrow> Background | Some c \<Rightarrow> c)) ?r"
    using before ok by (auto simp: waits_within_def Remaining_def Background_def Let_def split: option.splits)
  have live: "ctx_err u = None"
  proof (rule ccontr)
    assume "ctx_err u \<noteq> None"
    then obtain t e' where d: "u_done u = Some (t, e')" "t \<le> u_now u" "ctx_err u = Some e'"
      by (auto simp: ctx_err_def split: option.splits if_splits)
    then have "e = e'" using raw by (simp add: readUDPWithContext_def)
    then show False using d turn(2) before ok by (auto simp: waits_within_def ctx_consistent_def split: option.splits)
  qed
  have "\<nexists>k e'. u_dlres u k = Some e'" using ok by (simp add: waits_within_def)
  then show ?thesis
    using read_timeout_progress [OF raw turn(2) live left] read_keeps [OF raw] ok before
    by (auto simp: waits_within_def ctx_consistent_def)
qed

lemma expect_loop_ends: "waits_within c deadline u \<Longrightarrow> \<exists>r. expect_loop c deadline u = Some r"
proof (induction u rule: wf_induct_rule [OF wf_measures [of "[\<lambda>u. length (u_events u), \<lambda>u. nat (deadline - u_now u)]"]])
  case (1 u)
  obtain r v where r: "ReadDiscv4 c (max (deadline - u_now u) (100 * 10 ^ 6)) u = (r, v)" by (metis surj_pair)
  show ?case
  proof (cases "deadline \<le> u_now u \<or> (\<exists>x. r = Inr x) \<or> (\<exists>e. r = Inl e \<and> \<not> is_timeout e)")
    case True
    then show ?thesis using r by (auto simp: expect_loop.simps [of c deadline u] Let_def split: prod.splits)
  next
    case False
    then obtain e where e: "r = Inl e" "is_timeout e" "u_now u < deadline" by (cases r) auto
    have "\<exists>r. expect_loop c deadline v = Some r"
      using expect_turn [OF 1(2) e(3) r [unfolded e(1)] e(2)] 1(1) by blast
    then show ?thesis using r e by (simp add: expect_loop.simps [of c deadline u] Let_def)
  qed
qed

text \<open>
  C35: \<open>ExpectAnyDiscv4Reply\<close> always returns: whatever datagrams and errors arrive and however the context ends, it does not
  spin, provided the context reports a deadline error only once its deadline is over.
\<close>

theorem ExpectAnyDiscv4Reply_returns:
  assumes "ctx_consistent (d_ctx c) u" "\<forall>k. u_dlres u k = None"
  shows "\<exists>b v. ExpectAnyDiscv4Reply c timeout u = Some (b, v)"
proof -
  have "waits_within c (u_now u + Remaining (u_now u) (d_ctx c) timeout) u \<or>
      (\<exists>x d. d_ctx c = Some x \<and> cdeadline x = Some d \<and> d \<le> u_now u)"
    using assms by (auto simp: waits_within_def Remaining_def Let_def split: option.splits)
  then show ?thesis
  proof
    assume "waits_within c (u_now u + Remaining (u_now u) (d_ctx c) timeout) u"
    from expect_loop_ends [OF this] show ?thesis by (auto simp: ExpectAnyDiscv4Reply_def)
  next
    assume "\<exists>x d. d_ctx c = Some x \<and> cdeadline x = Some d \<and> d \<le> u_now u"
    then have "Remaining (u_now u) (d_ctx c) timeout = 0" by (auto simp: Remaining_def)
    then show ?thesis by (auto simp: ExpectAnyDiscv4Reply_def expect_loop.simps)
  qed
qed

lemma ExpectAnyDiscv4Reply_returns_witness:
  "\<exists>b v. ExpectAnyDiscv4Reply demo_d4_conn 10 (demo_udp [(20, Inl io_timeout)]) = Some (b, v)"
  by (rule ExpectAnyDiscv4Reply_returns) (simp_all add: ctx_consistent_def demo_udp_def)

text \<open>The first datagram decides, if it arrives before the context's deadline, or the timeout without one.\<close>

lemma first_datagram_decides:
  assumes "u_events u = (t, Inr (data, src)) # es" "arrives (d_ctx c) timeout t u"
  shows "map_option fst (ExpectAnyDiscv4Reply c timeout u) =
    Some (97 < length data \<and> SameUDPAddr (Some src) (Some (d_peer c)))"
proof -
  let ?left = "Remaining (u_now u) (d_ctx c) timeout"
  let ?rem = "max ?left (100 * 10 ^ 6)"
  have left: "0 < ?left" "t < u_now u + ?left" using assms(2) by (simp_all add: arrives_def)
  have "Remaining (u_now u) (d_ctx c) ?rem \<ge> ?left"
    by (auto simp: Remaining_def Let_def split: option.split)
  then have "arrives (d_ctx c) ?rem t u" using assms(2) left by (simp add: arrives_def)
  from read_arrives [OF this assms(1), of discv4MaxPacketSize]
  obtain v where v: "readUDPWithContext (d_ctx c) discv4MaxPacketSize ?rem u = (Inr (take discv4MaxPacketSize data, src), v)"
    by simp
  have "if 97 < length data then \<exists>ty b. ReadDiscv4 c ?rem u = (Inr (ty, b, src), v)
      else \<exists>e. ReadDiscv4 c ?rem u = (Inl e, v) \<and> \<not> is_timeout e"
    using v by (auto simp: ReadDiscv4_def ReadDiscv4Packet_def d4_ReadRaw_def open_packet_def discv4HeaderSize_def
        discv4MaxPacketSize_def)
  then show ?thesis
    using left by (auto simp: ExpectAnyDiscv4Reply_def expect_loop.simps [of c _ u] split: if_splits)
qed

text \<open>
  A datagram from another source that arrives first ends the wait of \<open>ExpectAnyDiscv4Reply\<close> with the answer no, also
  when the peer's reply is right behind it, although the function is documented to ignore datagrams from other sources.
\<close>

theorem ExpectAnyDiscv4Reply_stops_at_stranger:
  assumes "u_events u = (t, Inr (data, stranger)) # (t', Inr (reply, d_peer c)) # es"
    and "\<not> SameUDPAddr (Some stranger) (Some (d_peer c))" "arrives (d_ctx c) timeout t u"
  shows "map_option fst (ExpectAnyDiscv4Reply c timeout u) = Some False"
  using first_datagram_decides [OF assms(1,3)] assms(2) by simp

lemma ExpectAnyDiscv4Reply_stops_at_stranger_witness:
  "map_option fst (ExpectAnyDiscv4Reply demo_d4_conn 10
     (demo_udp [(5, Inr ([1], demo_addr\<lparr>ua_Port := 1\<rparr>)), (6, Inr (replicate 98 0, demo_addr))])) = Some False"
  using ExpectAnyDiscv4Reply_stops_at_stranger [where c = demo_d4_conn and t = 5 and data = "[1]" and
      stranger = "demo_addr\<lparr>ua_Port := 1\<rparr>" and t' = 6 and reply = "replicate 98 0" and es = "[]", OF _ _ demo_arrives]
  by (simp add: demo_udp_def SameUDPAddr_def demo_addr_def demo_d4_conn_def)

text \<open>
  A timeout only counts for a context without a deadline: under one, a reply after the timeout is still waited for,
  although the function is documented to wait up to the timeout.
\<close>

lemma late_arrives: "arrives (Some \<lparr>cscope = None, cdeadline = Some 1000\<rparr>) 10 500 (demo_udp es)"
  by (simp add: arrives_def demo_udp_def Remaining_def)

lemma demo_udp_events [simp]: "u_events (demo_udp es) = es" by (simp add: demo_udp_def)

lemma timeout_gives_way_to_context:
  "map_option fst (ExpectAnyDiscv4Reply (demo_d4_conn\<lparr>d_ctx := Some \<lparr>cscope = None, cdeadline = Some 1000\<rparr>\<rparr>) 10
     (demo_udp [(500, Inr (replicate 98 0, demo_addr))])) = Some True"
  by (subst first_datagram_decides [where t = 500 and es = "[]" and data = "replicate 98 0" and src = demo_addr])
    (simp_all add: late_arrives, simp add: demo_d4_conn_def)

end
