(* ===== verification/Discv5_Msgs.thy ===== *)
theory Discv5_Msgs
  imports Discv5_Wire Discv4
begin

text \<open>
  Package discovery, discv5: dialing (discv5_conn.go) and the typed messages of a session (discv5_ping.go, discv5_pong.go,
  discv5_findnode.go, discv5_nodes.go, discv5_talkreq.go, discv5_talkresp.go, discv5_regtopic.go); enode.go. RLP and the parser
  of node URLs are parameters.
\<close>

section \<open>Dialing\<close>

record 'p discv5_node = discv4_node +
  n_ID :: bytes
  n_Pubkey :: 'p

record ('k, 'p) discv5_dialer =
  dl_parse :: "string \<Rightarrow> goerr + 'p discv5_node"
  dl_copy :: "'k \<Rightarrow> goerr + 'k"
  dl_public :: "'k \<Rightarrow> 'p"
  dl_PubkeyToIDV4 :: "'p \<Rightarrow> bytes"
  dl_udp :: udp_env

definition DialDiscv5WithKey ::
    "('k, 'p) discv5_dialer \<Rightarrow> ('w, 'o, 'k) go_ctx option \<Rightarrow> string \<Rightarrow> 'k option \<Rightarrow> goerr + ('w, 'o, 'k, 'p) discv5_conn \<times> udp" where
  "DialDiscv5WithKey env ctx target priv =
     (case priv of None \<Rightarrow> Inl (Errorf ''discv5 local key is nil'' [])
      | Some priv \<Rightarrow>
        let ctx = Some (case ctx of None \<Rightarrow> Background | Some c \<Rightarrow> c)
        in err_bind (wrap_err ''parse enode: %w'' [] (dl_parse env target)) (\<lambda>node.
           if n_IP node = [] \<or> IsUnspecified (n_IP node) then Inl (Errorf ''parse enode: missing peer IP address'' [])
           else if n_UDP node < 1 \<or> 65535 < n_UDP node
           then Inl (Errorf ''parse enode: invalid UDP port %d'' [VInt (n_UDP node)])
           else
             let peer = \<lparr>ua_IP = n_IP node, ua_Port = n_UDP node, ua_Zone = ''''\<rparr>
             in err_bind (listenUDPToPeer (dl_udp env) (Some peer)) (\<lambda>fd.
                  Inr (\<lparr>v_ctx = ctx, v_peerAddr = peer, v_peerNodeID = n_ID node, v_peerStatic = Some (n_Pubkey node),
                        v_ourPriv = Some priv, v_ourNodeID = dl_PubkeyToIDV4 env (dl_public env priv)\<rparr>, fd))))"

definition DialDiscv5 ::
    "('k, 'p) discv5_dialer \<Rightarrow> ('w, 'o, 'k) go_ctx option \<Rightarrow> string \<Rightarrow> goerr + ('w, 'o, 'k, 'p) discv5_conn \<times> udp" where
  "DialDiscv5 env ctx target =
     err_bind (wrap_err ''load case participant key: %w'' [] (ParticipantELKey (dl_copy env) ctx)) (\<lambda>key.
       DialDiscv5WithKey env ctx target (Some key))"

definition v5_ReadRaw :: "('w, 'o, 'k, 'p) discv5_conn \<Rightarrow> int \<Rightarrow> udp \<Rightarrow> (goerr + bytes \<times> udp_addr) \<times> udp" where
  "v5_ReadRaw s timeout u = readUDPWithContext (v_ctx s) discv4MaxPacketSize timeout u"

definition ReadWhoAreYou ::
    "('k, 'p, 'v) discv5_env \<Rightarrow> ('w, 'o, 'k, 'p) discv5_conn \<Rightarrow> int \<Rightarrow> udp \<Rightarrow> (goerr + who_are_you) \<times> udp" where
  "ReadWhoAreYou env s timeout u = readWhoAreYou env s timeout None u"

section \<open>Node URLs\<close>

definition PeerPublicKey :: "(string \<Rightarrow> goerr + 'p discv5_node) \<Rightarrow> string \<Rightarrow> goerr + 'p" where
  "PeerPublicKey parseV4 target = err_bind (parseV4 target) (\<lambda>node. Inr (n_Pubkey node))"

text \<open>\<open>FromECDSAPub\<close> gives the 65-byte uncompressed form.\<close>

definition Discv4PublicKeyBytes :: "('p \<Rightarrow> bytes) \<Rightarrow> (string \<Rightarrow> goerr + 'p discv5_node) \<Rightarrow> string \<Rightarrow> goerr + bytes" where
  "Discv4PublicKeyBytes fromECDSAPub parseV4 target =
     err_bind (PeerPublicKey parseV4 target) (\<lambda>publicKey.
       let b = take 64 (tl (fromECDSAPub publicKey)) in Inr (b @ replicate (64 - length b) 0))"

section \<open>Messages\<close>

definition Discv5MsgPong :: byte where "Discv5MsgPong = 0x02"
definition Discv5MsgFindNode :: byte where "Discv5MsgFindNode = 0x03"
definition Discv5MsgNodes :: byte where "Discv5MsgNodes = 0x04"
definition Discv5MsgTalkRequest :: byte where "Discv5MsgTalkRequest = 0x05"
definition Discv5MsgTalkResponse :: byte where "Discv5MsgTalkResponse = 0x06"
definition Discv5MsgRegTopic :: byte where "Discv5MsgRegTopic = 0x07"

record discv5_ping =
  v5ping_RequestID :: bytes
  v5ping_ENRSeq :: u64

record discv5_pong =
  v5pong_RequestID :: bytes
  v5pong_ENRSeq :: u64
  v5pong_ToIP :: bytes
  v5pong_ToPort :: u16

record discv5_findnode =
  fn_RequestID :: bytes
  fn_Distances :: "u64 list"

record 'r discv5_nodes =
  ns_RequestID :: bytes
  ns_ResponseCount :: byte
  ns_Nodes :: "'r list"

record discv5_talkreq =
  tq_RequestID :: bytes
  tq_Protocol :: bytes
  tq_Message :: bytes

record discv5_talkresp =
  tr_RequestID :: bytes
  tr_Message :: bytes

record discv5_regtopic =
  rt_RequestID :: bytes
  rt_Topic :: bytes
  rt_ENR :: bytes
  rt_Ticket :: bytes

record 'r discv5_rlp =
  rlp_ping :: "discv5_ping \<Rightarrow> goerr + bytes"
  rlp_findnode :: "discv5_findnode \<Rightarrow> goerr + bytes"
  rlp_talkreq :: "discv5_talkreq \<Rightarrow> goerr + bytes"
  rlp_regtopic :: "discv5_regtopic \<Rightarrow> goerr + bytes"
  rlp_pong :: "bytes \<Rightarrow> goerr + discv5_pong"
  rlp_nodes :: "bytes \<Rightarrow> goerr + 'r discv5_nodes"
  rlp_talkresp :: "bytes \<Rightarrow> goerr + discv5_talkresp"

definition v5_SendPing ::
    "'r discv5_rlp \<Rightarrow> ('k, 'p, 'v) discv5_env \<Rightarrow> ('w, 'o, 'k, 'p) discv5_conn \<Rightarrow> randoms \<Rightarrow> discv5_session option \<Rightarrow> discv5_ping \<Rightarrow>
     udp \<Rightarrow> goerr option \<times> ('o \<times> write_event) list \<times> udp" where
  "v5_SendPing rlp env s rd sess ping u =
     (case rlp_ping rlp ping of Inl e \<Rightarrow> (Some e, [], u) | Inr body \<Rightarrow> SendOrdinary env s rd sess Discv5MsgPing body u)"

definition SendFindNode ::
    "'r discv5_rlp \<Rightarrow> ('k, 'p, 'v) discv5_env \<Rightarrow> ('w, 'o, 'k, 'p) discv5_conn \<Rightarrow> randoms \<Rightarrow> discv5_session option \<Rightarrow>
     discv5_findnode \<Rightarrow> udp \<Rightarrow> goerr option \<times> ('o \<times> write_event) list \<times> udp" where
  "SendFindNode rlp env s rd sess req u =
     (case rlp_findnode rlp req of Inl e \<Rightarrow> (Some e, [], u) | Inr body \<Rightarrow> SendOrdinary env s rd sess Discv5MsgFindNode body u)"

definition SendTalkRequest ::
    "'r discv5_rlp \<Rightarrow> ('k, 'p, 'v) discv5_env \<Rightarrow> ('w, 'o, 'k, 'p) discv5_conn \<Rightarrow> randoms \<Rightarrow> discv5_session option \<Rightarrow>
     discv5_talkreq \<Rightarrow> udp \<Rightarrow> goerr option \<times> ('o \<times> write_event) list \<times> udp" where
  "SendTalkRequest rlp env s rd sess req u =
     (case rlp_talkreq rlp req of Inl e \<Rightarrow> (Some e, [], u) | Inr body \<Rightarrow> SendOrdinary env s rd sess Discv5MsgTalkRequest body u)"

definition SendRegTopic ::
    "'r discv5_rlp \<Rightarrow> ('k, 'p, 'v) discv5_env \<Rightarrow> ('w, 'o, 'k, 'p) discv5_conn \<Rightarrow> randoms \<Rightarrow> discv5_session option \<Rightarrow>
     discv5_regtopic \<Rightarrow> udp \<Rightarrow> goerr option \<times> ('o \<times> write_event) list \<times> udp" where
  "SendRegTopic rlp env s rd sess req u =
     (case rlp_regtopic rlp req of Inl e \<Rightarrow> (Some e, [], u) | Inr body \<Rightarrow> SendOrdinary env s rd sess Discv5MsgRegTopic body u)"

definition nil_packet :: goerr where "nil_packet = Errorf ''nil packet'' []"

definition DecodeNodes :: "'r discv5_rlp \<Rightarrow> ordinary_packet option \<Rightarrow> goerr + 'r discv5_nodes" where
  "DecodeNodes rlp packet =
     (case packet of None \<Rightarrow> Inl nil_packet
      | Some p \<Rightarrow>
        if op_MessageType p \<noteq> Discv5MsgNodes
        then Inl (Errorf ''expected NODES, got msg type 0x%02x'' [VNat (unat (op_MessageType p))])
        else rlp_nodes rlp (op_Body p))"

definition DecodePong :: "'r discv5_rlp \<Rightarrow> ordinary_packet option \<Rightarrow> goerr + discv5_pong" where
  "DecodePong rlp packet =
     (case packet of None \<Rightarrow> Inl nil_packet
      | Some p \<Rightarrow>
        if op_MessageType p \<noteq> Discv5MsgPong
        then Inl (Errorf ''expected PONG, got msg type 0x%02x'' [VNat (unat (op_MessageType p))])
        else rlp_pong rlp (op_Body p))"

definition DecodeTalkResponse :: "'r discv5_rlp \<Rightarrow> ordinary_packet option \<Rightarrow> goerr + discv5_talkresp" where
  "DecodeTalkResponse rlp packet =
     (case packet of None \<Rightarrow> Inl nil_packet
      | Some p \<Rightarrow>
        if op_MessageType p \<noteq> Discv5MsgTalkResponse
        then Inl (Errorf ''expected TALKRESP, got msg type 0x%02x'' [VNat (unat (op_MessageType p))])
        else rlp_talkresp rlp (op_Body p))"

text \<open>A response is decoded only from a message of its own type: no body is accepted by two of the decoders.\<close>

lemma decoders_disjoint:
  "DecodeNodes rlp p = Inr a \<Longrightarrow> \<exists>e. DecodePong rlp p = Inl e" "DecodeNodes rlp p = Inr a \<Longrightarrow> \<exists>e. DecodeTalkResponse rlp p = Inl e"
  "DecodePong rlp p = Inr b \<Longrightarrow> \<exists>e. DecodeTalkResponse rlp p = Inl e"
  by (auto simp: DecodeNodes_def DecodePong_def DecodeTalkResponse_def Discv5MsgNodes_def Discv5MsgPong_def
      Discv5MsgTalkResponse_def split: option.splits if_splits)

section \<open>Accessors\<close>

text \<open>A nil session or one without a socket has no local address; keys and identifiers are values here.\<close>

definition v5_LocalAddr :: "('w, 'o, 'k, 'p) discv5_conn option \<Rightarrow> udp option \<Rightarrow> udp_addr option" where
  "v5_LocalAddr s fd = (case (s, fd) of (Some _, Some u) \<Rightarrow> Some (u_local u) | _ \<Rightarrow> None)"

definition v5_PeerAddr :: "('w, 'o, 'k, 'p) discv5_conn \<Rightarrow> udp_addr" where "v5_PeerAddr s = v_peerAddr s"
definition v5_PeerNodeID :: "('w, 'o, 'k, 'p) discv5_conn \<Rightarrow> bytes" where "v5_PeerNodeID s = v_peerNodeID s"
definition v5_PeerPublicKey :: "('w, 'o, 'k, 'p) discv5_conn \<Rightarrow> 'p option" where "v5_PeerPublicKey s = v_peerStatic s"
definition v5_LocalNodeID :: "('w, 'o, 'k, 'p) discv5_conn \<Rightarrow> bytes" where "v5_LocalNodeID s = v_ourNodeID s"
definition v5_PrivateKey :: "('w, 'o, 'k, 'p) discv5_conn \<Rightarrow> 'k option" where "v5_PrivateKey s = v_ourPriv s"

end
