(* ===== verification/Discv5_Peer.thy ===== *)
theory Discv5_Peer
  imports Discv5_Wire
begin

text \<open>
  The recipient of a discv5 handshake by the specification, with its own masking, header and checks, none of them taken
  from the model of the code: it accepts what \<open>EstablishSessionWithENR\<close> sends and ends with the same keys.
\<close>

section \<open>The recipient\<close>

text \<open>
  A packet opened under the own identifier: flag, nonce, authentication data, the associated data \<open>masking-iv || header\<close>
  and the message behind them, if protocol identifier and version are those of the specification.
\<close>

definition open_header :: "(bytes \<Rightarrow> bytes \<Rightarrow> bytes) \<Rightarrow> bytes \<Rightarrow> bytes \<Rightarrow> (byte \<times> bytes \<times> bytes \<times> bytes \<times> bytes) option" where
  "open_header aes us pkt =
     (let iv = take 16 pkt; plain = spec_mask aes us iv (drop 16 pkt);
          size = unat (plain ! 21) * 256 + unat (plain ! 22); header = take (23 + size) plain
      in if length pkt < 39 + size \<or> take 8 plain \<noteq> [0x64, 0x69, 0x73, 0x63, 0x76, 0x35, 0, 1] then None
         else Some (plain ! 8, take 12 (drop 9 plain), drop 23 header, iv @ header, drop (39 + size) pkt))"

record accepted =
  ac_source :: bytes
  ac_ephemeral :: bytes
  ac_record :: bytes
  ac_message :: bytes
  ac_initiatorKey :: bytes
  ac_recipientKey :: bytes

text \<open>
  \<open>authdata = src-id || sig-size || eph-key-size || id-signature || eph-pubkey || record\<close> with the sizes 64 and 33 of the
  identity scheme "v4". The signature is checked with the key that the recipient knows for the source, on
  \<open>sha256("discovery v5 identity proof" || challenge-data || ephemeral-pubkey || node-id-B)\<close>; the keys are
  \<open>HKDF(ecdh(static, ephemeral-pubkey), challenge-data, "discovery v5 key agreement" || node-id-A || node-id-B)\<close>.
\<close>

definition recipient_accepts ::
    "('k, 'p, 'v) discv5_env \<Rightarrow> ('p \<Rightarrow> bytes \<Rightarrow> bytes \<Rightarrow> bool) \<Rightarrow> (bytes \<Rightarrow> 'p option) \<Rightarrow> 'k \<Rightarrow> bytes \<Rightarrow> bytes \<Rightarrow> bytes \<Rightarrow> accepted option" where
  "recipient_accepts env verify known static us challenge pkt =
     (case open_header (v5_aes env) us pkt of None \<Rightarrow> None | Some (flag, nonce, auth, aad, message) \<Rightarrow>
        let source = take 32 auth; sig = take 64 (drop 34 auth); eph = take 33 (drop 98 auth) in
        if flag \<noteq> 2 \<or> length auth < 131 \<or> auth ! 32 \<noteq> 64 \<or> auth ! 33 \<noteq> 33 then None
        else case known source of None \<Rightarrow> None | Some pub \<Rightarrow>
          if \<not> verify pub (v5_sha256 env (string_bytes ''discovery v5 identity proof'' @ challenge @ eph @ us)) sig then None
          else case v5_parse env eph of Inl _ \<Rightarrow> None | Inr point \<Rightarrow>
            (case v5_mult env static point of None \<Rightarrow> None | Some shared \<Rightarrow>
              let keys = v5_hkdf env (v5_compress env shared) challenge
                    (string_bytes ''discovery v5 key agreement'' @ source @ us) 32
              in case v5_open env (v5_aes env (take 16 keys)) nonce message aad of Inl _ \<Rightarrow> None | Inr plain \<Rightarrow>
                Some \<lparr>ac_source = source, ac_ephemeral = eph, ac_record = drop 131 auth, ac_message = plain,
                      ac_initiatorKey = take 16 keys, ac_recipientKey = drop 16 keys\<rparr>))"

text \<open>
  The laws: compressed points have 33 bytes and parse back, Diffie-Hellman commutes, and a signature, of 65 bytes with its
  recovery identifier, verifies without it under the public key.
\<close>

definition curve_laws :: "('k, 'p, 'v) discv5_env \<Rightarrow> bool" where
  "curve_laws env \<longleftrightarrow> (\<forall>p. v5_parse env (v5_compress env p) = Inr p \<and> length (v5_compress env p) = 33) \<and>
     (\<forall>a b. v5_mult env a (v5_public env b) = v5_mult env b (v5_public env a))"

definition signature_laws :: "('k, 'p, 'v) discv5_env \<Rightarrow> ('p \<Rightarrow> bytes \<Rightarrow> bytes \<Rightarrow> bool) \<Rightarrow> bool" where
  "signature_laws env verify \<longleftrightarrow> (\<forall>data k full. v5_sign env (v5_sha256 env data) k = Inr full \<longrightarrow>
     length full = 65 \<and> verify (v5_public env k) (v5_sha256 env data) (take 64 full))"

section \<open>What the code sends is accepted\<close>

lemma length_spec_mask [simp]: "length (spec_mask aes us iv xs) = length xs" by (simp add: spec_mask_def)

lemma length_spec_header [simp]: "length (spec_header flag nonce auth) = 11 + length nonce + length auth"
  by (simp add: spec_header_def)

lemma nth_spec_mask: "i < length xs \<Longrightarrow> spec_mask aes us iv xs ! i =
    xs ! i XOR aes (take 16 us) (be_bytes 16 (be_val iv + of_nat (i div 16) :: 128 word)) ! (i mod 16)"
  by (simp add: spec_mask_def)

lemma take_spec_mask: "n \<le> length xs \<Longrightarrow> take n (spec_mask aes us iv (spec_mask aes us iv xs @ ys)) = take n xs"
  by (rule nth_equalityI) (simp_all add: nth_spec_mask nth_append xor.assoc)

lemma open_header_of:
  assumes "length iv = 16" "length nonce = 12" "length auth < 65536"
  shows "open_header aes us (iv @ spec_mask aes us iv (spec_header flag nonce auth) @ ct) =
    Some (flag, nonce, auth, iv @ spec_header flag nonce auth, ct)"
proof -
  let ?h = "spec_header flag nonce auth" and ?n = "length auth"
  let ?p = "spec_mask aes us iv (spec_mask aes us iv ?h @ ct)"
  have l: "length ?h = 23 + ?n" using assms(2) by simp
  then have p: "take (23 + ?n) ?p = ?h" using take_spec_mask [of "23 + ?n" ?h aes us iv ct] by simp
  then obtain rest where rest: "?p = ?h @ rest" by (metis append_take_drop_id)
  have h: "take 8 (?h @ rest) = [0x64, 0x69, 0x73, 0x63, 0x76, 0x35, 0, 1]" "(?h @ rest) ! 8 = flag"
    "take 12 (drop 9 (?h @ rest)) = nonce" "drop 23 ?h = auth"
    "(?h @ rest) ! 21 = of_nat (?n div 256)" "(?h @ rest) ! 22 = of_nat (?n mod 256)"
    using assms(2) by (simp_all add: spec_header_def nth_append)
  have "?n div 256 < 256" using assms(3) by (simp add: less_mult_imp_div_less)
  then have "unat (of_nat (?n div 256) :: byte) * 256 + unat (of_nat (?n mod 256) :: byte) = ?n"
    by (simp add: unsigned_of_nat take_bit_nat_eq_self)
  then show ?thesis
    using assms(1) l h by (simp add: open_header_def rest Let_def)
qed

lemma SignIDSignature_length: "SignIDSignature env challenge eph peer priv = Inr sig \<Longrightarrow> length sig < 256"
  by (auto simp: SignIDSignature_def err_bind_Inr_iff split: option.splits)

lemma checked_Inr:
  "checkedUint16Length label n = Inr x \<longleftrightarrow> n < 65536 \<and> x = of_nat n"
  "checkedByteLength label n = Inr y \<longleftrightarrow> n < 256 \<and> y = of_nat n"
  by (auto simp: checkedUint16Length_def checkedByteLength_def)

lemma sendHandshakeMessage_sent:
  assumes "sendHandshakeMessage env s rd (Some w) record' u = (Inr (nonce, sess), v)"
  shows "\<exists>eph cp sig iv rec pkt. v5_generate env = Inr eph \<and> cp = v5_compress env (v5_public env eph) \<and> rd_iv rd = Inr iv \<and>
    SignIDSignature env (ChallengeData w) cp (v_peerNodeID s) (v_ourPriv s) = Inr sig \<and>
    DeriveDiscv5SessionKeys env (Some eph) (v_peerStatic s) (ChallengeData w) (v_ourNodeID s) (v_peerNodeID s) =
      Inr (initiatorKey sess, recipientKey sess) \<and>
    (case record' of Some r \<Rightarrow> rec = r | None \<Rightarrow> BuildV4ENR (v5_enr env) 1 (v_ourPriv s) = Inr rec) \<and>
    length cp < 256 \<and> 34 + length sig + length cp + length rec < 65536 \<and>
    seal_packet env (v_peerNodeID s) (initiatorKey sess) nonce iv
      (static_header Discv5FlagHandshake nonce (of_nat (34 + length sig + length cp + length rec)) @
       handshake_authdata (v_ourNodeID s) sig (of_nat (length cp)) cp rec) [Discv5MsgPing, 0xC2, 0x01, 0x80] = Inr pkt \<and>
    u_sent v = u_sent u @ [(pkt, v_peerAddr s)] \<and> sourceID sess = v_ourNodeID s"
proof -
  have w: "write_to pkt a u = (None, v) \<Longrightarrow> u_sent v = u_sent u @ [(pkt, a)]" for pkt a by (auto simp: write_to_def)
  show ?thesis
    using assms
    by (cases record')
      (auto simp: sendHandshakeMessage_def err_bind_Inr_iff checked_Inr Let_def discv5HandshakeAuthHeaderSize_def
        split: sum.splits prod.splits option.splits dest!: w)
qed

text \<open>A challenge is one that the peer sent, for the expected packet.\<close>

lemma readUDP_sent: "readUDPWithContext ctx sz t u = (r, v) \<Longrightarrow> u_sent v = u_sent u"
  by (auto simp: readUDPWithContext_def set_read_deadline_def read_from_def Let_def
      split: option.splits if_splits prod.splits list.splits)

lemma read_whoareyou_Inr:
  assumes "read_whoareyou env s deadline (Some nonce) u = (Inr w, v)"
  shows "\<exists>t data src. (t, Inr (data, src)) \<in> set (u_events u) \<and> SameUDPAddr (Some src) (Some (v_peerAddr s)) \<and>
    decodeWhoAreYou env s (take 1280 data) = Inr w \<and> wy_Nonce w = nonce \<and> u_sent v = u_sent u"
  using assms
proof (induction "length (u_events u)" arbitrary: u rule: less_induct)
  case (less u)
  obtain r u' where r: "readUDPWithContext (v_ctx s) 1280 (deadline - u_now u) u = (r, u')" by (metis surj_pair)
  have sub: "r = Inr y \<Longrightarrow> set (u_events u') \<subseteq> set (u_events u)" for y
    using r readUDP_event [of "v_ctx s" 1280 "deadline - u_now u" u "fst y" "snd y" u'] by auto
  have here: "\<exists>t data. (t, Inr (data, src)) \<in> set (u_events u) \<and> p = take 1280 data" if "r = Inr (p, src)" for p src
    using r readUDP_event [of "v_ctx s" 1280 "deadline - u_now u" u p src u'] that by (metis list.set_intros(1))
  from less.prems r obtain p src where rp: "r = Inr (p, src)" and live: "0 < deadline - u_now u"
    by (subst (asm) read_whoareyou.simps) (auto simp: Let_def split: if_splits sum.splits)
  show ?case
  proof (cases "SameUDPAddr (Some src) (Some (v_peerAddr s)) \<and> (\<exists>c. decodeWhoAreYou env s p = Inr c \<and> wy_Nonce c = nonce)")
    case True
    then have "decodeWhoAreYou env s p = Inr w" using less.prems r rp live
      by (subst (asm) read_whoareyou.simps) (auto simp: Let_def)
    moreover have "v = u'" using True less.prems r rp live
      by (subst (asm) read_whoareyou.simps) (auto simp: Let_def)
    ultimately show ?thesis using True here [OF rp] readUDP_sent [OF r] by auto
  next
    case False
    then have "read_whoareyou env s deadline (Some nonce) u' = (Inr w, v)"
      using less.prems r rp live by (subst (asm) read_whoareyou.simps) (auto simp: Let_def split: if_splits sum.splits)
    from less.hyps [OF _ this] readUDP_Inr [OF r [unfolded rp]]
    show ?thesis using sub [OF rp] readUDP_sent [OF r] by auto
  qed
qed

lemma SignIDSignature_Inr:
  assumes "signature_laws env verify" "SignIDSignature env challenge eph us (Some priv) = Inr sig"
  shows "length sig = 64 \<and>
    verify (v5_public env priv) (v5_sha256 env (string_bytes ''discovery v5 identity proof'' @ challenge @ eph @ us)) sig"
  using assms by (auto simp: SignIDSignature_def IDSignatureHash_def signature_laws_def err_bind_Inr_iff)

lemma DeriveDiscv5SessionKeys_Inr:
  assumes "curve_laws env"
    and "DeriveDiscv5SessionKeys env (Some eph) (Some (v5_public env static)) challenge source us = Inr (ik, rk)"
  shows "\<exists>shared keys. v5_mult env static (v5_public env eph) = Some shared \<and>
    v5_hkdf env (v5_compress env shared) challenge (string_bytes ''discovery v5 key agreement'' @ source @ us) 32 = keys \<and>
    ik = take 16 keys \<and> rk = drop 16 keys"
proof -
  have "v5_mult env static (v5_public env eph) = v5_mult env eph (v5_public env static)"
    using assms(1) by (simp add: curve_laws_def)
  then show ?thesis
    using assms by (auto simp: DeriveDiscv5SessionKeys_def ecdhSecret_def curve_laws_def err_bind_Inr_iff
        Discv5AESKeySize_def Let_def split: option.splits)
qed

lemma handshake_is_accepted:
  assumes laws: "aead_laws env" "curve_laws env" "signature_laws env verify" "random_ok rd"
    and s: "length (v_ourNodeID s) = 32" "v_peerStatic s = Some (v5_public env static)" "v_ourPriv s = Some priv"
      "known (v_ourNodeID s) = Some (v5_public env priv)"
    and hs: "sendHandshakeMessage env s rd (Some w) record' u = (Inr (nonce, sess), v)"
  shows "\<exists>pkt eph rec. u_sent v = u_sent u @ [(pkt, v_peerAddr s)] \<and> sourceID sess = v_ourNodeID s \<and>
    (case record' of Some r \<Rightarrow> rec = r | None \<Rightarrow> BuildV4ENR (v5_enr env) 1 (Some priv) = Inr rec) \<and>
    recipient_accepts env verify known static (v_peerNodeID s) (ChallengeData w) pkt =
      Some \<lparr>ac_source = v_ourNodeID s, ac_ephemeral = eph, ac_record = rec, ac_message = [1, 0xC2, 1, 0x80],
        ac_initiatorKey = initiatorKey sess, ac_recipientKey = recipientKey sess\<rparr>"
proof -
  let ?us = "v_peerNodeID s" and ?src = "v_ourNodeID s"
  obtain eph cp sig iv rec pkt where cp: "cp = v5_compress env (v5_public env eph)" and iv: "rd_iv rd = Inr iv"
    and sig: "SignIDSignature env (ChallengeData w) cp ?us (Some priv) = Inr sig"
    and keys: "DeriveDiscv5SessionKeys env (Some eph) (Some (v5_public env static)) (ChallengeData w) ?src ?us =
      Inr (initiatorKey sess, recipientKey sess)"
    and rec: "case record' of Some r \<Rightarrow> rec = r | None \<Rightarrow> BuildV4ENR (v5_enr env) 1 (Some priv) = Inr rec"
    and small: "34 + length sig + length cp + length rec < 65536"
    and seal: "seal_packet env ?us (initiatorKey sess) nonce iv
      (static_header Discv5FlagHandshake nonce (of_nat (34 + length sig + length cp + length rec)) @
       handshake_authdata ?src sig (of_nat (length cp)) cp rec) [Discv5MsgPing, 0xC2, 0x01, 0x80] = Inr pkt"
    and sent: "u_sent v = u_sent u @ [(pkt, v_peerAddr s)]" "sourceID sess = ?src"
    using sendHandshakeMessage_sent [OF hs, unfolded s(2,3)] by blast
  let ?ik = "initiatorKey sess" and ?rk = "recipientKey sess"
  note ok = SignIDSignature_Inr [OF laws(3) sig]
  obtain shared ks where k: "v5_mult env static (v5_public env eph) = Some shared"
    "v5_hkdf env (v5_compress env shared) (ChallengeData w) (string_bytes ''discovery v5 key agreement'' @ ?src @ ?us) 32 = ks"
    "?ik = take 16 ks" "?rk = drop 16 ks"
    using DeriveDiscv5SessionKeys_Inr [OF laws(2) keys] by blast
  have lcp: "length cp = 33" "v5_parse env cp = Inr (v5_public env eph)" using laws(2) cp by (simp_all add: curve_laws_def)
  define auth where "auth = ?src @ [64, 33] @ sig @ cp @ rec"
  have auth: "handshake_authdata ?src sig (of_nat (length cp)) cp rec = auth" "length auth = 34 + length sig + length cp + length rec"
    using ok lcp s(1) by (simp_all add: handshake_authdata_def auth_def)
  let ?h = "spec_header 2 nonce auth"
  have "static_header Discv5FlagHandshake nonce (of_nat (length auth)) @ auth = ?h"
    using static_header_spec [of auth 2 nonce] small auth(2) by (simp add: Discv5FlagHandshake_def)
  then obtain block where n: "length nonce = 12" and c: "NewCipher (v5_aes env) ?ik = Inr block"
    and p: "pkt = iv @ spec_mask (v5_aes env) ?us iv ?h @ v5_seal env block nonce [1, 0xC2, 1, 0x80] (iv @ ?h)"
    using seal_packet_Inr [OF seal [unfolded auth(1), folded auth(2)]] by (auto simp: applyMaskCTR_spec Discv5MsgPing_def)
  have o: "open_header (v5_aes env) ?us pkt = Some (2, nonce, auth, iv @ ?h, v5_seal env block nonce [1, 0xC2, 1, 0x80] (iv @ ?h))"
    using open_header_of [OF _ n] laws(4) iv small auth(2) by (simp add: p random_ok_def)
  have b: "block = v5_aes env ?ik" using c by (simp add: NewCipher_def split: if_splits)
  have parts: "take 32 auth = ?src" "take 64 (drop 34 auth) = sig" "take 33 (drop 98 auth) = cp" "drop 131 auth = rec"
    "auth ! 32 = 64" "auth ! 33 = 33" "\<not> length auth < 131"
    using ok lcp(1) s(1) by (simp_all add: auth_def nth_append)
  have "recipient_accepts env verify known static ?us (ChallengeData w) pkt =
      Some \<lparr>ac_source = ?src, ac_ephemeral = cp, ac_record = rec, ac_message = [1, 0xC2, 1, 0x80], ac_initiatorKey = ?ik, ac_recipientKey = ?rk\<rparr>"
    unfolding recipient_accepts_def o Let_def
    using laws(1) s(4) ok lcp(2) k(1) k(3,4) [symmetric] by (simp add: parts k(2) b aead_laws_def)
  then show ?thesis using sent rec by blast
qed

text \<open>The first packet, an ordinary one that nobody can decrypt, shows its nonce and the identifier of this node.\<close>

lemma SendRandomOrdinary_Inr:
  assumes "SendRandomOrdinary env s rd u = (Inr nonce, v)"
  shows "\<exists>iv msg. rd_nonce rd = Inr nonce \<and> rd_iv rd = Inr iv \<and> rd_msg rd = Inr msg \<and> u_events v = u_events u \<and>
    u_sent v = u_sent u @ [(iv @ applyMaskCTR env (v_peerNodeID s) iv
      (static_header Discv5FlagOrdinary nonce (of_nat (length (v_ourNodeID s))) @ v_ourNodeID s) @ msg, v_peerAddr s)]"
  using assms
  by (auto simp: SendRandomOrdinary_def write_to_def err_bind_Inr_iff Let_def split: sum.splits prod.splits option.splits)

definition random_sizes :: "randoms \<Rightarrow> bool" where
  "random_sizes rd \<longleftrightarrow> (\<forall>n. rd_nonce rd = Inr n \<longrightarrow> length n = 12) \<and> (\<forall>iv. rd_iv rd = Inr iv \<longrightarrow> length iv = 16)"

lemma first_packet:
  assumes "random_sizes rd" "length (v_ourNodeID s) = 32" "SendRandomOrdinary env s rd u = (Inr nonce, v)"
  shows "\<exists>pkt aad msg. rd_nonce rd = Inr nonce \<and> u_events v = u_events u \<and> u_sent v = u_sent u @ [(pkt, v_peerAddr s)] \<and>
    open_header (v5_aes env) (v_peerNodeID s) pkt = Some (0, nonce, v_ourNodeID s, aad, msg)"
proof -
  obtain iv msg where f: "rd_nonce rd = Inr nonce" "rd_iv rd = Inr iv" "u_events v = u_events u"
    "u_sent v = u_sent u @ [(iv @ applyMaskCTR env (v_peerNodeID s) iv
      (static_header Discv5FlagOrdinary nonce (of_nat (length (v_ourNodeID s))) @ v_ourNodeID s) @ msg, v_peerAddr s)]"
    using SendRandomOrdinary_Inr [OF assms(3)] by blast
  have h: "static_header Discv5FlagOrdinary nonce (of_nat (length (v_ourNodeID s))) @ v_ourNodeID s = spec_header 0 nonce (v_ourNodeID s)"
    using static_header_spec [of "v_ourNodeID s" 0 nonce] assms(2) by (simp add: Discv5FlagOrdinary_def)
  have "length iv = 16" "length nonce = 12" "length (v_ourNodeID s) < 65536" using assms(1,2) f(1,2) by (simp_all add: random_sizes_def)
  from open_header_of [OF this] show ?thesis using f(1,3,4) unfolding h applyMaskCTR_spec by blast
qed

section \<open>Sessions\<close>

text \<open>
  C20: A session that \<open>EstablishSessionWithENR\<close> returns is shared with the peer. Two packets were written to the peer: an
  ordinary one in which the peer finds the identifier of this node and a nonce, and a handshake packet. Among the datagrams
  received there was one from the peer's address that is a WHOAREYOU packet of the discv5 specification for that nonce, and
  a peer that sent this challenge accepts the handshake: protocol identifier, version, flag and sizes are right, the
  identity signature over its challenge verifies with the key that it knows for this node, the record and the ping arrive,
  and its session keys are those of the session. The recipient is the specification's and shares no definition with the code.
\<close>

theorem established_session_is_shared:
  assumes "aead_laws env" "curve_laws env" "signature_laws env verify" "random_sizes rd1" "random_sizes rd2"
    and "length (v_ourNodeID s) = 32" "v_peerStatic s = Some (v5_public env static)" "v_ourPriv s = Some priv"
    and "known (v_ourNodeID s) = Some (v5_public env priv)"
    and "EstablishSessionWithENR env s rd1 rd2 record' u = (Inr sess, v)"
  shows "\<exists>first second nonce aad msg t data src iv idNonce seq eph rec.
    u_sent v = u_sent u @ [(first, v_peerAddr s), (second, v_peerAddr s)] \<and> rd_nonce rd1 = Inr nonce \<and>
    open_header (v5_aes env) (v_peerNodeID s) first = Some (0, nonce, v_ourNodeID s, aad, msg) \<and>
    (t, Inr (data, src)) \<in> set (u_events u) \<and> SameUDPAddr (Some src) (Some (v_peerAddr s)) \<and>
    take 1280 data = whoareyou_packet env (v_ourNodeID s) iv nonce idNonce seq \<and>
    (case record' of Some r \<Rightarrow> rec = r | None \<Rightarrow> BuildV4ENR (v5_enr env) 1 (Some priv) = Inr rec) \<and>
    recipient_accepts env verify known static (v_peerNodeID s) (iv @ whoareyou_header nonce idNonce seq) second =
      Some \<lparr>ac_source = sourceID sess, ac_ephemeral = eph, ac_record = rec, ac_message = [1, 0xC2, 1, 0x80],
        ac_initiatorKey = initiatorKey sess, ac_recipientKey = recipientKey sess\<rparr>"
proof -
  obtain nonce u1 w u2 n where first: "SendRandomOrdinary env s rd1 u = (Inr nonce, u1)"
    and challenge: "readWhoAreYou env s (2 * 10 ^ 9) (Some nonce) u1 = (Inr w, u2)"
    and hs: "sendHandshakeMessage env s rd2 (Some w) record' u2 = (Inr (n, sess), v)"
    using assms(10)
    by (auto simp: EstablishSessionWithENR_def completeHandshake_def err_bind_Inr_iff split: sum.splits prod.splits)
  obtain p1 aad msg where 1: "rd_nonce rd1 = Inr nonce" "u_events u1 = u_events u" "u_sent u1 = u_sent u @ [(p1, v_peerAddr s)]"
    "open_header (v5_aes env) (v_peerNodeID s) p1 = Some (0, nonce, v_ourNodeID s, aad, msg)"
    using first_packet [OF assms(4,6) first] by blast
  obtain t data src where d: "(t, Inr (data, src)) \<in> set (u_events u)" "SameUDPAddr (Some src) (Some (v_peerAddr s))"
    "decodeWhoAreYou env s (take 1280 data) = Inr w" "wy_Nonce w = nonce" and sent: "u_sent u2 = u_sent u1"
    using read_whoareyou_Inr [OF challenge [unfolded readWhoAreYou_def]] 1(2) by auto
  obtain iv idNonce seq where w: "take 1280 data = whoareyou_packet env (v_ourNodeID s) iv nonce idNonce seq"
    "ChallengeData w = iv @ whoareyou_header nonce idNonce seq"
    using whoareyou_accepted [OF d(3)] d(4) by auto
  have "random_ok rd2" using assms(5) by (simp add: random_ok_def random_sizes_def)
  from handshake_is_accepted [where known = known, OF assms(1-3) this assms(6-9) hs]
  show ?thesis using 1(1,3,4) d(1,2) w sent by fastforce
qed

lemma demo_v5_curve: "curve_laws demo_v5" by (simp add: curve_laws_def demo_v5_def mult.commute)

definition demo_verify :: "byte \<Rightarrow> bytes \<Rightarrow> bytes \<Rightarrow> bool" where "demo_verify pub digest sig \<longleftrightarrow> sig = replicate 64 pub"

lemma demo_v5_signature: "signature_laws demo_v5 demo_verify" "random_sizes demo_rd"
  by (simp_all add: signature_laws_def demo_v5_def demo_verify_def random_sizes_def demo_rd_def)

definition demo_challenge :: bytes where
  "demo_challenge = whoareyou_packet demo_v5 (replicate 32 1) (replicate 16 6) (replicate 12 9) (replicate 16 3) 4"

definition demo_peer :: udp_addr where "demo_peer = \<lparr>ua_IP = [127, 0, 0, 1], ua_Port = 30303, ua_Zone = ''''\<rparr>"

lemma demo_established:
  "\<exists>sess v. EstablishSessionWithENR demo_v5 (demo_v5_conn (replicate 32 1) (replicate 32 2)) demo_rd demo_rd (Some [8])
     (demo_u [(5, Inr (demo_challenge, demo_peer))]) = (Inr sess, v)"
proof -
  let ?s = "demo_v5_conn (replicate 32 1) (replicate 32 2)"
  obtain u1 where first: "SendRandomOrdinary demo_v5 ?s demo_rd (demo_u [(5, Inr (demo_challenge, demo_peer))]) = (Inr (replicate 12 9), u1)"
    and u1: "u_events u1 = [(5, Inr (demo_challenge, demo_peer))]" "u_now u1 = 0" "u_done u1 = None" "\<forall>k. u_dlres u1 k = None"
      "\<forall>k. u_sendres u1 k = None"
    by (simp add: SendRandomOrdinary_def demo_rd_def write_to_def demo_u_def Let_def)
  have "decodeWhoAreYou demo_v5 ?s demo_challenge = Inr \<lparr>ChallengeData = replicate 16 6 @ whoareyou_header (replicate 12 9) (replicate 16 3) 4,
      IDNonce = replicate 16 3, RecordSeq = 4, wy_Nonce = replicate 12 9\<rparr>" (is "_ = Inr ?w")
    using decode_whoareyou_packet [where s = ?s and env = demo_v5] by (simp add: demo_challenge_def demo_v5_conn_def)
  moreover have "length demo_challenge = 63" by (simp add: demo_challenge_def whoareyou_packet_def whoareyou_header_def)
  moreover have "hears (v_ctx ?s) (2 * 10 ^ 9) 5 u1" using u1 by (simp add: hears_def demo_v5_conn_def)
  from hears_read [OF this order_refl u1(1), of 1280] obtain u2 where
    u2: "readUDPWithContext (v_ctx ?s) 1280 (2 * 10 ^ 9) u1 = (Inr (take 1280 demo_challenge, demo_peer), u2)" using u1(2) by auto
  moreover have "v_peerAddr ?s = demo_peer" by (simp add: demo_v5_conn_def demo_peer_def)
  moreover have "Remaining 0 (v_ctx ?s) (2 * 10 ^ 9) = 2 * 10 ^ 9" by (simp add: Remaining_def demo_v5_conn_def)
  ultimately have r: "readWhoAreYou demo_v5 ?s (2 * 10 ^ 9) (Some (replicate 12 9)) u1 = (Inr ?w, u2)"
    using u1(2) by (simp add: readWhoAreYou_def read_whoareyou.simps [of demo_v5 ?s])
  have keep: "u_sendres u2 = u_sendres u1"
    using u2 by (auto simp: readUDPWithContext_def set_read_deadline_def read_from_def Let_def
      split: option.splits if_splits prod.splits list.splits)
  have "\<exists>x v. sendHandshakeMessage demo_v5 ?s demo_rd (Some ?w) (Some [8]) u2 = (Inr x, v)"
    using keep u1(5)
    by (simp add: sendHandshakeMessage_def SignIDSignature_def checkedByteLength_def DeriveDiscv5SessionKeys_def ecdhSecret_def
        checkedUint16Length_def discv5HandshakeAuthHeaderSize_def seal_packet_def SealDiscv5Message_def gcmSeal_def NewCipher_def
        discv5GCMNonceSize_def Discv5AESKeySize_def demo_v5_def demo_rd_def demo_v5_conn_def write_to_def Let_def)
  then show ?thesis using first r by (auto simp: EstablishSessionWithENR_def completeHandshake_def)
qed

lemma established_session_is_shared_witness:
  "\<exists>sess v. EstablishSessionWithENR demo_v5 (demo_v5_conn (replicate 32 1) (replicate 32 2)) demo_rd demo_rd (Some [8])
     (demo_u [(5, Inr (demo_challenge, demo_peer))]) = (Inr sess, v) \<and> length (u_sent v) = 2 \<and>
     (\<exists>challenge a. recipient_accepts demo_v5 demo_verify (\<lambda>_. Some 3) 5 (replicate 32 2) challenge (fst (last (u_sent v))) = Some a \<and>
        ac_record a = [8] \<and> ac_initiatorKey a = initiatorKey sess \<and> ac_recipientKey a = recipientKey sess)"
proof -
  let ?s = "demo_v5_conn (replicate 32 1) (replicate 32 2)"
  obtain sess v where e: "EstablishSessionWithENR demo_v5 ?s demo_rd demo_rd (Some [8])
     (demo_u [(5, Inr (demo_challenge, demo_peer))]) = (Inr sess, v)"
    using demo_established by blast
  have "length (v_ourNodeID ?s) = 32" "v_peerStatic ?s = Some (v5_public demo_v5 5)" "v_ourPriv ?s = Some 3"
    "(\<lambda>_. Some 3) (v_ourNodeID ?s) = Some (v5_public demo_v5 3)" "v_peerNodeID ?s = replicate 32 2"
    by (simp_all add: demo_v5_conn_def demo_v5_def)
  with established_session_is_shared [where known = "\<lambda>_. Some 3", OF demo_v5_laws(1) demo_v5_curve demo_v5_signature(1)
      demo_v5_signature(2) demo_v5_signature(2) this(1-4) e] e
  show ?thesis by (fastforce simp: demo_u_def)
qed

end
