(* ===== verification/Dnsdisc.thy ===== *)
theory Dnsdisc
  imports Go_Strings
begin

text \<open>
  Package discovery, DNS node lists (dnsdisc.go): validation of root, branch, link and subtree entries, and of a static
  branch graph; packages encoding/base32 and encoding/base64 as far as they are called. Point decompression is a parameter.
\<close>

section \<open>Packages base32 and base64\<close>

text \<open>Both decoders skip line ends, and take a digit of the alphabet for its position there.\<close>

definition strip_newlines :: "string \<Rightarrow> string" where
  "strip_newlines s = filter (\<lambda>c. c \<noteq> CHR 0x0A \<and> c \<noteq> CHR 0x0D) s"

definition in_chars :: "char \<Rightarrow> char \<Rightarrow> char \<Rightarrow> bool" where
  "in_chars a b c \<longleftrightarrow> (of_char a :: int) \<le> of_char c \<and> (of_char c :: int) \<le> of_char b"

definition digit32 :: "char \<Rightarrow> int option" where
  "digit32 c = (if in_chars CHR ''A'' CHR ''Z'' c then Some (of_char c - 65)
                else if in_chars CHR ''2'' CHR ''7'' c then Some (of_char c - 24) else None)"

definition digit64url :: "char \<Rightarrow> int option" where
  "digit64url c = (if in_chars CHR ''A'' CHR ''Z'' c then Some (of_char c - 65)
                   else if in_chars CHR ''a'' CHR ''z'' c then Some (of_char c - 71)
                   else if in_chars CHR ''0'' CHR ''9'' c then Some (of_char c + 4)
                   else if c = CHR ''-'' then Some 62 else if c = CHR ''_'' then Some 63 else None)"

fun digits :: "(char \<Rightarrow> int option) \<Rightarrow> nat \<Rightarrow> string \<Rightarrow> nat + int list" where
  "digits d n [] = Inr []"
| "digits d n (c # s) =
     (case d c of None \<Rightarrow> Inl n
      | Some v \<Rightarrow> (case digits d (Suc n) s of Inl e \<Rightarrow> Inl e | Inr vs \<Rightarrow> Inr (v # vs)))"

text \<open>A quantum of digits of \<open>k\<close> bits gives as many whole bytes as its bits fill.\<close>

definition pack :: "nat \<Rightarrow> int list \<Rightarrow> bytes" where
  "pack k ds =
     (let bits = k * length ds; n = bits div 8; v = foldl (\<lambda>n d. n * 2 ^ k + d) 0 ds div 2 ^ (bits mod 8)
      in map (\<lambda>i. of_int (v div 256 ^ (n - 1 - i))) [0..<n])"

text \<open>The base32 decoder without padding writes nothing for a last quantum of one, three or six digits.\<close>

fun pack32 :: "int list \<Rightarrow> bytes" where
  "pack32 ds =
     (if length ds < 8 then (if length ds \<in> {2, 4, 5, 7} then pack 5 ds else [])
      else pack 5 (take 8 ds) @ pack32 (drop 8 ds))"

fun pack64 :: "int list \<Rightarrow> bytes" where
  "pack64 ds = (if length ds < 4 then pack 6 ds else pack 6 (take 4 ds) @ pack64 (drop 4 ds))"

declare pack32.simps [simp del] pack64.simps [simp del]

definition base32_DecodeString :: "string \<Rightarrow> goerr + bytes" where
  "base32_DecodeString s =
     (case digits digit32 0 (strip_newlines s) of
        Inl n \<Rightarrow> Inl (Errorf ''illegal base32 data at input byte %d'' [VNat n])
      | Inr ds \<Rightarrow> Inr (pack32 ds))"

text \<open>The input offset in its error is left out.\<close>

definition base64_RawURL_DecodeString :: "string \<Rightarrow> goerr + bytes" where
  "base64_RawURL_DecodeString s =
     (case digits digit64url 0 (strip_newlines s) of
        Inl n \<Rightarrow> Inl (Errorf ''illegal base64 data'' [])
      | Inr ds \<Rightarrow> if length ds mod 4 = 1 then Inl (Errorf ''illegal base64 data'' []) else Inr (pack64 ds))"

section \<open>Fields\<close>

definition dnsdiscMaxBranchChildren :: nat where "dnsdiscMaxBranchChildren = 13"
definition dnsdiscMaxTXTRecordSize :: nat where "dnsdiscMaxTXTRecordSize = 512"
definition dnsdiscMinHashBytes :: nat where "dnsdiscMinHashBytes = 12"
definition dnsdiscMaxHashBytes :: nat where "dnsdiscMaxHashBytes = 32"

definition decodeDnsdiscBase32Field :: "string \<Rightarrow> goerr + bytes" where
  "decodeDnsdiscBase32Field value =
     (if value = [] then Inl (Errorf ''empty base32 value'' [])
      else err_bind (base32_DecodeString (to_upper value)) (\<lambda>decoded.
        if decoded = [] then Inl (Errorf ''empty decoded value'' []) else Inr decoded))"

definition decodeDnsdiscHashField :: "string \<Rightarrow> goerr + bytes" where
  "decodeDnsdiscHashField value =
     err_bind (decodeDnsdiscBase32Field value) (\<lambda>decoded.
       if length decoded < dnsdiscMinHashBytes \<or> dnsdiscMaxHashBytes < length decoded
       then Inl (Errorf ''decoded hash is %d bytes, want %d..%d''
                   [VNat (length decoded), VNat dnsdiscMinHashBytes, VNat dnsdiscMaxHashBytes])
       else Inr decoded)"

definition dnsdiscRequiredField :: "string \<Rightarrow> string \<Rightarrow> goerr + string" where
  "dnsdiscRequiredField token pre =
     (if \<not> has_prefix pre token then Inl (Errorf ''missing field %q'' [VStr pre]) else Inr (trim_prefix pre token))"

section \<open>Entries\<close>

text \<open>A validator returns nil or an error; here the sum of the error and unit.\<close>

definition ValidateDNSRoot :: "string \<Rightarrow> goerr + unit" where
  "ValidateDNSRoot entry =
     (if entry = [] then Inl (Errorf ''empty entry'' [])
      else if dnsdiscMaxTXTRecordSize < length entry
      then Inl (Errorf ''TXT record is %d bytes, max %d'' [VNat (length entry), VNat dnsdiscMaxTXTRecordSize])
      else
        let fs = fields entry
        in if length fs \<noteq> 5 then Inl (Errorf ''root has %d fields, want 5'' [VNat (length fs)])
           else if fs ! 0 \<noteq> ''enrtree-root:v1'' then Inl (Errorf ''missing 'enrtree-root:v1' prefix'' [])
           else
             err_bind (dnsdiscRequiredField (fs ! 1) ''e='') (\<lambda>e.
             err_bind (dnsdiscRequiredField (fs ! 2) ''l='') (\<lambda>l.
             err_bind (dnsdiscRequiredField (fs ! 3) ''seq='') (\<lambda>seq.
             err_bind (dnsdiscRequiredField (fs ! 4) ''sig='') (\<lambda>sig.
             err_bind (wrap_err ''invalid e root hash: %w'' [] (decodeDnsdiscHashField e)) (\<lambda>_.
             err_bind (wrap_err ''invalid l root hash: %w'' [] (decodeDnsdiscHashField l)) (\<lambda>_.
             if seq = [] then Inl (Errorf ''empty seq'' [])
             else err_bind (wrap_err ''invalid seq: %w'' [] (ParseUint 10 seq)) (\<lambda>_.
             if sig = [] then Inl (Errorf ''empty sig'' [])
             else err_bind (wrap_err ''invalid sig encoding: %w'' [] (base64_RawURL_DecodeString sig)) (\<lambda>sigBytes.
             if length sigBytes \<noteq> 65 then Inl (Errorf ''sig is %d bytes, want 65'' [VNat (length sigBytes)])
             else Inr ())))))))))"

definition branch_prefix :: string where "branch_prefix = ''enrtree-branch:''"

fun validate_children :: "string list \<Rightarrow> goerr + unit" where
  "validate_children [] = Inr ()"
| "validate_children (child # cs) =
     (if child = [] then Inl (Errorf ''empty branch child'' [])
      else err_bind (wrap_err ''invalid branch child %q: %w'' [VStr child] (decodeDnsdiscHashField child)) (\<lambda>_.
        validate_children cs))"

definition ValidateDNSBranch :: "string \<Rightarrow> goerr + unit" where
  "ValidateDNSBranch entry =
     (if \<not> has_prefix branch_prefix entry then Inl (Errorf ''missing %q prefix'' [VStr branch_prefix])
      else
        let body = trim_prefix branch_prefix entry
        in if body = [] then Inr ()
           else
             let children = split_on CHR '','' body
             in if dnsdiscMaxBranchChildren < length children
                then Inl (Errorf ''branch has %d children, max %d'' [VNat (length children), VNat dnsdiscMaxBranchChildren])
                else validate_children children)"

text \<open>\<open>strings.Index\<close> of a byte is the length of what comes before its first occurrence.\<close>

definition ValidateDNSLink :: "(bytes \<Rightarrow> goerr + 'p) \<Rightarrow> string \<Rightarrow> goerr + unit" where
  "ValidateDNSLink decompress entry =
     (if \<not> has_prefix ''enrtree://'' entry then Inl (Errorf ''missing 'enrtree://' scheme'' [])
      else if CHR ''@'' \<notin> set entry then Inl (Errorf (''missing '@'' @ [CHR 0x27]) [])
      else
        let at = length (takeWhile (\<lambda>c. c \<noteq> CHR ''@'') entry);
            key = drop 10 (take at entry)
        in if key = [] then Inl (Errorf ''empty key'' [])
           else err_bind (wrap_err ''invalid key encoding: %w'' [] (decodeDnsdiscBase32Field key)) (\<lambda>keyBytes.
             if length keyBytes \<noteq> 33
             then Inl (Errorf ''key is %d bytes, want compressed secp256k1 pubkey'' [VNat (length keyBytes)])
             else err_bind (wrap_err ''invalid secp256k1 pubkey: %w'' [] (decompress keyBytes)) (\<lambda>_.
               let domain = drop (at + 1) entry
               in if domain = [] then Inl (Errorf ''empty domain'' []) else Inr ())))"

definition ValidateDNSSubtreeEntry :: "(bytes \<Rightarrow> goerr + 'p) \<Rightarrow> string \<Rightarrow> bool \<Rightarrow> goerr + unit" where
  "ValidateDNSSubtreeEntry decompress entry linkTree =
     (if has_prefix branch_prefix entry then ValidateDNSBranch entry
      else if has_prefix ''enr:'' entry
      then (if linkTree then Inl (Errorf ''enr entry in link tree'' [])
            else if entry = ''enr:'' then Inl (Errorf ''empty enr leaf'' []) else Inr ())
      else if has_prefix ''enrtree://'' entry
      then (if \<not> linkTree then Inl (Errorf ''link entry in ENR tree'' []) else ValidateDNSLink decompress entry)
      else Inl (Errorf ''unknown DNS discovery entry'' []))"

section \<open>The walk over a branch graph\<close>

type_synonym entries = "string \<rightharpoonup> string"

definition children_of :: "string \<Rightarrow> string list" where
  "children_of entry = (let body = trim_prefix branch_prefix entry in if body = [] then [] else split_on CHR '','' body)"

text \<open>
  The closure \<open>walk\<close>. \<open>visiting\<close> is what the map of that name holds: each call adds its name and deletes it when it
  returns, so callers see it unchanged; \<open>visited\<close> is returned. The depth bounds the recursion.
\<close>

function (sequential) walk :: "entries \<Rightarrow> int \<Rightarrow> string set \<Rightarrow> string \<Rightarrow> int \<Rightarrow> string set \<Rightarrow> (goerr + unit) \<times> string set" and
  walk_children :: "entries \<Rightarrow> int \<Rightarrow> string set \<Rightarrow> string list \<Rightarrow> int \<Rightarrow> string set \<Rightarrow> (goerr + unit) \<times> string set"
where
  "walk entries maxDepth visiting name depth visited =
     (if maxDepth < depth then (Inl (Errorf ''branch depth exceeds %d'' [VInt maxDepth]), visited)
      else if name \<in> visiting then (Inl (Errorf ''branch cycle at %q'' [VStr name]), visited)
      else if name \<in> visited then (Inr (), visited)
      else (case entries name of
          None \<Rightarrow> (Inl (Errorf ''missing branch %q'' [VStr name]), visited)
        | Some entry \<Rightarrow>
            (case ValidateDNSBranch entry of
               Inl e \<Rightarrow> (Inl e, visited)
             | Inr _ \<Rightarrow>
                 let body = trim_prefix branch_prefix entry
                 in if body = [] then (Inr (), visited)
                    else (case walk_children entries maxDepth (insert name visiting) (split_on CHR '','' body) (depth + 1) visited of
                        (Inl e, visited) \<Rightarrow> (Inl e, visited)
                      | (Inr _, visited) \<Rightarrow> (Inr (), insert name visited)))))"
| "walk_children entries maxDepth visiting [] depth visited = (Inr (), visited)"
| "walk_children entries maxDepth visiting (child # cs) depth visited =
     (case walk entries maxDepth visiting child depth visited of
        (Inl e, visited) \<Rightarrow> (Inl e, visited)
      | (Inr _, visited) \<Rightarrow> walk_children entries maxDepth visiting cs depth visited)"
  by pat_completeness auto
termination
  by (relation "measures [\<lambda>x. case x of Inl (e, m, vg, n, d, vd) \<Rightarrow> nat (m + 1 - d) | Inr (e, m, vg, cs, d, vd) \<Rightarrow> nat (m + 1 - d),
      \<lambda>x. case x of Inl _ \<Rightarrow> 0 | Inr (e, m, vg, cs, d, vd) \<Rightarrow> Suc (length cs)]") auto

declare walk.simps [simp del]

definition ValidateDNSBranchWalk :: "entries \<Rightarrow> string \<Rightarrow> int \<Rightarrow> goerr + unit" where
  "ValidateDNSBranchWalk entries root maxDepth = fst (walk entries maxDepth {} root 0 {})"

section \<open>What the walk guarantees\<close>

text \<open>The graph: a name that resolves points at the children of its entry.\<close>

definition edges :: "entries \<Rightarrow> (string \<times> string) set" where
  "edges entries = {(n, c). \<exists>e. entries n = Some e \<and> c \<in> set (children_of e)}"

definition valid_branch :: "entries \<Rightarrow> string \<Rightarrow> bool" where
  "valid_branch entries n \<longleftrightarrow> (\<exists>e. entries n = Some e \<and> ValidateDNSBranch e = Inr ())"

definition safe_from :: "entries \<Rightarrow> string \<Rightarrow> bool" where
  "safe_from entries n \<longleftrightarrow>
     (\<forall>m. (n, m) \<in> (edges entries)\<^sup>* \<longrightarrow> valid_branch entries m \<and> (m, m) \<notin> (edges entries)\<^sup>+)"

lemma safe_from_children:
  assumes "valid_branch entries n" "\<And>c. (n, c) \<in> edges entries \<Longrightarrow> safe_from entries c"
  shows "safe_from entries n"
  unfolding safe_from_def
proof (intro allI impI)
  fix m assume m: "(n, m) \<in> (edges entries)\<^sup>*"
  show "valid_branch entries m \<and> (m, m) \<notin> (edges entries)\<^sup>+"
  proof (cases "m = n")
    case True
    have "(n, n) \<notin> (edges entries)\<^sup>+"
    proof
      assume "(n, n) \<in> (edges entries)\<^sup>+"
      then obtain c where c: "(n, c) \<in> edges entries" "(c, n) \<in> (edges entries)\<^sup>*" by (meson tranclD)
      then have "(n, n) \<notin> (edges entries)\<^sup>+" using assms(2) [OF c(1)] by (simp add: safe_from_def)
      then show False using \<open>(n, n) \<in> (edges entries)\<^sup>+\<close> by blast
    qed
    then show ?thesis using True assms(1) by blast
  next
    case False
    then obtain c where "(n, c) \<in> edges entries" "(c, m) \<in> (edges entries)\<^sup>*" using m by (metis converse_rtranclE)
    then show ?thesis using assms(2) by (simp add: safe_from_def)
  qed
qed

lemma walk_Inr:
  assumes "walk entries maxDepth visiting name depth visited = (Inr (), visited')" "name \<notin> visited"
  shows "depth \<le> maxDepth \<and> name \<notin> visiting \<and> (\<exists>entry. entries name = Some entry \<and> ValidateDNSBranch entry = Inr () \<and>
      (trim_prefix branch_prefix entry = [] \<and> visited' = visited \<or>
       trim_prefix branch_prefix entry \<noteq> [] \<and> (\<exists>v. walk_children entries maxDepth (insert name visiting) (split_on CHR '','' (trim_prefix branch_prefix entry)) (depth + 1) visited = (Inr (), v) \<and>
         visited' = insert name v)))"
proof -
  note w = assms(1) [unfolded walk.simps [of entries maxDepth visiting name depth visited] Let_def]
  have d: "\<not> maxDepth < depth" using w by (cases "maxDepth < depth") simp_all
  have v: "name \<notin> visiting" using w d by (cases "name \<in> visiting") simp_all
  obtain entry where e: "entries name = Some entry" using w d v assms(2) by (cases "entries name") simp_all
  have ok: "ValidateDNSBranch entry = Inr ()" using w d v assms(2) e by (cases "ValidateDNSBranch entry") simp_all
  obtain r u where c: "walk_children entries maxDepth (insert name visiting) (split_on CHR '','' (trim_prefix branch_prefix entry)) (depth + 1) visited = (r, u)"
    by (metis surj_pair)
  show ?thesis
  proof (cases "trim_prefix branch_prefix entry = []")
    case True
    then show ?thesis using w d v assms(2) e ok by simp
  next
    case False
    then show ?thesis using w d v assms(2) e ok c by (cases r) simp_all
  qed
qed

lemma valid_edges:
  assumes "entries name = Some entry" "ValidateDNSBranch entry = Inr ()"
    and "\<And>c. c \<in> set (children_of entry) \<Longrightarrow> safe_from entries c"
  shows "safe_from entries name"
  by (rule safe_from_children) (use assms in \<open>auto simp: valid_branch_def edges_def\<close>)

lemma walk_sound:
  "walk entries maxDepth visiting name depth visited = (Inr (), v) \<Longrightarrow> \<forall>n\<in>visited. safe_from entries n \<Longrightarrow>
     safe_from entries name \<and> (\<forall>n\<in>v. safe_from entries n)"
  "walk_children entries maxDepth visiting cs depth visited = (Inr (), w) \<Longrightarrow> \<forall>n\<in>visited. safe_from entries n \<Longrightarrow>
     (\<forall>n \<in> set cs \<union> w. safe_from entries n)"
proof (induction entries maxDepth visiting name depth visited and entries maxDepth visiting cs depth visited
    arbitrary: v and w rule: walk_walk_children.induct)
  case (1 entries maxDepth visiting name depth visited)
  show ?case
  proof (cases "name \<in> visited")
    case True
    then show ?thesis using 1(2,3) walk.simps [of entries maxDepth visiting name depth visited] by (auto split: if_splits)
  next
    case False
    then obtain entry where e: "depth \<le> maxDepth" "name \<notin> visiting" "entries name = Some entry" "ValidateDNSBranch entry = Inr ()"
      and body: "trim_prefix branch_prefix entry = [] \<and> v = visited \<or> trim_prefix branch_prefix entry \<noteq> [] \<and>
        (\<exists>w. walk_children entries maxDepth (insert name visiting) (split_on CHR '','' (trim_prefix branch_prefix entry)) (depth + 1) visited = (Inr (), w) \<and>
         v = insert name w)"
      using walk_Inr [OF 1(2) False] by blast
    show ?thesis
    proof (cases "trim_prefix branch_prefix entry = []")
      case True
      then show ?thesis using body valid_edges [of entries name entry, OF e(3,4)] 1(3) by (simp add: children_of_def)
    next
      case body_ne: False
      then obtain w where w: "walk_children entries maxDepth (insert name visiting)
          (split_on CHR '','' (trim_prefix branch_prefix entry)) (depth + 1) visited = (Inr (), w)" "v = insert name w"
        using body by blast
      have "\<forall>n \<in> set (split_on CHR '','' (trim_prefix branch_prefix entry)) \<union> w. safe_from entries n"
        using 1(1) [OF _ e(2) False e(3,4) refl body_ne w(1) 1(3)] e(1) by simp
      then show ?thesis using valid_edges [of entries name entry, OF e(3,4)] w(2) body_ne by (simp add: children_of_def)
    qed
  qed
next
  case (3 entries maxDepth visiting child cs depth visited)
  obtain r v where c: "walk entries maxDepth visiting child depth visited = (r, v)" by (metis surj_pair)
  with 3(3) have r: "r = Inr ()" by (cases r) auto
  have "safe_from entries child \<and> (\<forall>n\<in>v. safe_from entries n)" using 3(1) c r 3(4) by simp
  then show ?case using 3(2) [OF c [symmetric]] 3(3) c r by simp
qed simp

text \<open>A name that is fit for the rest of a walk: what it leads to is valid, in the depth left, and not being visited.\<close>

definition fit :: "entries \<Rightarrow> int \<Rightarrow> string set \<Rightarrow> int \<Rightarrow> string \<Rightarrow> bool" where
  "fit entries maxDepth visiting depth n \<longleftrightarrow>
     (\<forall>m. (n, m) \<in> (edges entries)\<^sup>* \<longrightarrow> valid_branch entries m \<and> m \<notin> visiting) \<and>
     (\<forall>k m. (n, m) \<in> edges entries ^^ k \<longrightarrow> depth + int k \<le> maxDepth)"

lemma cycle_unbounded: "(n, n) \<in> R ^^ Suc j \<Longrightarrow> (n, n) \<in> R ^^ (i * Suc j)"
proof (induction i)
  case (Suc i)
  then have "(n, n) \<in> R ^^ Suc j O R ^^ (i * Suc j)" by blast
  then show ?case by (simp only: mult_Suc relpow_add)
qed simp

lemma fit_child:
  assumes "fit entries maxDepth visiting depth n" "(n, c) \<in> edges entries"
  shows "fit entries maxDepth (insert n visiting) (depth + 1) c"
  unfolding fit_def
proof (intro conjI allI impI)
  fix m assume m: "(c, m) \<in> (edges entries)\<^sup>*"
  then show "valid_branch entries m" using assms by (meson converse_rtrancl_into_rtrancl fit_def)
  have "m \<noteq> n"
  proof
    assume "m = n"
    then obtain j where "(c, n) \<in> edges entries ^^ j" using m by (meson rtrancl_imp_relpow)
    then have "(n, n) \<in> edges entries ^^ (i * Suc j)" for i using assms(2) by (intro cycle_unbounded) (metis relpow_Suc_I2)
    then have b: "depth + int (i * Suc j) \<le> maxDepth" for i using assms(1) unfolding fit_def by blast
    have "int (nat (maxDepth - depth) + 1) \<le> int ((nat (maxDepth - depth) + 1) * Suc j)"
      by (subst of_nat_le_iff) (simp add: le_add1 mult_le_mono2 [where i = 1, simplified])
    then show False using b [of "nat (maxDepth - depth) + 1"] by linarith
  qed
  then show "m \<notin> insert n visiting" using m assms by (meson converse_rtrancl_into_rtrancl fit_def insertE)
next
  fix k m assume "(c, m) \<in> edges entries ^^ k"
  then have "(n, m) \<in> edges entries ^^ Suc k" using assms(2) by (metis relpow_Suc_I2)
  then have "depth + int (Suc k) \<le> maxDepth" using assms(1) unfolding fit_def by blast
  then show "depth + 1 + int k \<le> maxDepth" by simp
qed

lemma walk_complete:
  "fit entries maxDepth visiting depth name \<Longrightarrow> \<exists>v. walk entries maxDepth visiting name depth visited = (Inr (), v)"
  "\<forall>c \<in> set cs. fit entries maxDepth visiting depth c \<Longrightarrow>
     \<exists>v. walk_children entries maxDepth visiting cs depth visited = (Inr (), v)"
proof (induction entries maxDepth visiting name depth visited and entries maxDepth visiting cs depth visited
    rule: walk_walk_children.induct)
  case (1 entries maxDepth visiting name depth visited)
  have here: "valid_branch entries name" "name \<notin> visiting" using 1(2) unfolding fit_def by blast+
  have "depth + int 0 \<le> maxDepth" using 1(2) relpow_0_I [of name "edges entries"] unfolding fit_def by blast
  then have d: "\<not> maxDepth < depth" by simp
  obtain entry where e: "entries name = Some entry" "ValidateDNSBranch entry = Inr ()" using here(1) by (auto simp: valid_branch_def)
  show ?case
  proof (cases "name \<in> visited \<or> trim_prefix branch_prefix entry = []")
    case True
    then show ?thesis using d here e by (auto simp: walk.simps [of entries maxDepth visiting name depth visited])
  next
    case False
    have "\<forall>c \<in> set (split_on CHR '','' (trim_prefix branch_prefix entry)). fit entries maxDepth (insert name visiting) (depth + 1) c"
      using False e by (intro ballI fit_child [OF 1(2)]) (simp add: edges_def children_of_def)
    then have "\<exists>v. walk_children entries maxDepth (insert name visiting) (split_on CHR '','' (trim_prefix branch_prefix entry)) (depth + 1) visited =
        (Inr (), v)"
      using 1(1) [OF d here(2) _ e refl] False by simp
    then show ?thesis using False d here e by (auto simp: walk.simps [of entries maxDepth visiting name depth visited] Let_def)
  qed
next
  case (3 entries maxDepth visiting child cs depth visited)
  then obtain v where c: "walk entries maxDepth visiting child depth visited = (Inr (), v)" by auto
  then show ?case using 3(2) [OF c [symmetric]] 3(3) by simp
qed simp

text \<open>
  C23: A branch graph that \<open>ValidateDNSBranchWalk\<close> accepts has no cycle, missing branch or malformed branch reachable from the
  root; and a graph without malformed or missing branches in which no path from the root is longer than the bound is
  accepted. (Between the two, acceptance depends on the order of children.)
\<close>

theorem branch_walk_guarantees:
  "(ValidateDNSBranchWalk entries root maxDepth = Inr () \<longrightarrow>
      (\<forall>m. (root, m) \<in> (edges entries)\<^sup>* \<longrightarrow> valid_branch entries m \<and> (m, m) \<notin> (edges entries)\<^sup>+)) \<and>
   ((\<forall>m. (root, m) \<in> (edges entries)\<^sup>* \<longrightarrow> valid_branch entries m) \<and>
      (\<forall>k m. (root, m) \<in> edges entries ^^ k \<longrightarrow> int k \<le> maxDepth) \<longrightarrow>
      ValidateDNSBranchWalk entries root maxDepth = Inr ())"
proof (intro conjI impI)
  assume "ValidateDNSBranchWalk entries root maxDepth = Inr ()"
  then obtain v where "walk entries maxDepth {} root 0 {} = (Inr (), v)" unfolding ValidateDNSBranchWalk_def by (metis surj_pair fst_conv)
  from walk_sound(1) [OF this] show "\<forall>m. (root, m) \<in> (edges entries)\<^sup>* \<longrightarrow> valid_branch entries m \<and> (m, m) \<notin> (edges entries)\<^sup>+"
    by (simp add: safe_from_def)
next
  assume "(\<forall>m. (root, m) \<in> (edges entries)\<^sup>* \<longrightarrow> valid_branch entries m) \<and>
      (\<forall>k m. (root, m) \<in> edges entries ^^ k \<longrightarrow> int k \<le> maxDepth)"
  then have "fit entries maxDepth {} 0 root" unfolding fit_def by simp
  from walk_complete(1) [OF this] show "ValidateDNSBranchWalk entries root maxDepth = Inr ()"
    by (metis ValidateDNSBranchWalk_def fst_conv)
qed

definition demo_name :: "char \<Rightarrow> string" where "demo_name c = replicate 20 c"

definition demo_branch :: "char list \<Rightarrow> string" where
  "demo_branch cs = branch_prefix @ (case cs of [] \<Rightarrow> [] | [a] \<Rightarrow> demo_name a | a # b # _ \<Rightarrow> demo_name a @ CHR '','' # demo_name b)"

lemma demo_name_inj [simp]: "demo_name a = demo_name b \<longleftrightarrow> a = b" "demo_name a \<noteq> []"
  by (simp_all add: demo_name_def)

lemma split_on_none: "d \<notin> set a \<Longrightarrow> split_on d a = [a]"
  by (induction a) auto

lemma split_on_append: "d \<notin> set a \<Longrightarrow> split_on d (a @ d # b) = a # split_on d b"
  by (induction a) auto

lemma demo_children:
  assumes "c \<in> {CHR ''A'', CHR ''B'', CHR ''C''}"
  shows "\<exists>b. decodeDnsdiscHashField (demo_name c) = Inr b"
proof -
  have "isl (decodeDnsdiscHashField (demo_name CHR ''A'')) = False" "isl (decodeDnsdiscHashField (demo_name CHR ''B'')) = False"
    "isl (decodeDnsdiscHashField (demo_name CHR ''C'')) = False" by code_simp+
  then have "isl (decodeDnsdiscHashField (demo_name c)) = False" using assms by blast
  then show ?thesis by (cases "decodeDnsdiscHashField (demo_name c)") simp_all
qed

lemma has_prefix_self [simp]: "has_prefix p p"
  by (simp add: has_prefix_def)

lemma demo_branch_body [simp]:
  "trim_prefix branch_prefix (demo_branch []) = []" "trim_prefix branch_prefix (demo_branch [a]) = demo_name a"
  "trim_prefix branch_prefix (demo_branch [a, b]) = demo_name a @ CHR '','' # demo_name b"
  by (simp_all add: demo_branch_def trim_prefix_def)

lemma demo_branch_prefix [simp]: "has_prefix branch_prefix (demo_branch cs)"
  by (simp add: demo_branch_def)

lemma demo_split [simp]:
  "a \<noteq> CHR '','' \<Longrightarrow> split_on CHR '','' (demo_name a) = [demo_name a]"
  "a \<noteq> CHR '','' \<Longrightarrow> b \<noteq> CHR '','' \<Longrightarrow> split_on CHR '','' (demo_name a @ CHR '','' # demo_name b) = [demo_name a, demo_name b]"
  by (simp_all add: demo_name_def split_on_none split_on_append)

lemma demo_branch_valid:
  assumes "set cs \<subseteq> {CHR ''A'', CHR ''B'', CHR ''C''}" "length cs \<le> 2"
  shows "ValidateDNSBranch (demo_branch cs) = Inr ()"
proof -
  consider "cs = []" | a where "cs = [a]" | a b where "cs = [a, b]"
    using assms(2) by (cases cs; cases "tl cs") auto
  then show ?thesis
  proof cases
    case 1
    then show ?thesis by (simp add: ValidateDNSBranch_def)
  next
    case 2
    then show ?thesis using assms demo_children [of a] by (auto simp: ValidateDNSBranch_def dnsdiscMaxBranchChildren_def)
  next
    case 3
    then show ?thesis using assms demo_children [of a] demo_children [of b]
      by (auto simp: ValidateDNSBranch_def dnsdiscMaxBranchChildren_def)
  qed
qed

lemma branch_walk_guarantees_witness:
  "ValidateDNSBranchWalk [demo_name CHR ''R'' \<mapsto> demo_branch ''C'', demo_name CHR ''C'' \<mapsto> demo_branch []] (demo_name CHR ''R'') 1 = Inr () \<and>
   valid_branch [demo_name CHR ''R'' \<mapsto> demo_branch ''C'', demo_name CHR ''C'' \<mapsto> demo_branch []] (demo_name CHR ''C'') \<and>
   (demo_name CHR ''R'', demo_name CHR ''R'') \<notin> (edges [demo_name CHR ''R'' \<mapsto> demo_branch ''C'', demo_name CHR ''C'' \<mapsto> demo_branch []])\<^sup>+"
proof -
  let ?g = "[demo_name CHR ''R'' \<mapsto> demo_branch ''C'', demo_name CHR ''C'' \<mapsto> demo_branch []]"
  let ?R = "demo_name CHR ''R''" and ?C = "demo_name CHR ''C''"
  have e: "edges ?g = {(?R, ?C)}" by (auto simp: edges_def children_of_def split: if_splits)
  have reach: "(?R, m) \<in> (edges ?g)\<^sup>* \<Longrightarrow> m = ?R \<or> m = ?C" for m by (auto simp: e elim: rtranclE)
  have valid: "valid_branch ?g ?R" "valid_branch ?g ?C" by (auto simp: valid_branch_def demo_branch_valid)
  have path: "(?R, m) \<in> edges ?g ^^ k \<Longrightarrow> int k \<le> 1" for k m
    by (cases k; cases "k - 1") (auto simp: e)
  have all: "\<forall>m. (?R, m) \<in> (edges ?g)\<^sup>* \<longrightarrow> valid_branch ?g m" using reach valid by blast
  have "ValidateDNSBranchWalk ?g ?R 1 = Inr ()" using branch_walk_guarantees [of ?g ?R 1] all path by blast
  then have g: "\<forall>m. (?R, m) \<in> (edges ?g)\<^sup>* \<longrightarrow> valid_branch ?g m \<and> (m, m) \<notin> (edges ?g)\<^sup>+"
    using branch_walk_guarantees [of ?g ?R 1] by blast
  have "(?R, ?C) \<in> (edges ?g)\<^sup>*" unfolding e by blast
  then show ?thesis using g \<open>ValidateDNSBranchWalk ?g ?R 1 = Inr ()\<close> by blast
qed

text \<open>The root leads to A and B, in the given order; B leads to A, and A to the leaf C: the longest path has three edges.\<close>

definition demo_graph :: "char list \<Rightarrow> entries" where
  "demo_graph cs = [demo_name CHR ''R'' \<mapsto> demo_branch cs, demo_name CHR ''A'' \<mapsto> demo_branch ''C'', demo_name CHR ''B'' \<mapsto> demo_branch ''A'',
     demo_name CHR ''C'' \<mapsto> demo_branch []]"

text \<open>
  The depth bound of \<open>ValidateDNSBranchWalk\<close> depends on the order of children. With the root's children A, B it accepts a
  graph with a path of three edges at a bound of two, because what follows an already visited name is not measured
  again; with the order B, A it refuses the same graph.
\<close>

theorem branch_walk_depth_depends_on_order:
  "ValidateDNSBranchWalk (demo_graph ''AB'') (demo_name CHR ''R'') 2 = Inr () \<and>
   (demo_name CHR ''R'', demo_name CHR ''C'') \<in> edges (demo_graph ''AB'') ^^ 3 \<and> edges (demo_graph ''AB'') = edges (demo_graph ''BA'') \<and>
   ValidateDNSBranchWalk (demo_graph ''BA'') (demo_name CHR ''R'') 2 = Inl (Errorf ''branch depth exceeds %d'' [VInt 2])"
proof -
  note step = walk.simps demo_graph_def demo_branch_valid ValidateDNSBranchWalk_def
  let ?E = "edges (demo_graph ''AB'')"
  have e: "edges (demo_graph cs) = {(demo_name CHR ''R'', c) | c. c \<in> set (children_of (demo_branch cs))} \<union>
      {(demo_name CHR ''A'', demo_name CHR ''C''), (demo_name CHR ''B'', demo_name CHR ''A'')}" for cs
    by (auto simp: edges_def demo_graph_def children_of_def split: if_splits)
  have same: "?E = edges (demo_graph ''BA'')" unfolding e by (auto simp: children_of_def)
  have "(demo_name CHR ''R'', demo_name CHR ''B'') \<in> ?E" "(demo_name CHR ''B'', demo_name CHR ''A'') \<in> ?E"
    "(demo_name CHR ''A'', demo_name CHR ''C'') \<in> ?E" unfolding e by (simp_all add: children_of_def)
  then have path: "(demo_name CHR ''R'', demo_name CHR ''C'') \<in> ?E ^^ 3" by (auto simp: numeral_3_eq_3)
  have "ValidateDNSBranchWalk (demo_graph ''AB'') (demo_name CHR ''R'') 2 = Inr ()" by (simp add: step)
  moreover have "ValidateDNSBranchWalk (demo_graph ''BA'') (demo_name CHR ''R'') 2 = Inl (Errorf ''branch depth exceeds %d'' [VInt 2])"
    by (simp add: step)
  ultimately show ?thesis using path same by blast
qed

section \<open>Root entries\<close>

lemma dnsdiscRequiredField_Inr: "dnsdiscRequiredField token pre = Inr v \<longleftrightarrow> token = pre @ v"
  by (auto simp: dnsdiscRequiredField_def trim_prefix_def has_prefix_iff)

lemma base64_empty: "base64_RawURL_DecodeString [] = Inr []"
  by (simp add: base64_RawURL_DecodeString_def strip_newlines_def pack64.simps pack_def)

lemma length_five: "length fs = 5 \<longleftrightarrow> (\<exists>a b c d e. fs = [a, b, c, d, e])"
  by (auto simp: length_Suc_conv numeral_eq_Suc)

text \<open>
  \<open>ValidateDNSRoot\<close> accepts exactly the records of at most 512 bytes with the five fields of EIP-1459 in order, separated
  by white space: the version, two hashes of 12 to 32 bytes in base32, a decimal number below two to the 64, and a 65-byte
  signature in unpadded URL-safe base64.
\<close>

theorem ValidateDNSRoot_exact:
  "ValidateDNSRoot entry = Inr () \<longleftrightarrow>
     length entry \<le> 512 \<and>
     (\<exists>e l seq sig. fields entry = [''enrtree-root:v1'', ''e='' @ e, ''l='' @ l, ''seq='' @ seq, ''sig='' @ sig] \<and>
        (\<exists>h. decodeDnsdiscBase32Field e = Inr h \<and> length h \<in> {12..32}) \<and> (\<exists>h. decodeDnsdiscBase32Field l = Inr h \<and> length h \<in> {12..32}) \<and>
        (\<exists>n. ParseUint 10 seq = Inr n) \<and> (\<exists>s. base64_RawURL_DecodeString sig = Inr s \<and> length s = 65))"
proof -
  have hash: "decodeDnsdiscHashField v = Inr h \<longleftrightarrow> decodeDnsdiscBase32Field v = Inr h \<and> length h \<in> {12..32}" for v h
    by (cases "decodeDnsdiscBase32Field v") (auto simp: decodeDnsdiscHashField_def dnsdiscMinHashBytes_def dnsdiscMaxHashBytes_def)
  have nonempty: "ParseUint 10 [] = Inl (Wrapf ''strconv.ParseUint: parsing %q: %w'' [VStr []] ErrSyntax)" by (simp add: ParseUint_def)
  have "fields [] = []" by (simp add: fields_def fields_from.simps [of "[]" "[]"] skip_space_def space_runes_def has_prefix_def)
  then show ?thesis
    using hash
    by (auto simp: nonempty base64_empty ValidateDNSRoot_def err_bind_Inr_iff dnsdiscRequiredField_Inr length_five dnsdiscMaxTXTRecordSize_def Let_def)
      (metis Inr_inject base64_empty list.size(3) zero_neq_numeral)
qed

end
