(* ===== verification/Gossip_Rpc.thy ===== *)
theory Gossip_Rpc
  imports Varint Session Beacon_Status
begin

text \<open>
  Package gossipsub: topic names (topic.go), the RPC builders (rpc_builder.go) and raw RPCs over a stream of their own
  (rpc.go). The libp2p host is the record \<open>rpc_host\<close> of what opening a stream and setting its deadline give; a stream is a
  writer and the result of closing its write side. What is done to a stream is a list of events.
\<close>

section \<open>Topics and builders\<close>

definition gossip_Encoding :: string where "gossip_Encoding = ''ssz_snappy''"

definition ForkDigestHex :: "('u, 'raw) beacon \<Rightarrow> string \<Rightarrow> (goerr + string) option" where
  "ForkDigestHex bc beaconURL =
     (case BeaconStatus bc beaconURL of
        Inl e \<Rightarrow> Some (Inl e)
      | Inr None \<Rightarrow> None
      | Inr (Some (statusV1, _)) \<Rightarrow> map_option (\<lambda>d. Inr (hex_bytes d)) (slice 0 ContextBytesLen statusV1))"

definition Topic :: "string \<Rightarrow> string \<Rightarrow> string" where
  "Topic forkDigestHex topic = ''/eth2/'' @ forkDigestHex @ ''/'' @ trim CHR ''/'' topic @ ''/'' @ gossip_Encoding"

record sub_opts =
  so_Subscribe :: bool
  so_Topicid :: string

record rpc_message =
  rm_Topic :: string
  rm_Data :: bytes

record rpc =
  r_Subscriptions :: "sub_opts list"
  r_Publish :: "rpc_message list"

fun subscription_list :: "nat \<Rightarrow> string list \<Rightarrow> bool \<Rightarrow> goerr + sub_opts list" where
  "subscription_list i [] subscribe = Inr []"
| "subscription_list i (topic # topics) subscribe =
     (if topic = [] then Inl (Errorf ''subscription %d has an empty topic'' [VNat i])
      else err_bind (subscription_list (Suc i) topics subscribe) (\<lambda>subs.
        Inr (\<lparr>so_Subscribe = subscribe, so_Topicid = topic\<rparr> # subs)))"

definition EncodeSubscriptions :: "(rpc \<Rightarrow> goerr + bytes) \<Rightarrow> string list \<Rightarrow> bool \<Rightarrow> goerr + bytes" where
  "EncodeSubscriptions marshal topics subscribe =
     err_bind (subscription_list 0 topics subscribe) (\<lambda>subs. marshal \<lparr>r_Subscriptions = subs, r_Publish = []\<rparr>)"

definition EncodePublish :: "(rpc \<Rightarrow> goerr + bytes) \<Rightarrow> string \<Rightarrow> bytes \<Rightarrow> goerr + bytes" where
  "EncodePublish marshal topic data =
     (if topic = [] then Inl (Errorf ''publish topic is empty'' [])
      else marshal \<lparr>r_Subscriptions = [], r_Publish = [\<lparr>rm_Topic = topic, rm_Data = data\<rparr>]\<rparr>)"

section \<open>Streams\<close>

record rpc_stream =
  rs_Protocol :: string
  rs_writer :: wbeh
  rs_CloseWrite :: "goerr option"

record rpc_host =
  rh_NewStream :: "string \<Rightarrow> goerr + rpc_stream"
  rh_SetDeadline :: "goerr option"

datatype stream_ev = SOpened | SReset | SClosed | SCloseWrite

definition rawRPCTimeout :: int where "rawRPCTimeout = 8 * 10 ^ 9"

text \<open>\<open>None\<close> for a nil host, the empty string for an empty peer identifier.\<close>

definition OpenRPCStream ::
    "int \<Rightarrow> ('w, 'o, 'k) go_ctx option \<Rightarrow> rpc_host option \<Rightarrow> string \<Rightarrow> (goerr + rpc_stream) \<times> stream_ev list" where
  "OpenRPCStream now ctx h peerID =
     (case h of None \<Rightarrow> (Inl (Errorf ''nil gossipsub host'' []), [])
      | Some h \<Rightarrow>
        if peerID = [] then (Inl (Errorf ''empty gossipsub peer ID'' []), [])
        else if Remaining now ctx rawRPCTimeout \<le> 0 then (Inl DeadlineExceeded, [])
        else (case rh_NewStream h peerID of
            Inl e \<Rightarrow> (Inl (Wrapf ''open gossipsub stream: %w'' [] e), [])
          | Inr stream \<Rightarrow>
              (case rh_SetDeadline h of
                 Some e \<Rightarrow> (Inl (Wrapf ''set gossipsub stream deadline: %w'' [] e), [SOpened, SReset])
               | None \<Rightarrow> (Inr stream, [SOpened]))))"

text \<open>
  The context of the call is bounded by the timeout. The result is the error, what the observer was told, the bytes the stream accepted, and what was done to it.
\<close>

definition SendRPC ::
    "int \<Rightarrow> ('w, 'o, 'k) go_ctx option \<Rightarrow> rpc_host option \<Rightarrow> string \<Rightarrow> bytes \<Rightarrow>
     goerr option \<times> ('o \<times> write_event) list \<times> bytes \<times> stream_ev list" where
  "SendRPC now ctx h peerID rpc =
     (if h = None then (Some (Errorf ''nil gossipsub host'' []), [], [], [])
      else if peerID = [] then (Some (Errorf ''empty gossipsub peer ID'' []), [], [], [])
      else
        let sendCtx = WithTimeout now ctx (Remaining now ctx rawRPCTimeout)
        in case OpenRPCStream now (Some sendCtx) h peerID of
             (Inl e, evs) \<Rightarrow> (Some e, [], [], evs)
           | (Inr stream, evs) \<Rightarrow>
               let obs = ObserveWrite (Some sendCtx)
                     ((write_of ''gossipsub'')\<lparr>w_ProtocolID := rs_Protocol stream, w_Payload := rpc, w_Raw := True\<rparr>)
               in case writeRPC (rs_writer stream) 0 (put_uvarint (of_nat (length rpc))) of
                    (Some e, out, k) \<Rightarrow> (Some (Wrapf ''write gossipsub RPC length: %w'' [] e), obs, out, evs @ [SReset, SClosed])
                  | (None, out, k) \<Rightarrow>
                      (case writeRPC (rs_writer stream) k rpc of
                         (Some e, out', k') \<Rightarrow> (Some (Wrapf ''write gossipsub RPC: %w'' [] e), obs, out @ out', evs @ [SReset, SClosed])
                       | (None, out', k') \<Rightarrow>
                           (case rs_CloseWrite stream of
                              Some e \<Rightarrow> (Some (Wrapf ''close gossipsub write side: %w'' [] e), obs, out @ out',
                                          evs @ [SCloseWrite, SReset, SClosed])
                            | None \<Rightarrow> (None, obs, out @ out', evs @ [SCloseWrite, SClosed]))))"

section \<open>What the peer gets\<close>

lemma writeRPC_out:
  "writeRPC w k p = (r, out, k') \<Longrightarrow> prefix out p \<and> (r = None \<longrightarrow> out = p)"
  using rpcw.wr_prefix rpcw.wr_complete by blast

text \<open>
  C26: A raw RPC that \<open>SendRPC\<close> reports as sent is what the peer reads from the stream: one RPC with its length prefix and
  nothing else. When it fails, the peer got a prefix of that, and a stream that was opened is closed in every case, and
  reset when a write failed.
\<close>

theorem SendRPC_delivers:
  assumes "SendRPC now ctx h peerID rpc = (r, obs, out, evs)"
  shows "(r = None \<longrightarrow> take_uvarint out = Some (of_nat (length rpc), rpc) \<and> evs = [SOpened, SCloseWrite, SClosed]) \<and>
    prefix out (put_uvarint (of_nat (length rpc)) @ rpc) \<and>
    (SOpened \<in> set evs \<longrightarrow> SClosed \<in> set evs \<or> SReset \<in> set evs) \<and> (out \<noteq> [] \<and> r \<noteq> None \<longrightarrow> SReset \<in> set evs)"
proof -
  have t: "take_uvarint (put_uvarint (of_nat (length rpc)) @ rpc) = Some (of_nat (length rpc), rpc)"
    using uv.dec_enc by blast
  show ?thesis
    using assms(1) t
    by (auto simp: SendRPC_def OpenRPCStream_def Let_def split: option.splits prod.splits sum.splits if_splits
        dest!: writeRPC_out)
qed

definition demo_rpc_host :: rpc_host where
  "demo_rpc_host = \<lparr>rh_NewStream = (\<lambda>_. Inr \<lparr>rs_Protocol = ''/meshsub/1.1.0'', rs_writer = chunked_writer 3, rs_CloseWrite = None\<rparr>),
     rh_SetDeadline = None\<rparr>"

lemma demo_writeRPC: "\<exists>k'. writeRPC (chunked_writer 3) k p = (None, p, k')"
  by (simp add: writeRPC_eq_writeFull writeFull_chunked)

lemma SendRPC_delivers_witness:
  "\<exists>obs out evs. SendRPC 0 (None :: (unit, unit, unit) go_ctx option) (Some demo_rpc_host) ''peer'' [1, 2, 3, 4, 5] = (None, obs, out, evs) \<and>
     take_uvarint out = Some (5, [1, 2, 3, 4, 5]) \<and> evs = [SOpened, SCloseWrite, SClosed]"
proof -
  obtain k where 1: "writeRPC (chunked_writer 3) 0 (put_uvarint 5) = (None, put_uvarint 5, k)" using demo_writeRPC by blast
  obtain k' where 2: "writeRPC (chunked_writer 3) k [1, 2, 3, 4, 5] = (None, [1, 2, 3, 4, 5], k')" using demo_writeRPC by blast
  have "\<exists>obs out evs. SendRPC 0 (None :: (unit, unit, unit) go_ctx option) (Some demo_rpc_host) ''peer'' [1, 2, 3, 4, 5] = (None, obs, out, evs)"
    using 1 2 by (simp add: SendRPC_def OpenRPCStream_def demo_rpc_host_def WithTimeout_def Remaining_def Background_def rawRPCTimeout_def Let_def)
  then obtain obs out evs where s: "SendRPC 0 (None :: (unit, unit, unit) go_ctx option) (Some demo_rpc_host) ''peer'' [1, 2, 3, 4, 5] = (None, obs, out, evs)" by blast
  have "take_uvarint out = Some (of_nat (length [1, 2, 3, 4, 5 :: byte]), [1, 2, 3, 4, 5])" and e: "evs = [SOpened, SCloseWrite, SClosed]"
    using SendRPC_delivers [OF s] by blast+
  then have t: "take_uvarint out = Some (5, [1, 2, 3, 4, 5])" by simp
  show ?thesis by (intro exI conjI) (rule s, rule t, rule e)
qed

end
