(* ===== verification/Gossip.thy ===== *)
theory Gossip
  imports Gossip_Rpc
begin

text \<open>
  Package gossipsub, publish.go: a publisher with its joined topics, and one publication with its waits. The gossipsub
  router of libp2p is the record \<open>router\<close>: what the calls give, and how many peers subscribe to a topic at a time. The
  publisher keeps a log of the calls that took effect on the router, and the clock. A call of \<open>Topic.Close\<close> is \<open>Left\<close> when
  it succeeds and \<open>CloseFailed\<close> when it returns an error, which leaves the topic in place and which the code reports or drops.

  A wait on a timer and a context is settled by the times at which the two fire; when both are ready when the
  goroutine looks, the router's record decides, as Go's \<open>select\<close> picks any. The delays of the goroutine itself are given too.
\<close>

section \<open>State\<close>

definition gossip_MaxPayloadSize :: nat where "gossip_MaxPayloadSize = 10 * 1024 * 1024"
definition ErrNoPeers :: goerr where "ErrNoPeers = Sentinel ''no gossipsub peers for topic''"

record router =
  ro_Join :: "string \<Rightarrow> nat \<Rightarrow> goerr option"
  ro_Subscribe :: "string \<Rightarrow> nat \<Rightarrow> goerr option"
  ro_Close :: "nat \<Rightarrow> goerr option"
  ro_peers :: "string \<Rightarrow> int \<Rightarrow> nat"
  ro_Publish :: "string \<Rightarrow> bytes \<Rightarrow> int \<Rightarrow> goerr option"
  ro_delay :: "nat \<Rightarrow> nat"
  ro_pick :: "nat \<Rightarrow> bool"
  ro_cancel :: "(int \<times> goerr) option"

text \<open>A joined topic is the number of its join.\<close>

datatype gossip_ev = Joined string nat | Subscribed nat | Unsubscribed nat | Left nat | CloseFailed nat | Published nat bytes int

record ('w, 'o, 'k) publisher =
  p_ctx :: "('w, 'o, 'k) go_ctx option"
  p_topics :: "(string \<times> nat) list"
  p_closed :: bool
  p_joins :: nat
  p_log :: "gossip_ev list"
  p_now :: int

record gossip_options =
  o_Handshake :: bool
  o_WaitForPeer :: bool
  o_Timeout :: int
  o_After :: int
  o_BeforePublish :: "goerr option option"

definition NewPublisher :: "int \<Rightarrow> ('w, 'o, 'k) go_ctx option \<Rightarrow> bool \<Rightarrow> goerr + ('w, 'o, 'k) publisher" where
  "NewPublisher now ctx session_ok =
     (if \<not> session_ok then Inl (Errorf ''nil gossipsub session'' [])
      else Inr \<lparr>p_ctx = Some (case ctx of None \<Rightarrow> Background | Some c \<Rightarrow> c), p_topics = [], p_closed = False, p_joins = 0,
                p_log = [], p_now = now\<rparr>)"

section \<open>Joining and leaving\<close>

definition topic_Close :: "router \<Rightarrow> nat \<Rightarrow> gossip_ev" where
  "topic_Close ro t = (if ro_Close ro t = None then Left t else CloseFailed t)"

definition join :: "router \<Rightarrow> string \<Rightarrow> ('w, 'o, 'k) publisher \<Rightarrow> (goerr + nat) \<times> ('w, 'o, 'k) publisher" where
  "join ro name p =
     (if p_closed p then (Inl (Errorf ''gossipsub publisher closed'' []), p)
      else (case map_of (p_topics p) name of
          Some joined \<Rightarrow> (Inr joined, p)
        | None \<Rightarrow>
            (case ro_Join ro name (p_joins p) of
               Some e \<Rightarrow> (Inl (Wrapf ''join topic %q: %w'' [VStr name] e), p)
             | None \<Rightarrow>
                 let t = p_joins p; p = p\<lparr>p_joins := Suc t, p_log := p_log p @ [Joined name t]\<rparr>
                 in (case ro_Subscribe ro name t of
                       Some e \<Rightarrow> (Inl (Wrapf ''subscribe topic %q: %w'' [VStr name] e), p\<lparr>p_log := p_log p @ [topic_Close ro t]\<rparr>)
                     | None \<Rightarrow> (Inr t, p\<lparr>p_log := p_log p @ [Subscribed t], p_topics := (name, t) # p_topics p\<rparr>)))))"

text \<open>The loop of \<open>Close\<close> over the map, in the order \<open>ts\<close> that the iteration has.\<close>

fun close_topics :: "router \<Rightarrow> (string \<times> nat) list \<Rightarrow> goerr option \<Rightarrow> gossip_ev list \<Rightarrow> goerr option \<times> gossip_ev list" where
  "close_topics ro [] closeErr log = (closeErr, log)"
| "close_topics ro ((name, t) # ts) closeErr log =
     (let log = log @ [Unsubscribed t, topic_Close ro t];
          closeErr = (case ro_Close ro t of
              Some e \<Rightarrow> if closeErr = None then Some (Wrapf ''close topic %q: %w'' [VStr name] e) else closeErr
            | None \<Rightarrow> closeErr)
      in close_topics ro ts closeErr log)"

definition Close :: "router \<Rightarrow> (string \<times> nat) list \<Rightarrow> ('w, 'o, 'k) publisher option \<Rightarrow>
    goerr option \<times> ('w, 'o, 'k) publisher option" where
  "Close ro ts p =
     (case p of None \<Rightarrow> (None, None)
      | Some p \<Rightarrow>
        if p_closed p then (None, Some p)
        else (case close_topics ro ts None (p_log p) of
            (closeErr, log) \<Rightarrow> (closeErr, Some (p\<lparr>p_closed := True, p_log := log, p_topics := []\<rparr>))))"

section \<open>Publishing\<close>

text \<open>When a context is done: at its deadline, or when it is canceled before.\<close>

definition done_at :: "('w, 'o, 'k) go_ctx \<Rightarrow> router \<Rightarrow> (int \<times> goerr) option" where
  "done_at ctx ro =
     (case (cdeadline ctx, ro_cancel ro) of
        (None, c) \<Rightarrow> c
      | (Some d, None) \<Rightarrow> Some (d, DeadlineExceeded)
      | (Some d, Some (t, e)) \<Rightarrow> Some (if t < d then (t, e) else (d, DeadlineExceeded)))"

text \<open>
  A \<open>select\<close> entered at \<open>now\<close> between a timer that fires at \<open>tick\<close> and a context: \<open>Inl\<close> with the context's error, or \<open>Inr\<close> with
  the time it went on.
\<close>

definition select_timer :: "bool \<Rightarrow> (int \<times> goerr) option \<Rightarrow> int \<Rightarrow> int \<Rightarrow> (goerr \<times> int) + int" where
  "select_timer pick ended tick now =
     (case ended of
        None \<Rightarrow> Inr (max now tick)
      | Some (t, e) \<Rightarrow>
          if t < tick \<and> now < tick then Inl (e, max now t)
          else if tick < t \<and> now < t then Inr (max now tick)
          else if pick then Inl (e, max now t) else Inr (max now tick))"

text \<open>The ticker of 100 milliseconds: its next tick after \<open>now\<close>.\<close>

definition next_tick :: "int \<Rightarrow> int \<Rightarrow> int" where
  "next_tick start now = start + 10 ^ 8 * ((now - start) div 10 ^ 8 + 1)"

lemma next_tick_later: "now < next_tick start now"
proof -
  have "now - start < 10 ^ 8 * ((now - start) div 10 ^ 8 + 1)"
    using pos_mod_bound [of "10 ^ 8" "now - start"] div_mult_mod_eq [of "now - start" "10 ^ 8"] by simp
  then show ?thesis by (simp add: next_tick_def)
qed

lemma select_timer_later: "select_timer pick ended tick now = Inr t \<Longrightarrow> now \<le> t \<and> tick \<le> t"
  by (auto simp: select_timer_def split: option.splits if_splits)

function poll_peers :: "router \<Rightarrow> string \<Rightarrow> (int \<times> goerr) option \<Rightarrow> int \<Rightarrow> int \<Rightarrow> nat \<Rightarrow> int \<Rightarrow> goerr option \<times> int" where
  "poll_peers ro topic ended start deadline k now =
     (if ro_peers ro topic now \<noteq> 0 \<or> deadline \<le> now then (None, now)
      else (case select_timer (ro_pick ro k) ended (next_tick start now) (now + int (ro_delay ro k)) of
          Inl (e, t) \<Rightarrow> (Some e, t)
        | Inr t \<Rightarrow> poll_peers ro topic ended start deadline (Suc k) t))"
  by pat_completeness auto
termination
proof (relation "measure (\<lambda>(ro, topic, ended, start, deadline, k, now). nat (deadline - now))", simp, goal_cases)
  case (1 ro topic ended start deadline k now t)
  then show ?case using select_timer_later [OF 1(2)] next_tick_later [of now start] by simp
qed

declare poll_peers.simps [simp del]

text \<open>\<open>Duration.Round\<close>, for a duration that is not negative.\<close>

definition round_duration :: "int \<Rightarrow> int \<Rightarrow> int" where
  "round_duration m d = (let r = d mod m in if r + r < m then d - r else d + m - r)"

definition waitForGossipPeer :: "router \<Rightarrow> ('w, 'o, 'k) go_ctx \<Rightarrow> string \<Rightarrow> gossip_options \<Rightarrow> int \<Rightarrow> (goerr + nat) \<times> int" where
  "waitForGossipPeer ro ctx topic opts now =
     (if \<not> o_WaitForPeer opts then (Inr (ro_peers ro topic now), now)
      else
        let wait = (if o_Timeout opts div 2 \<le> 0 then 4 * 10 ^ 9 else o_Timeout opts div 2);
            wait = Remaining now (Some ctx) wait
        in case poll_peers ro topic (done_at ctx ro) now (now + wait) 0 now of
             (Some e, t) \<Rightarrow> (Inl e, t)
           | (None, t) \<Rightarrow>
               if ro_peers ro topic t = 0
               then (Inl (Wrapf ''%w %q after %s'' [VStr topic, VInt (round_duration (10 ^ 8) wait)] ErrNoPeers), t)
               else (Inr (ro_peers ro topic t), t))"

definition publish_options :: "gossip_options \<Rightarrow> gossip_options" where
  "publish_options opts =
     (let opts = (if o_Timeout opts = 0 then opts\<lparr>o_Timeout := 8 * 10 ^ 9\<rparr> else opts)
      in if o_After opts = 0 then opts\<lparr>o_After := 3 * 10 ^ 8\<rparr> else opts)"

definition too_big :: "bytes \<Rightarrow> goerr" where
  "too_big data = Errorf ''gossip payload size %d exceeds maximum %d'' [VNat (length data), VNat gossip_MaxPayloadSize]"

text \<open>Once the topic is joined, from the wait for peers on; the publisher's context has been bounded by the timeout.\<close>

definition publish_joined ::
    "router \<Rightarrow> ('w, 'o, 'k) go_ctx \<Rightarrow> nat \<Rightarrow> string \<Rightarrow> bytes \<Rightarrow> gossip_options \<Rightarrow> ('w, 'o, 'k) publisher \<Rightarrow>
     goerr option \<times> ('o \<times> write_event) list \<times> ('w, 'o, 'k) publisher" where
  "publish_joined ro ctx t topic data opts p =
     (case waitForGossipPeer ro ctx topic opts (p_now p) of
        (Inl e, now) \<Rightarrow> (Some e, [], p\<lparr>p_now := now\<rparr>)
      | (Inr _, now) \<Rightarrow>
          (case o_BeforePublish opts of
             Some (Some e) \<Rightarrow> (Some (Wrapf ''before gossip publish: %w'' [] e), [], p\<lparr>p_now := now\<rparr>)
           | _ \<Rightarrow>
               let obs = ObserveWrite (Some ctx) ((write_of ''gossipsub'')\<lparr>w_Topic := topic, w_Payload := data\<rparr>)
               in case ro_Publish ro topic data now of
                    Some e \<Rightarrow> (Some (Wrapf ''publish %q: %w'' [VStr topic] e), obs, p\<lparr>p_now := now\<rparr>)
                  | None \<Rightarrow>
                      let p = p\<lparr>p_log := p_log p @ [Published t data now], p_now := now\<rparr>
                      in if o_After opts \<le> 0 then (None, obs, p)
                         else (case select_timer (ro_pick ro 0) (done_at ctx ro) (now + o_After opts) now of
                             Inl (e, t) \<Rightarrow> (Some e, obs, p\<lparr>p_now := t\<rparr>)
                           | Inr t \<Rightarrow> (None, obs, p\<lparr>p_now := t\<rparr>))))"

definition Publish ::
    "router \<Rightarrow> string \<Rightarrow> bytes \<Rightarrow> gossip_options \<Rightarrow> ('w, 'o, 'k) publisher option \<Rightarrow>
     goerr option \<times> ('o \<times> write_event) list \<times> ('w, 'o, 'k) publisher option" where
  "Publish ro topic data opts p =
     (case p of None \<Rightarrow> (Some (Errorf ''nil gossipsub publisher'' []), [], None)
      | Some p \<Rightarrow>
        if gossip_MaxPayloadSize < length data then (Some (too_big data), [], Some p)
        else
          let opts = publish_options opts;
              ctx = WithTimeout (p_now p) (p_ctx p) (Remaining (p_now p) (p_ctx p) (o_Timeout opts))
          in case join ro topic p of
               (Inl e, p) \<Rightarrow> (Some e, [], Some p)
             | (Inr t, p) \<Rightarrow> (case publish_joined ro ctx t topic data opts p of (r, obs, p) \<Rightarrow> (r, obs, Some p)))"

text \<open>
  \<open>Await\<close>: the messages of a subscription come with the time they arrive at and with whether this host is where they came
  from; an error is that of a subscription that has ended. \<open>None\<close> is a wait that does not end.
\<close>

type_synonym arrival = "int \<times> (goerr + bool \<times> bytes)"

fun next_message ::
    "router \<Rightarrow> (int \<times> goerr) option \<Rightarrow> nat \<Rightarrow> int \<Rightarrow> arrival list \<Rightarrow> ((goerr + bytes) \<times> int) option \<times> arrival list" where
  "next_message ro ended k now [] = (case ended of None \<Rightarrow> None | Some (t, e) \<Rightarrow> Some (Inl e, max now t), [])"
| "next_message ro ended k now ((at, m) # ms) =
     (case select_timer (ro_pick ro k) ended at now of
        Inl (e, t) \<Rightarrow> (Some (Inl e, t), (at, m) # ms)
      | Inr t \<Rightarrow> (case m of
          Inl e \<Rightarrow> (Some (Inl e, t), ms)
        | Inr (from_self, data) \<Rightarrow> if from_self then next_message ro ended (Suc k) t ms else (Some (Inr data, t), ms)))"

definition Await ::
    "router \<Rightarrow> string \<Rightarrow> int \<Rightarrow> (nat \<Rightarrow> arrival list) \<Rightarrow> ('w, 'o, 'k) publisher option \<Rightarrow>
     (goerr + bytes) option \<times> (nat \<Rightarrow> arrival list) \<times> ('w, 'o, 'k) publisher option" where
  "Await ro topic timeout inbox p =
     (case p of None \<Rightarrow> (Some (Inl (Errorf ''nil gossipsub publisher'' [])), inbox, None)
      | Some p \<Rightarrow>
        (case join ro topic p of
           (Inl e, p) \<Rightarrow> (Some (Inl e), inbox, Some p)
         | (Inr t, p) \<Rightarrow>
             let timeout = (if timeout \<le> 0 then 8 * 10 ^ 9 else timeout);
                 ctx = WithTimeout (p_now p) (p_ctx p) (Remaining (p_now p) (p_ctx p) timeout)
             in (case next_message ro (done_at ctx ro) 0 (p_now p) (inbox t) of
                   (None, ms) \<Rightarrow> (None, inbox(t := ms), Some p)
                 | (Some (r, now), ms) \<Rightarrow> (Some r, inbox(t := ms), Some (p\<lparr>p_now := now\<rparr>)))))"

text \<open>
  The function \<open>Publish\<close>: a session of its own, the handshake if asked for, one publication, and the deferred closing of
  publisher and session. \<open>opened\<close> and \<open>warmup\<close> are what \<open>NewSession\<close> and \<open>StatusWarmup\<close> give, \<open>now'\<close> the time after them.
\<close>

datatype session_ev = SessionOpened | SessionClosed

definition publish_once ::
    "router \<Rightarrow> int \<Rightarrow> int \<Rightarrow> ('w, 'o, 'k) go_ctx option \<Rightarrow> goerr option \<Rightarrow> goerr option \<Rightarrow> string \<Rightarrow> bytes \<Rightarrow> gossip_options \<Rightarrow>
     goerr option \<times> ('o \<times> write_event) list \<times> session_ev list \<times> ('w, 'o, 'k) publisher option" where
  "publish_once ro now now' ctx opened warmup topic data opts =
     (if gossip_MaxPayloadSize < length data then (Some (too_big data), [], [], None)
      else
        let opts = publish_options opts;
            publishCtx = WithTimeout now ctx (Remaining now ctx (o_Timeout opts))
        in case opened of
             Some e \<Rightarrow> (Some e, [], [], None)
           | None \<Rightarrow>
               (case (if o_Handshake opts then warmup else None) of
                  Some e \<Rightarrow> (Some (Wrapf ''status warmup: %w'' [] e), [], [SessionOpened, SessionClosed], None)
                | None \<Rightarrow>
                    (case NewPublisher now' (Some publishCtx) True of
                       Inl e \<Rightarrow> (Some e, [], [SessionOpened, SessionClosed], None)
                     | Inr p \<Rightarrow>
                         (case Publish ro topic data opts (Some p) of
                            (r, obs, p) \<Rightarrow>
                              (r, obs, [SessionOpened, SessionClosed],
                               snd (Close ro (case p of None \<Rightarrow> [] | Some p \<Rightarrow> p_topics p) p))))))"

section \<open>What is awaited\<close>

lemma next_message_ends:
  "ended = Some d \<Longrightarrow> fst (next_message ro ended k now ms) \<noteq> None"
  by (induction ro ended k now ms rule: next_message.induct) (auto split: sum.split prod.split)

lemma next_message_foreign:
  "next_message ro ended k now ms = (Some (Inr data, t), rest) \<Longrightarrow>
     \<exists>own at. ms = own @ (at, Inr (False, data)) # rest \<and> (\<forall>m \<in> set own. \<exists>d. snd m = Inr (True, d))"
proof (induction ro ended k now ms rule: next_message.induct)
  case (2 ro ended k now at m ms)
  obtain u where u: "select_timer (ro_pick ro k) ended at now = Inr u"
    using 2(2) by (cases "select_timer (ro_pick ro k) ended at now") auto
  then obtain self d where m: "m = Inr (self, d)" using 2(2) by (cases m) auto
  show ?case
  proof (cases self)
    case True
    then obtain own at' where "ms = own @ (at', Inr (False, data)) # rest" "\<forall>m \<in> set own. \<exists>d. snd m = Inr (True, d)"
      using 2(1) [OF u m refl] 2(2) u m by auto
    then show ?thesis using True m by (intro exI [of _ "(at, m) # own"]) auto
  qed (use 2(2) u m in auto)
qed (auto split: option.splits)

lemma done_at_WithTimeout: "\<exists>d. done_at (WithTimeout now ctx timeout) ro = Some d"
  by (auto simp: done_at_def WithTimeout_def Let_def split: option.split)

text \<open>
  \<open>Await\<close> always returns, and a message it returns is the first of the subscription that did not come from this host; the
  messages before it are consumed, those after it stay.
\<close>

theorem Await_first_foreign:
  "case Await ro topic timeout inbox p of
     (None, _) \<Rightarrow> False
   | (Some (Inl e), _) \<Rightarrow> True
   | (Some (Inr data), inbox', _) \<Rightarrow>
       \<exists>t own at. inbox t = own @ (at, Inr (False, data)) # inbox' t \<and> (\<forall>m \<in> set own. \<exists>d. snd m = Inr (True, d)) \<and>
         (\<forall>u. u \<noteq> t \<longrightarrow> inbox' u = inbox u)"
proof (cases "\<exists>q t q'. p = Some q \<and> join ro topic q = (Inr t, q')")
  case True
  then obtain q t q' where q: "p = Some q" "join ro topic q = (Inr t, q')" by blast
  define ctx where "ctx = WithTimeout (p_now q') (p_ctx q') (Remaining (p_now q') (p_ctx q') (if timeout \<le> 0 then 8 * 10 ^ 9 else timeout))"
  obtain d where d: "done_at ctx ro = Some d" using done_at_WithTimeout ctx_def by metis
  obtain x ms where n: "next_message ro (done_at ctx ro) 0 (p_now q') (inbox t) = (x, ms)" by (metis surj_pair)
  obtain r now where x: "x = Some (r, now)" using next_message_ends [OF d] n by (metis fst_conv not_None_eq surj_pair)
  have a: "Await ro topic timeout inbox p = (Some r, inbox(t := ms), Some (q'\<lparr>p_now := now\<rparr>))"
    unfolding Await_def using q n x by (simp add: Let_def ctx_def)
  show ?thesis
  proof (cases r)
    case (Inr data)
    then show ?thesis using next_message_foreign [of ro "done_at ctx ro" 0 "p_now q'" "inbox t" data now ms] n x a
      by (auto intro!: exI [of _ t])
  qed (simp add: a)
next
  case False
  then show ?thesis by (auto simp: Await_def split: option.split prod.split sum.split)
qed

section \<open>No topic is leaked\<close>

text \<open>Which topics and subscriptions the router still holds for this publisher.\<close>

definition live :: "gossip_ev list \<Rightarrow> nat set" where
  "live log = {t. (\<exists>name. Joined name t \<in> set log) \<and> Left t \<notin> set log}"

definition subscribed :: "gossip_ev list \<Rightarrow> nat set" where
  "subscribed log = {t. Subscribed t \<in> set log \<and> Unsubscribed t \<notin> set log}"

text \<open>
  The states that the operations lead to under every interleaving: \<open>join\<close> and \<open>Close\<close> are atomic under the mutex; the rest of a
  \<open>Publish\<close> runs outside, on a topic joined before, whatever happened since.
\<close>

inductive reach :: "router \<Rightarrow> ('w, 'o, 'k) publisher \<Rightarrow> bool" for ro where
  new: "NewPublisher now ctx True = Inr p \<Longrightarrow> reach ro p"
| joins: "reach ro p \<Longrightarrow> join ro name p = (r, q) \<Longrightarrow> reach ro q"
| rest: "reach ro p \<Longrightarrow> publish_joined ro ctx t topic data opts p = (r, obs, q) \<Longrightarrow> reach ro q"
| closes: "reach ro p \<Longrightarrow> mset ts = mset (p_topics p) \<Longrightarrow> Close ro ts (Some p) = (r, Some q) \<Longrightarrow> reach ro q"

text \<open>The topics whose \<open>Topic.Close\<close> failed, and the calls of it.\<close>

definition kept :: "gossip_ev list \<Rightarrow> nat set" where "kept log = {t. CloseFailed t \<in> set log}"

definition closings :: "gossip_ev list \<Rightarrow> nat \<Rightarrow> nat" where
  "closings log t = count_list log (Left t) + count_list log (CloseFailed t)"

definition untouched :: "nat \<Rightarrow> gossip_ev list \<Rightarrow> bool" where
  "untouched t log \<longleftrightarrow> (\<forall>name. Joined name t \<notin> set log) \<and> Left t \<notin> set log \<and> CloseFailed t \<notin> set log \<and>
     Subscribed t \<notin> set log \<and> Unsubscribed t \<notin> set log"

definition ledger_ok :: "router \<Rightarrow> (string \<times> nat) list \<Rightarrow> bool \<Rightarrow> nat \<Rightarrow> gossip_ev list \<Rightarrow> bool" where
  "ledger_ok ro ts closed joins log \<longleftrightarrow>
     distinct (map fst ts) \<and> distinct (map snd ts) \<and> (closed \<longrightarrow> ts = []) \<and>
     live log = snd ` set ts \<union> kept log \<and> snd ` set ts \<inter> kept log = {} \<and> subscribed log = snd ` set ts \<and>
     (\<forall>(name, t) \<in> set ts. Joined name t \<in> set log) \<and>
     (\<forall>t. (Left t \<in> set log \<longrightarrow> ro_Close ro t = None) \<and> (CloseFailed t \<in> set log \<longrightarrow> ro_Close ro t \<noteq> None)) \<and>
     (\<forall>t \<ge> joins. untouched t log) \<and> (\<forall>t. closings log t \<le> 1)"

definition topics_ok :: "router \<Rightarrow> ('w, 'o, 'k) publisher \<Rightarrow> bool" where
  "topics_ok ro p \<longleftrightarrow> ledger_ok ro (p_topics p) (p_closed p) (p_joins p) (p_log p)"

lemma count_list_append [simp]: "count_list (xs @ ys) x = count_list xs x + count_list ys x"
  by (induction xs) simp_all

lemma distinct_count_le: "distinct xs \<Longrightarrow> count_list xs x \<le> 1"
  by (induction xs) (auto simp: count_list_0_iff)

lemma closings_append [simp]: "closings (xs @ ys) t = closings xs t + closings ys t"
  by (simp add: closings_def)

lemma closings_untouched: "untouched t log \<Longrightarrow> closings log t = 0"
  by (simp add: untouched_def closings_def count_list_0_iff)

definition closing_log :: "router \<Rightarrow> (string \<times> nat) list \<Rightarrow> gossip_ev list" where
  "closing_log ro ts = concat (map (\<lambda>(name, t). [Unsubscribed t, topic_Close ro t]) ts)"

lemma close_topics_log: "snd (close_topics ro ts e log) = log @ closing_log ro ts"
  unfolding closing_log_def by (induction ro ts e log rule: close_topics.induct) (simp_all add: Let_def)

text \<open>\<open>Close\<close> reports an error exactly when a topic stays with the router.\<close>

lemma close_topics_error: "fst (close_topics ro ts e log) = None \<longleftrightarrow> e = None \<and> (\<forall>(name, t) \<in> set ts. ro_Close ro t = None)"
  by (induction ro ts e log rule: close_topics.induct) (auto simp: Let_def split: option.splits)

lemma in_closing_log:
  "Left t \<in> set (closing_log ro ts) \<longleftrightarrow> t \<in> snd ` set ts \<and> ro_Close ro t = None"
  "CloseFailed t \<in> set (closing_log ro ts) \<longleftrightarrow> t \<in> snd ` set ts \<and> ro_Close ro t \<noteq> None"
  "Unsubscribed t \<in> set (closing_log ro ts) \<longleftrightarrow> t \<in> snd ` set ts"
  "Joined n t \<notin> set (closing_log ro ts)" "Subscribed t \<notin> set (closing_log ro ts)"
  by (force simp: closing_log_def topic_Close_def split: if_splits)+

lemma closings_closing_log: "closings (closing_log ro ts) t = count_list (map snd ts) t"
  by (induction ts) (auto simp: closing_log_def closings_def topic_Close_def)

lemma ledger_published [simp]: "ledger_ok ro ts c j (log @ [Published t data at]) = ledger_ok ro ts c j log"
  by (simp add: ledger_ok_def live_def subscribed_def kept_def untouched_def closings_def)

lemma ledger_joined:
  assumes "ledger_ok ro ts False j log" "name \<notin> fst ` set ts"
  shows "ledger_ok ro ts False (Suc j) (log @ [Joined name j, topic_Close ro j])"
    "ledger_ok ro ((name, j) # ts) False (Suc j) (log @ [Joined name j, Subscribed j])"
proof -
  note l = assms(1) [unfolded ledger_ok_def]
  have fresh: "untouched t log" if "j \<le> t" for t using l that by blast
  then have now: "(\<forall>name. Joined name j \<notin> set log)" "Left j \<notin> set log" "CloseFailed j \<notin> set log" "Subscribed j \<notin> set log" "Unsubscribed j \<notin> set log"
    by (auto simp: untouched_def)
  have j: "j \<notin> snd ` set ts" using now(1) l by auto
  let ?log1 = "log @ [Joined name j, topic_Close ro j]" and ?log2 = "log @ [Joined name j, Subscribed j]"
  have "live ?log1 = live log \<union> (if ro_Close ro j = None then {} else {j})" "kept ?log1 = kept log \<union> (if ro_Close ro j = None then {} else {j})"
    "subscribed ?log1 = subscribed log"
    "live ?log2 = insert j (live log)" "kept ?log2 = kept log" "subscribed ?log2 = insert j (subscribed log)"
    using now by (auto simp: live_def kept_def subscribed_def topic_Close_def split: if_splits)
  moreover have "closings ?log1 t \<le> 1" "closings ?log2 t \<le> 1" for t
    using l closings_untouched [OF fresh [OF order_refl]] by (cases "t = j"; auto simp: closings_def topic_Close_def)+
  moreover have "untouched t ?log1" "untouched t ?log2" if "Suc j \<le> t" for t
    using fresh [of t] that by (auto simp: untouched_def topic_Close_def)
  moreover have "j \<notin> kept log" using now(3) by (simp add: kept_def)
  ultimately show "ledger_ok ro ts False (Suc j) ?log1" "ledger_ok ro ((name, j) # ts) False (Suc j) ?log2"
    using l j assms(2) by (auto simp: ledger_ok_def topic_Close_def split: if_splits)
qed

lemma ledger_closed:
  assumes "ledger_ok ro ts False j log" "mset us = mset ts"
  shows "ledger_ok ro [] True j (log @ closing_log ro us)"
proof -
  note l = assms(1) [unfolded ledger_ok_def]
  have same: "set us = set ts" "distinct (map snd us)"
    using assms l by (auto dest: mset_eq_setD) (metis distinct_map mset_eq_imp_distinct_iff mset_eq_setD)
  note new = in_closing_log [where ts = us, unfolded same(1)]
  have here: "Left t \<notin> set log \<and> CloseFailed t \<notin> set log \<and> t < j" if "t \<in> snd ` set ts" for t
  proof -
    have "t \<in> live log" "t \<notin> kept log" using that l by auto
    moreover have "\<not> untouched t log" using \<open>t \<in> live log\<close> by (auto simp: live_def untouched_def)
    then have "t < j" using l by (meson not_less)
    ultimately show ?thesis by (auto simp: live_def kept_def)
  qed
  have "live (log @ closing_log ro us) = kept (log @ closing_log ro us)" "subscribed (log @ closing_log ro us) = {}"
    using l here by (auto simp: live_def kept_def subscribed_def new set_eq_iff)
  moreover have "closings (log @ closing_log ro us) t \<le> 1" for t
  proof (cases "t \<in> snd ` set ts")
    case True
    then have "closings log t = 0" using here by (simp add: closings_def count_list_0_iff)
    then show ?thesis using distinct_count_le [OF same(2)] by (simp add: closings_closing_log)
  next
    case False
    then show ?thesis using l same(1) by (auto simp: closings_closing_log count_list_0_iff)
  qed
  moreover have "untouched t (log @ closing_log ro us)" if "j \<le> t" for t
    using l here [of t] that by (auto simp: untouched_def new)
  moreover have "(Left t \<in> set (log @ closing_log ro us) \<longrightarrow> ro_Close ro t = None) \<and>
      (CloseFailed t \<in> set (log @ closing_log ro us) \<longrightarrow> ro_Close ro t \<noteq> None)" for t
    using l by (auto simp: new)
  ultimately show ?thesis by (simp add: ledger_ok_def)
qed

lemma topics_ok_join: "topics_ok ro p \<Longrightarrow> join ro name p = (r, q) \<Longrightarrow> topics_ok ro q"
  using ledger_joined [of ro "p_topics p" "p_joins p" "p_log p" name]
  by (auto simp: join_def topics_ok_def map_of_eq_None_iff Let_def split: option.splits if_splits)

lemma topics_ok_Close:
  assumes "topics_ok ro p" "mset ts = mset (p_topics p)" "Close ro ts (Some p) = (r, Some q)"
  shows "topics_ok ro q"
  using assms ledger_closed [of ro "p_topics p" "p_joins p" "p_log p" ts] close_topics_log [of ro ts None "p_log p"]
  by (auto simp: Close_def topics_ok_def split: if_splits prod.splits)

lemma publish_joined_frame:
  assumes "publish_joined ro ctx t topic data opts p = (r, obs, q)"
  shows "p_topics q = p_topics p \<and> p_closed q = p_closed p \<and> p_joins q = p_joins p \<and>
    (p_log q = p_log p \<or> (\<exists>at. p_log q = p_log p @ [Published t data at]))"
  using assms unfolding publish_joined_def
  by (auto simp: Let_def split: prod.splits sum.splits option.splits if_splits)

lemma topics_ok_publish:
  assumes "topics_ok ro p" "publish_joined ro ctx t topic data opts p = (r, obs, q)"
  shows "topics_ok ro q"
  using publish_joined_frame [OF assms(2)] assms(1) by (auto simp: topics_ok_def)

lemma reach_ok: "reach ro p \<Longrightarrow> topics_ok ro p"
proof (induction rule: reach.induct)
  case (new p)
  then show ?case
    by (auto simp: NewPublisher_def topics_ok_def ledger_ok_def live_def subscribed_def kept_def untouched_def closings_def)
qed (auto intro: topics_ok_join topics_ok_publish topics_ok_Close)

text \<open>
  C24: However joins, publications and closing are interleaved, the topics that the router still holds for a publisher are
  those in its map and those whose \<open>Topic.Close\<close> returned an error, and no others; the subscriptions not cancelled are those
  in the map. The map holds each name once, with the topic that was joined under it; \<open>Topic.Close\<close> is called at most once
  for a topic, a topic is given up exactly when that call succeeds, and a closed publisher has an empty map: it holds no
  topic, unless one refused to close.
\<close>

theorem publisher_leaks_no_topic:
  assumes "reach ro p"
  shows "live (p_log p) = snd ` set (p_topics p) \<union> kept (p_log p) \<and> snd ` set (p_topics p) \<inter> kept (p_log p) = {} \<and>
    subscribed (p_log p) = snd ` set (p_topics p) \<and> distinct (map fst (p_topics p)) \<and>
    (\<forall>(name, t) \<in> set (p_topics p). Joined name t \<in> set (p_log p)) \<and>
    (\<forall>t. count_list (p_log p) (Left t) + count_list (p_log p) (CloseFailed t) \<le> 1) \<and>
    (\<forall>t. (Left t \<in> set (p_log p) \<longrightarrow> ro_Close ro t = None) \<and> (CloseFailed t \<in> set (p_log p) \<longrightarrow> ro_Close ro t \<noteq> None)) \<and>
    (p_closed p \<longrightarrow> p_topics p = [] \<and> live (p_log p) = kept (p_log p))"
  using reach_ok [OF assms] by (auto simp: topics_ok_def ledger_ok_def closings_def)

definition demo_router :: router where
  "demo_router = \<lparr>ro_Join = (\<lambda>_ _. None), ro_Subscribe = (\<lambda>_ _. None), ro_Close = (\<lambda>_. None),
     ro_peers = (\<lambda>_ t. if t < 6 * 10 ^ 9 then 0 else 1), ro_Publish = (\<lambda>_ _ _. None), ro_delay = (\<lambda>_. 0), ro_pick = (\<lambda>_. True),
     ro_cancel = None\<rparr>"

definition demo_publisher :: "(unit, unit, unit) publisher" where
  "demo_publisher = \<lparr>p_ctx = Some Background, p_topics = [], p_closed = False, p_joins = 0, p_log = [], p_now = 0\<rparr>"

text \<open>A router on which closing the second topic fails.\<close>

definition stuck_router :: router where
  "stuck_router = demo_router\<lparr>ro_Close := (\<lambda>t. if t = 1 then Some (Sentinel ''cannot close topic'') else None)\<rparr>"

lemma publisher_leaks_no_topic_witness:
  "\<exists>p q r. join stuck_router ''blocks'' demo_publisher = (Inr 0, p) \<and> join stuck_router ''votes'' p = (Inr 1, q) \<and> live (p_log q) = {0, 1} \<and>
     Close stuck_router [(''votes'', 1), (''blocks'', 0)] (Some q) =
       (Some (Wrapf ''close topic %q: %w'' [VStr ''votes''] (Sentinel ''cannot close topic'')), Some r) \<and> live (p_log r) = {1}"
proof -
  let ?first = "[Joined ''blocks'' 0, Subscribed 0]"
  let ?log = "?first @ [Joined ''votes'' 1, Subscribed 1]"
  let ?p = "demo_publisher\<lparr>p_joins := 1, p_log := ?first, p_topics := [(''blocks'', 0)]\<rparr>"
  let ?q = "demo_publisher\<lparr>p_joins := 2, p_log := ?log, p_topics := [(''votes'', 1), (''blocks'', 0)]\<rparr>"
  let ?r = "?q\<lparr>p_closed := True, p_log := ?log @ [Unsubscribed 1, CloseFailed 1, Unsubscribed 0, Left 0], p_topics := []\<rparr>"
  have 1: "reach stuck_router demo_publisher" by (rule reach.new [where now = 0 and ctx = None]) (simp add: NewPublisher_def demo_publisher_def)
  have j: "join stuck_router ''blocks'' demo_publisher = (Inr 0, ?p)" "join stuck_router ''votes'' ?p = (Inr 1, ?q)"
    by (simp_all add: join_def demo_router_def demo_publisher_def stuck_router_def numeral_2_eq_2)
  have c: "Close stuck_router [(''votes'', 1), (''blocks'', 0)] (Some ?q) =
      (Some (Wrapf ''close topic %q: %w'' [VStr ''votes''] (Sentinel ''cannot close topic'')), Some ?r)"
    by (simp add: Close_def topic_Close_def demo_router_def demo_publisher_def stuck_router_def)
  have q: "reach stuck_router ?q" using reach.joins [OF reach.joins [OF 1 j(1)] j(2)] .
  have r: "reach stuck_router ?r" by (rule reach.closes [OF q _ c]) simp
  have "live (p_log ?q) = {0, 1}" using publisher_leaks_no_topic [OF q] by (auto simp: kept_def)
  moreover have "live (p_log ?r) = {1}" using publisher_leaks_no_topic [OF r] by (auto simp: kept_def)
  ultimately show ?thesis using j c by blast
qed

section \<open>What a publication does\<close>

fun is_published :: "gossip_ev \<Rightarrow> bool" where
  "is_published (Published _ _ _) = True"
| "is_published _ = False"

definition published :: "('w, 'o, 'k) publisher \<Rightarrow> gossip_ev list" where
  "published p = filter is_published (p_log p)"

lemma published_join [simp]: "join ro name p = (r, q) \<Longrightarrow> published q = published p"
  by (auto simp: join_def published_def topic_Close_def Let_def split: option.splits if_splits)

lemma poll_peers_result:
  "poll_peers ro topic ended start deadline k now = (r, t) \<Longrightarrow>
     (case r of None \<Rightarrow> ro_peers ro topic t \<noteq> 0 \<or> deadline \<le> t | Some e \<Rightarrow> (\<exists>at. ended = Some (at, e) \<and> at \<le> t))"
proof (induction ro topic ended start deadline k now rule: poll_peers.induct)
  case (1 ro topic ended start deadline k now)
  show ?case
  proof (cases "ro_peers ro topic now \<noteq> 0 \<or> deadline \<le> now")
    case True
    then show ?thesis using 1(2) by (auto simp: poll_peers.simps [of ro topic ended])
  next
    case False
    then show ?thesis
      using 1(2) "1.IH" [OF False]
      by (auto simp: poll_peers.simps [of ro topic ended start deadline k now] select_timer_def split: sum.splits option.splits if_splits)
  qed
qed

lemma select_timer_Inl: "select_timer pick ended tick now = Inl (e, t) \<Longrightarrow> \<exists>at. ended = Some (at, e) \<and> at \<le> t"
  by (auto simp: select_timer_def split: option.splits if_splits)

lemma wait_peer: "waitForGossipPeer ro ctx topic opts now = (Inr n, t) \<Longrightarrow> o_WaitForPeer opts \<longrightarrow> ro_peers ro topic t \<noteq> 0"
  by (auto simp: waitForGossipPeer_def Let_def split: prod.splits option.splits if_splits)

lemma publish_joined_outcome:
  assumes "publish_joined ro ctx t topic data opts p = (r, obs, q)"
  shows "published q = published p \<and> r \<noteq> None \<or>
    (\<exists>at. published q = published p @ [Published t data at] \<and> (\<forall>e. o_BeforePublish opts \<noteq> Some (Some e)) \<and>
       (o_WaitForPeer opts \<longrightarrow> ro_peers ro topic at \<noteq> 0) \<and>
       (\<forall>e. r = Some e \<longrightarrow> (\<exists>at. done_at ctx ro = Some (at, e) \<and> at \<le> p_now q)))"
proof -
  obtain w now where w: "waitForGossipPeer ro ctx topic opts (p_now p) = (w, now)" by (metis surj_pair)
  show ?thesis
  proof (cases "isl w \<or> (\<exists>e. o_BeforePublish opts = Some (Some e)) \<or> ro_Publish ro topic data now \<noteq> None")
    case True
    then show ?thesis using assms w unfolding publish_joined_def
      by (auto simp: published_def Let_def split: sum.splits option.splits)
  next
    case False
    then obtain n where n: "w = Inr n" "\<forall>e. o_BeforePublish opts \<noteq> Some (Some e)" "ro_Publish ro topic data now = None" by (cases w) auto
    have peers: "o_WaitForPeer opts \<longrightarrow> ro_peers ro topic now \<noteq> 0" using wait_peer w n(1) by metis
    let ?q = "p\<lparr>p_log := p_log p @ [Published t data now], p_now := now\<rparr>"
    have q: "r = None \<and> published q = published ?q \<or>
        (\<exists>e t'. select_timer (ro_pick ro 0) (done_at ctx ro) (now + o_After opts) now = Inl (e, t') \<and> r = Some e \<and> q = ?q\<lparr>p_now := t'\<rparr>)"
      using assms w n unfolding publish_joined_def
      by (cases "o_BeforePublish opts") (auto simp: published_def Let_def split: sum.splits if_splits)
    then show ?thesis using n(2) peers select_timer_Inl by (fastforce simp: published_def)
  qed
qed

text \<open>
  C25: One call of \<open>Publish\<close> hands the router at most one message, the given one, within the payload limit and, when the caller asked
  to wait for peers, at a time when a peer subscribes to the topic. It succeeds only with the message handed over; if it
  fails although the message was handed over, the error is that of the context, which ended during the wait afterwards.
\<close>

theorem Publish_at_most_once:
  assumes "Publish ro topic data opts (Some p) = (r, obs, Some q)"
  shows "published q = published p \<and> r \<noteq> None \<or>
    (\<exists>t at. published q = published p @ [Published t data at] \<and> length data \<le> gossip_MaxPayloadSize \<and>
       (\<forall>e. o_BeforePublish opts \<noteq> Some (Some e)) \<and> (o_WaitForPeer opts \<longrightarrow> ro_peers ro topic at \<noteq> 0) \<and>
       (\<forall>e. r = Some e \<longrightarrow>
          (\<exists>at. done_at (WithTimeout (p_now p) (p_ctx p) (Remaining (p_now p) (p_ctx p) (o_Timeout (publish_options opts)))) ro =
             Some (at, e) \<and> at \<le> p_now q)))"
proof -
  have o: "o_BeforePublish (publish_options opts) = o_BeforePublish opts" "o_WaitForPeer (publish_options opts) = o_WaitForPeer opts"
    by (simp_all add: publish_options_def Let_def)
  obtain j p' where j: "join ro topic p = (j, p')" by (metis surj_pair)
  show ?thesis
  proof (cases "gossip_MaxPayloadSize < length data \<or> isl j")
    case True
    then show ?thesis using assms j published_join [OF j] by (cases j) (auto simp: Publish_def Let_def split: if_splits prod.splits)
  next
    case False
    then obtain t where t: "j = Inr t" by (cases j) auto
    have pj: "publish_joined ro (WithTimeout (p_now p) (p_ctx p) (Remaining (p_now p) (p_ctx p) (o_Timeout (publish_options opts)))) t topic data
        (publish_options opts) p' = (r, obs, q)"
      using assms j t False by (auto simp: Publish_def Let_def split: prod.splits if_splits)
    show ?thesis using publish_joined_outcome [OF pj] published_join [OF j] o False by auto
  qed
qed

lemma Publish_at_most_once_witness:
  "\<exists>r obs q. Publish demo_router ''blocks'' [1, 2] \<lparr>o_Handshake = False, o_WaitForPeer = False, o_Timeout = 0, o_After = -1, o_BeforePublish = None\<rparr>
     (Some demo_publisher) = (r, obs, Some q) \<and> r = None \<and> published q = [Published 0 [1, 2] 0]"
proof -
  let ?o = "\<lparr>o_Handshake = False, o_WaitForPeer = False, o_Timeout = 0, o_After = -1, o_BeforePublish = None\<rparr>"
  have "\<exists>obs q. Publish demo_router ''blocks'' [1, 2] ?o (Some demo_publisher) = (None, obs, Some q) \<and> published q = [Published 0 [1, 2] 0]"
    by (simp add: Publish_def gossip_MaxPayloadSize_def join_def demo_router_def demo_publisher_def publish_options_def publish_joined_def
        waitForGossipPeer_def published_def Let_def)
  then obtain obs q where p: "Publish demo_router ''blocks'' [1, 2] ?o (Some demo_publisher) = (None, obs, Some q)"
    "published q = [Published 0 [1, 2] 0]" by blast
  from Publish_at_most_once [OF p(1)] p show ?thesis by blast
qed

text \<open>
  C40: \<open>ErrNoPeers\<close> is only reported once the context of the publication is already over, so that waiting for peers that never come
  ends with the context's error as soon as that is noticed: the bound of half the timeout has no effect, because
  \<open>session.Remaining\<close> replaces it by the time to the deadline that \<open>Publish\<close> has just set.
\<close>

theorem no_peers_only_after_deadline:
  assumes "waitForGossipPeer ro ctx topic opts now = (Inl e, t)" "errors_is e ErrNoPeers"
    and "cdeadline ctx = Some d" "\<forall>at e. ro_cancel ro = Some (at, e) \<longrightarrow> \<not> errors_is e ErrNoPeers"
  shows "d \<le> t"
proof -
  let ?w = "Remaining now (Some ctx) (if o_Timeout opts div 2 \<le> 0 then 4 * 10 ^ 9 else o_Timeout opts div 2)"
  obtain r t' where p: "poll_peers ro topic (done_at ctx ro) now (now + ?w) 0 now = (r, t')" by (metis surj_pair)
  have w: "d \<le> now + ?w" using assms(3) by (simp add: Remaining_def Let_def)
  have "r = None"
  proof (rule ccontr)
    assume "r \<noteq> None"
    then obtain e' where e': "r = Some e'" by auto
    have ne: "DeadlineExceeded \<noteq> ErrNoPeers" by (simp add: ErrNoPeers_def DeadlineExceeded_def)
    have "\<exists>at. done_at ctx ro = Some (at, e')" using poll_peers_result [OF p] e' by auto
    then have "\<not> errors_is e' ErrNoPeers" using assms(3,4) ne
      by (auto simp: done_at_def DeadlineExceeded_def split: option.splits if_splits)
    then show False using assms(1,2) p e' by (simp add: waitForGossipPeer_def Let_def split: if_splits)
  qed
  then have "t = t'" "ro_peers ro topic t' = 0"
    using assms(1) p by (simp_all add: waitForGossipPeer_def Let_def split: if_splits)
  then show ?thesis using poll_peers_result [OF p] \<open>r = None\<close> w by simp
qed

definition demo_wait :: gossip_options where
  "demo_wait = \<lparr>o_Handshake = False, o_WaitForPeer = True, o_Timeout = 8 * 10 ^ 9, o_After = -1, o_BeforePublish = None\<rparr>"

text \<open>A goroutine that is scheduled late, in a world without peers.\<close>

definition late_router :: router where
  "late_router = demo_router\<lparr>ro_peers := (\<lambda>_ _. 0), ro_delay := (\<lambda>_. 9 * 10 ^ 9), ro_pick := (\<lambda>_. False)\<rparr>"

lemma no_peers_only_after_deadline_witness:
  "\<exists>t. waitForGossipPeer late_router (Background\<lparr>cdeadline := Some (8 * 10 ^ 9)\<rparr> :: (unit, unit, unit) go_ctx) ''blocks'' demo_wait 0 =
     (Inl (Wrapf ''%w %q after %s'' [VStr ''blocks'', VInt (8 * 10 ^ 9)] ErrNoPeers), t) \<and> 8 * 10 ^ 9 \<le> t"
proof -
  let ?c = "Background\<lparr>cdeadline := Some (8 * 10 ^ 9)\<rparr> :: (unit, unit, unit) go_ctx"
  have w: "waitForGossipPeer late_router ?c ''blocks'' demo_wait 0 =
     (Inl (Wrapf ''%w %q after %s'' [VStr ''blocks'', VInt (8 * 10 ^ 9)] ErrNoPeers), 9 * 10 ^ 9)"
    by (simp add: waitForGossipPeer_def demo_wait_def Remaining_def late_router_def demo_router_def done_at_def
        poll_peers.simps select_timer_def next_tick_def Let_def round_duration_def)
  show ?thesis using w no_peers_only_after_deadline [OF w, of "8 * 10 ^ 9"]
    by (simp add: ErrNoPeers_def late_router_def demo_router_def)
qed

text \<open>With a timeout of eight seconds a peer that comes after six is still waited for.\<close>

lemma wait_outlasts_half_the_timeout:
  "waitForGossipPeer (demo_router\<lparr>ro_delay := (\<lambda>_. 6 * 10 ^ 9)\<rparr>) (WithTimeout 0 (None :: (unit, unit, unit) go_ctx option) (8 * 10 ^ 9))
     ''blocks'' demo_wait 0 = (Inr 1, 6 * 10 ^ 9)"
  by (simp add: waitForGossipPeer_def demo_wait_def Remaining_def demo_router_def done_at_def WithTimeout_def Background_def
      poll_peers.simps select_timer_def next_tick_def Let_def)

section \<open>A publication of its own\<close>

lemma Close_empties: "case snd (Close ro ts p) of None \<Rightarrow> True | Some q \<Rightarrow> p_closed q"
  by (auto simp: Close_def split: option.splits if_splits prod.splits)

text \<open>The function \<open>Publish\<close> closes the session it opened, and leaves every topic, however it ends.\<close>

lemma publish_once_cleans_up:
  assumes "publish_once ro now now' ctx opened warmup topic data opts = (r, obs, evs, q)"
  shows "evs \<in> {[], [SessionOpened, SessionClosed]} \<and> (case q of None \<Rightarrow> True | Some q \<Rightarrow> p_closed q)"
proof -
  have "evs \<in> {[], [SessionOpened, SessionClosed]} \<and> (q = None \<or> (\<exists>ts p. q = snd (Close ro ts p)))"
    using assms unfolding publish_once_def Let_def
    by (auto split: if_splits option.splits sum.splits prod.splits)
  then show ?thesis using Close_empties by fastforce
qed

end
