(* ===== verification/Reqresp_Inbound.thy ===== *)
theory Reqresp_Inbound
  imports Reqresp_Request
begin

text \<open>
  Package reqresp, inbound.go: one request that the peer makes. \<open>Session.Accept\<close> registers a handler and waits; every stream that
  the peer opens runs the handler in a goroutine of its own. The model is a step function over the actions of peer,
  handlers and waiting caller, so every interleaving is a list of actions; streams are numbered as they arrive.
\<close>

section \<open>Operations on an accepted request\<close>

record inbound_request =
  ir_protocol :: string
  ir_payload :: bytes
  ir_stream :: nat

text \<open>\<open>None\<close> is a nil request; a stream is its writer and the number of the next write on it.\<close>

definition ir_Protocol :: "inbound_request option \<Rightarrow> string" where
  "ir_Protocol r = (case r of None \<Rightarrow> '''' | Some r \<Rightarrow> ir_protocol r)"

definition ir_Payload :: "inbound_request option \<Rightarrow> bytes" where
  "ir_Payload r = (case r of None \<Rightarrow> [] | Some r \<Rightarrow> ir_payload r)"

definition inbound_nil :: goerr where "inbound_nil = Errorf ''inbound request is nil'' []"

definition WriteResponse ::
    "snappy \<Rightarrow> ('w, 'o, 'k) go_ctx option \<Rightarrow> wbeh \<Rightarrow> nat \<Rightarrow> inbound_request option \<Rightarrow> response_chunk \<Rightarrow>
     goerr option \<times> ('o \<times> write_event) list \<times> bytes \<times> nat \<times> ev list" where
  "WriteResponse sn ctx w k r chunk =
     (case r of None \<Rightarrow> (Some inbound_nil, [], [], k, [])
      | Some r \<Rightarrow>
        (case WriteResponseChunk sn w k chunk of
           (Some e, out, k) \<Rightarrow> (Some e, [], out, k, [ResetStream])
         | (None, out, k) \<Rightarrow>
             (None, ObserveWrite ctx ((write_of ''reqresp'')\<lparr>w_ProtocolID := ir_protocol r, w_Payload := rc_Payload chunk\<rparr>), out, k, [])))"

definition WriteRaw ::
    "('w, 'o, 'k) go_ctx option \<Rightarrow> wbeh \<Rightarrow> nat \<Rightarrow> inbound_request option \<Rightarrow> bytes \<Rightarrow>
     goerr option \<times> ('o \<times> write_event) list \<times> bytes \<times> nat \<times> ev list" where
  "WriteRaw ctx w k r payload =
     (case r of None \<Rightarrow> (Some inbound_nil, [], [], k, [])
      | Some r \<Rightarrow>
        (case writeFull w k payload of
           (Some e, out, k) \<Rightarrow> (Some (Wrapf ''write raw response: %w'' [] e), [], out, k, [ResetStream])
         | (None, out, k) \<Rightarrow>
             (None, ObserveWrite ctx ((write_of ''reqresp'')\<lparr>w_ProtocolID := ir_protocol r, w_Payload := payload, w_Raw := True\<rparr>), out, k, [])))"

text \<open>\<open>closed\<close> and \<open>reset\<close> are what the stream's own methods return.\<close>

definition ir_Close :: "goerr option \<Rightarrow> inbound_request option \<Rightarrow> goerr option \<times> ev list" where
  "ir_Close closed r = (case r of None \<Rightarrow> (None, []) | Some _ \<Rightarrow> (closed, [CloseStream]))"

definition ir_Reset :: "goerr option \<Rightarrow> inbound_request option \<Rightarrow> goerr option \<times> ev list" where
  "ir_Reset reset r = (case r of None \<Rightarrow> (None, []) | Some _ \<Rightarrow> (reset, [ResetStream]))"

section \<open>Accept\<close>

record accept_options =
  ao_NoBody :: bool
  ao_MaxPayload :: u64
  ao_Timeout :: int

text \<open>The checks and defaults before the handler is registered; \<open>session_ok\<close> says whether there is a session.\<close>

definition accept_start :: "bool \<Rightarrow> string \<Rightarrow> accept_options \<Rightarrow> goerr + accept_options" where
  "accept_start session_ok proto opts =
     (if \<not> session_ok then Inl (Errorf ''consensus session is nil'' [])
      else if proto = [] then Inl (Errorf ''request protocol is empty'' [])
      else
        let opts = (if ao_Timeout opts \<le> 0 then opts\<lparr>ao_Timeout := 8 * 10 ^ 9\<rparr> else opts);
            opts = (if ao_MaxPayload opts = 0 then opts\<lparr>ao_MaxPayload := MaxPayloadSize\<rparr> else opts)
        in if MaxPayloadSize < ao_MaxPayload opts
           then Inl (Errorf ''max request payload %d exceeds hard ceiling %d'' [VNat (unat (ao_MaxPayload opts)), VNat (unat MaxPayloadSize)])
           else Inr opts)"

record accepting =
  ac_arrived :: "reader list"
  ac_handled :: "nat list"
  ac_requests :: "inbound_request option"
  ac_errors :: "goerr option"
  ac_reset :: "nat list"
  ac_registered :: bool
  ac_result :: "(goerr + inbound_request) option"

definition accept_init :: accepting where
  "accept_init = \<lparr>ac_arrived = [], ac_handled = [], ac_requests = None, ac_errors = None, ac_reset = [], ac_registered = True,
     ac_result = None\<rparr>"

text \<open>
  The handler of one stream: both channels hold one value, so a send finds room only while nothing waits in them. \<open>Expire\<close> is the
  end of the context, with its error; \<open>Unregister\<close> is the deferred call when \<open>Accept\<close> returns.
\<close>

definition handler :: "snappy \<Rightarrow> string \<Rightarrow> accept_options \<Rightarrow> nat \<Rightarrow> reader \<Rightarrow> accepting \<Rightarrow> accepting" where
  "handler sn proto opts i stream st =
     (let st = st\<lparr>ac_handled := i # ac_handled st\<rparr>
      in case (if ao_NoBody opts then Inr [] else ReadSSZSnappy sn (Some stream) (ao_MaxPayload opts)) of
           Inl e \<Rightarrow>
             let st = st\<lparr>ac_reset := i # ac_reset st\<rparr>
             in if ac_errors st = None then st\<lparr>ac_errors := Some (Wrapf ''read inbound request: %w'' [] e)\<rparr> else st
         | Inr payload \<Rightarrow>
             if ac_requests st = None
             then st\<lparr>ac_requests := Some \<lparr>ir_protocol = proto, ir_payload = payload, ir_stream = i\<rparr>\<rparr>
             else st\<lparr>ac_reset := i # ac_reset st\<rparr>)"

datatype accept_act = Arrive reader | Handle nat | Take | TakeErr | Expire goerr | Unregister

fun accept_step :: "snappy \<Rightarrow> string \<Rightarrow> accept_options \<Rightarrow> accepting \<Rightarrow> accept_act \<Rightarrow> accepting option" where
  "accept_step sn proto opts st (Arrive stream) =
     (if ac_registered st then Some (st\<lparr>ac_arrived := ac_arrived st @ [stream]\<rparr>) else None)"
| "accept_step sn proto opts st (Handle i) =
     (if i < length (ac_arrived st) \<and> i \<notin> set (ac_handled st) then Some (handler sn proto opts i (ac_arrived st ! i) st) else None)"
| "accept_step sn proto opts st Take =
     (case (ac_result st, ac_requests st) of
        (None, Some r) \<Rightarrow> Some (st\<lparr>ac_requests := None, ac_result := Some (Inr r)\<rparr>)
      | _ \<Rightarrow> None)"
| "accept_step sn proto opts st TakeErr =
     (case (ac_result st, ac_errors st) of
        (None, Some e) \<Rightarrow> Some (st\<lparr>ac_errors := None, ac_result := Some (Inl e)\<rparr>)
      | _ \<Rightarrow> None)"
| "accept_step sn proto opts st (Expire e) =
     (if ac_result st = None
      then Some (st\<lparr>ac_result := Some (Inl (Wrapf ''wait for inbound %s request: %w'' [VStr proto] e))\<rparr>) else None)"
| "accept_step sn proto opts st Unregister = (if ac_result st \<noteq> None then Some (st\<lparr>ac_registered := False\<rparr>) else None)"

fun accept_run :: "snappy \<Rightarrow> string \<Rightarrow> accept_options \<Rightarrow> accepting \<Rightarrow> accept_act list \<Rightarrow> accepting option" where
  "accept_run sn proto opts st [] = Some st"
| "accept_run sn proto opts st (a # as) =
     (case accept_step sn proto opts st a of None \<Rightarrow> None | Some st \<Rightarrow> accept_run sn proto opts st as)"

section \<open>Every stream is accounted for\<close>

definition queued :: "accepting \<Rightarrow> nat set" where
  "queued st = (case ac_requests st of None \<Rightarrow> {} | Some r \<Rightarrow> {ir_stream r})"

definition returned :: "accepting \<Rightarrow> nat set" where
  "returned st = (case ac_result st of Some (Inr r) \<Rightarrow> {ir_stream r} | _ \<Rightarrow> {})"

text \<open>A request that came from a stream that arrived, with the payload that its bytes decode to.\<close>

definition genuine :: "snappy \<Rightarrow> string \<Rightarrow> accept_options \<Rightarrow> accepting \<Rightarrow> inbound_request \<Rightarrow> bool" where
  "genuine sn proto opts st r \<longleftrightarrow> ir_protocol r = proto \<and> ir_stream r < length (ac_arrived st) \<and>
     (if ao_NoBody opts then ir_payload r = []
      else ReadSSZSnappy sn (Some (ac_arrived st ! ir_stream r)) (ao_MaxPayload opts) = Inr (ir_payload r))"

definition accept_inv :: "snappy \<Rightarrow> string \<Rightarrow> accept_options \<Rightarrow> accepting \<Rightarrow> bool" where
  "accept_inv sn proto opts st \<longleftrightarrow>
     set (ac_handled st) = set (ac_reset st) \<union> queued st \<union> returned st \<and> set (ac_handled st) \<subseteq> {..<length (ac_arrived st)} \<and>
     distinct (ac_reset st) \<and> set (ac_reset st) \<inter> queued st = {} \<and> set (ac_reset st) \<inter> returned st = {} \<and> queued st \<inter> returned st = {} \<and>
     (\<forall>r. ac_requests st = Some r \<longrightarrow> genuine sn proto opts st r) \<and> (\<forall>r. ac_result st = Some (Inr r) \<longrightarrow> genuine sn proto opts st r) \<and>
     (ac_result st = None \<longrightarrow> ac_registered st)"

lemma genuine_arrives [simp]:
  "genuine sn proto opts st r \<Longrightarrow> genuine sn proto opts (st\<lparr>ac_arrived := ac_arrived st @ [stream]\<rparr>) r"
  by (auto simp: genuine_def nth_append)

lemma owners_arrives [simp]:
  "queued (st\<lparr>ac_arrived := ss\<rparr>) = queued st" "returned (st\<lparr>ac_arrived := ss\<rparr>) = returned st"
  by (simp_all add: queued_def returned_def)

lemma accept_inv_arrives: "accept_inv sn proto opts st \<Longrightarrow> accept_inv sn proto opts (st\<lparr>ac_arrived := ac_arrived st @ [stream]\<rparr>)"
  by (auto simp: accept_inv_def subset_iff less_Suc_eq)

lemma accept_inv_handler:
  assumes "accept_inv sn proto opts st" "i < length (ac_arrived st)" "i \<notin> set (ac_handled st)"
  shows "accept_inv sn proto opts (handler sn proto opts i (ac_arrived st ! i) st)"
proof -
  let ?p = "if ao_NoBody opts then Inr [] else ReadSSZSnappy sn (Some (ac_arrived st ! i)) (ao_MaxPayload opts)"
  have own: "i \<notin> set (ac_reset st)" "i \<notin> queued st" "i \<notin> returned st" using assms by (auto simp: accept_inv_def)
  have g: "genuine sn proto opts st \<lparr>ir_protocol = proto, ir_payload = p, ir_stream = i\<rparr>" if "?p = Inr p" for p
    using that assms(2) by (auto simp: genuine_def split: if_splits)
  show ?thesis
  proof (cases "\<exists>p. ?p = Inr p \<and> ac_requests st = None")
    case True
    then obtain p where p: "?p = Inr p" "ac_requests st = None" by blast
    then have "handler sn proto opts i (ac_arrived st ! i) st =
        st\<lparr>ac_handled := i # ac_handled st, ac_requests := Some \<lparr>ir_protocol = proto, ir_payload = p, ir_stream = i\<rparr>\<rparr>"
      by (simp add: handler_def)
    then show ?thesis using assms(1,2) own p(2) g [OF p(1)]
      by (auto simp: accept_inv_def queued_def returned_def genuine_def)
  next
    case False
    let ?h = "handler sn proto opts i (ac_arrived st ! i) st"
    have "ac_handled ?h = i # ac_handled st \<and> ac_reset ?h = i # ac_reset st \<and> ac_arrived ?h = ac_arrived st \<and>
        ac_requests ?h = ac_requests st \<and> ac_result ?h = ac_result st \<and> ac_registered ?h = ac_registered st"
      using False by (cases ?p; cases "ac_errors st"; cases "ac_requests st") (auto simp: handler_def Let_def)
    then show ?thesis using assms(1,2) own by (auto simp: accept_inv_def queued_def returned_def genuine_def)
  qed
qed

lemma accept_inv_step:
  assumes "accept_inv sn proto opts st" "accept_step sn proto opts st a = Some st'"
  shows "accept_inv sn proto opts st'"
proof (cases a)
  case (Arrive stream)
  then show ?thesis using assms accept_inv_arrives by (auto split: if_splits)
next
  case (Handle i)
  then show ?thesis using assms accept_inv_handler by (auto split: if_splits)
next
  case Take
  then obtain r where r: "ac_result st = None" "ac_requests st = Some r" "st' = st\<lparr>ac_requests := None, ac_result := Some (Inr r)\<rparr>"
    using assms(2) by (auto split: option.splits)
  then show ?thesis using assms(1) by (auto simp: accept_inv_def queued_def returned_def genuine_def)
next
  case TakeErr
  then obtain e where "ac_result st = None" "st' = st\<lparr>ac_errors := None, ac_result := Some (Inl e)\<rparr>"
    using assms(2) by (auto split: option.splits)
  then show ?thesis using assms(1) by (auto simp: accept_inv_def queued_def returned_def genuine_def)
next
  case (Expire e)
  then obtain e' where "ac_result st = None" "st' = st\<lparr>ac_result := Some (Inl e')\<rparr>"
    using assms(2) by (auto split: if_splits)
  then show ?thesis using assms(1) by (auto simp: accept_inv_def queued_def returned_def genuine_def)
next
  case Unregister
  then show ?thesis using assms by (auto simp: accept_inv_def queued_def returned_def genuine_def split: if_splits)
qed

lemma accept_inv_run: "accept_run sn proto opts st acts = Some st' \<Longrightarrow> accept_inv sn proto opts st \<Longrightarrow> accept_inv sn proto opts st'"
  by (induction acts arbitrary: st) (auto split: option.splits dest: accept_inv_step)

lemma accept_inv_init: "accept_inv sn proto opts accept_init"
  by (simp add: accept_inv_def accept_init_def queued_def returned_def)

lemmas accept_reachable = accept_inv_run [OF _ accept_inv_init]

text \<open>
  C14: However streams arrive, handlers run and the caller is woken, the streams that were handled are those that were reset, the
  one that was returned, and at most one that waits in the channel; no stream has two owners, and a request that is
  returned carries the protocol asked for and the payload that the bytes of its stream decode to.
\<close>

theorem inbound_streams_accounted:
  assumes "accept_run sn proto opts accept_init acts = Some st"
  shows "set (ac_handled st) = set (ac_reset st) \<union> queued st \<union> returned st \<and>
    set (ac_reset st) \<inter> queued st = {} \<and> set (ac_reset st) \<inter> returned st = {} \<and> queued st \<inter> returned st = {} \<and>
    distinct (ac_reset st) \<and> (\<forall>r. ac_result st = Some (Inr r) \<longrightarrow> genuine sn proto opts st r)"
  using accept_reachable [OF assms] by (auto simp: accept_inv_def)

definition demo_accept :: accept_options where
  "demo_accept = \<lparr>ao_NoBody = False, ao_MaxPayload = 4, ao_Timeout = 0\<rparr>"

definition demo_body :: reader where "demo_body = \<lparr>rbuf = [2, 7, 8], rend = EOF\<rparr>"

lemma demo_body_read: "ReadSSZSnappy plain_snappy (Some demo_body) 4 = Inr [7, 8]"
proof -
  have "WriteSSZSnappy plain_snappy (chunked_writer 1) 0 [7, 8] = (None, [2, 7, 8], 3)"
    by (simp add: WriteSSZSnappy_def plain_snappy_def writeFull.simps chunked_writer_def put_uvarint.simps)
  from body_round_trip [OF plain_snappy_ok this, of 4 "[]" EOF] show ?thesis by (simp add: MaxPayloadSize_def demo_body_def)
qed

lemma inbound_streams_accounted_witness:
  "\<exists>st. accept_run plain_snappy ''/ping'' demo_accept accept_init [Arrive demo_body, Handle 0, Take, Unregister] = Some st \<and>
     ac_reset st = [] \<and> queued st = {} \<and> set (ac_handled st) = {0} \<and> returned st = {0}"
proof -
  have "\<exists>st. accept_run plain_snappy ''/ping'' demo_accept accept_init [Arrive demo_body, Handle 0, Take, Unregister] = Some st \<and>
     ac_reset st = [] \<and> queued st = {} \<and> set (ac_handled st) = {0}"
    by (simp add: accept_init_def handler_def demo_accept_def demo_body_read queued_def)
  then obtain st where st: "accept_run plain_snappy ''/ping'' demo_accept accept_init [Arrive demo_body, Handle 0, Take, Unregister] = Some st"
     "ac_reset st = []" "queued st = {}" "set (ac_handled st) = {0}" by blast
  have "returned st = {0}" using inbound_streams_accounted [OF st(1)] st(2-4) by simp
  then show ?thesis using st by blast
qed

text \<open>Once \<open>Accept\<close> has its result nobody reads the channel of requests again: what waits in it stays.\<close>

lemma accept_step_settled:
  assumes "accept_step sn proto opts st a = Some st'" "ac_result st = Some res" "ac_requests st = Some q"
  shows "ac_result st' = Some res \<and> ac_requests st' = Some q"
  using assms by (cases a) (auto simp: handler_def Let_def split: if_splits sum.splits)

lemma accept_run_settled:
  "accept_run sn proto opts st acts = Some st' \<Longrightarrow> ac_result st = Some res \<Longrightarrow> ac_requests st = Some q \<Longrightarrow>
   ac_result st' = Some res \<and> ac_requests st' = Some q"
  by (induction acts arbitrary: st) (auto split: option.splits dest: accept_step_settled)

lemma accept_run_append:
  "accept_run sn proto opts st (as @ bs) = Option.bind (accept_run sn proto opts st as) (\<lambda>st. accept_run sn proto opts st bs)"
  by (induction as arbitrary: st) (auto split: option.split)

text \<open>
  C19: \<open>Accept\<close> can leak a stream. Whatever happened before, once \<open>Accept\<close> has its result (a request, a read error or the end of
  its context) and the channel of requests is empty, the handler of any other stream whose body decodes can still run, because
  it was registered when the stream arrived; and whatever happens afterwards, the removal of the handler included, that stream
  is then handled but neither reset nor returned: it stays in a channel that nobody reads.
\<close>

theorem Accept_strands_second_stream:
  assumes "accept_run sn proto opts accept_init acts = Some st" "ac_result st = Some res" "ac_requests st = None"
    and "i < length (ac_arrived st)" "i \<notin> set (ac_handled st)"
    and "ao_NoBody opts \<or> ReadSSZSnappy sn (Some (ac_arrived st ! i)) (ao_MaxPayload opts) = Inr payload"
  shows "accept_step sn proto opts st (Handle i) \<noteq> None \<and>
    (\<forall>more st'. accept_run sn proto opts st (Handle i # more) = Some st' \<longrightarrow>
       i \<in> set (ac_handled st') \<and> i \<notin> set (ac_reset st') \<and> i \<notin> returned st' \<and> queued st' = {i} \<and> ac_result st' = Some res)"
proof (intro conjI allI impI)
  show "accept_step sn proto opts st (Handle i) \<noteq> None" using assms(4,5) by simp
  fix more st' assume run: "accept_run sn proto opts st (Handle i # more) = Some st'"
  let ?h = "handler sn proto opts i (ac_arrived st ! i) st"
  obtain p where "(if ao_NoBody opts then Inr [] else ReadSSZSnappy sn (Some (ac_arrived st ! i)) (ao_MaxPayload opts)) = Inr p"
    using assms(6) by fastforce
  then have "ac_requests ?h = Some \<lparr>ir_protocol = proto, ir_payload = p, ir_stream = i\<rparr>" "ac_result ?h = Some res"
    using assms(2,3) by (simp_all add: handler_def)
  then have "queued st' = {i}" "ac_result st' = Some res"
    using accept_run_settled [of sn proto opts ?h more st' res] run assms(4,5) by (simp_all add: queued_def)
  moreover have "accept_inv sn proto opts st'"
    using run assms(1) by (intro accept_reachable [of sn proto opts "acts @ Handle i # more"]) (simp add: accept_run_append)
  ultimately show "i \<in> set (ac_handled st')" "i \<notin> set (ac_reset st')" "i \<notin> returned st'" "queued st' = {i}" "ac_result st' = Some res"
    by (auto simp: accept_inv_def)
qed

lemma Accept_strands_second_stream_witness:
  "\<exists>st. accept_run plain_snappy ''/ping'' demo_accept accept_init
       [Arrive demo_body, Arrive demo_body, Handle 0, Take, Handle 1, Unregister] = Some st \<and>
     \<not> ac_registered st \<and> 1 \<in> set (ac_handled st) \<and> 1 \<notin> set (ac_reset st) \<and> 1 \<notin> returned st"
proof -
  obtain st where st: "accept_run plain_snappy ''/ping'' demo_accept accept_init [Arrive demo_body, Arrive demo_body, Handle 0, Take] = Some st"
    "ac_result st = Some (Inr \<lparr>ir_protocol = ''/ping'', ir_payload = [7, 8], ir_stream = 0\<rparr>)" "ac_requests st = None"
    "ac_arrived st = [demo_body, demo_body]" "ac_handled st = [0]"
    by (simp add: accept_init_def handler_def demo_accept_def demo_body_read)
  obtain st' where st': "accept_run plain_snappy ''/ping'' demo_accept st [Handle 1, Unregister] = Some st'" "\<not> ac_registered st'"
    using st by (simp add: handler_def demo_accept_def demo_body_read)
  have "accept_run plain_snappy ''/ping'' demo_accept accept_init
      ([Arrive demo_body, Arrive demo_body, Handle 0, Take] @ [Handle 1, Unregister]) = Some st'"
    unfolding accept_run_append st(1) using st'(1) by simp
  moreover have "1 \<in> set (ac_handled st') \<and> 1 \<notin> set (ac_reset st') \<and> 1 \<notin> returned st'"
    using Accept_strands_second_stream [OF st(1-3), of 1 "[7, 8]", THEN conjunct2, rule_format, OF _ _ _ st'(1)] st(4,5)
    by (simp add: demo_accept_def demo_body_read)
  ultimately show ?thesis using st'(2) unfolding append_Cons append_Nil by blast
qed

section \<open>A whole exchange\<close>

text \<open>
  C13: Both ends of one exchange. The request body that \<open>send_body\<close> wrote, over any writer, is the payload of the request that
  \<open>Accept\<close> returns for that stream; and the response chunks that the accepting side then writes and closes are what the
  requesting side reads, in order, up to and including the first that is not a success.
\<close>

theorem exchange_round_trip:
  assumes "snappy_ok sn" "\<not> o_NoBody opt" "\<not> o_HasRawBody opt" "send_body sn w opt payload = (None, wire)"
    and "accept_run sn proto aopt accept_init acts = Some st" "ac_result st = Some (Inr r)"
    and "ac_arrived st ! ir_stream r = \<lparr>rbuf = wire, rend = EOF\<rparr>" "\<not> ao_NoBody aopt"
    and "length payload \<le> unat (ao_MaxPayload aopt)" "0 < ao_MaxPayload aopt" "ao_MaxPayload aopt \<le> MaxPayloadSize"
    and "serve sn w' 0 cs = (None, back, k)" "cs \<noteq> []" "fits_options opt cs"
    and "NewResponseReader (Some \<lparr>rbuf = back, rend = EOF\<rparr>) (o_HasContext opt) (o_MaxPayload opt)
           (o_MaxTotalPayload opt) (o_MaxChunks opt) = Inr rr"
  shows "ir_payload r = payload \<and> ir_protocol r = proto \<and>
    read_responses sn opt True \<lparr>rbuf = back, rend = EOF\<rparr> = (Inr (upto_failure cs), False)"
proof -
  have g: "genuine sn proto aopt st r" using accept_reachable [OF assms(5)] assms(6) by (simp add: accept_inv_def)
  obtain k' where "WriteSSZSnappy sn w 0 payload = (None, wire, k')"
    using assms(2-4) by (auto simp: send_body_def split: prod.splits)
  from body_round_trip [OF assms(1) this assms(9-11), of "[]" EOF] have "ir_payload r = payload"
    using g assms(7,8) by (simp add: genuine_def)
  then show ?thesis using g served_chunks_read [OF assms(1,12-15)] by (simp add: genuine_def)
qed

definition demo_exchange :: request_options where
  "demo_exchange = (request_defaults demo_options)\<lparr>o_NoBody := False\<rparr>"

definition demo_taken :: accepting where
  "demo_taken = \<lparr>ac_arrived = [demo_body], ac_handled = [0], ac_requests = None, ac_errors = None, ac_reset = [],
     ac_registered = True, ac_result = Some (Inr \<lparr>ir_protocol = ''/ping'', ir_payload = [7, 8], ir_stream = 0\<rparr>)\<rparr>"

lemma exchange_round_trip_witness:
  "ir_payload \<lparr>ir_protocol = ''/ping'', ir_payload = [7, 8], ir_stream = 0\<rparr> = [7, 8] \<and>
   read_responses plain_snappy demo_exchange True \<lparr>rbuf = [0, 1, 7, 2, 1, 9], rend = EOF\<rparr> =
     (Inr (upto_failure [\<lparr>rc_Code = 0, rc_Context = [], rc_Payload = [7]\<rparr>, \<lparr>rc_Code = 2, rc_Context = [], rc_Payload = [9]\<rparr>]), False)"
proof -
  have body: "send_body plain_snappy (chunked_writer 1) demo_exchange [7, 8] = (None, [2, 7, 8])" by code_simp
  have run: "accept_run plain_snappy ''/ping'' demo_accept accept_init [Arrive demo_body, Handle 0, Take] = Some demo_taken"
    by (simp add: accept_init_def handler_def demo_accept_def demo_body_read demo_taken_def)
  have served: "serve plain_snappy (chunked_writer 1) 0
      [\<lparr>rc_Code = 0, rc_Context = [], rc_Payload = [7]\<rparr>, \<lparr>rc_Code = 2, rc_Context = [], rc_Payload = [9]\<rparr>]
      = (None, [0, 1, 7, 2, 1, 9], 6)" by code_simp
  have fits: "fits_options demo_exchange
      [\<lparr>rc_Code = 0, rc_Context = [], rc_Payload = [7]\<rparr>, \<lparr>rc_Code = 2, rc_Context = [], rc_Payload = [9]\<rparr>]" by code_simp
  have rr: "NewResponseReader (Some \<lparr>rbuf = [0, 1, 7, 2, 1, 9], rend = EOF\<rparr>) (o_HasContext demo_exchange)
      (o_MaxPayload demo_exchange) (o_MaxTotalPayload demo_exchange) (o_MaxChunks demo_exchange)
      = Inr \<lparr>rr_reader = \<lparr>rbuf = [0, 1, 7, 2, 1, 9], rend = EOF\<rparr>, rr_hasContext = False, rr_maxPayload = 3,
             rr_maxTotal = 3, rr_maxChunks = 2, rr_total = 0, rr_chunks = 0\<rparr>" by code_simp
  have opts: "\<not> o_NoBody demo_exchange" "\<not> o_HasRawBody demo_exchange"
    by (simp_all add: demo_exchange_def request_defaults_def demo_options_def)
  have taken: "ac_result demo_taken = Some (Inr \<lparr>ir_protocol = ''/ping'', ir_payload = [7, 8], ir_stream = 0\<rparr>)"
    "ac_arrived demo_taken ! 0 = \<lparr>rbuf = [2, 7, 8], rend = EOF\<rparr>"
    by (simp_all add: demo_taken_def demo_body_def)
  show ?thesis
    using exchange_round_trip [OF plain_snappy_ok opts body run taken(1) _ _ _ _ _ served _ fits rr] taken(2)
    by (simp add: demo_accept_def MaxPayloadSize_def)
qed

end
