(* ===== verification/Target_Discover.thy ===== *)
theory Target_Discover
  imports Sdk_Run Go_IO Go_Strings
begin

text \<open>
  Package target, target.go: \<open>Discover\<close> normalizes a target and asks the local nodes for the peer addresses that are missing;
  and \<open>ConsensusENR\<close> of discovery/consensus_endpoint.go, which asks the same beacon API. URL parsing, HTTP and the JSON
  decoder are the parameter \<open>http_env\<close>. A result comes with the requests that were sent, in order.
\<close>

section \<open>One JSON request\<close>

type_synonym http_request = "string \<times> string \<times> bytes option"

text \<open>
  \<open>te_parse\<close> gives the scheme and the host of a URL, \<open>te_request\<close> the error of building a request, \<open>te_do\<close> the status code and
  the body. The decoders give the first value of a body and what decoding once more says: \<open>te_nodeInfo\<close> the enode and the
  message of the error, \<open>te_identity\<close> the record and the addresses. \<open>te_enr\<close> unmarshals the record alone.
\<close>

record http_env =
  te_parse :: "string \<Rightarrow> goerr + string \<times> string"
  te_request :: "string \<Rightarrow> string \<Rightarrow> goerr option"
  te_do :: "http_request \<Rightarrow> goerr + int \<times> reader"
  te_nodeInfo :: "bytes \<Rightarrow> (goerr + string \<times> string option) \<times> goerr option"
  te_identity :: "bytes \<Rightarrow> (goerr + string \<times> string list) \<times> goerr option"
  te_enr :: "bytes \<Rightarrow> goerr + string"

definition maxResponseBytes :: nat where "maxResponseBytes = 2 ^ 20"

definition json_body :: "(bytes \<Rightarrow> (goerr + 'a) \<times> goerr option) \<Rightarrow> int \<Rightarrow> reader \<Rightarrow> goerr + 'a" where
  "json_body decode code body =
     (if code < 200 \<or> 300 \<le> code then Inl (Errorf ''HTTP %d'' [VInt code])
      else err_bind (read_limited (maxResponseBytes + 1) body) (\<lambda>payload.
        if maxResponseBytes < length payload then Inl (Errorf ''response exceeds %d bytes'' [VNat maxResponseBytes])
        else (case decode payload of
                (Inl e, _) \<Rightarrow> Inl e
              | (Inr output, again) \<Rightarrow>
                  if \<not> (case again of Some e \<Rightarrow> errors_is e EOF | None \<Rightarrow> False)
                  then Inl (Errorf ''response must contain exactly one JSON value'' [])
                  else Inr output)))"

definition requestJSON ::
    "http_env \<Rightarrow> (bytes \<Rightarrow> (goerr + 'a) \<times> goerr option) \<Rightarrow> string \<Rightarrow> string \<Rightarrow> bytes option \<Rightarrow>
     (goerr + 'a) \<times> http_request list" where
  "requestJSON env decode method endpoint body =
     (case te_request env method endpoint of
        Some e \<Rightarrow> (Inl e, [])
      | None \<Rightarrow>
          ((case te_do env (method, endpoint, body) of
              Inl e \<Rightarrow> Inl e
            | Inr (code, body) \<Rightarrow> json_body decode code body),
           [(method, endpoint, body)]))"

section \<open>Peer addresses\<close>

text \<open>\<open>json.Marshal\<close> writes the keys of a map in order; 34 is the code of the quotation mark.\<close>

definition json_str :: "string \<Rightarrow> string" where "json_str s = [CHR 34] @ s @ [CHR 34]"

definition nodeInfo_request :: bytes where
  "nodeInfo_request = string_bytes
     (''{'' @ json_str ''id'' @ '':1,'' @ json_str ''jsonrpc'' @ '':'' @ json_str ''2.0'' @ '','' @
      json_str ''method'' @ '':'' @ json_str ''admin_nodeInfo'' @ '','' @ json_str ''params'' @ '':[]}'')"

definition execution_answer :: "string \<times> string option \<Rightarrow> goerr + string" where
  "execution_answer response =
     (case response of
        (_, Some message) \<Rightarrow> Inl (Errorf ''discover execution peer: %s'' [VStr message])
      | (enode, None) \<Rightarrow>
          if trim_space enode = [] then Inl (Errorf ''discover execution peer: admin_nodeInfo returned no enode'' [])
          else Inr enode)"

definition discoverExecutionP2P :: "http_env \<Rightarrow> string \<Rightarrow> (goerr + string) \<times> http_request list" where
  "discoverExecutionP2P env endpoint =
     (case requestJSON env (te_nodeInfo env) ''POST'' endpoint (Some nodeInfo_request) of
        (r, sent) \<Rightarrow> (err_bind (wrap_err ''discover execution peer: %w'' [] r) execution_answer, sent))"

fun first_address :: "string list \<Rightarrow> string option" where
  "first_address [] = None"
| "first_address (a # as) = (if trim_space a \<noteq> [] then Some (trim_space a) else first_address as)"

definition consensus_answer :: "string \<times> string list \<Rightarrow> goerr + string" where
  "consensus_answer response =
     (case response of (enr, addresses) \<Rightarrow>
       (case first_address addresses of
          Some address \<Rightarrow> Inr address
        | None \<Rightarrow>
            if trim_space enr \<noteq> [] then Inr (trim_space enr)
            else Inl (Errorf ''discover consensus peer: identity returned no ENR or P2P address'' [])))"

definition identity_url :: "string \<Rightarrow> string" where
  "identity_url endpoint = trim_right (CHR ''/'') endpoint @ ''/eth/v1/node/identity''"

definition discoverConsensusP2P :: "http_env \<Rightarrow> string \<Rightarrow> (goerr + string) \<times> http_request list" where
  "discoverConsensusP2P env endpoint =
     (case requestJSON env (te_identity env) ''GET'' (identity_url endpoint) None of
        (r, sent) \<Rightarrow> (err_bind (wrap_err ''discover consensus peer: %w'' [] r) consensus_answer, sent))"

section \<open>Discover\<close>

definition validateHTTPURL :: "http_env \<Rightarrow> string \<Rightarrow> goerr option" where
  "validateHTTPURL env raw =
     (case te_parse env (trim_space raw) of
        Inl e \<Rightarrow> Some e
      | Inr (scheme, host) \<Rightarrow>
          if scheme \<noteq> ''http'' \<and> scheme \<noteq> ''https'' then Some (Errorf ''URL must use http or https'' [])
          else if host = [] then Some (Errorf ''URL must include a host'' [])
          else None)"

definition trimmed :: "target \<Rightarrow> target" where
  "trimmed spec =
     \<lparr>ExecutionURL = trim_right (CHR ''/'') (trim_space (ExecutionURL spec)),
      ExecutionP2P = trim_space (ExecutionP2P spec),
      ExecutionDNS = trim_space (ExecutionDNS spec),
      ConsensusURL = trim_right (CHR ''/'') (trim_space (ConsensusURL spec)),
      ConsensusP2P = trim_space (ConsensusP2P spec),
      TClient = trim_space (TClient spec)\<rparr>"

definition target_checks :: "http_env \<Rightarrow> target \<Rightarrow> goerr option" where
  "target_checks env spec =
     (case validateHTTPURL env (ExecutionURL spec) of
        Some e \<Rightarrow> Some (Wrapf ''execution endpoint: %w'' [] e)
      | None \<Rightarrow>
          if ConsensusURL spec \<noteq> [] then
            (case validateHTTPURL env (ConsensusURL spec) of
               Some e \<Rightarrow> Some (Wrapf ''consensus endpoint: %w'' [] e)
             | None \<Rightarrow> None)
          else None)"

definition fill_execution :: "http_env \<Rightarrow> target \<Rightarrow> (goerr + target) \<times> http_request list" where
  "fill_execution env spec =
     (if ExecutionP2P spec = [] then
        (case discoverExecutionP2P env (ExecutionURL spec) of
           (r, sent) \<Rightarrow> (err_bind r (\<lambda>endpoint. Inr (spec\<lparr>ExecutionP2P := endpoint\<rparr>)), sent))
      else (Inr spec, []))"

definition fill_consensus :: "http_env \<Rightarrow> target \<Rightarrow> (goerr + target) \<times> http_request list" where
  "fill_consensus env spec =
     (if ConsensusURL spec \<noteq> [] \<and> ConsensusP2P spec = [] then
        (case discoverConsensusP2P env (ConsensusURL spec) of
           (r, sent) \<Rightarrow> (err_bind r (\<lambda>endpoint. Inr (spec\<lparr>ConsensusP2P := endpoint\<rparr>)), sent))
      else (Inr spec, []))"

definition Discover :: "http_env \<Rightarrow> target \<Rightarrow> (goerr + target) \<times> http_request list" where
  "Discover env spec =
     (let spec = trimmed spec
      in case target_checks env spec of
           Some e \<Rightarrow> (Inl e, [])
         | None \<Rightarrow>
             (case fill_execution env spec of
                (Inl e, sent) \<Rightarrow> (Inl e, sent)
              | (Inr spec, sent) \<Rightarrow>
                  (case fill_consensus env spec of (r, sent') \<Rightarrow> (r, sent @ sent'))))"

section \<open>The record of the beacon node\<close>

definition ConsensusENR :: "http_env \<Rightarrow> string \<Rightarrow> (goerr + string) \<times> http_request list" where
  "ConsensusENR env beaconURL =
     (let url = identity_url beaconURL
      in case te_request env ''GET'' url of
           Some e \<Rightarrow> (Inl e, [])
         | None \<Rightarrow>
             ((case te_do env (''GET'', url, None) of
                 Inl e \<Rightarrow> Inl (Wrapf ''fetch consensus identity: %w'' [] e)
               | Inr (code, body) \<Rightarrow>
                   if code < 200 \<or> 300 \<le> code then Inl (Errorf ''fetch consensus identity: HTTP %d'' [VInt code])
                   else
                     err_bind (wrap_err ''read consensus identity: %w'' [] (read_limited (2 ^ 20) body)) (\<lambda>body.
                     err_bind (wrap_err ''decode consensus identity: %w'' [] (te_enr env body)) (\<lambda>enr.
                       if trim_space enr = [] then Inl (Errorf ''consensus identity returned no ENR'' [])
                       else Inr (trim_space enr)))),
              [(''GET'', url, None)]))"

section \<open>What a discovered target is\<close>

lemma trimmed_simps [simp]:
  "ExecutionURL (trimmed s) = trim_right (CHR ''/'') (trim_space (ExecutionURL s))"
  "ExecutionP2P (trimmed s) = trim_space (ExecutionP2P s)" "ExecutionDNS (trimmed s) = trim_space (ExecutionDNS s)"
  "ConsensusURL (trimmed s) = trim_right (CHR ''/'') (trim_space (ConsensusURL s))"
  "ConsensusP2P (trimmed s) = trim_space (ConsensusP2P s)" "TClient (trimmed s) = trim_space (TClient s)"
  by (simp_all add: trimmed_def)

lemma execution_answer_present: "execution_answer r = Inr e \<Longrightarrow> trim_space e \<noteq> []"
  by (auto simp: execution_answer_def split: prod.splits option.splits if_splits)

lemma first_address_present: "first_address as = Some a \<Longrightarrow> trim_space a = a \<and> a \<noteq> []"
  by (induction as) (auto split: if_splits)

lemma consensus_answer_present: "consensus_answer r = Inr e \<Longrightarrow> trim_space e = e \<and> e \<noteq> []"
  by (auto simp: consensus_answer_def dest: first_address_present split: prod.splits option.splits if_splits)

lemma requestJSON_sends: "requestJSON env d m u b = (Inr x, sent) \<Longrightarrow> sent = [(m, u, b)]"
  by (auto simp: requestJSON_def split: option.splits)

lemma fill_execution_Inr:
  assumes "fill_execution env spec = (Inr t, sent)"
  shows "\<exists>e. t = spec\<lparr>ExecutionP2P := e\<rparr> \<and> (ExecutionP2P spec \<noteq> [] \<longrightarrow> e = ExecutionP2P spec) \<and>
    (ExecutionP2P spec = [] \<longrightarrow> trim_space e \<noteq> []) \<and>
    sent = (if ExecutionP2P spec = [] then [(''POST'', ExecutionURL spec, Some nodeInfo_request)] else [])"
  using assms execution_answer_present
  by (auto simp: fill_execution_def discoverExecutionP2P_def err_bind_Inr_iff dest!: requestJSON_sends split: if_splits prod.splits)

lemma fill_consensus_Inr:
  assumes "fill_consensus env spec = (Inr t, sent)"
  shows "\<exists>e. t = spec\<lparr>ConsensusP2P := e\<rparr> \<and> (ConsensusP2P spec \<noteq> [] \<or> ConsensusURL spec = [] \<longrightarrow> e = ConsensusP2P spec) \<and>
    (ConsensusP2P spec = [] \<and> ConsensusURL spec \<noteq> [] \<longrightarrow> trim_space e \<noteq> []) \<and>
    sent = (if ConsensusP2P spec = [] \<and> ConsensusURL spec \<noteq> [] then [(''GET'', identity_url (ConsensusURL spec), None)] else [])"
proof (cases "ConsensusP2P spec = [] \<and> ConsensusURL spec \<noteq> []")
  case True
  then show ?thesis using assms consensus_answer_present
    by (auto simp: fill_consensus_def discoverConsensusP2P_def err_bind_Inr_iff dest!: requestJSON_sends split: prod.splits)
next
  case False
  then have "t = spec" "sent = []" using assms by (auto simp: fill_consensus_def)
  then show ?thesis using False by (intro exI [of _ "ConsensusP2P spec"]) auto
qed

lemma fills_nothing:
  "ExecutionP2P spec \<noteq> [] \<Longrightarrow> fill_execution env spec = (Inr spec, [])"
  "ConsensusURL spec = [] \<or> ConsensusP2P spec \<noteq> [] \<Longrightarrow> fill_consensus env spec = (Inr spec, [])"
  by (auto simp: fill_execution_def fill_consensus_def)

text \<open>A successful \<open>Discover\<close> as one conjunction: the result, the answers and the requests.\<close>

definition filled :: "target \<Rightarrow> string \<Rightarrow> string \<Rightarrow> http_request list \<Rightarrow> bool" where
  "filled spec x c sent \<longleftrightarrow> trim_space x \<noteq> [] \<and> (ExecutionP2P spec \<noteq> [] \<longrightarrow> x = ExecutionP2P spec) \<and>
     (ConsensusURL spec \<noteq> [] \<longrightarrow> trim_space c \<noteq> []) \<and>
     (ConsensusP2P spec \<noteq> [] \<or> ConsensusURL spec = [] \<longrightarrow> c = ConsensusP2P spec) \<and>
     sent = (if ExecutionP2P spec = [] then [(''POST'', ExecutionURL spec, Some nodeInfo_request)] else []) @
       (if ConsensusP2P spec = [] \<and> ConsensusURL spec \<noteq> [] then [(''GET'', identity_url (ConsensusURL spec), None)] else [])"

lemma Discover_Inr:
  assumes "Discover env spec = (Inr t, sent)"
  shows "\<exists>x c. t = (trimmed spec)\<lparr>ExecutionP2P := x, ConsensusP2P := c\<rparr> \<and> target_checks env (trimmed spec) = None \<and>
    filled (trimmed spec) x c sent"
proof -
  obtain t1 s1 s2 where f: "fill_execution env (trimmed spec) = (Inr t1, s1)" "fill_consensus env t1 = (Inr t, s2)"
      "sent = s1 @ s2" and ok: "target_checks env (trimmed spec) = None"
    using assms by (auto simp: Discover_def Let_def split: option.splits prod.splits sum.splits)
  from fill_execution_Inr [OF f(1)] obtain x where x: "t1 = (trimmed spec)\<lparr>ExecutionP2P := x\<rparr>"
      "ExecutionP2P (trimmed spec) \<noteq> [] \<longrightarrow> x = ExecutionP2P (trimmed spec)"
      "ExecutionP2P (trimmed spec) = [] \<longrightarrow> trim_space x \<noteq> []"
      "s1 = (if ExecutionP2P (trimmed spec) = [] then [(''POST'', ExecutionURL (trimmed spec), Some nodeInfo_request)] else [])" by blast
  from fill_consensus_Inr [OF f(2)] obtain c where c: "t = t1\<lparr>ConsensusP2P := c\<rparr>"
      "ConsensusP2P t1 \<noteq> [] \<or> ConsensusURL t1 = [] \<longrightarrow> c = ConsensusP2P t1"
      "ConsensusP2P t1 = [] \<and> ConsensusURL t1 \<noteq> [] \<longrightarrow> trim_space c \<noteq> []"
      "s2 = (if ConsensusP2P t1 = [] \<and> ConsensusURL t1 \<noteq> [] then [(''GET'', identity_url (ConsensusURL t1), None)] else [])" by blast
  have "trim_space x \<noteq> []" using x(2,3) by (cases "ExecutionP2P (trimmed spec) = []") auto
  moreover have "trim_space c \<noteq> []" if "ConsensusURL (trimmed spec) \<noteq> []"
    using c(2,3) x(1) that by (cases "ConsensusP2P (trimmed spec) = []") auto
  ultimately have "filled (trimmed spec) x c sent" using x c f(3) by (auto simp: filled_def)
  then show ?thesis using x(1) c(1) ok by auto
qed

lemma target_checks_cong:
  "ExecutionURL s = ExecutionURL t \<Longrightarrow> ConsensusURL s = ConsensusURL t \<Longrightarrow> target_checks env s = target_checks env t"
  by (simp only: target_checks_def)

lemma trim_right_Nil: "trim_right c [] = []"
  by (simp add: trim_right_def trim_left_def)

text \<open>
  C17: \<open>Discover\<close> keeps its promises. When it succeeds, both URLs passed validation, every field given is kept as it was given
  (trimmed), the execution peer is never blank and neither is the consensus peer when a consensus URL was given; it sent one
  request for each missing address, to the URL it is missing for, and none otherwise. Discovering the result once more sends
  nothing: it succeeds with the trimmed result or fails in validation.
\<close>

theorem Discover_fills_missing:
  assumes "Discover env spec = (Inr t, sent)"
  shows "ExecutionURL t = ExecutionURL (trimmed spec) \<and> ConsensusURL t = ConsensusURL (trimmed spec) \<and>
    ExecutionDNS t = ExecutionDNS (trimmed spec) \<and> TClient t = TClient (trimmed spec) \<and>
    (trim_space (ExecutionP2P spec) \<noteq> [] \<longrightarrow> ExecutionP2P t = trim_space (ExecutionP2P spec)) \<and>
    (trim_space (ConsensusP2P spec) \<noteq> [] \<longrightarrow> ConsensusP2P t = trim_space (ConsensusP2P spec)) \<and>
    trim_space (ExecutionP2P t) \<noteq> [] \<and> (ConsensusURL t \<noteq> [] \<longrightarrow> trim_space (ConsensusP2P t) \<noteq> []) \<and>
    target_checks env t = None \<and>
    sent = (if trim_space (ExecutionP2P spec) = [] then [(''POST'', ExecutionURL t, Some nodeInfo_request)] else []) @
      (if trim_space (ConsensusP2P spec) = [] \<and> ConsensusURL t \<noteq> [] then [(''GET'', identity_url (ConsensusURL t), None)] else []) \<and>
    Discover env t = (case target_checks env (trimmed t) of Some e \<Rightarrow> (Inl e, []) | None \<Rightarrow> (Inr (trimmed t), []))"
proof -
  obtain x c where t: "t = (trimmed spec)\<lparr>ExecutionP2P := x, ConsensusP2P := c\<rparr>" and ok: "target_checks env (trimmed spec) = None"
    and filled: "filled (trimmed spec) x c sent"
    using Discover_Inr [OF assms] by blast
  have "target_checks env t = None" using ok target_checks_cong [of t "trimmed spec" env] by (simp add: t)
  moreover have "ConsensusURL (trimmed t) = [] \<or> ConsensusP2P (trimmed t) \<noteq> []"
  proof (cases "ConsensusURL (trimmed spec) = []")
    case True
    then show ?thesis by (simp add: t trim_right_Nil)
  next
    case False
    then show ?thesis using filled by (simp add: t filled_def)
  qed
  then have "Discover env t = (case target_checks env (trimmed t) of Some e \<Rightarrow> (Inl e, []) | None \<Rightarrow> (Inr (trimmed t), []))"
    using filled by (simp add: Discover_def Let_def filled_def fills_nothing t split: option.split)
  ultimately show ?thesis using filled t by (auto simp: filled_def)
qed

definition demo_env :: http_env where
  "demo_env = \<lparr>te_parse = (\<lambda>u. Inr (''http'', ''n'')), te_request = (\<lambda>m u. None),
     te_do = (\<lambda>r. Inr (200, \<lparr>rbuf = [1], rend = EOF\<rparr>)),
     te_nodeInfo = (\<lambda>b. (Inr (''enode'', None), Some EOF)), te_identity = (\<lambda>b. (Inr (''enr'', ['' '', ''/ip4'']), Some EOF)),
     te_enr = (\<lambda>b. Inr ''enr'')\<rparr>"

definition demo_spec :: target where
  "demo_spec = \<lparr>ExecutionURL = ''http:n/'', ExecutionP2P = '''', ExecutionDNS = '''', ConsensusURL = ''http:b'', ConsensusP2P = '' '',
     TClient = ''geth ''\<rparr>"

definition demo_target :: target where
  "demo_target = \<lparr>ExecutionURL = ''http:n'', ExecutionP2P = ''enode'', ExecutionDNS = '''', ConsensusURL = ''http:b'',
     ConsensusP2P = ''/ip4'', TClient = ''geth''\<rparr>"

lemma Discover_fills_missing_witness:
  "Discover demo_env demo_spec =
     (Inr demo_target, [(''POST'', ''http:n'', Some nodeInfo_request), (''GET'', ''http:b/eth/v1/node/identity'', None)]) \<and>
   Discover demo_env demo_target = (Inr demo_target, [])"
proof -
  have body: "json_body d 200 \<lparr>rbuf = [1], rend = EOF\<rparr> = (case d [1] of (Inl e, _) \<Rightarrow> Inl e | (Inr output, again) \<Rightarrow>
      if \<not> (case again of Some e \<Rightarrow> errors_is e EOF | None \<Rightarrow> False)
      then Inl (Errorf ''response must contain exactly one JSON value'' []) else Inr output)" for d :: "bytes \<Rightarrow> (goerr + 'a) \<times> goerr option"
    by (simp add: json_body_def read_limited_def maxResponseBytes_def)
  have t: "trimmed demo_spec = \<lparr>ExecutionURL = ''http:n'', ExecutionP2P = '''', ExecutionDNS = '''', ConsensusURL = ''http:b'',
      ConsensusP2P = '''', TClient = ''geth''\<rparr>" "trimmed demo_target = demo_target" by code_simp+
  have c: "target_checks demo_env (trimmed demo_spec) = None" "target_checks demo_env demo_target = None" by code_simp+
  have a: "execution_answer (''enode'', None) = Inr ''enode''" "consensus_answer (''enr'', ['' '', ''/ip4'']) = Inr ''/ip4''"
    "identity_url ''http:b'' = ''http:b/eth/v1/node/identity''" by code_simp+
  let ?s = "\<lparr>ExecutionURL = ''http:n'', ExecutionP2P = [], ExecutionDNS = [], ConsensusURL = ''http:b'', ConsensusP2P = [],
      TClient = ''geth''\<rparr>"
  have f: "fill_execution demo_env ?s = (Inr (?s\<lparr>ExecutionP2P := ''enode''\<rparr>), [(''POST'', ''http:n'', Some nodeInfo_request)])"
    "fill_consensus demo_env (?s\<lparr>ExecutionP2P := ''enode''\<rparr>) = (Inr demo_target, [(''GET'', ''http:b/eth/v1/node/identity'', None)])"
    by (simp_all add: fill_execution_def fill_consensus_def discoverExecutionP2P_def discoverConsensusP2P_def requestJSON_def
        demo_env_def demo_target_def body a)
  have run: "Discover demo_env demo_spec =
     (Inr demo_target, [(''POST'', ''http:n'', Some nodeInfo_request), (''GET'', ''http:b/eth/v1/node/identity'', None)])"
    using c(1) f by (simp add: Discover_def Let_def t(1))
  from Discover_fills_missing [OF run] show ?thesis using run t(2) c(2) by simp
qed

end
