(* ===== verification/Wire_Messages.thy ===== *)
theory Wire_Messages
  imports Rlp_Encode Eth_Conn
begin

text \<open>
  The message types of packages eth, snap and wit, one record per struct with the fields in wire order, the origin of a header
  request with its own coding (eth/getblockheaders.go), the encoders of package wit, and the request identifiers that tie a
  SNAP response to the request it answers. Encoding by reflection is go-ethereum's: the parameter \<open>E\<close> is its encoder on the
  items that a value consists of. A raw value is the item it encodes; a header, block, receipt or withdrawal of go-ethereum
  is a type parameter.
\<close>

section \<open>Structs\<close>

record origin =
  on_Hash :: "hash"
  on_Number :: "u64"

record get_block_headers =
  gh_Origin :: "origin"
  gh_Amount :: "u64"
  gh_Skip :: "u64"
  gh_Reverse :: "bool"

record get_block_headers_packet =
  ghp_RequestID :: "u64"
  ghp_Req :: "get_block_headers"

record get_block_bodies_packet =
  gbb_RequestID :: "u64"
  gbb_Hashes :: "hash list"

record get_receipts_packet =
  gr_RequestID :: "u64"
  gr_Hashes :: "hash list"

record get_receipts_packet70 =
  gr70_RequestID :: "u64"
  gr70_FirstBlockReceiptIndex :: "u64"
  gr70_Hashes :: "hash list"

record get_pooled_tx_packet =
  gpt_RequestID :: "u64"
  gpt_Hashes :: "hash list"

record eth_get_access_lists =
  ega_RequestID :: "u64"
  ega_Hashes :: "hash list"

record get_cells_packet =
  gc_RequestID :: "u64"
  gc_Hashes :: "hash list"
  gc_Mask :: "bytes"

record cells_packet =
  cp_RequestID :: "u64"
  cp_Hashes :: "hash list"
  cp_Cells :: "item list list"
  cp_Mask :: "bytes"

record eth_access_lists =
  eal_RequestID :: "u64"
  eal_List :: "item list"

record new_block_hash_entry =
  nb_Hash :: "hash"
  nb_Number :: "u64"

record new_pooled68 =
  np68_Types :: "bytes"
  np68_Sizes :: "u32 list"
  np68_Hashes :: "hash list"

record new_pooled72 =
  np72_Types :: "bytes"
  np72_Sizes :: "u32 list"
  np72_Hashes :: "hash list"
  np72_Cells :: "bytes"

record pooled_tx_packet =
  pt_RequestID :: "u64"
  pt_Txs :: "item list"

record 'h block_headers_packet =
  bh_RequestID :: "u64"
  bh_Headers :: "'h list"

record ('h, 'wd) block_body =
  bb_Txs :: "item list"
  bb_Uncles :: "'h list"
  bb_Withdrawals :: "'wd list option"

record ('h, 'wd) block_bodies_packet =
  bbp_RequestID :: "u64"
  bbp_Bodies :: "('h, 'wd) block_body list"

record 'r receipts_packet =
  rp_RequestID :: "u64"
  rp_Receipts :: "'r list"

record 'r receipts_packet70 =
  rp70_RequestID :: "u64"
  rp70_LastBlockIncomplete :: "bool"
  rp70_Receipts :: "'r list"

record 'b new_block_data =
  nbd_Block :: "'b"
  nbd_TD :: "nat option"

record wire_legacy_tx =
  wt_Nonce :: "u64"
  wt_GasPrice :: "nat option"
  wt_Gas :: "u64"
  wt_To :: "160 word option"
  wt_Value :: "nat option"
  wt_Data :: "bytes"
  wt_V :: "nat option"
  wt_R :: "nat option"
  wt_S :: "nat option"

record wire_header =
  wh_ParentHash :: "hash"
  wh_UncleHash :: "hash"
  wh_Coinbase :: "160 word"
  wh_Root :: "hash"
  wh_TxHash :: "hash"
  wh_ReceiptHash :: "hash"
  wh_Bloom :: "bytes"
  wh_Difficulty :: "nat option"
  wh_Number :: "nat option"
  wh_GasLimit :: "u64"
  wh_GasUsed :: "u64"
  wh_Time :: "u64"
  wh_Extra :: "bytes"
  wh_MixDigest :: "hash"
  wh_Nonce :: "bytes"
  wh_BaseFee :: "nat option"
  wh_WithdrawalsHash :: "hash option"

record wire_block_body =
  wb_Txs :: "item list"
  wb_Uncles :: "wire_header list"

record wire_withdrawal =
  ww_Index :: "u64"
  ww_ValidatorIndex :: "u64"
  ww_Address :: "160 word"
  ww_Amount :: "u64"

record wire_block_body_shanghai =
  wbs_Txs :: "item list"
  wbs_Uncles :: "wire_header list"
  wbs_Withdrawals :: "wire_withdrawal list"

record wire_block =
  wbl_Header :: "wire_header"
  wbl_Txs :: "item list"
  wbl_Uncles :: "wire_header list"

record wire_new_block_data =
  wnb_Block :: "wire_block"
  wnb_TD :: "nat option"

record wire_log =
  wl_Address :: "160 word"
  wl_Topics :: "hash list"
  wl_Data :: "bytes"

record wire_receipt =
  wr_Status :: "u64"
  wr_CumulativeGasUsed :: "u64"
  wr_Bloom :: "bytes"
  wr_Logs :: "wire_log list"

record wire_headers_packet =
  whp_RequestID :: "u64"
  whp_Headers :: "wire_header list"

record wire_bodies_packet =
  wbp_RequestID :: "u64"
  wbp_Bodies :: "wire_block_body list"

record wire_receipts_packet =
  wrp_RequestID :: "u64"
  wrp_Receipts :: "wire_receipt list list"

record account_data =
  ad_Hash :: "hash"
  ad_Body :: "item"

record account_range_packet =
  ar_ID :: "u64"
  ar_Accounts :: "account_data list"
  ar_Proof :: "bytes list"

record snap_access_lists =
  sal_ID :: "u64"
  sal_AccessLists :: "item list"

record byte_codes_packet =
  bc_ID :: "u64"
  bc_Codes :: "bytes list"

record get_account_range =
  gar_ID :: "u64"
  gar_Root :: "hash"
  gar_Origin :: "hash"
  gar_Limit :: "hash"
  gar_Bytes :: "u64"

record snap_get_access_lists =
  sga_ID :: "u64"
  sga_Hashes :: "hash list"
  sga_Bytes :: "u64"

record get_byte_codes =
  gby_ID :: "u64"
  gby_Hashes :: "hash list"
  gby_Bytes :: "u64"

record get_storage_ranges =
  gsr_ID :: "u64"
  gsr_Root :: "hash"
  gsr_Accounts :: "hash list"
  gsr_Origin :: "bytes"
  gsr_Limit :: "bytes"
  gsr_Bytes :: "u64"

record get_trie_nodes =
  gtn_ID :: "u64"
  gtn_Root :: "hash"
  gtn_Paths :: "bytes list list"
  gtn_Bytes :: "u64"

record storage_slot =
  ss_Hash :: "hash"
  ss_Data :: "bytes"

record storage_ranges_packet =
  sr_ID :: "u64"
  sr_Slots :: "storage_slot list list"
  sr_Proof :: "bytes list"

record trie_nodes_packet =
  tn_ID :: "u64"
  tn_Nodes :: "bytes list"

record page_request =
  pr_Hash :: "hash"
  pr_Page :: "u64"

record page_response =
  ps_Data :: "bytes"
  ps_Hash :: "hash"
  ps_Page :: "u64"
  ps_TotalPages :: "u64"

record 'h witness_payload =
  wp_Context :: "'h option"
  wp_Headers :: "'h list"
  wp_State :: "bytes list"

section \<open>Items\<close>

text \<open>Unsigned integers are minimal, zero is the empty string; a hash is its 32 bytes.\<close>

definition uint_item :: "u64 \<Rightarrow> item" where
  "uint_item n = Str (if n = 0 then [] else minimalBigEndian n)"

definition hash_item :: "hash \<Rightarrow> item" where "hash_item h = Str (be_bytes 32 h)"

definition bool_item :: "bool \<Rightarrow> item" where "bool_item b = uint_item (if b then 1 else 0)"

lemma uint_item_inj [simp]: "uint_item m = uint_item n \<longleftrightarrow> m = n"
proof
  assume "uint_item m = uint_item n"
  then have "(if m = 0 then [] else minimalBigEndian m) = (if n = 0 then [] else minimalBigEndian n)" by (simp add: uint_item_def)
  then show "m = n" by (metis be_val_minimalBigEndian minimalBigEndian_not_Nil)
qed simp

lemma hash_item_inj [simp]: "hash_item g = hash_item h \<longleftrightarrow> g = h"
proof
  assume "hash_item g = hash_item h"
  then have "be_val (be_bytes 32 g) = (be_val (be_bytes 32 h) :: hash)" by (simp add: hash_item_def)
  then show "g = h" by (simp add: be_val_be_bytes)
qed simp

section \<open>The origin of a header request\<close>

text \<open>What the stream says of the next value: its size (zero for a single byte), and its value as a hash or an integer.\<close>

record rlp_reader =
  k_size :: "bytes \<Rightarrow> goerr + nat"
  k_hash :: "bytes \<Rightarrow> goerr + hash"
  k_uint :: "bytes \<Rightarrow> goerr + u64"

definition origin_EncodeRLP :: "(item \<Rightarrow> bytes) \<Rightarrow> origin \<Rightarrow> goerr + bytes" where
  "origin_EncodeRLP E h =
     (if on_Hash h = 0 then Inr (E (uint_item (on_Number h)))
      else if on_Number h \<noteq> 0
      then Inl (Errorf ''both origin hash (%x) and number (%d) provided'' [VBytes (be_bytes 32 (on_Hash h)), VNat (unat (on_Number h))])
      else Inr (E (hash_item (on_Hash h))))"

text \<open>Decoding into an origin that may already hold something.\<close>

definition origin_DecodeRLP :: "rlp_reader \<Rightarrow> bytes \<Rightarrow> origin \<Rightarrow> goerr option \<times> origin" where
  "origin_DecodeRLP st b h =
     (case k_size st b of
        Inl e \<Rightarrow> (Some e, h)
      | Inr sz \<Rightarrow>
          if sz = 32 then
            let h = h\<lparr>on_Number := 0\<rparr>
            in (case k_hash st b of Inl e \<Rightarrow> (Some e, h) | Inr x \<Rightarrow> (None, h\<lparr>on_Hash := x\<rparr>))
          else if sz \<le> 8 then
            let h = h\<lparr>on_Hash := 0\<rparr>
            in (case k_uint st b of Inl e \<Rightarrow> (Some e, h) | Inr n \<Rightarrow> (None, h\<lparr>on_Number := n\<rparr>))
          else (Some (Errorf ''invalid input size %d for origin'' [VNat sz]), h))"

text \<open>What the RLP package documents of a stream on an encoded string.\<close>

definition reader_law :: "(item \<Rightarrow> bytes) \<Rightarrow> rlp_reader \<Rightarrow> bool" where
  "reader_law E st \<longleftrightarrow>
     (\<forall>b. length b \<le> 32 \<longrightarrow> k_size st (E (Str b)) = Inr (if length b = 1 \<and> b ! 0 < 0x80 then 0 else length b)) \<and>
     (\<forall>h. k_hash st (E (hash_item h)) = Inr h) \<and> (\<forall>n. k_uint st (E (uint_item n)) = Inr n)"

text \<open>
  The origin of a GetBlockHeaders request survives the wire: encoding fails exactly when both a hash and a number are given,
  and what it writes otherwise is decoded, over whatever the decoded value held before, to the same origin.
\<close>

theorem origin_round_trip:
  assumes "reader_law E st"
  shows "(isl (origin_EncodeRLP E h) \<longleftrightarrow> on_Hash h \<noteq> 0 \<and> on_Number h \<noteq> 0) \<and>
    (\<forall>b. origin_EncodeRLP E h = Inr b \<longrightarrow> origin_DecodeRLP st b old = (None, h))"
proof -
  have u: "k_size st (E (uint_item n)) = Inr s \<Longrightarrow> s \<le> 8" for n s
    using assms minimalBigEndian_length(1) [of n] by (auto simp: reader_law_def uint_item_def split: if_splits)
  have d: "origin_DecodeRLP st (E (uint_item n)) old = (None, \<lparr>on_Hash = 0, on_Number = n\<rparr>)" for n
  proof -
    have l: "length (if n = 0 then [] else minimalBigEndian n) \<le> 32" using minimalBigEndian_length(1) [of n] by simp
    obtain s where s: "k_size st (E (uint_item n)) = Inr s" using assms l by (auto simp: reader_law_def uint_item_def)
    have "k_uint st (E (uint_item n)) = Inr n" using assms by (simp add: reader_law_def)
    then show ?thesis using s u [OF s] by (cases old) (simp add: origin_DecodeRLP_def)
  qed
  have "k_size st (E (hash_item x)) = Inr 32" "k_hash st (E (hash_item x)) = Inr x" for x
    using assms by (simp_all add: reader_law_def hash_item_def)
  then have "origin_DecodeRLP st (E (hash_item x)) old = (None, \<lparr>on_Hash = x, on_Number = 0\<rparr>)" for x
    by (cases old) (simp add: origin_DecodeRLP_def)
  then show ?thesis using d by (cases h) (auto simp: origin_EncodeRLP_def)
qed

definition demo_reader :: rlp_reader where
  "demo_reader =
     \<lparr>k_size = (\<lambda>b. case rlp_split b of Some ((KString, c), _) \<Rightarrow> Inr (if length c = 1 \<and> c ! 0 < 0x80 then 0 else length c) | _ \<Rightarrow> Inl EOF),
      k_hash = (\<lambda>b. case rlp_split b of Some ((KString, c), _) \<Rightarrow> Inr (be_val c) | _ \<Rightarrow> Inl EOF),
      k_uint = (\<lambda>b. case rlp_split b of Some ((KString, c), _) \<Rightarrow> Inr (be_val c) | _ \<Rightarrow> Inl EOF)\<rparr>"

lemma demo_reader_law: "reader_law enc_item demo_reader"
proof -
  have s: "rlp_split (EncodeRLPBytes b) = Some ((KString, b), [])" if "length b \<le> 32" for b
    using split_EncodeRLPBytes [of b "[]"] that by simp
  have "length (minimalBigEndian n) \<le> 32" for n using minimalBigEndian_length(1) [of n] by simp
  moreover have "be_val ([] :: bytes) = (0 :: u64)" by (simp add: be_val_def)
  ultimately show ?thesis by (simp add: reader_law_def demo_reader_def s hash_item_def uint_item_def be_val_be_bytes)
qed

lemma origin_round_trip_witness:
  "origin_DecodeRLP demo_reader (enc_item (uint_item 300)) \<lparr>on_Hash = 7, on_Number = 9\<rparr> = (None, \<lparr>on_Hash = 0, on_Number = 300\<rparr>)"
  using origin_round_trip [OF demo_reader_law, where h = "\<lparr>on_Hash = 0, on_Number = 300\<rparr>" and old = "\<lparr>on_Hash = 7, on_Number = 9\<rparr>"]
  by (simp add: origin_EncodeRLP_def)

section \<open>SNAP requests and responses\<close>

datatype snap_request =
    GetAccountRange get_account_range
  | GetStorageRanges get_storage_ranges
  | GetByteCodes get_byte_codes
  | GetTrieNodes get_trie_nodes
  | GetBlockAccessLists snap_get_access_lists

datatype snap_response =
    AccountRange account_range_packet
  | StorageRanges storage_ranges_packet
  | ByteCodes byte_codes_packet
  | TrieNodes trie_nodes_packet
  | BlockAccessLists snap_access_lists

definition AccountRangePacket_SetRequestID :: "u64 \<Rightarrow> account_range_packet \<Rightarrow> account_range_packet" where
  "AccountRangePacket_SetRequestID rid p = p\<lparr>ar_ID := rid\<rparr>"

definition StorageRangesPacket_SetRequestID :: "u64 \<Rightarrow> storage_ranges_packet \<Rightarrow> storage_ranges_packet" where
  "StorageRangesPacket_SetRequestID rid p = p\<lparr>sr_ID := rid\<rparr>"

definition ByteCodesPacket_SetRequestID :: "u64 \<Rightarrow> byte_codes_packet \<Rightarrow> byte_codes_packet" where
  "ByteCodesPacket_SetRequestID rid p = p\<lparr>bc_ID := rid\<rparr>"

definition TrieNodesPacket_SetRequestID :: "u64 \<Rightarrow> trie_nodes_packet \<Rightarrow> trie_nodes_packet" where
  "TrieNodesPacket_SetRequestID rid p = p\<lparr>tn_ID := rid\<rparr>"

definition BlockAccessListsPacket_SetRequestID :: "u64 \<Rightarrow> snap_access_lists \<Rightarrow> snap_access_lists" where
  "BlockAccessListsPacket_SetRequestID rid p = p\<lparr>sal_ID := rid\<rparr>"

fun SetRequestID :: "u64 \<Rightarrow> snap_response \<Rightarrow> snap_response" where
  "SetRequestID rid (AccountRange p) = AccountRange (AccountRangePacket_SetRequestID rid p)"
| "SetRequestID rid (StorageRanges p) = StorageRanges (StorageRangesPacket_SetRequestID rid p)"
| "SetRequestID rid (ByteCodes p) = ByteCodes (ByteCodesPacket_SetRequestID rid p)"
| "SetRequestID rid (TrieNodes p) = TrieNodes (TrieNodesPacket_SetRequestID rid p)"
| "SetRequestID rid (BlockAccessLists p) = BlockAccessLists (BlockAccessListsPacket_SetRequestID rid p)"

text \<open>The messages as the RLP package sees them: the fields in order.\<close>

definition GetAccountRange_item :: "get_account_range \<Rightarrow> item" where
  "GetAccountRange_item p =
     Lst [uint_item (gar_ID p), hash_item (gar_Root p), hash_item (gar_Origin p), hash_item (gar_Limit p), uint_item (gar_Bytes p)]"

definition GetStorageRanges_item :: "get_storage_ranges \<Rightarrow> item" where
  "GetStorageRanges_item p =
     Lst [uint_item (gsr_ID p), hash_item (gsr_Root p), Lst (map hash_item (gsr_Accounts p)), Str (gsr_Origin p), Str (gsr_Limit p),
       uint_item (gsr_Bytes p)]"

definition GetByteCodes_item :: "get_byte_codes \<Rightarrow> item" where
  "GetByteCodes_item p = Lst [uint_item (gby_ID p), Lst (map hash_item (gby_Hashes p)), uint_item (gby_Bytes p)]"

definition GetTrieNodes_item :: "get_trie_nodes \<Rightarrow> item" where
  "GetTrieNodes_item p =
     Lst [uint_item (gtn_ID p), hash_item (gtn_Root p), Lst (map (\<lambda>path. Lst (map Str path)) (gtn_Paths p)), uint_item (gtn_Bytes p)]"

definition GetBlockAccessLists_item :: "snap_get_access_lists \<Rightarrow> item" where
  "GetBlockAccessLists_item p = Lst [uint_item (sga_ID p), Lst (map hash_item (sga_Hashes p)), uint_item (sga_Bytes p)]"

definition account_item :: "account_data \<Rightarrow> item" where
  "account_item a = Lst [hash_item (ad_Hash a), ad_Body a]"

definition AccountRange_item :: "account_range_packet \<Rightarrow> item" where
  "AccountRange_item p = Lst [uint_item (ar_ID p), Lst (map account_item (ar_Accounts p)), Lst (map Str (ar_Proof p))]"

definition slot_item :: "storage_slot \<Rightarrow> item" where
  "slot_item s = Lst [hash_item (ss_Hash s), Str (ss_Data s)]"

definition StorageRanges_item :: "storage_ranges_packet \<Rightarrow> item" where
  "StorageRanges_item p =
     Lst [uint_item (sr_ID p), Lst (map (\<lambda>slots. Lst (map slot_item slots)) (sr_Slots p)), Lst (map Str (sr_Proof p))]"

definition ByteCodes_item :: "byte_codes_packet \<Rightarrow> item" where
  "ByteCodes_item p = Lst [uint_item (bc_ID p), Lst (map Str (bc_Codes p))]"

definition TrieNodes_item :: "trie_nodes_packet \<Rightarrow> item" where
  "TrieNodes_item p = Lst [uint_item (tn_ID p), Lst (map Str (tn_Nodes p))]"

definition BlockAccessLists_item :: "snap_access_lists \<Rightarrow> item" where
  "BlockAccessLists_item p = Lst [uint_item (sal_ID p), Lst (sal_AccessLists p)]"

lemmas message_items =
  GetAccountRange_item_def GetStorageRanges_item_def GetByteCodes_item_def GetTrieNodes_item_def GetBlockAccessLists_item_def
  AccountRange_item_def StorageRanges_item_def ByteCodes_item_def TrieNodes_item_def BlockAccessLists_item_def

fun request_item :: "snap_request \<Rightarrow> item" where
  "request_item (GetAccountRange p) = GetAccountRange_item p"
| "request_item (GetStorageRanges p) = GetStorageRanges_item p"
| "request_item (GetByteCodes p) = GetByteCodes_item p"
| "request_item (GetTrieNodes p) = GetTrieNodes_item p"
| "request_item (GetBlockAccessLists p) = GetBlockAccessLists_item p"

fun response_item :: "snap_response \<Rightarrow> item" where
  "response_item (AccountRange p) = AccountRange_item p"
| "response_item (StorageRanges p) = StorageRanges_item p"
| "response_item (ByteCodes p) = ByteCodes_item p"
| "response_item (TrieNodes p) = TrieNodes_item p"
| "response_item (BlockAccessLists p) = BlockAccessLists_item p"

fun request_id :: "snap_request \<Rightarrow> u64" where
  "request_id (GetAccountRange p) = gar_ID p"
| "request_id (GetStorageRanges p) = gsr_ID p"
| "request_id (GetByteCodes p) = gby_ID p"
| "request_id (GetTrieNodes p) = gtn_ID p"
| "request_id (GetBlockAccessLists p) = sga_ID p"

text \<open>
  The protocol as its specification gives it, apart from the code's own constants and tables: the message codes of snap, the
  names of the requests, and which response answers which request.
\<close>

fun request_code :: "snap_request \<Rightarrow> u64" where
  "request_code (GetAccountRange p) = 0x00"
| "request_code (GetStorageRanges p) = 0x02"
| "request_code (GetByteCodes p) = 0x04"
| "request_code (GetTrieNodes p) = 0x06"
| "request_code (GetBlockAccessLists p) = 0x08"

fun response_code :: "snap_response \<Rightarrow> u64" where
  "response_code (AccountRange p) = 0x01"
| "response_code (StorageRanges p) = 0x03"
| "response_code (ByteCodes p) = 0x05"
| "response_code (TrieNodes p) = 0x07"
| "response_code (BlockAccessLists p) = 0x09"

fun answers :: "snap_response \<Rightarrow> snap_request \<Rightarrow> bool" where
  "answers (AccountRange _) (GetAccountRange _) = True"
| "answers (StorageRanges _) (GetStorageRanges _) = True"
| "answers (ByteCodes _) (GetByteCodes _) = True"
| "answers (TrieNodes _) (GetTrieNodes _) = True"
| "answers (BlockAccessLists _) (GetBlockAccessLists _) = True"
| "answers _ _ = False"

text \<open>A message with another identifier in front.\<close>

fun with_id :: "u64 \<Rightarrow> item \<Rightarrow> item" where
  "with_id rid (Lst (_ # xs)) = Lst (uint_item rid # xs)"
| "with_id rid x = x"

text \<open>How the two functions are used: ask which request solicits the response, then wait for it.\<close>

definition await_solicitation ::
    "eth_rlp \<Rightarrow> snap_response \<Rightarrow> int \<Rightarrow> way option list \<Rightarrow> ('w, 'o, 'k) conn \<times> wire \<Rightarrow> (goerr + u64 \<times> bytes) option" where
  "await_solicitation rl p timeout sched cw =
     (case snap_RequestForResponse (response_code p) of
        Inl e \<Rightarrow> Some (Inl e)
      | Inr (code, label) \<Rightarrow> fst (snap_WaitForRequestID rl code label timeout sched cw))"

text \<open>What the RLP package documents of splitting an encoded list that fits the address space and the integer at its front.\<close>

definition split_law :: "(item \<Rightarrow> bytes) \<Rightarrow> eth_rlp \<Rightarrow> bool" where
  "split_law E rl \<longleftrightarrow>
     (\<forall>xs. rlp_fits (Lst xs) \<longrightarrow> split_list rl (E (Lst xs)) = Inr (concat (map E xs), [])) \<and>
     (\<forall>n rest. split_uint64 rl (E (uint_item n) @ rest) = Inr (n, rest))"

lemma DecodeRequestID_front: "split_law E rl \<Longrightarrow> rlp_fits (Lst (uint_item n # xs)) \<Longrightarrow> DecodeRequestID rl (E (Lst (uint_item n # xs))) = Inr n"
  by (simp add: split_law_def DecodeRequestID_def del: rlp_fits.simps)

lemma request_id_read: "split_law E rl \<Longrightarrow> rlp_fits (request_item q) \<Longrightarrow> DecodeRequestID rl (E (request_item q)) = Inr (request_id q)"
  by (cases q) (simp_all add: DecodeRequestID_front message_items del: rlp_fits.simps)

lemma SetRequestID_item: "response_item (SetRequestID rid p) = with_id rid (response_item p)"
  by (cases p) (simp_all add: message_items AccountRangePacket_SetRequestID_def StorageRangesPacket_SetRequestID_def
      ByteCodesPacket_SetRequestID_def TrieNodesPacket_SetRequestID_def BlockAccessListsPacket_SetRequestID_def)

lemma response_id_read:
  "split_law E rl \<Longrightarrow> rlp_fits (with_id rid (response_item p)) \<Longrightarrow> DecodeRequestID rl (E (with_id rid (response_item p))) = Inr rid"
  by (cases p) (simp_all add: DecodeRequestID_front message_items del: rlp_fits.simps)

lemma solicitation_code:
  "answers p q \<Longrightarrow> \<exists>label. snap_RequestForResponse (response_code p) = Inr (request_code q, label)"
  by (cases p; cases q) (simp_all add: snap_RequestForResponse_def snap_codes)

text \<open>
  C18: A solicited SNAP response carries the identifier of its request. To send the response \<open>p\<close>, a test asks which request
  solicits it and waits for that one. On a live connection, whatever comes before, it then gets the first request that the
  peer sends of the kind that \<open>p\<close> answers according to the protocol, under the code that the protocol gives it, together with
  the request's own identifier; and the response with that identifier set is \<open>p\<close> with only its identifier replaced, and is
  read with the identifier of the request by the code that reads identifiers.
\<close>

theorem solicited_response_carries_id:
  assumes "split_law E rl" "answers p q" "\<not> c_dead c" "c_msgs c = []"
    and "w_in w = before @ (c_snapOffset c + request_code q, E (request_item q)) # rest"
    and "\<forall>(code, d) \<in> set before. code \<noteq> DiscMsg \<and> code \<noteq> c_snapOffset c + request_code q" "3 < c_snapOffset c + request_code q"
    and "\<And>k. w_res w k = None" "length before < n"
    and "rlp_fits (request_item q)" "rlp_fits (with_id (request_id q) (response_item p))"
  shows "await_solicitation rl p timeout (alternate n) (c, w) = Some (Inr (request_id q, E (request_item q))) \<and>
    response_item (SetRequestID (request_id q) p) = with_id (request_id q) (response_item p) \<and>
    DecodeRequestID rl (E (response_item (SetRequestID (request_id q) p))) = Inr (request_id q)"
proof -
  obtain label where "snap_RequestForResponse (response_code p) = Inr (request_code q, label)"
    using solicitation_code [OF assms(2)] by blast
  moreover have "fst (WaitForMsg rl (c_snapOffset c + request_code q) (alternate n) (c, w)) = Some (Inr (E (request_item q)))"
    by (rule WaitForMsg_alternate [OF assms(3-9)])
  ultimately show ?thesis using request_id_read [OF assms(1,10)] response_id_read [OF assms(1,11)]
    by (auto simp: await_solicitation_def snap_WaitForRequestID_def request_id_of_def SetRequestID_item Let_def split: prod.splits)
qed

section \<open>WIT messages\<close>

definition page_item :: "page_request \<Rightarrow> item" where "page_item p = Lst [hash_item (pr_Hash p), uint_item (pr_Page p)]"

definition page_response_item :: "page_response \<Rightarrow> item" where
  "page_response_item p = Lst [Str (ps_Data p), hash_item (ps_Hash p), uint_item (ps_Page p), uint_item (ps_TotalPages p)]"

definition EncodeGetWitness :: "(item \<Rightarrow> bytes) \<Rightarrow> u64 \<Rightarrow> page_request list \<Rightarrow> bytes" where
  "EncodeGetWitness E requestID pages = E (Lst [uint_item requestID, Lst [Lst (map page_item pages)]])"

definition EncodeWitness :: "(item \<Rightarrow> bytes) \<Rightarrow> u64 \<Rightarrow> page_response list \<Rightarrow> bytes" where
  "EncodeWitness E requestID responses = E (Lst [uint_item requestID, Lst (map page_response_item responses)])"

definition EncodeNewWitnessHashes :: "(item \<Rightarrow> bytes) \<Rightarrow> hash list \<Rightarrow> u64 list \<Rightarrow> bytes" where
  "EncodeNewWitnessHashes E hashes numbers = E (Lst [Lst (map hash_item hashes), Lst (map uint_item numbers)])"

text \<open>\<open>header\<close> encodes a header of go-ethereum, a nil one included, or fails.\<close>

fun all_ok :: "(goerr + 'a) list \<Rightarrow> goerr + 'a list" where
  "all_ok [] = Inr []"
| "all_ok (r # rs) = err_bind r (\<lambda>x. err_bind (all_ok rs) (\<lambda>xs. Inr (x # xs)))"

definition EncodeNewWitness ::
    "(item \<Rightarrow> bytes) \<Rightarrow> ('h option \<Rightarrow> goerr + item) \<Rightarrow> 'h option \<Rightarrow> 'h option list \<Rightarrow> bytes list \<Rightarrow> goerr + bytes" where
  "EncodeNewWitness E header context headers state =
     err_bind (header context) (\<lambda>c. err_bind (all_ok (map header headers)) (\<lambda>hs.
       Inr (E (Lst [Lst [c, Lst hs, Lst (map Str state)]]))))"

lemma page_item_inj: "inj page_item"
proof (rule injI)
  fix p q :: page_request
  assume "page_item p = page_item q"
  then show "p = q" by (cases p; cases q) (simp add: page_item_def)
qed

text \<open>With an encoder that never gives two items the same bytes, a GetWitness payload determines its request.\<close>

lemma EncodeGetWitness_inj:
  "inj E \<Longrightarrow> EncodeGetWitness E i ps = EncodeGetWitness E j qs \<longleftrightarrow> i = j \<and> ps = qs"
  by (auto simp: EncodeGetWitness_def inj_eq inj_map_eq_map [OF page_item_inj])

lemma wit_request_id: "split_law E rl \<Longrightarrow> rlp_fits (Lst [uint_item i, Lst [Lst (map page_item ps)]]) \<Longrightarrow> DecodeRequestID rl (EncodeGetWitness E i ps) = Inr i"
  by (simp add: EncodeGetWitness_def DecodeRequestID_front del: rlp_fits.simps)

definition demo_rl :: eth_rlp where
  "demo_rl = demo_codec\<lparr>split_list := (\<lambda>b. case rlp_split b of Some ((KList, c), r) \<Rightarrow> Inr (c, r) | _ \<Rightarrow> Inl EOF),
     split_uint64 := (\<lambda>b. case rlp_split b of Some ((KString, c), r) \<Rightarrow> Inr (be_val c, r) | _ \<Rightarrow> Inl EOF)\<rparr>"

lemma demo_rl_law: "split_law enc_item demo_rl"
proof -
  have "rlp_split (EncodeRLPList (map enc_item xs)) = Some ((KList, concat (map enc_item xs)), [])" if "rlp_fits (Lst xs)" for xs
    using split_EncodeRLPList [of "map enc_item xs" "[]"] that by simp
  moreover have "rlp_split (EncodeRLPBytes (if n = 0 then [] else minimalBigEndian n) @ rest) =
      Some ((KString, if n = 0 then [] else minimalBigEndian n), rest)" for n rest
    using minimalBigEndian_length(1) [of n] by (intro split_EncodeRLPBytes) simp
  moreover have "be_val (if n = 0 then [] else minimalBigEndian n) = n" for n by (simp add: be_val_def) (simp add: be_val_def [symmetric])
  ultimately show ?thesis by (simp add: split_law_def demo_rl_def uint_item_def)
qed

definition demo_snap :: "(unit, unit, unit) conn" where
  "demo_snap = \<lparr>c_ctx = None, c_ethOffset = 16, c_snapOffset = 34, c_ethVer = 70, c_negotiated = [], c_params = demo_peer,
     c_dead = False, c_msgs = [], c_discReason = '''', c_readErr = None\<rparr>"

lemma solicited_response_carries_id_witness:
  "await_solicitation demo_rl (ByteCodes \<lparr>bc_ID = 0, bc_Codes = [[1]]\<rparr>) 0 (alternate 2)
     (demo_snap, demo_wire\<lparr>w_in := [(PingMsg, []), (38, enc_item (request_item (GetByteCodes \<lparr>gby_ID = 5, gby_Hashes = [], gby_Bytes = 9\<rparr>)))]\<rparr>) =
   Some (Inr (5, enc_item (request_item (GetByteCodes \<lparr>gby_ID = 5, gby_Hashes = [], gby_Bytes = 9\<rparr>)))) \<and>
   DecodeRequestID demo_rl (enc_item (response_item (SetRequestID 5 (ByteCodes \<lparr>bc_ID = 0, bc_Codes = [[1]]\<rparr>)))) = Inr 5"
proof -
  let ?p = "ByteCodes \<lparr>bc_ID = 0, bc_Codes = [[1]]\<rparr>" and ?q = "GetByteCodes \<lparr>gby_ID = 5, gby_Hashes = [], gby_Bytes = 9\<rparr>"
  have f: "rlp_fits (request_item ?q)" "rlp_fits (with_id 5 (response_item ?p))"
    using minimalBigEndian_length(1) [of 5] minimalBigEndian_length(1) [of 9]
    by (simp_all add: message_items uint_item_def EncodeRLPBytes_def EncodeRLPList_def Let_def)
  show ?thesis
    using solicited_response_carries_id [OF demo_rl_law, of ?p ?q demo_snap
        "demo_wire\<lparr>w_in := [(PingMsg, []), (38, enc_item (request_item ?q))]\<rparr>" "[(PingMsg, [])]" "[]" 2 0] f
    by (auto simp: demo_snap_def demo_wire_def msg_codes
        simp del: request_item.simps response_item.simps SetRequestID.simps with_id.simps enc_item.simps)
qed

end
