(* ===== verification/Protocol_Ids.thy ===== *)
theory Protocol_Ids
  imports Beacon_Status
begin

text \<open>
  Package reqresp: the identifiers of the consensus protocols, one constant per file; those of the Status protocol are in
  theory \<open>Beacon_Status\<close>.
\<close>

section \<open>Identifiers\<close>

definition BlobSidecarsByRangeV1 :: string where
  "BlobSidecarsByRangeV1 = ProtocolPrefix @ ''/blob_sidecars_by_range/1/'' @ Encoding"
definition BlobSidecarsByRootV1 :: string where
  "BlobSidecarsByRootV1 = ProtocolPrefix @ ''/blob_sidecars_by_root/1/'' @ Encoding"
definition BlocksByRangeV1 :: string where "BlocksByRangeV1 = ProtocolPrefix @ ''/beacon_blocks_by_range/1/'' @ Encoding"
definition BlocksByRangeV2 :: string where "BlocksByRangeV2 = ProtocolPrefix @ ''/beacon_blocks_by_range/2/'' @ Encoding"
definition BlocksByRootV1 :: string where "BlocksByRootV1 = ProtocolPrefix @ ''/beacon_blocks_by_root/1/'' @ Encoding"
definition BlocksByRootV2 :: string where "BlocksByRootV2 = ProtocolPrefix @ ''/beacon_blocks_by_root/2/'' @ Encoding"
definition DataColumnsByRangeV1 :: string where
  "DataColumnsByRangeV1 = ProtocolPrefix @ ''/data_column_sidecars_by_range/1/'' @ Encoding"
definition DataColumnsByRootV1 :: string where
  "DataColumnsByRootV1 = ProtocolPrefix @ ''/data_column_sidecars_by_root/1/'' @ Encoding"
definition ExecutionProofsByRangeV1 :: string where
  "ExecutionProofsByRangeV1 = ProtocolPrefix @ ''/execution_proofs_by_range/1/'' @ Encoding"
definition ExecutionProofsByRootV1 :: string where
  "ExecutionProofsByRootV1 = ProtocolPrefix @ ''/execution_proofs_by_root/1/'' @ Encoding"
definition ExecutionProofStatusV1 :: string where
  "ExecutionProofStatusV1 = ProtocolPrefix @ ''/execution_proof_status/1/'' @ Encoding"
definition ExecutionPayloadEnvelopesByRangeV1 :: string where
  "ExecutionPayloadEnvelopesByRangeV1 = ProtocolPrefix @ ''/execution_payload_envelopes_by_range/1/'' @ Encoding"
definition ExecutionPayloadEnvelopesByRootV1 :: string where
  "ExecutionPayloadEnvelopesByRootV1 = ProtocolPrefix @ ''/execution_payload_envelopes_by_root/1/'' @ Encoding"
definition GoodbyeV1 :: string where "GoodbyeV1 = ProtocolPrefix @ ''/goodbye/1/'' @ Encoding"
definition LightClientBootstrapV1 :: string where
  "LightClientBootstrapV1 = ProtocolPrefix @ ''/light_client_bootstrap/1/'' @ Encoding"
definition LightClientFinalityUpdateV1 :: string where
  "LightClientFinalityUpdateV1 = ProtocolPrefix @ ''/light_client_finality_update/1/'' @ Encoding"
definition LightClientOptimisticUpdateV1 :: string where
  "LightClientOptimisticUpdateV1 = ProtocolPrefix @ ''/light_client_optimistic_update/1/'' @ Encoding"
definition LightClientUpdatesByRangeV1 :: string where
  "LightClientUpdatesByRangeV1 = ProtocolPrefix @ ''/light_client_updates_by_range/1/'' @ Encoding"
definition MetadataV1 :: string where "MetadataV1 = ProtocolPrefix @ ''/metadata/1/'' @ Encoding"
definition MetadataV2 :: string where "MetadataV2 = ProtocolPrefix @ ''/metadata/2/'' @ Encoding"
definition MetadataV3 :: string where "MetadataV3 = ProtocolPrefix @ ''/metadata/3/'' @ Encoding"
definition PingV1 :: string where "PingV1 = ProtocolPrefix @ ''/ping/1/'' @ Encoding"

text \<open>Each with the message name and version it stands for, and whether a response to it has several chunks.\<close>

definition protocols :: "(string \<times> string \<times> int \<times> bool) list" where
  "protocols = [
     (BlobSidecarsByRangeV1, ''blob_sidecars_by_range'', 1, True),
     (BlobSidecarsByRootV1, ''blob_sidecars_by_root'', 1, True),
     (BlocksByRangeV1, ''beacon_blocks_by_range'', 1, True),
     (BlocksByRangeV2, ''beacon_blocks_by_range'', 2, True),
     (BlocksByRootV1, ''beacon_blocks_by_root'', 1, True),
     (BlocksByRootV2, ''beacon_blocks_by_root'', 2, True),
     (DataColumnsByRangeV1, ''data_column_sidecars_by_range'', 1, True),
     (DataColumnsByRootV1, ''data_column_sidecars_by_root'', 1, True),
     (ExecutionProofsByRangeV1, ''execution_proofs_by_range'', 1, True),
     (ExecutionProofsByRootV1, ''execution_proofs_by_root'', 1, True),
     (ExecutionProofStatusV1, ''execution_proof_status'', 1, False),
     (ExecutionPayloadEnvelopesByRangeV1, ''execution_payload_envelopes_by_range'', 1, True),
     (ExecutionPayloadEnvelopesByRootV1, ''execution_payload_envelopes_by_root'', 1, True),
     (GoodbyeV1, ''goodbye'', 1, False),
     (LightClientBootstrapV1, ''light_client_bootstrap'', 1, False),
     (LightClientFinalityUpdateV1, ''light_client_finality_update'', 1, False),
     (LightClientOptimisticUpdateV1, ''light_client_optimistic_update'', 1, False),
     (LightClientUpdatesByRangeV1, ''light_client_updates_by_range'', 1, True),
     (MetadataV1, ''metadata'', 1, False),
     (MetadataV2, ''metadata'', 2, False),
     (MetadataV3, ''metadata'', 3, False),
     (PingV1, ''ping'', 1, False),
     (StatusV1, ''status'', 1, False),
     (StatusV2, ''status'', 2, False)]"

text \<open>
  The constants are what \<open>ProtocolID\<close> builds from message and version, they are pairwise distinct, and the classification that
  decides how many chunks a request reads takes exactly the protocols by range and by root for those with several.
\<close>

theorem protocol_ids_canonical:
  "list_all (\<lambda>(pid, message, version, several). req_ProtocolID message version = Inr pid \<and>
     multiResponseProtocol pid = several) protocols \<and> distinct (map fst protocols)"
  by code_simp

end
