(* ===== verification/Format.thy ===== *)
theory Format
  imports Go_Strings
begin

text \<open>
  Package utils, format.go: the terminal colours and the byte counts. The only floating point of the repository is here: an
  integer becomes a \<open>float64\<close>, is divided by a power of two, which is exact, and printed with one decimal, rounded to even.
\<close>

section \<open>Terminal styles\<close>

definition Bold :: string where "Bold = CHR 0x1B # ''[1m''"
definition Red :: string where "Red = CHR 0x1B # ''[0;31m''"
definition Green :: string where "Green = CHR 0x1B # ''[0;32m''"
definition Yellow :: string where "Yellow = CHR 0x1B # ''[0;33m''"
definition Gray :: string where "Gray = CHR 0x1B # ''[0;90m''"
definition Reset_style :: string where "Reset_style = CHR 0x1B # ''[0m''"

section \<open>Rounding\<close>

text \<open>The integer nearest to \<open>a / b\<close>, the even one of two.\<close>

definition round_even :: "nat \<Rightarrow> nat \<Rightarrow> nat" where
  "round_even a b =
     (let q = a div b; r = a mod b
      in if 2 * r < b then q else if b < 2 * r then q + 1 else if even q then q else q + 1)"

text \<open>The distance of the \<open>float64\<close> values around an integer, and the value that the conversion gives: 53 bits are kept.\<close>

fun ulp :: "nat \<Rightarrow> nat" where
  "ulp n = (if n < 2 ^ 53 then 1 else 2 * ulp (n div 2))"

declare ulp.simps [simp del]

definition float64 :: "nat \<Rightarrow> nat" where "float64 n = round_even n (ulp n) * ulp n"

lemma round_even_error: "0 < b \<Longrightarrow> 2 * \<bar>int a - int (round_even a b * b)\<bar> \<le> int b"
proof -
  assume b: "0 < b"
  have "int a = int (a div b) * int b + int (a mod b)" by (metis div_mult_mod_eq of_nat_add of_nat_mult)
  moreover have "int (a mod b) < int b" using b by simp
  ultimately show ?thesis
    by (auto simp: round_even_def Let_def algebra_simps)
qed

lemma round_even_exact [simp]: "0 < b \<Longrightarrow> round_even (q * b) b = q"
  by (simp add: round_even_def)

lemma round_even_mono: "0 < b \<Longrightarrow> m \<le> n \<Longrightarrow> round_even m b \<le> round_even n b"
proof -
  assume b: "0 < b" and le: "m \<le> n"
  have "m div b \<le> n div b" using le by (rule div_le_mono)
  moreover have "m div b = n div b \<Longrightarrow> m mod b \<le> n mod b"
    using le by (metis div_mult_mod_eq nat_add_left_cancel_le)
  ultimately show ?thesis by (cases "m div b = n div b") (auto simp: round_even_def Let_def)
qed

lemma float64_exact: "n < 2 ^ 53 \<Longrightarrow> float64 n = n"
proof -
  assume "n < 2 ^ 53"
  then have "ulp n = 1" by (subst ulp.simps) simp
  then show ?thesis using round_even_exact [of 1 n] by (simp add: float64_def)
qed

section \<open>Byte counts\<close>

definition show_tenths :: "nat \<Rightarrow> string" where
  "show_tenths t = show_nat (t div 10) @ ''.'' @ show_nat (t mod 10)"

definition in_unit :: "nat \<Rightarrow> nat \<Rightarrow> nat" where "in_unit n unit = round_even (10 * float64 n) unit"

definition HumanBytes :: "int \<Rightarrow> string" where
  "HumanBytes n =
     (if 1024 * 1024 * 1024 \<le> n then show_tenths (in_unit (nat n) (1024 * 1024 * 1024)) @ '' GiB''
      else if 1024 * 1024 \<le> n then show_tenths (in_unit (nat n) (1024 * 1024)) @ '' MiB''
      else if 1024 \<le> n then show_tenths (in_unit (nat n) 1024) @ '' KiB''
      else show_int n @ '' B'')"

definition byte_unit :: "int \<Rightarrow> nat \<times> string" where
  "byte_unit n =
     (if 2 ^ 30 \<le> n then (2 ^ 30, '' GiB'') else if 2 ^ 20 \<le> n then (2 ^ 20, '' MiB'') else (2 ^ 10, '' KiB''))"

text \<open>
  A count of a kibibyte or more, up to where \<open>float64\<close> is exact, is printed as the nearest multiple of a tenth of its unit: off by
  at most a twentieth of it, at least one unit and, below a gibibyte, at most 1024.0 of them.
\<close>

theorem HumanBytes_nearest_tenth:
  assumes "1024 \<le> n" "n < 2 ^ 53"
  shows "\<exists>t. HumanBytes n = show_tenths t @ snd (byte_unit n) \<and>
    2 * \<bar>10 * n - int (t * fst (byte_unit n))\<bar> \<le> int (fst (byte_unit n)) \<and> 10 \<le> t \<and> (n < 2 ^ 30 \<longrightarrow> t \<le> 10240)"
proof -
  let ?u = "fst (byte_unit n)"
  have u: "0 < ?u" "int ?u \<le> n" "n < 2 ^ 30 \<longrightarrow> n < 1024 * int ?u" using assms by (auto simp: byte_unit_def)
  have f: "float64 (nat n) = nat n" using assms by (intro float64_exact) simp
  define t where "t = round_even (10 * nat n) ?u"
  have "HumanBytes n = show_tenths t @ snd (byte_unit n)"
    using assms(1) by (simp add: HumanBytes_def byte_unit_def in_unit_def f t_def)
  moreover have "2 * \<bar>10 * n - int (t * ?u)\<bar> \<le> int ?u"
    using round_even_error [OF u(1), of "10 * nat n"] assms(1) by (simp add: t_def)
  moreover have "10 \<le> t"
    using round_even_mono [OF u(1), of "10 * ?u" "10 * nat n"] u by (simp add: t_def le_nat_iff)
  moreover have "n < 2 ^ 30 \<longrightarrow> t \<le> 10240"
    using round_even_mono [OF u(1), of "10 * nat n" "10240 * ?u"] u by (auto simp: t_def nat_le_iff)
  ultimately show ?thesis by blast
qed

lemma HumanBytes_nearest_tenth_witness:
  "\<exists>t. HumanBytes 1536 = show_tenths t @ '' KiB'' \<and> 2 * \<bar>10 * 1536 - int (t * 1024)\<bar> \<le> 1024 \<and> 10 \<le> t"
  using HumanBytes_nearest_tenth [of 1536] by (auto simp: byte_unit_def)

text \<open>Just below a mebibyte the count is still printed in kibibytes.\<close>

lemma HumanBytes_boundary: "HumanBytes 1048575 = show_tenths 10240 @ '' KiB''" "HumanBytes 1048576 = show_tenths 10 @ '' MiB''"
  "HumanBytes 1023 = ''1023 B''"
proof -
  have "float64 1048575 = 1048575" "float64 1048576 = 1048576" by (simp_all add: float64_exact)
  then show "HumanBytes 1048575 = show_tenths 10240 @ '' KiB''" "HumanBytes 1048576 = show_tenths 10 @ '' MiB''"
    by (simp_all add: HumanBytes_def in_unit_def round_even_def)
  have "show_int 1023 = ''1023''" by code_simp
  then show "HumanBytes 1023 = ''1023 B''" by (simp add: HumanBytes_def)
qed

end
