(* ===== verification/Spec2Isabelle.thy ===== *)
theory Spec2Isabelle
  imports Mplex_Dial Rlp_Encode Ssz Chain_Cache Honest_Dial Rlpx_Peer Wit Params_Service Fork_Rules Discv5_Msgs Discv5_Peer
    Dnsdisc Gossip Reqresp_Inbound Target_Discover Wire_Messages Protocol_Ids Format
begin

text \<open>
  A verification development of raidan-sdk, the Go library that protocol test cases for Ethereum clients are
  written with. A test case runs under \<open>Run\<close> (run.go) with a scope in its context (session), opens a connection to the
  execution client (rpc for the chain parameters, rlpx, eth, snap, wit) or to the consensus client (reqresp, mplex,
  gossipsub), sends requests, valid and malformed, and classifies what comes back.

  The theories.
  \<^item> \<open>Base\<close>: bytes, machine integers, Go errors with the chain that \<open>errors.Is\<close> walks, functions that return a value or
    an error. \<open>Go_Strings\<close>: the functions of strings, strconv and fmt in use. \<open>Format\<close>: utils/format.go. \<open>Go_IO\<close>:
    readers, writers that may write short, the three write loops of the repository (locale \<open>exact_writer\<close>). \<open>Codec\<close>: fixed-width fields.
  \<^item> \<open>Session\<close>: package session, with its scopes and the identities of utils/keys.go. \<open>Identity\<close>: what an identity shows to
    peers over both transports, deterministic keys, output. \<open>Sdk_Run\<close>: run.go, result, target/test.go. \<open>Target_Discover\<close>:
    target.go and the beacon identity: a target is completed by asking for exactly what is missing.
  \<^item> \<open>Varint\<close>, \<open>Framing\<close>, \<open>Reqresp_Request\<close>, \<open>Reqresp_Retry\<close>, \<open>Reqresp_Inbound\<close>: package reqresp, framing.go,
    request.go, the retry rules of conn.go and inbound.go: chunks and limits, one exchange from both ends, at most one
    send in up to three attempts, the streams of an accepting session under every interleaving. \<open>Consensus_Session\<close>:
    conn.go, endpoints.go, raw_stream.go: addresses, and a session that never leaks its host. \<open>Ssz\<close>: the request encoders
    and gossipsub/execution_proof.go. \<open>Beacon_Status\<close>: status.go. \<open>Protocol_Ids\<close>: the identifiers of all protocols.
  \<^item> \<open>Mplex\<close>, \<open>Mplex_Dial\<close>: package mplex, frames with their cap and the dial. \<open>Gossip_Rpc\<close>, \<open>Gossip\<close>: package gossipsub,
    raw RPCs and the publisher with its topics. \<open>Rlp_Encode\<close>: wire.go.
  \<^item> \<open>Eth_Caps\<close>: eth/caps.go. \<open>Fork_Id\<close>, \<open>Chain_Cache\<close>, \<open>Rpc_Call\<close>, \<open>Params_Service\<close>: package rpc, fork identifiers and
    their validation (against the rules of EIP-2124 in \<open>Fork_Rules\<close>), the cache of chain parameters (locale \<open>ttl_cache\<close>), JSON-RPC calls and the fetches through them, and
    concurrent callers that share fetches.
  \<^item> \<open>Rlpx_Wire\<close>: a framed connection as its environment's choices and what the code did to it; Disconnect reasons; the
    locale \<open>wait_loop\<close> that all the keepalive loops of rlpx and eth are instances of. \<open>Rlpx_Dial\<close>: the RLPx dials and the
    locale \<open>socket_owner\<close>. \<open>Cipher\<close>, \<open>Rlpx_Frame\<close>: counter mode, the handshake and the frames of rlpx/conn.go and auth.go.
    \<open>Rlpx_Peer\<close>: the recipient of both, written from the specification.
  \<^item> \<open>Eth_Status\<close>, \<open>Eth_Wait\<close>, \<open>Eth_Dial\<close>, \<open>Eth_Conn\<close>: package eth, status.go, wait.go, request.go, hello.go, ready.go and
    conn.go: Status validation, waits, dials with their sockets, and the ready connection with its background reader as
    a step relation. \<open>Eth_Session\<close>: what a successful dial has established, and that nothing the peer sends after its
    Status is lost between the dial and the caller. \<open>Honest_Dial\<close>: a dial to an honest peer succeeds. \<open>Wit\<close>:
    package wit. \<open>Wire_Messages\<close>: the message structs of eth, snap and wit, and which request solicits which response.
  \<^item> \<open>Udp\<close>, \<open>Discv4\<close>: sockets, datagrams and the discv4 endpoint proof. \<open>Enr\<close>: node records. \<open>Discv5\<close>, \<open>Discv5_Wire\<close>,
    \<open>Discv5_Msgs\<close>: discv5 packets, handshake and sessions, their reading at the other end, typed messages. \<open>Discv5_Peer\<close>:
    the recipient of a handshake, written from the specification.
    \<open>Dnsdisc\<close>: the records and the branch walk of DNS node lists.

  Conventions. A Go function returning a value and an error is a function to \<open>goerr + value\<close>; one that can panic returns
  an option, \<open>None\<close> for the panic. Machine integers are words; lengths and counts that cannot reach the machine bounds are
  natural numbers. Loops over streams recurse on the input still to come, with a measure, so every loop is proved to end
  on every finite input. State is passed explicitly; a mutex makes an operation one step. Third-party code (RLP
  reflection, snappy, libp2p, JSON, HTTP, elliptic curves, hashes) is a parameter, usually a record of functions, and
  the laws a property needs of it are named hypotheses.

  Specifications. Where a property says that the code meets a published rule (EIP-2124, the RLPx and discv5
  specifications, the snap message table), the rule is written down on its own and shares no definition with the model of
  the code: \<open>Fork_Rules\<close>, \<open>Rlpx_Peer\<close>, \<open>Discv5_Peer\<close>, the WHOAREYOU packet of \<open>Discv5_Wire\<close> and \<open>answers\<close> of \<open>Wire_Messages\<close>.

  Fuel and bounds. No definition takes fuel: loops over input end with the input, loops with a bound in the code (request
  attempts, response chunks, key attempts, the depth of a DNS walk) are measured by it, and waits are schedules, lists
  of who has the next turn, so a property under every schedule holds at every moment of a run.

  Not modelled: narration (\<open>session.Step\<close> calls inside the dials), the type aliases and re-exports of sdk.go, and what third-party packages do inside their calls. Contexts are their deadline, their
  scope and, where it matters, the moment and the error of their end.
\<close>

end
